(* ===== verification/Prelude.thy ===== *)
theory Prelude
  imports Main "HOL-Library.Word" "HOL-Library.Multiset" "HOL-Library.While_Combinator"
begin

text \<open>
  What every component of the development shares: the names of the machine types of
  the Rust sources, saturating arithmetic, an event-driven machine with its run
  function and the locale of its invariants, and the generic facts on lists, sets
  and options the component proofs rest on.

  The protocol of \<^verbatim>\<open>src/src/proto/\<close> is written as a state machine without I/O: an event goes
  in, the state changes, and a list of output events comes out.  A step is therefore
  a function from state and event to \<open>(state \<times> output list) option\<close>, where \<open>None\<close>
  is a Rust panic.
\<close>

section \<open>Names of the machine types\<close>

type_synonym u8 = "8 word"
type_synonym u16 = "16 word"
type_synonym u32 = "32 word"
type_synonym u64 = "64 word"
type_synonym bytes = "u8 list"

text \<open>
  \<^verbatim>\<open>Instant\<close> and \<^verbatim>\<open>Duration\<close> are counts of milliseconds from an arbitrary origin.  No
  arithmetic of the sources comes near the range of the Rust types, so they are
  natural numbers; subtraction of an instant is written out where it is used.
\<close>

type_synonym instant = nat
type_synonym duration = nat

section \<open>Theorem collections\<close>

named_theorems wf_intros \<open>operations that keep a well-formedness invariant\<close>

section \<open>Saturating arithmetic on words\<close>

definition saturating_sub :: "'a::len word \<Rightarrow> 'a word \<Rightarrow> 'a word" where
  "saturating_sub a b = (if a < b then 0 else a - b)"

lemma unat_saturating_sub: "unat (saturating_sub a b) = unat a - unat b"
proof (cases "a < b")
  case True
  then show ?thesis by (simp add: saturating_sub_def word_less_nat_alt)
next
  case False
  then have "b \<le> a" by simp
  then show ?thesis by (simp add: saturating_sub_def unat_sub)
qed

lemma unat_saturating_sub_one_less:
  fixes a :: "'a::len word"
  assumes "a \<noteq> 0"
  shows "unat (saturating_sub a 1) < unat a"
proof -
  from assms have "0 < unat a" by (simp add: unat_gt_0)
  then show ?thesis by (simp add: unat_saturating_sub)
qed

lemma u16_max: "(- 1 :: u16) = 65535"
  by simp

definition saturating_add :: "'a::len word \<Rightarrow> 'a word \<Rightarrow> 'a word" where
  "saturating_add a b = (if a + b < a then - 1 else a + b)"

text \<open>A word below the sign bit is unchanged when it is read as signed (\<^verbatim>\<open>as i64\<close>, \<^verbatim>\<open>as i32\<close>).\<close>

lemma sint_below_sign_bit:
  fixes x :: "'a::len word"
  assumes "unat x < 2 ^ (LENGTH('a) - 1)"
  shows "sint x = int (unat x)"
proof -
  from assms have "int (unat x) < int (2 ^ (LENGTH('a) - 1))" by (simp only: of_nat_less_iff)
  then have u: "uint x < 2 ^ (LENGTH('a) - 1)" by simp
  have "sint x = signed_take_bit (LENGTH('a) - 1) (uint x)" by (simp add: sint_uint)
  also have "\<dots> = uint x"
  proof (rule signed_take_bit_int_eq_self)
    show "- (2 ^ (LENGTH('a) - 1)) \<le> uint x" by (rule order_trans [OF _ uint_ge_0]) simp
    show "uint x < 2 ^ (LENGTH('a) - 1)" by (rule u)
  qed
  finally show ?thesis by simp
qed

lemma sint_small:
  fixes x :: u64
  assumes "unat x < 2 ^ 63"
  shows "sint x = int (unat x)"
  using sint_below_sign_bit [of x] assms by simp

lemma unat_of_nat_small: "n < 2 ^ LENGTH('a) \<Longrightarrow> unat (of_nat n :: 'a::len word) = n"
  by (simp add: unsigned_of_nat take_bit_nat_eq_self)

section \<open>Results of fallible calls\<close>

text \<open>
  A Rust function that returns \<^verbatim>\<open>Result\<close> and may also panic.  \<open>and_then\<close> is the \<^verbatim>\<open>?\<close>
  operator, \<open>map_err\<close> is \<^verbatim>\<open>map_err(..)?\<close> on the result of a call outside the model and
  \<open>expect_ok\<close> is \<^verbatim>\<open>expect\<close>.
\<close>

datatype ('e, 'a) outcome = Ok (the_ok: 'a) | Err 'e | Panic

fun and_then :: "('e, 'a) outcome \<Rightarrow> ('a \<Rightarrow> ('e, 'b) outcome) \<Rightarrow> ('e, 'b) outcome" where
  "and_then (Ok a) f = f a"
| "and_then (Err e) f = Err e"
| "and_then Panic f = Panic"

fun map_err :: "('x \<Rightarrow> 'e) \<Rightarrow> 'x + 'a \<Rightarrow> ('e, 'a) outcome" where
  "map_err h (Inl e) = Err (h e)"
| "map_err h (Inr a) = Ok a"

fun expect_ok :: "'x + 'a \<Rightarrow> ('e, 'a) outcome" where
  "expect_ok (Inl e) = Panic"
| "expect_ok (Inr a) = Ok a"

fun is_ok :: "('e, 'a) outcome \<Rightarrow> bool" where
  "is_ok (Ok a) \<longleftrightarrow> True"
| "is_ok _ \<longleftrightarrow> False"

definition ensure :: "bool \<Rightarrow> 'e \<Rightarrow> ('e, unit) outcome" where
  "ensure b e = (if b then Ok () else Err e)"

lemma and_then_eq_Ok [simp]: "and_then m f = Ok b \<longleftrightarrow> (\<exists>a. m = Ok a \<and> f a = Ok b)"
  by (cases m) auto

lemma map_err_eq_Ok [simp]: "map_err h r = Ok a \<longleftrightarrow> r = Inr a"
  by (cases r) auto

lemma expect_ok_eq_Ok [simp]: "expect_ok r = Ok a \<longleftrightarrow> r = Inr a"
  by (cases r) auto

lemma ensure_eq_Ok [simp]: "ensure b e = Ok u \<longleftrightarrow> b"
  by (simp add: ensure_def)

lemma and_then_ensure [simp]: "and_then (ensure b e) f = (if b then f () else Err e)"
  by (simp add: ensure_def)

lemma and_then_eq_Panic:
  "and_then m f = Panic \<longleftrightarrow> m = Panic \<or> (\<exists>a. m = Ok a \<and> f a = Panic)"
  by (cases m) auto

lemma map_err_not_Panic [simp]: "map_err h r \<noteq> Panic"
  by (cases r) auto

lemma is_ok_iff: "is_ok m \<longleftrightarrow> (\<exists>a. m = Ok a)"
  by (cases m) auto

section \<open>Machines and their runs\<close>

text \<open>
  A run feeds a list of events to a machine and concatenates what comes out; it stops
  with \<open>None\<close> as soon as one step panics.
\<close>

fun run_machine :: "('s \<Rightarrow> 'e \<Rightarrow> ('s \<times> 'o list) option) \<Rightarrow> 's \<Rightarrow> 'e list \<Rightarrow> ('s \<times> 'o list) option" where
  "run_machine step s [] = Some (s, [])"
| "run_machine step s (e # es) =
     (case step s e of
        None \<Rightarrow> None
      | Some (s', out) \<Rightarrow>
          (case run_machine step s' es of
             None \<Rightarrow> None
           | Some (s'', out') \<Rightarrow> Some (s'', out @ out')))"

text \<open>
  The contract of a machine with an invariant: from a state that satisfies it, no step
  on an admitted event panics, and the step ends in a state that satisfies it again.
\<close>

locale safe_machine =
  fixes step :: "'s \<Rightarrow> 'e \<Rightarrow> ('s \<times> 'o list) option"
    and inv :: "'s \<Rightarrow> bool"
    and admitted :: "'e \<Rightarrow> bool"
  assumes step_safe: "inv s \<Longrightarrow> admitted e \<Longrightarrow> \<exists>s' out. step s e = Some (s', out) \<and> inv s'"
begin

lemma run_safe:
  "inv s \<Longrightarrow> list_all admitted es \<Longrightarrow> \<exists>s' out. run_machine step s es = Some (s', out) \<and> inv s'"
proof (induction es arbitrary: s)
  case Nil
  then show ?case by simp
next
  case (Cons e es)
  from step_safe [OF Cons.prems(1), of e] Cons.prems(2) obtain s1 o1 where
    1: "step s e = Some (s1, o1)" "inv s1" by auto
  from Cons.IH [OF 1(2)] Cons.prems(2) obtain s2 o2 where
    2: "run_machine step s1 es = Some (s2, o2)" "inv s2" by auto
  from 1 2 show ?case by simp
qed

end

text \<open>
  A machine whose steps all satisfy a relation between the state before, the outputs
  and the state after that composes along a run.
\<close>

locale tracked_machine = safe_machine +
  fixes rel :: "'s \<Rightarrow> 'o list \<Rightarrow> 's \<Rightarrow> bool"
  assumes rel_refl: "rel s [] s"
    and rel_trans: "rel s o1 s1 \<Longrightarrow> rel s1 o2 s2 \<Longrightarrow> rel s (o1 @ o2) s2"
    and step_rel: "inv s \<Longrightarrow> admitted e \<Longrightarrow> step s e = Some (s', out) \<Longrightarrow> rel s out s'"
begin

lemma run_rel:
  "inv s \<Longrightarrow> list_all admitted es \<Longrightarrow> run_machine step s es = Some (s', out) \<Longrightarrow> rel s out s'"
proof (induction es arbitrary: s s' out)
  case Nil
  then show ?case by (simp add: rel_refl)
next
  case (Cons e es)
  from step_safe [OF Cons.prems(1), of e] Cons.prems(2) obtain s1 o1 where
    1: "step s e = Some (s1, o1)" "inv s1" by auto
  from Cons.prems(3) 1(1) obtain o2 where
    2: "run_machine step s1 es = Some (s', o2)" "out = o1 @ o2"
    by (auto split: option.splits)
  have "rel s o1 s1" using step_rel [OF Cons.prems(1) _ 1(1)] Cons.prems(2) by simp
  moreover have "rel s1 o2 s'" using Cons.IH [OF 1(2) _ 2(1)] Cons.prems(2) by simp
  ultimately show ?case using rel_trans 2(2) by blast
qed

end

section \<open>Iteration order of hash collections\<close>

text \<open>
  The order in which a \<^verbatim>\<open>HashSet\<close> or the keys of a \<^verbatim>\<open>HashMap\<close> are iterated is unspecified: it
  is a parameter that lists every element once.
\<close>

definition order_ok :: "('a set \<Rightarrow> 'a list) \<Rightarrow> bool" where
  "order_ok order \<longleftrightarrow> (\<forall>T. finite T \<longrightarrow> set (order T) = T \<and> distinct (order T))"

section \<open>Generic facts\<close>

lemma mset_remove1_facts:
  assumes "mset ys = mset xs - {#x#}" and "x \<in> set xs"
  shows "length ys = length xs - 1"
    and "distinct xs \<Longrightarrow> distinct ys"
    and "distinct xs \<Longrightarrow> set ys = set xs - {x}"
proof -
  from assms(1) have m: "mset ys = mset (remove1 x xs)" by simp
  show "length ys = length xs - 1"
    using mset_eq_length [OF m] assms(2) by (simp add: length_remove1)
  show "distinct xs \<Longrightarrow> distinct ys"
    using mset_eq_imp_distinct_iff [OF m] by simp
  show "distinct xs \<Longrightarrow> set ys = set xs - {x}"
    using mset_eq_setD [OF m] by simp
qed

lemma fold_invariant_set:
  "P c \<Longrightarrow> (\<And>x c. x \<in> set xs \<Longrightarrow> P c \<Longrightarrow> P (f x c)) \<Longrightarrow> P (fold f xs c)"
  by (induction xs arbitrary: c) simp_all

lemma fold_outputs_grow:
  assumes "\<And>x c. set (snd c) \<subseteq> set (snd (f x c))"
  shows "set (snd c) \<subseteq> set (snd (fold f xs c))"
proof (induction xs arbitrary: c)
  case (Cons x xs)
  show ?case using subset_trans [OF assms Cons.IH] by simp
qed simp

lemma fold_outputs_emit:
  assumes grow: "\<And>x c. set (snd c) \<subseteq> set (snd (f x c))"
    and emit: "\<And>x c. e x \<in> set (snd (f x c))"
  shows "x \<in> set xs \<Longrightarrow> e x \<in> set (snd (fold f xs c))"
proof (induction xs arbitrary: c)
  case (Cons y xs)
  show ?case
  proof (cases "x = y")
    case True
    with emit [of y c] fold_outputs_grow [of f "f y c" xs, OF grow] show ?thesis by auto
  next
    case False
    with Cons.prems have "x \<in> set xs" by simp
    from Cons.IH [OF this] show ?thesis by simp
  qed
qed simp

lemma length_filter_neq:
  "distinct xs \<Longrightarrow> length xs \<le> Suc (length (filter (\<lambda>x. x \<noteq> a) xs))"
proof (induction xs)
  case (Cons x xs)
  show ?case
  proof (cases "x = a")
    case True
    with Cons.prems have "filter (\<lambda>x. x \<noteq> a) xs = xs" by (auto simp: filter_id_conv)
    with True show ?thesis by simp
  next
    case False
    with Cons show ?thesis by simp
  qed
qed simp

end
