(* ===== verification/External.thy ===== *)
theory External
  imports Prelude
begin

text \<open>
  The third-party crates the gossip protocol calls: \<^verbatim>\<open>rand\<close> (random indices, choices and
  shuffles, drawn from a generator that is threaded through the calls) and \<^verbatim>\<open>indexmap\<close>
  (the mutators of an insertion-ordered hash set).  Their code is not part of the
  repository, so they are a record of functions that every definition using them takes
  as an argument; \<open>ext_ok\<close> collects what their documentation promises and the protocol
  relies on.  An \<^verbatim>\<open>indexmap::IndexSet\<close> is the sequence of its distinct elements in
  iteration order.
\<close>

record ('a, 'r) ext =
  random_range :: "nat \<Rightarrow> 'r \<Rightarrow> nat \<times> 'r"
  choose_from :: "'a list \<Rightarrow> 'r \<Rightarrow> 'a option \<times> 'r"
  shuffle :: "'a list \<Rightarrow> 'r \<Rightarrow> 'a list \<times> 'r"
  from_rng :: "'r \<Rightarrow> 'r \<times> 'r"
  ix_insert :: "'a list \<Rightarrow> 'a \<Rightarrow> bool \<times> 'a list"
  swap_remove_full :: "'a list \<Rightarrow> 'a \<Rightarrow> (nat \<times> 'a) option \<times> 'a list"
  swap_remove_index :: "'a list \<Rightarrow> nat \<Rightarrow> 'a option \<times> 'a list"
  shift_remove_index :: "'a list \<Rightarrow> nat \<Rightarrow> 'a option \<times> 'a list"

section \<open>What the documentation of the crates promises\<close>

text \<open>\<^verbatim>\<open>Rng::random_range(0..n)\<close> returns a value of the half-open, non-empty range.\<close>

definition random_range_ok :: "('a, 'r) ext \<Rightarrow> bool" where
  "random_range_ok X \<longleftrightarrow> (\<forall>n r. 0 < n \<longrightarrow> fst (random_range X n r) < n)"

text \<open>\<^verbatim>\<open>IteratorRandom::choose\<close> returns an element of the iterator, or \<^verbatim>\<open>None\<close> if it is empty.\<close>

definition choose_ok :: "('a, 'r) ext \<Rightarrow> bool" where
  "choose_ok X \<longleftrightarrow>
     (\<forall>xs r. (case fst (choose_from X xs r) of None \<Rightarrow> xs = [] | Some x \<Rightarrow> x \<in> set xs))"

text \<open>\<^verbatim>\<open>SliceRandom::shuffle\<close> permutes the slice.\<close>

definition shuffle_ok :: "('a, 'r) ext \<Rightarrow> bool" where
  "shuffle_ok X \<longleftrightarrow> (\<forall>xs r. mset (fst (shuffle X xs r)) = mset xs)"

text \<open>
  \<^verbatim>\<open>IndexSet::insert\<close> appends a new element and returns true, and changes nothing and
  returns false for an element that is present.
\<close>

definition ix_insert_ok :: "('a, 'r) ext \<Rightarrow> bool" where
  "ix_insert_ok X \<longleftrightarrow>
     (\<forall>xs x. ix_insert X xs x = (if x \<in> set xs then (False, xs) else (True, xs @ [x])))"

text \<open>
  The removals return the removed element and keep every other one (the order of the
  rest is theirs to choose); on an index out of range or an absent element they return
  \<^verbatim>\<open>None\<close> and change nothing.
\<close>

definition remove_at_ok :: "('a list \<Rightarrow> nat \<Rightarrow> 'a option \<times> 'a list) \<Rightarrow> bool" where
  "remove_at_ok f \<longleftrightarrow>
     (\<forall>xs i. if i < length xs
             then fst (f xs i) = Some (xs ! i) \<and> mset (snd (f xs i)) = mset xs - {#xs ! i#}
             else f xs i = (None, xs))"

definition swap_remove_full_ok :: "('a, 'r) ext \<Rightarrow> bool" where
  "swap_remove_full_ok X \<longleftrightarrow>
     (\<forall>xs x. if x \<in> set xs
             then (\<exists>i. fst (swap_remove_full X xs x) = Some (i, x)) \<and>
                  mset (snd (swap_remove_full X xs x)) = mset xs - {#x#}
             else swap_remove_full X xs x = (None, xs))"

definition ext_ok :: "('a, 'r) ext \<Rightarrow> bool" where
  "ext_ok X \<longleftrightarrow>
     random_range_ok X \<and> choose_ok X \<and> shuffle_ok X \<and> ix_insert_ok X \<and>
     remove_at_ok (swap_remove_index X) \<and> remove_at_ok (shift_remove_index X) \<and>
     swap_remove_full_ok X"

section \<open>The promises as rules\<close>

lemma ext_random_range: "ext_ok X \<Longrightarrow> 0 < n \<Longrightarrow> fst (random_range X n r) < n"
  by (simp add: ext_ok_def random_range_ok_def)

lemma ext_choose_None: "ext_ok X \<Longrightarrow> fst (choose_from X xs r) = None \<Longrightarrow> xs = []"
  unfolding ext_ok_def choose_ok_def by (metis (mono_tags, lifting) option.simps(4))

lemma ext_choose_Some: "ext_ok X \<Longrightarrow> fst (choose_from X xs r) = Some x \<Longrightarrow> x \<in> set xs"
  unfolding ext_ok_def choose_ok_def by (metis (mono_tags, lifting) option.simps(5))

lemma ext_shuffle: "ext_ok X \<Longrightarrow> mset (fst (shuffle X xs r)) = mset xs"
  by (simp add: ext_ok_def shuffle_ok_def)

lemma ext_insert:
  "ext_ok X \<Longrightarrow> ix_insert X xs x = (if x \<in> set xs then (False, xs) else (True, xs @ [x]))"
  by (simp add: ext_ok_def ix_insert_ok_def)

lemma remove_at_in:
  assumes "remove_at_ok f" and "i < length xs"
  shows "fst (f xs i) = Some (xs ! i)"
    and "mset (snd (f xs i)) = mset xs - {#xs ! i#}"
  using assms by (auto simp: remove_at_ok_def)

lemma remove_at_out: "remove_at_ok f \<Longrightarrow> \<not> i < length xs \<Longrightarrow> f xs i = (None, xs)"
  by (auto simp: remove_at_ok_def)

lemma ext_swap_remove_index: "ext_ok X \<Longrightarrow> remove_at_ok (swap_remove_index X)"
  and ext_shift_remove_index: "ext_ok X \<Longrightarrow> remove_at_ok (shift_remove_index X)"
  by (simp_all add: ext_ok_def)

lemma ext_swap_remove_full_in:
  assumes "ext_ok X" and "x \<in> set xs"
  shows "\<exists>i. fst (swap_remove_full X xs x) = Some (i, x)"
    and "mset (snd (swap_remove_full X xs x)) = mset xs - {#x#}"
  using assms by (auto simp: ext_ok_def swap_remove_full_ok_def)

lemma ext_swap_remove_full_out:
  "ext_ok X \<Longrightarrow> x \<notin> set xs \<Longrightarrow> swap_remove_full X xs x = (None, xs)"
  by (auto simp: ext_ok_def swap_remove_full_ok_def)

section \<open>An executable instance\<close>

text \<open>
  A concrete instance that satisfies the promises, used to evaluate the model on
  concrete inputs: the generator is a counter, a choice is the element at the counter
  modulo the length, a shuffle reverses every other time, and the removals are the documented swap with
  the last element and the documented shift.
\<close>

definition demo_swap_remove :: "'a list \<Rightarrow> nat \<Rightarrow> 'a option \<times> 'a list" where
  "demo_swap_remove xs i =
     (if i < length xs then (Some (xs ! i), butlast (xs[i := last xs])) else (None, xs))"

definition demo_shift_remove :: "'a list \<Rightarrow> nat \<Rightarrow> 'a option \<times> 'a list" where
  "demo_shift_remove xs i =
     (if i < length xs then (Some (xs ! i), take i xs @ drop (Suc i) xs) else (None, xs))"

fun index_of :: "'a list \<Rightarrow> 'a \<Rightarrow> nat option" where
  "index_of [] x = None"
| "index_of (y # ys) x = (if y = x then Some 0 else map_option Suc (index_of ys x))"

definition demo_swap_remove_full :: "'a list \<Rightarrow> 'a \<Rightarrow> (nat \<times> 'a) option \<times> 'a list" where
  "demo_swap_remove_full xs x =
     (case index_of xs x of
        None \<Rightarrow> (None, xs)
      | Some i \<Rightarrow> (Some (i, x), snd (demo_swap_remove xs i)))"

definition demo_ext :: "('a, nat) ext" where
  "demo_ext =
     \<lparr> random_range = (\<lambda>n r. (r mod n, Suc r)),
       choose_from = (\<lambda>xs r. (if xs = [] then None else Some (xs ! (r mod length xs)), Suc r)),
       shuffle = (\<lambda>xs r. (if even r then xs else rev xs, Suc r)),
       from_rng = (\<lambda>r. (r, Suc r)),
       ix_insert = (\<lambda>xs x. if x \<in> set xs then (False, xs) else (True, xs @ [x])),
       swap_remove_full = demo_swap_remove_full,
       swap_remove_index = demo_swap_remove,
       shift_remove_index = demo_shift_remove \<rparr>"

lemma index_of_None: "index_of xs x = None \<longleftrightarrow> x \<notin> set xs"
  by (induction xs) auto

lemma index_of_Some: "index_of xs x = Some i \<Longrightarrow> i < length xs \<and> xs ! i = x"
  by (induction xs arbitrary: i) (auto split: if_splits)

lemma mset_nth_split: "i < length xs \<Longrightarrow> mset (take i xs @ drop (Suc i) xs) = mset xs - {#xs ! i#}"
  by (metis add_diff_cancel_right' add_mset_remove_trivial id_take_nth_drop mset.simps(2)
      mset_append union_mset_add_mset_right)

lemma demo_swap_remove_ok: "remove_at_ok demo_swap_remove"
proof -
  have "mset (butlast (xs[i := last xs])) = mset xs - {#xs ! i#}" if "i < length xs" for xs :: "'a list" and i
  proof -
    from that have ne: "xs \<noteq> []" by auto
    let ?ys = "xs[i := last xs]"
    have l: "last ?ys = last xs"
      using that ne by (auto simp: last_list_update)
    have "?ys = butlast ?ys @ [last xs]"
      using l ne by (metis append_butlast_last_id length_greater_0_conv length_list_update)
    then have "mset (butlast ?ys) = mset ?ys - {#last xs#}"
      by (metis add_diff_cancel_right' mset_append mset_single_iff_right union_commute mset.simps(2) mset_zero_iff)
    also have "mset ?ys = add_mset (last xs) (mset xs - {#xs ! i#})"
      using that by (simp add: mset_update)
    finally show ?thesis by simp
  qed
  then show ?thesis by (simp add: remove_at_ok_def demo_swap_remove_def)
qed

lemma demo_shift_remove_ok: "remove_at_ok demo_shift_remove"
  using mset_nth_split by (auto simp: remove_at_ok_def demo_shift_remove_def)

lemma demo_swap_remove_full_ok:
  "if x \<in> set xs
   then (\<exists>i. fst (demo_swap_remove_full xs x) = Some (i, x)) \<and>
        mset (snd (demo_swap_remove_full xs x)) = mset xs - {#x#}
   else demo_swap_remove_full xs x = (None, xs)"
proof (cases "index_of xs x")
  case None
  then have "x \<notin> set xs" by (simp add: index_of_None)
  with None show ?thesis by (simp add: demo_swap_remove_full_def)
next
  case (Some i)
  have i: "i < length xs" "xs ! i = x" using index_of_Some [OF Some] by auto
  with Some have "x \<in> set xs" by auto
  with Some i remove_at_in(2) [OF demo_swap_remove_ok i(1)] show ?thesis
    by (simp add: demo_swap_remove_full_def)
qed

lemma demo_ext_ok: "ext_ok demo_ext"
  unfolding ext_ok_def
proof (intro conjI)
  show "random_range_ok demo_ext" by (simp add: random_range_ok_def demo_ext_def)
  show "choose_ok demo_ext" by (simp add: choose_ok_def demo_ext_def)
  show "shuffle_ok demo_ext" by (simp add: shuffle_ok_def demo_ext_def)
  show "ix_insert_ok demo_ext" by (simp add: ix_insert_ok_def demo_ext_def)
  show "remove_at_ok (swap_remove_index demo_ext)"
    by (simp add: demo_ext_def demo_swap_remove_ok)
  show "remove_at_ok (shift_remove_index demo_ext)"
    by (simp add: demo_ext_def demo_shift_remove_ok)
  show "swap_remove_full_ok demo_ext"
    unfolding swap_remove_full_ok_def demo_ext_def ext.select_convs
    by (intro allI demo_swap_remove_full_ok)
qed

end
