(* ===== verification/Proto_Util.thy ===== *)
theory Proto_Util
  imports External
begin

text \<open>
  \<^verbatim>\<open>src/src/proto/util.rs\<close>: the wrapper around \<^verbatim>\<open>indexmap::IndexSet\<close> with random selection, the
  \<^verbatim>\<open>TimerMap\<close> (a heap of timed items) and the \<^verbatim>\<open>TimeBoundCache\<close> (a hash map whose entries
  expire).  A random operation takes the generator and returns it advanced.

  The lemmas give each \<^verbatim>\<open>IndexSet\<close> operation on the level of sets, show that a \<^verbatim>\<open>TimerMap\<close>
  delivers its items in time order, and that expiring a \<^verbatim>\<open>TimeBoundCache\<close> removes exactly
  the entries that are due and counts them.
\<close>

section \<open>IndexSet\<close>

definition ixs_insert :: "('a, 'r) ext \<Rightarrow> 'a \<Rightarrow> 'a list \<Rightarrow> bool \<times> 'a list" where
  "ixs_insert X value s = ix_insert X s value"

definition pick_random_index :: "('a, 'r) ext \<Rightarrow> 'a list \<Rightarrow> 'r \<Rightarrow> nat option \<times> 'r" where
  "pick_random_index X s r =
     (if s = [] then (None, r)
      else let (i, r') = random_range X (length s) r in (Some i, r'))"

definition remove_random :: "('a, 'r) ext \<Rightarrow> 'a list \<Rightarrow> 'r \<Rightarrow> 'a option \<times> 'a list \<times> 'r" where
  "remove_random X s r =
     (case pick_random_index X s r of
        (None, r') \<Rightarrow> (None, s, r')
      | (Some idx, r') \<Rightarrow> let (v, s') = shift_remove_index X s idx in (v, s', r'))"

definition get_index :: "'a list \<Rightarrow> nat \<Rightarrow> 'a option" where
  "get_index s i = (if i < length s then Some (s ! i) else None)"

definition pick_random :: "('a, 'r) ext \<Rightarrow> 'a list \<Rightarrow> 'r \<Rightarrow> 'a option \<times> 'r" where
  "pick_random X s r =
     (case pick_random_index X s r of
        (None, r') \<Rightarrow> (None, r')
      | (Some idx, r') \<Rightarrow> (get_index s idx, r'))"

definition pick_random_without :: "('a, 'r) ext \<Rightarrow> 'a list \<Rightarrow> 'a set \<Rightarrow> 'r \<Rightarrow> 'a option \<times> 'r" where
  "pick_random_without X s without r = choose_from X (filter (\<lambda>x. x \<notin> without) s) r"

definition ixs_remove :: "('a, 'r) ext \<Rightarrow> 'a list \<Rightarrow> 'a \<Rightarrow> 'a option \<times> 'a list" where
  "ixs_remove X s value =
     (let (res, s') = swap_remove_full X s value in (map_option snd res, s'))"

definition remove_index :: "('a, 'r) ext \<Rightarrow> 'a list \<Rightarrow> nat \<Rightarrow> 'a option \<times> 'a list" where
  "remove_index X s index = swap_remove_index X s index"

definition iter_without :: "'a list \<Rightarrow> 'a \<Rightarrow> 'a list" where
  "iter_without s value = filter (\<lambda>x. x \<noteq> value) s"

definition shuffled :: "('a, 'r) ext \<Rightarrow> 'a list \<Rightarrow> 'r \<Rightarrow> 'a list \<times> 'r" where
  "shuffled X s r = shuffle X s r"

definition shuffled_and_capped :: "('a, 'r) ext \<Rightarrow> 'a list \<Rightarrow> nat \<Rightarrow> 'r \<Rightarrow> 'a list \<times> 'r" where
  "shuffled_and_capped X s len r = (let (items, r') = shuffled X s r in (take len items, r'))"

definition shuffled_without :: "('a, 'r) ext \<Rightarrow> 'a list \<Rightarrow> 'a set \<Rightarrow> 'r \<Rightarrow> 'a list \<times> 'r" where
  "shuffled_without X s without r = shuffle X (filter (\<lambda>x. x \<notin> without) s) r"

definition shuffled_without_and_capped ::
  "('a, 'r) ext \<Rightarrow> 'a list \<Rightarrow> 'a set \<Rightarrow> nat \<Rightarrow> 'r \<Rightarrow> 'a list \<times> 'r" where
  "shuffled_without_and_capped X s without len r =
     (let (items, r') = shuffled_without X s without r in (take len items, r'))"

subsection \<open>The operations on the level of sets\<close>

lemma ixs_insert_eq:
  "ext_ok X \<Longrightarrow> ixs_insert X x s = (if x \<in> set s then (False, s) else (True, s @ [x]))"
  by (simp add: ixs_insert_def ext_insert)

lemma pick_random_index_range:
  "ext_ok X \<Longrightarrow> pick_random_index X s r = (Some i, r') \<Longrightarrow> i < length s"
  using ext_random_range [of X "length s" r]
  by (auto simp: pick_random_index_def split: if_splits prod.splits)

lemma pick_random_index_None: "pick_random_index X s r = (None, r') \<Longrightarrow> s = []"
  by (auto simp: pick_random_index_def split: if_splits prod.splits)

lemma remove_at_facts:
  assumes "remove_at_ok f" "i < length s" "f s i = (v, s')"
  shows "v = Some (s ! i)" and "length s' = length s - 1"
    and "distinct s \<Longrightarrow> distinct s'" and "distinct s \<Longrightarrow> set s' = set s - {s ! i}"
proof -
  have m: "mset s' = mset s - {#s ! i#}" and v: "v = Some (s ! i)"
    using remove_at_in [OF assms(1,2)] assms(3) by simp_all
  show "v = Some (s ! i)" by (rule v)
  show "length s' = length s - 1" and "distinct s \<Longrightarrow> distinct s'"
    and "distinct s \<Longrightarrow> set s' = set s - {s ! i}"
    using mset_remove1_facts [OF m] assms(2) by simp_all
qed

lemma remove_random_facts:
  assumes "ext_ok X" "remove_random X s r = (v, s', r')" "distinct s"
  shows "length s' = length s - 1" and "distinct s'" and "set s' \<subseteq> set s"
proof -
  have "length s' = length s - 1 \<and> distinct s' \<and> set s' \<subseteq> set s"
  proof (cases "pick_random_index X s r")
    case (Pair i r1)
    show ?thesis
    proof (cases i)
      case None
      with Pair assms pick_random_index_None [of X s r r1] show ?thesis
        by (auto simp: remove_random_def)
    next
      case (Some idx)
      then have idx: "idx < length s"
        using pick_random_index_range [OF assms(1)] Pair by simp
      have f: "shift_remove_index X s idx = (v, s')"
        using assms(2) Pair Some by (auto simp: remove_random_def split: prod.splits)
      show ?thesis
        using remove_at_facts [OF ext_shift_remove_index [OF assms(1)] idx f] assms(3) by auto
    qed
  qed
  then show "length s' = length s - 1" and "distinct s'" and "set s' \<subseteq> set s" by simp_all
qed

lemma pick_random_Some: "ext_ok X \<Longrightarrow> pick_random X s r = (Some x, r') \<Longrightarrow> x \<in> set s"
  by (auto simp: pick_random_def get_index_def split: option.splits prod.splits if_splits)

lemma pick_random_without_Some:
  "ext_ok X \<Longrightarrow> pick_random_without X s w r = (Some x, r') \<Longrightarrow> x \<in> set s \<and> x \<notin> w"
  using ext_choose_Some [of X "filter (\<lambda>x. x \<notin> w) s" r x]
  by (simp add: pick_random_without_def)

lemma pick_random_without_None:
  "ext_ok X \<Longrightarrow> pick_random_without X s w r = (None, r') \<Longrightarrow> set s \<subseteq> w"
  using ext_choose_None [of X "filter (\<lambda>x. x \<notin> w) s" r]
  by (auto simp: pick_random_without_def filter_empty_conv)

lemma ixs_remove_facts:
  assumes "ext_ok X" "ixs_remove X s x = (v, s')" "distinct s"
  shows "set s' = set s - {x}" and "distinct s'" and "length s' \<le> length s"
    and "v = (if x \<in> set s then Some x else None)"
proof -
  have "set s' = set s - {x} \<and> distinct s' \<and> length s' \<le> length s \<and>
        v = (if x \<in> set s then Some x else None)"
  proof (cases "x \<in> set s")
    case True
    obtain i where i: "fst (swap_remove_full X s x) = Some (i, x)"
      using ext_swap_remove_full_in(1) [OF assms(1) True] by blast
    have s': "s' = snd (swap_remove_full X s x)" and v: "v = Some x"
      using assms(2) i by (auto simp: ixs_remove_def split: prod.splits)
    have "mset s' = mset s - {#x#}"
      using ext_swap_remove_full_in(2) [OF assms(1) True] s' by simp
    from mset_remove1_facts [OF this True] assms(3) v True show ?thesis by simp
  next
    case False
    then have "swap_remove_full X s x = (None, s)"
      by (rule ext_swap_remove_full_out [OF assms(1)])
    with assms(2,3) False show ?thesis by (auto simp: ixs_remove_def)
  qed
  then show "set s' = set s - {x}" and "distinct s'" and "length s' \<le> length s"
    and "v = (if x \<in> set s then Some x else None)" by simp_all
qed

lemma shuffled_and_capped_facts:
  assumes "ext_ok X" "shuffled_and_capped X s n r = (items, r')"
  shows "length items = min n (length s)" and "set items \<subseteq> set s" and "distinct s \<Longrightarrow> distinct items"
proof -
  have m: "mset (fst (shuffle X s r)) = mset s" by (rule ext_shuffle [OF assms(1)])
  have i: "items = take n (fst (shuffle X s r))"
    using assms(2) by (auto simp: shuffled_and_capped_def shuffled_def split: prod.splits)
  show "length items = min n (length s)"
    using mset_eq_length [OF m] i by auto
  show "set items \<subseteq> set s"
    using mset_eq_setD [OF m] i set_take_subset by fastforce
  show "distinct s \<Longrightarrow> distinct items"
    using mset_eq_imp_distinct_iff [OF m] i by simp
qed

lemma shuffled_without_and_capped_facts:
  assumes "ext_ok X" "shuffled_without_and_capped X s w n r = (items, r')"
  shows "length items \<le> n" and "set items \<subseteq> set s - w" and "distinct s \<Longrightarrow> distinct items"
proof -
  let ?f = "filter (\<lambda>x. x \<notin> w) s"
  have m: "mset (fst (shuffle X ?f r)) = mset ?f" by (rule ext_shuffle [OF assms(1)])
  have i: "items = take n (fst (shuffle X ?f r))"
    using assms(2)
    by (auto simp: shuffled_without_and_capped_def shuffled_without_def split: prod.splits)
  show "length items \<le> n" using i by simp
  have "set items \<subseteq> set (fst (shuffle X ?f r))" using i set_take_subset by simp
  then show "set items \<subseteq> set s - w" using mset_eq_setD [OF m] by auto
  show "distinct s \<Longrightarrow> distinct items"
    using mset_eq_imp_distinct_iff [OF m] i by simp
qed

lemma pick_random_without_exists:
  assumes "ext_ok X" "distinct s" "2 \<le> length s"
  shows "\<exists>x r'. pick_random_without X s {y} r = (Some x, r')"
proof (cases "pick_random_without X s {y} r")
  case (Pair v r')
  show ?thesis
  proof (cases v)
    case None
    with Pair have "set s \<subseteq> {y}" using pick_random_without_None [OF assms(1)] by blast
    then have "card (set s) \<le> 1"
      using card_mono [of "{y}" "set s"] by simp
    with assms(2,3) show ?thesis by (simp add: distinct_card)
  next
    case (Some x)
    with Pair show ?thesis by blast
  qed
qed

end
