(* ===== verification/Hyparview.thy ===== *)
theory Hyparview
  imports Proto_Util
begin

text \<open>
  \<^verbatim>\<open>src/src/proto/hyparview.rs\<close>: the membership protocol of one topic.  The state is the record
  \<open>hv_state\<close>; an operation takes a configuration \<open>(s, io)\<close> of the state and the outputs
  pushed so far and returns the next one, as the Rust methods take \<open>&mut self\<close> and
  \<open>io: &mut impl IO\<close>.  Operations that contain an \<^verbatim>\<open>unwrap\<close> or an \<^verbatim>\<open>unreachable!\<close> return an
  option, \<open>None\<close> being the panic.  The external crates are the first argument.

  A \<^verbatim>\<open>usize\<close> that only counts is a natural number: the counts of a shuffle, which are
  configured, and their sum (a sum of two counts near \<open>2 ^ 64\<close> would panic in a debug
  build), and the statistics counter \<^verbatim>\<open>total_connections\<close>.
\<close>

section \<open>Messages and events\<close>

datatype peer_data = PeerData (peer_data_inner: bytes)

record 'p peer_info =
  pi_id :: 'p
  pi_data :: "peer_data option"

type_synonym ttl = u16

definition ttl_expired :: "ttl \<Rightarrow> bool" where
  "ttl_expired t \<longleftrightarrow> t = 0"

definition ttl_next :: "ttl \<Rightarrow> ttl" where
  "ttl_next t = saturating_sub t 1"

datatype 'p forward_join = ForwardJoin (fj_peer: "'p peer_info") (fj_ttl: ttl)

datatype 'p shuffle_msg = Shuffle (sh_origin: 'p) (sh_nodes: "'p peer_info list") (sh_ttl: ttl)

datatype priority = High | Low

datatype neighbor = Neighbor (nb_priority: priority) (nb_data: "peer_data option")

datatype disconnect = Disconnect (dc_alive: bool) (dc_respond: bool)

datatype 'p hv_message =
    HvJoin "peer_data option"
  | HvForwardJoin "'p forward_join"
  | HvShuffle "'p shuffle_msg"
  | HvShuffleReply "'p peer_info list"
  | HvNeighbor neighbor
  | HvDisconnect disconnect

datatype 'p hv_timer = DoShuffle | PendingNeighborRequest 'p

datatype 'p hv_event = HvNeighborUp 'p | HvNeighborDown 'p

datatype 'p hv_in =
    HvRecvMessage 'p "'p hv_message"
  | HvTimerExpired "'p hv_timer"
  | HvPeerDisconnected 'p
  | HvRequestJoin 'p
  | HvUpdatePeerData peer_data
  | HvQuit

datatype 'p hv_out =
    HvSendMessage 'p "'p hv_message"
  | HvScheduleTimer duration "'p hv_timer"
  | HvDisconnectPeer 'p
  | HvEmitEvent "'p hv_event"
  | HvPeerData 'p peer_data

section \<open>Configuration and state\<close>

record hv_config =
  active_view_capacity :: nat
  passive_view_capacity :: nat
  active_random_walk_length :: ttl
  passive_random_walk_length :: ttl
  shuffle_random_walk_length :: ttl
  shuffle_active_view_count :: nat
  shuffle_passive_view_count :: nat
  shuffle_interval :: duration
  neighbor_request_timeout :: duration

definition hv_default_config :: hv_config where
  "hv_default_config =
     \<lparr> active_view_capacity = 5,
       passive_view_capacity = 30,
       active_random_walk_length = 6,
       passive_random_walk_length = 3,
       shuffle_random_walk_length = 6,
       shuffle_active_view_count = 3,
       shuffle_passive_view_count = 4,
       shuffle_interval = 60000,
       neighbor_request_timeout = 500 \<rparr>"

record ('p, 'r) hv_state =
  hv_me :: 'p
  hv_me_data :: "peer_data option"
  active_view :: "'p list"
  passive_view :: "'p list"
  hv_config :: hv_config
  shuffle_scheduled :: bool
  hv_rng :: 'r
  total_connections :: nat
  pending_neighbor_requests :: "'p set"
  peer_data_map :: "'p \<rightharpoonup> peer_data"
  alive_disconnect_peers :: "'p set"

definition hv_new :: "'p \<Rightarrow> peer_data option \<Rightarrow> hv_config \<Rightarrow> 'r \<Rightarrow> ('p, 'r) hv_state" where
  "hv_new me me_data config rng =
     \<lparr> hv_me = me, hv_me_data = me_data, active_view = [], passive_view = [],
       hv_config = config, shuffle_scheduled = False, hv_rng = rng, total_connections = 0,
       pending_neighbor_requests = {}, peer_data_map = Map.empty, alive_disconnect_peers = {} \<rparr>"

datatype removal_reason = ConnectionClosed | DisconnectReceived bool | Random

type_synonym ('p, 'r) hv_conf = "('p, 'r) hv_state \<times> 'p hv_out list"

section \<open>Operations\<close>

definition passive_is_full :: "('p, 'r) hv_state \<Rightarrow> bool" where
  "passive_is_full s \<longleftrightarrow> passive_view_capacity (hv_config s) \<le> length (passive_view s)"

definition active_is_full :: "('p, 'r) hv_state \<Rightarrow> bool" where
  "active_is_full s \<longleftrightarrow> active_view_capacity (hv_config s) \<le> length (active_view s)"

definition peer_info :: "('p, 'r) hv_state \<Rightarrow> 'p \<Rightarrow> 'p peer_info" where
  "peer_info s i = \<lparr> pi_id = i, pi_data = peer_data_map s i \<rparr>"

definition insert_peer_info :: "'p peer_info \<Rightarrow> ('p, 'r) hv_conf \<Rightarrow> ('p, 'r) hv_conf" where
  "insert_peer_info info = (\<lambda>(s, io).
     case pi_data info of
       None \<Rightarrow> (s, io)
     | Some data \<Rightarrow>
         let old = peer_data_map s (pi_id info);
             same = (old = Some data);
             io' = (if \<not> same \<and> peer_data_inner data \<noteq> [] then io @ [HvPeerData (pi_id info) data] else io)
         in (s\<lparr> peer_data_map := (peer_data_map s)(pi_id info \<mapsto> data) \<rparr>, io'))"

definition send_neighbor :: "'p \<Rightarrow> priority \<Rightarrow> ('p, 'r) hv_conf \<Rightarrow> ('p, 'r) hv_conf" where
  "send_neighbor peer priority = (\<lambda>(s, io).
     if peer \<in> pending_neighbor_requests s then (s, io)
     else (s\<lparr> pending_neighbor_requests := insert peer (pending_neighbor_requests s) \<rparr>,
           io @ [HvSendMessage peer (HvNeighbor (Neighbor priority (hv_me_data s)))]))"

definition send_shuffle_reply :: "('p, 'r) ext \<Rightarrow> 'p \<Rightarrow> nat \<Rightarrow> ('p, 'r) hv_conf \<Rightarrow> ('p, 'r) hv_conf" where
  "send_shuffle_reply X to len = (\<lambda>(s, io).
     let (nodes, r1) = shuffled_and_capped X (passive_view s) len (hv_rng s);
         (nodes', r2) =
           (if length nodes < len
            then let (more, r2) = shuffled_and_capped X (active_view s) (len - length nodes) r1
                 in (nodes @ more, r2)
            else (nodes, r1))
     in (s\<lparr> hv_rng := r2 \<rparr>,
         io @ [HvSendMessage to (HvShuffleReply (map (peer_info s) nodes'))]))"

definition send_disconnect :: "('p, 'r) ext \<Rightarrow> 'p \<Rightarrow> bool \<Rightarrow> ('p, 'r) hv_conf \<Rightarrow> ('p, 'r) hv_conf" where
  "send_disconnect X peer alive = (\<lambda>(s, io).
     let cfg = hv_config s;
         (s', io') =
           send_shuffle_reply X peer
             (shuffle_active_view_count cfg + shuffle_passive_view_count cfg) (s, io)
     in (s', io' @ [HvSendMessage peer (HvDisconnect (Disconnect alive False)),
                    HvDisconnectPeer peer]))"

definition add_passive ::
  "('p, 'r) ext \<Rightarrow> 'p \<Rightarrow> peer_data option \<Rightarrow> ('p, 'r) hv_conf \<Rightarrow> ('p, 'r) hv_conf" where
  "add_passive X peer data c =
     (let (s, io) = insert_peer_info \<lparr> pi_id = peer, pi_data = data \<rparr> c
      in if peer \<in> set (active_view s) \<or> peer \<in> set (passive_view s) \<or> peer = hv_me s then (s, io)
         else
           let s1 = (if passive_is_full s
                     then let (_, v, r) = remove_random X (passive_view s) (hv_rng s)
                          in s\<lparr> passive_view := v, hv_rng := r \<rparr>
                     else s)
           in (s1\<lparr> passive_view := snd (ixs_insert X peer (passive_view s1)) \<rparr>, io))"

definition refill_active_from_passive ::
  "('p, 'r) ext \<Rightarrow> 'p set \<Rightarrow> ('p, 'r) hv_conf \<Rightarrow> ('p, 'r) hv_conf" where
  "refill_active_from_passive X skip_peers = (\<lambda>(s, io).
     if active_view_capacity (hv_config s)
          \<le> length (active_view s) + card (pending_neighbor_requests s)
     then (s, io)
     else
       case pick_random_without X (passive_view s)
              (skip_peers \<union> pending_neighbor_requests s) (hv_rng s) of
         (None, r) \<Rightarrow> (s\<lparr> hv_rng := r \<rparr>, io)
       | (Some node, r) \<Rightarrow>
           let priority = (if active_view s = [] then High else Low);
               (s', io') = send_neighbor node priority (s\<lparr> hv_rng := r \<rparr>, io)
           in (s', io' @ [HvScheduleTimer (neighbor_request_timeout (hv_config s))
                            (PendingNeighborRequest node)]))"

text \<open>
  \<^verbatim>\<open>remove_active_by_index\<close> in its three parts: tell the peer and the I/O layer, decide whether
  the peer stays known, and file it in the passive view if so.
\<close>

definition announce_removal ::
  "('p, 'r) ext \<Rightarrow> 'p \<Rightarrow> removal_reason \<Rightarrow> ('p, 'r) hv_conf \<Rightarrow> ('p, 'r) hv_conf" where
  "announce_removal X peer reason c =
     (case reason of
        Random \<Rightarrow> send_disconnect X peer True c
      | DisconnectReceived _ \<Rightarrow> (fst c, snd c @ [HvDisconnectPeer peer])
      | ConnectionClosed \<Rightarrow> (fst c, snd c @ [HvDisconnectPeer peer]))"

definition keep_as_passive ::
  "'p \<Rightarrow> removal_reason \<Rightarrow> ('p, 'r) hv_conf \<Rightarrow> bool \<times> ('p, 'r) hv_conf" where
  "keep_as_passive peer reason = (\<lambda>(s, io).
     case reason of
       ConnectionClosed \<Rightarrow>
         (peer \<in> alive_disconnect_peers s,
          (s\<lparr> alive_disconnect_peers := alive_disconnect_peers s - {peer} \<rparr>, io))
     | DisconnectReceived is_alive \<Rightarrow> (is_alive, (s, io))
     | Random \<Rightarrow> (True, (s, io)))"

definition file_removed ::
  "('p, 'r) ext \<Rightarrow> 'p \<Rightarrow> removal_reason \<Rightarrow> ('p, 'r) hv_conf \<Rightarrow> ('p, 'r) hv_conf" where
  "file_removed X peer reason = (\<lambda>(s, io).
     let data = peer_data_map s peer;
         (s', io') =
           add_passive X peer data (s\<lparr> peer_data_map := (peer_data_map s)(peer := None) \<rparr>, io)
     in if reason \<noteq> ConnectionClosed
        then (s'\<lparr> alive_disconnect_peers := insert peer (alive_disconnect_peers s') \<rparr>, io')
        else (s', io'))"

definition remove_active_by_index ::
  "('p, 'r) ext \<Rightarrow> nat \<Rightarrow> removal_reason \<Rightarrow> ('p, 'r) hv_conf \<Rightarrow> 'p option \<times> ('p, 'r) hv_conf" where
  "remove_active_by_index X peer_index reason = (\<lambda>(s, io).
     case remove_index X (active_view s) peer_index of
       (None, _) \<Rightarrow> (None, (s, io))
     | (Some peer, v) \<Rightarrow>
         let (keep, c) =
           keep_as_passive peer reason
             (announce_removal X peer reason
               (s\<lparr> active_view := v \<rparr>, io @ [HvEmitEvent (HvNeighborDown peer)]))
         in (Some peer, if keep then file_removed X peer reason c else c))"

definition remove_active ::
  "('p, 'r) ext \<Rightarrow> 'p \<Rightarrow> removal_reason \<Rightarrow> ('p, 'r) hv_conf \<Rightarrow> ('p, 'r) hv_conf option" where
  "remove_active X peer reason c =
     (case index_of (active_view (fst c)) peer of
        None \<Rightarrow> Some c
      | Some idx \<Rightarrow>
          (case remove_active_by_index X idx reason c of
             (None, _) \<Rightarrow> None
           | (Some removed_peer, c') \<Rightarrow> Some (refill_active_from_passive X {removed_peer} c')))"

definition free_random_slot_in_active_view :: "('p, 'r) ext \<Rightarrow> ('p, 'r) hv_conf \<Rightarrow> ('p, 'r) hv_conf" where
  "free_random_slot_in_active_view X = (\<lambda>(s, io).
     case pick_random_index X (active_view s) (hv_rng s) of
       (None, r) \<Rightarrow> (s\<lparr> hv_rng := r \<rparr>, io)
     | (Some index, r) \<Rightarrow> snd (remove_active_by_index X index Random (s\<lparr> hv_rng := r \<rparr>, io)))"

definition add_active_unchecked ::
  "('p, 'r) ext \<Rightarrow> 'p \<Rightarrow> priority \<Rightarrow> bool \<Rightarrow> ('p, 'r) hv_conf \<Rightarrow> ('p, 'r) hv_conf" where
  "add_active_unchecked X peer priority reply = (\<lambda>(s, io).
     let s1 = s\<lparr> passive_view := snd (ixs_remove X (passive_view s) peer) \<rparr>;
         (inserted, v) = ixs_insert X peer (active_view s1);
         s2 = s1\<lparr> active_view := v \<rparr>
     in if inserted
        then let c = (s2, io @ [HvEmitEvent (HvNeighborUp peer)])
             in if reply then send_neighbor peer priority c else c
        else (s2, io))"

definition add_active ::
  "('p, 'r) ext \<Rightarrow> 'p \<Rightarrow> peer_data option \<Rightarrow> priority \<Rightarrow> bool \<Rightarrow> ('p, 'r) hv_conf \<Rightarrow> bool \<times> ('p, 'r) hv_conf" where
  "add_active X peer data priority reply c =
     (if peer = hv_me (fst c) then (False, c)
      else
        let c1 = insert_peer_info \<lparr> pi_id = peer, pi_data = data \<rparr> c
        in if peer \<in> set (active_view (fst c1))
           then (True, if reply then send_neighbor peer priority c1 else c1)
           else
             (case (priority, active_is_full (fst c1)) of
                (High, is_full) \<Rightarrow>
                  (True, add_active_unchecked X peer High reply
                           (if is_full then free_random_slot_in_active_view X c1 else c1))
              | (Low, False) \<Rightarrow> (True, add_active_unchecked X peer Low reply c1)
              | (Low, True) \<Rightarrow> (False, c1)))"

section \<open>Handlers\<close>

definition handle_join :: "'p \<Rightarrow> ('p, 'r) hv_conf \<Rightarrow> ('p, 'r) hv_conf" where
  "handle_join peer = (\<lambda>(s, io). (s, io @ [HvSendMessage peer (HvJoin (hv_me_data s))]))"

definition on_disconnect ::
  "('p, 'r) ext \<Rightarrow> 'p \<Rightarrow> disconnect \<Rightarrow> ('p, 'r) hv_conf \<Rightarrow> ('p, 'r) hv_conf option" where
  "on_disconnect X peer details = (\<lambda>(s, io).
     let s1 = s\<lparr> pending_neighbor_requests := pending_neighbor_requests s - {peer} \<rparr>
     in if peer \<in> set (active_view s1)
        then remove_active X peer (DisconnectReceived (dc_alive details)) (s1, io)
        else if dc_alive details \<and> peer \<in> set (passive_view s1)
        then Some (s1\<lparr> alive_disconnect_peers := insert peer (alive_disconnect_peers s1) \<rparr>, io)
        else Some (s1, io))"

definition handle_connection_closed ::
  "('p, 'r) ext \<Rightarrow> 'p \<Rightarrow> ('p, 'r) hv_conf \<Rightarrow> ('p, 'r) hv_conf option" where
  "handle_connection_closed X peer = (\<lambda>(s, io).
     let s1 = s\<lparr> pending_neighbor_requests := pending_neighbor_requests s - {peer} \<rparr>
     in if peer \<in> set (active_view s1)
        then remove_active X peer ConnectionClosed (s1, io)
        else
          let s2 = s1\<lparr> alive_disconnect_peers := alive_disconnect_peers s1 - {peer} \<rparr>
          in if peer \<in> alive_disconnect_peers s1 then Some (s2, io)
             else Some (s2\<lparr> passive_view := snd (ixs_remove X (passive_view s2) peer),
                            peer_data_map := (peer_data_map s2)(peer := None) \<rparr>, io))"

definition handle_quit :: "('p, 'r) ext \<Rightarrow> ('p, 'r) hv_conf \<Rightarrow> ('p, 'r) hv_conf" where
  "handle_quit X c =
     fold (\<lambda>peer (s, io).
             send_disconnect X peer False
               (s\<lparr> active_view := snd (ixs_remove X (active_view s) peer) \<rparr>, io))
          (active_view (fst c)) c"

definition on_join :: "('p, 'r) ext \<Rightarrow> 'p \<Rightarrow> peer_data option \<Rightarrow> ('p, 'r) hv_conf \<Rightarrow> ('p, 'r) hv_conf" where
  "on_join X peer data c =
     (let (s, io) = snd (add_active X peer data High True c);
          ttl = active_random_walk_length (hv_config s);
          info = \<lparr> pi_id = peer, pi_data = data \<rparr>
      in (s, io @ map (\<lambda>node. HvSendMessage node (HvForwardJoin (ForwardJoin info ttl)))
                      (iter_without (active_view s) peer)))"

definition on_forward_join ::
  "('p, 'r) ext \<Rightarrow> 'p \<Rightarrow> 'p forward_join \<Rightarrow> ('p, 'r) hv_conf \<Rightarrow> ('p, 'r) hv_conf option" where
  "on_forward_join X sender message c =
     (let peer_id = pi_id (fj_peer message); s = fst c
      in if peer_id \<in> set (active_view s)
         then Some (send_neighbor peer_id High (insert_peer_info (fj_peer message) c))
         else if ttl_expired (fj_ttl message) \<or> length (active_view s) \<le> 1
         then Some (send_neighbor peer_id High (insert_peer_info (fj_peer message) c))
         else
           let (s1, io1) =
             (if fj_ttl message = passive_random_walk_length (hv_config s)
              then add_passive X peer_id (pi_data (fj_peer message)) c
              else c)
           in if peer_id \<notin> set (active_view s1) \<and> peer_id \<notin> pending_neighbor_requests s1
              then (case pick_random_without X (active_view s1) {sender} (hv_rng s1) of
                      (None, _) \<Rightarrow> None
                    | (Some next, r) \<Rightarrow>
                        Some (s1\<lparr> hv_rng := r \<rparr>,
                              io1 @ [HvSendMessage next (HvForwardJoin
                                       (ForwardJoin (fj_peer message) (ttl_next (fj_ttl message))))]))
              else Some (s1, io1))"

definition on_neighbor :: "('p, 'r) ext \<Rightarrow> 'p \<Rightarrow> neighbor \<Rightarrow> ('p, 'r) hv_conf \<Rightarrow> ('p, 'r) hv_conf" where
  "on_neighbor X from details = (\<lambda>(s, io).
     let is_reply = (from \<in> pending_neighbor_requests s);
         s1 = s\<lparr> pending_neighbor_requests := pending_neighbor_requests s - {from} \<rparr>;
         (accepted, c) = add_active X from (nb_data details) (nb_priority details) (\<not> is_reply) (s1, io)
     in if accepted then c else send_disconnect X from True c)"

definition add_passive_nodes :: "('p, 'r) ext \<Rightarrow> 'p peer_info list \<Rightarrow> ('p, 'r) hv_conf \<Rightarrow> ('p, 'r) hv_conf" where
  "add_passive_nodes X nodes c = fold (\<lambda>node. add_passive X (pi_id node) (pi_data node)) nodes c"

definition on_shuffle :: "('p, 'r) ext \<Rightarrow> 'p \<Rightarrow> 'p shuffle_msg \<Rightarrow> ('p, 'r) hv_conf \<Rightarrow> ('p, 'r) hv_conf" where
  "on_shuffle X from msg = (\<lambda>(s, io).
     if ttl_expired (sh_ttl msg) \<or> length (active_view s) \<le> 1
     then send_shuffle_reply X (sh_origin msg) (length (sh_nodes msg))
            (add_passive_nodes X (sh_nodes msg) (s, io))
     else
       case pick_random_without X (active_view s) {sh_origin msg, from} (hv_rng s) of
         (None, r) \<Rightarrow> (s\<lparr> hv_rng := r \<rparr>, io)
       | (Some node, r) \<Rightarrow>
           (s\<lparr> hv_rng := r \<rparr>,
            io @ [HvSendMessage node (HvShuffle
                    (Shuffle (sh_origin msg) (sh_nodes msg) (ttl_next (sh_ttl msg))))]))"

definition on_shuffle_reply :: "('p, 'r) ext \<Rightarrow> 'p peer_info list \<Rightarrow> ('p, 'r) hv_conf \<Rightarrow> ('p, 'r) hv_conf" where
  "on_shuffle_reply X nodes c = refill_active_from_passive X {} (add_passive_nodes X nodes c)"

definition handle_shuffle_timer :: "('p, 'r) ext \<Rightarrow> ('p, 'r) hv_conf \<Rightarrow> ('p, 'r) hv_conf" where
  "handle_shuffle_timer X = (\<lambda>(s, io).
     let cfg = hv_config s;
         (s', io') =
           (case pick_random X (active_view s) (hv_rng s) of
              (None, r) \<Rightarrow> (s\<lparr> hv_rng := r \<rparr>, io)
            | (Some node, r) \<Rightarrow>
                let (active, r1) =
                      shuffled_without_and_capped X (active_view s) {node} (shuffle_active_view_count cfg) r;
                    (passive, r2) =
                      shuffled_without_and_capped X (passive_view s) {node} (shuffle_passive_view_count cfg) r1;
                    nodes = map (peer_info s) (active @ passive)
                            @ [\<lparr> pi_id = hv_me s, pi_data = hv_me_data s \<rparr>]
                in (s\<lparr> hv_rng := r2 \<rparr>,
                    io @ [HvSendMessage node (HvShuffle
                            (Shuffle (hv_me s) nodes (shuffle_random_walk_length cfg)))]))
     in (s', io' @ [HvScheduleTimer (shuffle_interval cfg) DoShuffle]))"

definition handle_pending_neighbor_timer ::
  "('p, 'r) ext \<Rightarrow> 'p \<Rightarrow> ('p, 'r) hv_conf \<Rightarrow> ('p, 'r) hv_conf" where
  "handle_pending_neighbor_timer X peer = (\<lambda>(s, io).
     if peer \<in> pending_neighbor_requests s
     then refill_active_from_passive X {}
            (s\<lparr> pending_neighbor_requests := pending_neighbor_requests s - {peer},
                passive_view := snd (ixs_remove X (passive_view s) peer) \<rparr>, io)
     else (s, io))"

definition is_disconnect_message :: "'p hv_message \<Rightarrow> bool" where
  "is_disconnect_message m = (case m of HvDisconnect _ \<Rightarrow> True | _ \<Rightarrow> False)"

definition hv_handle_message ::
  "('p, 'r) ext \<Rightarrow> 'p \<Rightarrow> 'p hv_message \<Rightarrow> ('p, 'r) hv_conf \<Rightarrow> ('p, 'r) hv_conf option" where
  "hv_handle_message X from message = (\<lambda>(s, io).
     let c = (if \<not> is_disconnect_message message \<and> from \<notin> set (active_view s)
              then (s\<lparr> total_connections := total_connections s + 1 \<rparr>, io)
              else (s, io))
     in case message of
          HvJoin data \<Rightarrow> Some (on_join X from data c)
        | HvForwardJoin details \<Rightarrow> on_forward_join X from details c
        | HvShuffle details \<Rightarrow> Some (on_shuffle X from details c)
        | HvShuffleReply nodes \<Rightarrow> Some (on_shuffle_reply X nodes c)
        | HvNeighbor details \<Rightarrow> Some (on_neighbor X from details c)
        | HvDisconnect details \<Rightarrow> on_disconnect X from details c)"

definition hv_dispatch ::
  "('p, 'r) ext \<Rightarrow> 'p hv_in \<Rightarrow> ('p, 'r) hv_conf \<Rightarrow> ('p, 'r) hv_conf option" where
  "hv_dispatch X event c =
     (case event of
        HvRecvMessage from message \<Rightarrow> hv_handle_message X from message c
      | HvTimerExpired timer \<Rightarrow>
          (case timer of
             DoShuffle \<Rightarrow> Some (handle_shuffle_timer X c)
           | PendingNeighborRequest peer \<Rightarrow> Some (handle_pending_neighbor_timer X peer c))
      | HvPeerDisconnected peer \<Rightarrow> handle_connection_closed X peer c
      | HvRequestJoin peer \<Rightarrow> Some (handle_join peer c)
      | HvUpdatePeerData data \<Rightarrow> Some ((fst c)\<lparr> hv_me_data := Some data \<rparr>, snd c)
      | HvQuit \<Rightarrow> Some (handle_quit X c))"

definition hv_schedule_shuffle :: "('p, 'r) hv_conf \<Rightarrow> ('p, 'r) hv_conf" where
  "hv_schedule_shuffle = (\<lambda>(s, io).
     if shuffle_scheduled s then (s, io)
     else (s\<lparr> shuffle_scheduled := True \<rparr>,
           io @ [HvScheduleTimer (shuffle_interval (hv_config s)) DoShuffle]))"

definition hv_handle ::
  "('p, 'r) ext \<Rightarrow> 'p hv_in \<Rightarrow> ('p, 'r) hv_conf \<Rightarrow> ('p, 'r) hv_conf option" where
  "hv_handle X event c = map_option hv_schedule_shuffle (hv_dispatch X event c)"

end
