(* ===== verification/Std_Collections.thy ===== *)
theory Std_Collections
  imports Prelude
begin

text \<open>
  The ordered collections of the Rust standard library the sources iterate over.  A
  \<^verbatim>\<open>BTreeSet\<close> is the strictly increasing list of its elements and a \<^verbatim>\<open>BTreeMap\<close> the list
  of its entries with strictly increasing keys, which is the order in which their
  iterators deliver them.  (A \<^verbatim>\<open>HashSet\<close> is a \<open>set\<close> and a \<^verbatim>\<open>HashMap\<close> a map throughout
  the development.)
\<close>

section \<open>Ordered sets\<close>

fun bset_insert :: "'a::linorder \<Rightarrow> 'a list \<Rightarrow> 'a list" where
  "bset_insert x [] = [x]"
| "bset_insert x (y # ys) =
     (if x < y then x # y # ys else if x = y then y # ys else y # bset_insert x ys)"

definition bset_remove :: "'a \<Rightarrow> 'a list \<Rightarrow> 'a list" where
  "bset_remove x xs = filter (\<lambda>y. y \<noteq> x) xs"

definition bset_inv :: "'a::linorder list \<Rightarrow> bool" where
  "bset_inv xs \<longleftrightarrow> sorted_wrt (<) xs"

lemma set_bset_insert [simp]: "set (bset_insert x xs) = insert x (set xs)"
  by (induction xs) auto

lemma set_bset_remove [simp]: "set (bset_remove x xs) = set xs - {x}"
  by (auto simp: bset_remove_def)

lemma bset_inv_insert [simp]: "bset_inv xs \<Longrightarrow> bset_inv (bset_insert x xs)"
  unfolding bset_inv_def by (induction xs) auto

lemma bset_inv_remove [simp]: "bset_inv xs \<Longrightarrow> bset_inv (bset_remove x xs)"
  unfolding bset_inv_def bset_remove_def by (rule sorted_wrt_filter)

lemma bset_inv_Nil [simp]: "bset_inv []"
  by (simp add: bset_inv_def)

lemma bset_inv_distinct: "bset_inv xs \<Longrightarrow> distinct xs"
  unfolding bset_inv_def by (simp add: strict_sorted_iff)

text \<open>
  The contract the broadcast layer relies on: sets of peers with insertion, removal and
  an iteration that lists each element once.  Its client keeps two such sets and moves
  peers between them.
\<close>

locale peer_sets =
  fixes ins :: "'p \<Rightarrow> 's \<Rightarrow> 's"
    and rem :: "'p \<Rightarrow> 's \<Rightarrow> 's"
    and iter :: "'s \<Rightarrow> 'p list"
    and wf :: "'s \<Rightarrow> bool"
  assumes set_ins: "wf s \<Longrightarrow> set (iter (ins p s)) = insert p (set (iter s))"
    and set_rem: "wf s \<Longrightarrow> set (iter (rem p s)) = set (iter s) - {p}"
    and wf_ins: "wf s \<Longrightarrow> wf (ins p s)"
    and wf_rem: "wf s \<Longrightarrow> wf (rem p s)"
    and distinct_iter: "wf s \<Longrightarrow> distinct (iter s)"
begin

lemma move_disjoint:
  assumes "wf a" "wf b" "set (iter a) \<inter> set (iter b) = {}"
  shows "set (iter (ins p a)) \<inter> set (iter (rem p b)) = {}"
  using assms by (auto simp: set_ins set_rem)

lemma move_union:
  assumes "wf a" "wf b"
  shows "set (iter (ins p a)) \<union> set (iter (rem p b)) = insert p (set (iter a) \<union> set (iter b))"
  using assms by (auto simp: set_ins set_rem)

lemma drop_disjoint:
  assumes "wf a" "wf b" "set (iter a) \<inter> set (iter b) = {}"
  shows "set (iter (rem p a)) \<inter> set (iter (rem p b)) = {}"
  using assms by (auto simp: set_rem)

lemma drop_union:
  assumes "wf a" "wf b"
  shows "set (iter (rem p a)) \<union> set (iter (rem p b)) = set (iter a) \<union> set (iter b) - {p}"
  using assms by (auto simp: set_rem)

end

interpretation bset: peer_sets bset_insert bset_remove "\<lambda>xs. xs" bset_inv
  by unfold_locales (simp_all add: bset_inv_distinct)

section \<open>Ordered maps of queues\<close>

text \<open>\<^verbatim>\<open>map.entry(k).or_default().push(v)\<close> on a \<^verbatim>\<open>BTreeMap<K, Vec<V>>\<close>.\<close>

fun bmap_push :: "'k::linorder \<Rightarrow> 'v \<Rightarrow> ('k \<times> 'v list) list \<Rightarrow> ('k \<times> 'v list) list" where
  "bmap_push k v [] = [(k, [v])]"
| "bmap_push k v ((k', vs) # m) =
     (if k < k' then (k, [v]) # (k', vs) # m
      else if k = k' then (k', vs @ [v]) # m
      else (k', vs) # bmap_push k v m)"

definition bmap_inv :: "('k::linorder \<times> 'v) list \<Rightarrow> bool" where
  "bmap_inv m \<longleftrightarrow> bset_inv (map fst m)"

lemma keys_bmap_push [simp]: "map fst (bmap_push k v m) = bset_insert k (map fst m)"
  by (induction k v m rule: bmap_push.induct) auto

lemma bmap_inv_push [simp]: "bmap_inv m \<Longrightarrow> bmap_inv (bmap_push k v m)"
  by (simp add: bmap_inv_def)

lemma bmap_inv_Nil [simp]: "bmap_inv []"
  by (simp add: bmap_inv_def)

lemma bmap_push_not_Nil [simp]: "bmap_push k v m \<noteq> []"
  by (cases m) (auto split: prod.splits if_splits)

lemma bmap_push_lookup:
  "bmap_inv m \<Longrightarrow>
   map_of (bmap_push k v m) = (map_of m)(k \<mapsto> (case map_of m k of None \<Rightarrow> [v] | Some vs \<Rightarrow> vs @ [v]))"
proof (induction k v m rule: bmap_push.induct)
  case (1 k v)
  then show ?case by simp
next
  case (2 k v k' vs m)
  have tail: "bmap_inv m" and gt: "\<forall>x \<in> set (map fst m). k' < x"
    using "2.prems" by (auto simp: bmap_inv_def bset_inv_def)
  have none: "map_of m k = None" if "k < k' \<or> k = k'"
    using gt that by (auto simp: map_of_eq_None_iff)
  show ?case
  proof (cases "k < k' \<or> k = k'")
    case True
    with none [OF True] show ?thesis by auto
  next
    case False
    then show ?thesis using "2.IH" tail by (auto simp: fun_eq_iff)
  qed
qed

section \<open>Ordered maps\<close>

text \<open>\<^verbatim>\<open>insert\<close> and \<^verbatim>\<open>remove\<close> of a \<^verbatim>\<open>BTreeMap\<close>.\<close>

fun bmap_insert :: "'k::linorder \<Rightarrow> 'v \<Rightarrow> ('k \<times> 'v) list \<Rightarrow> ('k \<times> 'v) list" where
  "bmap_insert k v [] = [(k, v)]"
| "bmap_insert k v ((k', v') # m) =
     (if k < k' then (k, v) # (k', v') # m
      else if k = k' then (k, v) # m
      else (k', v') # bmap_insert k v m)"

definition bmap_remove :: "'k \<Rightarrow> ('k \<times> 'v) list \<Rightarrow> ('k \<times> 'v) list" where
  "bmap_remove k m = filter (\<lambda>e. fst e \<noteq> k) m"

lemma keys_bmap_insert [simp]: "map fst (bmap_insert k v m) = bset_insert k (map fst m)"
  by (induction k v m rule: bmap_insert.induct) auto

lemma keys_bmap_remove [simp]: "map fst (bmap_remove k m) = bset_remove k (map fst m)"
  by (simp add: bmap_remove_def bset_remove_def filter_map comp_def)

lemma bmap_inv_insert [simp]: "bmap_inv m \<Longrightarrow> bmap_inv (bmap_insert k v m)"
  by (simp add: bmap_inv_def)

lemma bmap_inv_remove [simp]: "bmap_inv m \<Longrightarrow> bmap_inv (bmap_remove k m)"
  by (simp add: bmap_inv_def)

lemma bmap_insert_lookup [simp]: "bmap_inv m \<Longrightarrow> map_of (bmap_insert k v m) = (map_of m)(k \<mapsto> v)"
proof (induction k v m rule: bmap_insert.induct)
  case (2 k v k' v' m)
  then have "bmap_inv m" by (simp add: bmap_inv_def bset_inv_def)
  with 2 show ?case by (auto simp: fun_eq_iff)
qed simp

lemma bmap_remove_lookup [simp]: "map_of (bmap_remove k m) = (map_of m)(k := None)"
  by (induction m) (auto simp: bmap_remove_def fun_eq_iff)

end
