(* ===== verification/Time_Cache.thy ===== *)
theory Time_Cache
  imports Prelude
begin

text \<open>
  The second half of \<^verbatim>\<open>src/src/proto/util.rs\<close>: \<^verbatim>\<open>TimerMap\<close>, a \<^verbatim>\<open>BinaryHeap\<close> of timed items with a
  sequence number that breaks ties, and \<^verbatim>\<open>TimeBoundCache\<close>, a hash map whose entries expire.

  The heap is the list of its entries in the order in which \<^verbatim>\<open>pop\<close> delivers them: the
  greatest entry of the Rust \<^verbatim>\<open>Ord\<close> first, which, the order being reversed, is the one
  with the earliest time.  The interface the broadcast layer relies on is the locale
  \<open>expiring_cache\<close>; its interpretation on \<open>tbc_insert\<close> and \<open>tbc_expire\<close> is the proof that
  expiring a cache removes exactly the entries that are due.
\<close>

section \<open>TimerMap\<close>

datatype ordering = Less | Equal | Greater

definition cmp_nat :: "nat \<Rightarrow> nat \<Rightarrow> ordering" where
  "cmp_nat a b = (if a < b then Less else if a = b then Equal else Greater)"

fun ord_reverse :: "ordering \<Rightarrow> ordering" where
  "ord_reverse Less = Greater"
| "ord_reverse Equal = Equal"
| "ord_reverse Greater = Less"

fun then_with :: "ordering \<Rightarrow> ordering \<Rightarrow> ordering" where
  "then_with Equal b = b"
| "then_with a b = a"

record 'a timer_map_entry =
  tme_time :: instant
  tme_seq :: nat
  tme_item :: 'a

definition tme_cmp :: "'a timer_map_entry \<Rightarrow> 'a timer_map_entry \<Rightarrow> ordering" where
  "tme_cmp a b =
     then_with (ord_reverse (cmp_nat (tme_time a) (tme_time b)))
               (ord_reverse (cmp_nat (tme_seq a) (tme_seq b)))"

fun heap_push :: "'a timer_map_entry \<Rightarrow> 'a timer_map_entry list \<Rightarrow> 'a timer_map_entry list" where
  "heap_push e [] = [e]"
| "heap_push e (x # xs) = (if tme_cmp e x = Greater then e # x # xs else x # heap_push e xs)"

record 'a timer_map =
  tm_heap :: "'a timer_map_entry list"
  tm_seq :: nat

definition tm_new :: "'a timer_map" where
  "tm_new = \<lparr> tm_heap = [], tm_seq = 0 \<rparr>"

definition tm_insert :: "instant \<Rightarrow> 'a \<Rightarrow> 'a timer_map \<Rightarrow> 'a timer_map" where
  "tm_insert inst item m =
     (let entry = \<lparr> tme_time = inst, tme_seq = tm_seq m, tme_item = item \<rparr>
      in m\<lparr> tm_seq := tm_seq m + 1, tm_heap := heap_push entry (tm_heap m) \<rparr>)"

definition pop_before :: "instant \<Rightarrow> 'a timer_map \<Rightarrow> (instant \<times> 'a) option \<times> 'a timer_map" where
  "pop_before limit m =
     (case tm_heap m of
        [] \<Rightarrow> (None, m)
      | e # es \<Rightarrow>
          if tme_time e \<le> limit then (Some (tme_time e, tme_item e), m\<lparr> tm_heap := es \<rparr>)
          else (None, m))"

definition tm_first :: "'a timer_map \<Rightarrow> instant option" where
  "tm_first m = (case tm_heap m of [] \<Rightarrow> None | e # _ \<Rightarrow> Some (tme_time e))"

lemma pop_before_shrinks:
  "pop_before limit m = (Some x, m') \<Longrightarrow> length (tm_heap m') < length (tm_heap m)"
  by (auto simp: pop_before_def split: list.splits if_splits)

text \<open>
  \<^verbatim>\<open>drain_until\<close> is an iterator over \<^verbatim>\<open>pop_before\<close>; this is the list it delivers when it is
  run to its end, and the map that is left.
\<close>

function drain_until :: "instant \<Rightarrow> 'a timer_map \<Rightarrow> (instant \<times> 'a) list \<times> 'a timer_map" where
  "drain_until limit m =
     (case pop_before limit m of
        (None, m') \<Rightarrow> ([], m')
      | (Some x, m') \<Rightarrow> (let (xs, m'') = drain_until limit m' in (x # xs, m'')))"
  by pat_completeness auto
termination
  by (relation "measure (\<lambda>(limit, m). length (tm_heap m))") (auto dest: pop_before_shrinks [OF sym])

declare drain_until.simps [simp del]

subsection \<open>Items come out in time order\<close>

definition tme_before :: "'a timer_map_entry \<Rightarrow> 'a timer_map_entry \<Rightarrow> bool" where
  "tme_before a b \<longleftrightarrow>
     tme_time a < tme_time b \<or> tme_time a = tme_time b \<and> tme_seq a < tme_seq b"

definition tm_inv :: "'a timer_map \<Rightarrow> bool" where
  "tm_inv m \<longleftrightarrow> sorted_wrt tme_before (tm_heap m) \<and> (\<forall>e \<in> set (tm_heap m). tme_seq e < tm_seq m)"

lemma tme_cmp_Greater: "tme_cmp a b = Greater \<longleftrightarrow> tme_before a b"
  by (auto simp: tme_cmp_def cmp_nat_def tme_before_def)

lemma tme_before_total: "\<not> tme_before a b \<Longrightarrow> tme_seq a \<noteq> tme_seq b \<Longrightarrow> tme_before b a"
  by (auto simp: tme_before_def)

lemma tme_before_trans: "tme_before a b \<Longrightarrow> tme_before b c \<Longrightarrow> tme_before a c"
  by (auto simp: tme_before_def)

lemma set_heap_push [simp]: "set (heap_push e xs) = insert e (set xs)"
  by (induction xs) auto

lemma sorted_heap_push:
  "sorted_wrt tme_before xs \<Longrightarrow> \<forall>x \<in> set xs. tme_seq x < tme_seq e \<Longrightarrow>
   sorted_wrt tme_before (heap_push e xs)"
proof (induction xs)
  case Nil
  then show ?case by simp
next
  case (Cons x xs)
  show ?case
  proof (cases "tme_before e x")
    case True
    with Cons.prems show ?thesis by (auto simp: tme_cmp_Greater intro: tme_before_trans)
  next
    case False
    then have "tme_before x e" using tme_before_total [OF False] Cons.prems(2) by auto
    with False Cons show ?thesis by (auto simp: tme_cmp_Greater)
  qed
qed

lemma tm_inv_new [simp]: "tm_inv tm_new"
  by (simp add: tm_inv_def tm_new_def)

lemma tm_inv_insert [simp]: "tm_inv m \<Longrightarrow> tm_inv (tm_insert t x m)"
  unfolding tm_inv_def tm_insert_def Let_def by (auto intro: sorted_heap_push less_SucI)

lemma tm_heap_insert [simp]:
  "set (tm_heap (tm_insert t x m)) =
     insert \<lparr> tme_time = t, tme_seq = tm_seq m, tme_item = x \<rparr> (set (tm_heap m))"
  by (simp add: tm_insert_def)

abbreviation due :: "instant \<Rightarrow> 'a timer_map_entry \<Rightarrow> bool" where
  "due limit e \<equiv> tme_time e \<le> limit"

lemma sorted_filter_due:
  "sorted_wrt tme_before (e # es) \<Longrightarrow> \<not> due limit e \<Longrightarrow> filter (due limit) (e # es) = []"
  by (auto simp: filter_empty_conv tme_before_def)

lemma drain_until_eq:
  "sorted_wrt tme_before (tm_heap m) \<Longrightarrow>
   drain_until limit m =
     (map (\<lambda>e. (tme_time e, tme_item e)) (filter (due limit) (tm_heap m)),
      m\<lparr> tm_heap := filter (\<lambda>e. \<not> due limit e) (tm_heap m) \<rparr>)"
proof (induction "tm_heap m" arbitrary: m)
  case Nil
  then show ?case by (simp add: drain_until.simps [of limit m] pop_before_def)
next
  case (Cons e es)
  note heap = Cons.hyps(2) [symmetric]
  show ?case
  proof (cases "due limit e")
    case True
    have "drain_until limit (m\<lparr> tm_heap := es \<rparr>) =
       (map (\<lambda>e. (tme_time e, tme_item e)) (filter (due limit) es),
        m\<lparr> tm_heap := filter (\<lambda>e. \<not> due limit e) es \<rparr>)"
      using Cons.hyps(1) [of "m\<lparr> tm_heap := es \<rparr>"] Cons.prems heap by simp
    with True heap show ?thesis
      by (simp add: drain_until.simps [of limit m] pop_before_def)
  next
    case False
    have "filter (due limit) (e # es) = []"
      using sorted_filter_due [OF _ False] Cons.prems heap by metis
    moreover have "filter (\<lambda>e. \<not> due limit e) (e # es) = e # es"
      using Cons.prems heap False by (auto simp: filter_id_conv tme_before_def)
    moreover have "drain_until limit m = ([], m)"
      using False heap by (simp add: drain_until.simps [of limit m] pop_before_def)
    ultimately show ?thesis using heap by (simp only: list.map) simp
  qed
qed

lemma tm_first_earliest:
  "tm_inv m \<Longrightarrow> tm_first m = Some t \<Longrightarrow> e \<in> set (tm_heap m) \<Longrightarrow> t \<le> tme_time e"
  by (auto simp: tm_inv_def tm_first_def tme_before_def split: list.splits)

section \<open>TimeBoundCache\<close>

record ('k, 'v) time_bound_cache =
  tbc_map :: "'k \<rightharpoonup> instant \<times> 'v"
  tbc_expiry :: "'k timer_map"

definition tbc_default :: "('k, 'v) time_bound_cache" where
  "tbc_default = \<lparr> tbc_map = Map.empty, tbc_expiry = tm_new \<rparr>"

definition tbc_insert :: "'k \<Rightarrow> 'v \<Rightarrow> instant \<Rightarrow> ('k, 'v) time_bound_cache \<Rightarrow> ('k, 'v) time_bound_cache" where
  "tbc_insert key value expires c =
     c\<lparr> tbc_map := (tbc_map c)(key \<mapsto> (expires, value)),
        tbc_expiry := tm_insert expires key (tbc_expiry c) \<rparr>"

definition tbc_contains_key :: "('k, 'v) time_bound_cache \<Rightarrow> 'k \<Rightarrow> bool" where
  "tbc_contains_key c key \<longleftrightarrow> tbc_map c key \<noteq> None"

definition tbc_len :: "('k, 'v) time_bound_cache \<Rightarrow> nat" where
  "tbc_len c = card (dom (tbc_map c))"

definition tbc_get :: "('k, 'v) time_bound_cache \<Rightarrow> 'k \<Rightarrow> 'v option" where
  "tbc_get c key = map_option snd (tbc_map c key)"

definition tbc_expires :: "('k, 'v) time_bound_cache \<Rightarrow> 'k \<Rightarrow> instant option" where
  "tbc_expires c key = map_option fst (tbc_map c key)"

text \<open>One round of the loop of \<^verbatim>\<open>expire_until\<close>, with its three arms.\<close>

definition tbc_expire_entry :: "instant \<times> 'k \<Rightarrow> ('k \<rightharpoonup> instant \<times> 'v) \<times> nat \<Rightarrow> ('k \<rightharpoonup> instant \<times> 'v) \<times> nat" where
  "tbc_expire_entry = (\<lambda>(time, key) (m, count).
     case m key of
       Some (t, v) \<Rightarrow> if t = time then (m(key := None), count + 1) else (m, count)
     | None \<Rightarrow> (m, count))"

definition tbc_expire_until :: "instant \<Rightarrow> ('k, 'v) time_bound_cache \<Rightarrow> ('k, 'v) time_bound_cache \<times> nat" where
  "tbc_expire_until inst c =
     (let (drain, expiry') = drain_until inst (tbc_expiry c);
          (m, count) = fold tbc_expire_entry drain (tbc_map c, 0)
      in (c\<lparr> tbc_map := m, tbc_expiry := expiry' \<rparr>, count))"

abbreviation tbc_expire :: "instant \<Rightarrow> ('k, 'v) time_bound_cache \<Rightarrow> ('k, 'v) time_bound_cache" where
  "tbc_expire inst c \<equiv> fst (tbc_expire_until inst c)"

subsection \<open>Expiry removes exactly what is due\<close>

text \<open>Every entry of the map has a timer at the instant the map records for it.\<close>

definition tbc_inv :: "('k, 'v) time_bound_cache \<Rightarrow> bool" where
  "tbc_inv c \<longleftrightarrow>
     tm_inv (tbc_expiry c) \<and>
     (\<forall>k t v. tbc_map c k = Some (t, v) \<longrightarrow>
        (\<exists>e \<in> set (tm_heap (tbc_expiry c)). tme_time e = t \<and> tme_item e = k))"

definition hit :: "(instant \<times> 'k) list \<Rightarrow> ('k \<rightharpoonup> instant \<times> 'v) \<Rightarrow> 'k \<Rightarrow> bool" where
  "hit L m k \<longleftrightarrow> (\<exists>t v. m k = Some (t, v) \<and> (t, k) \<in> set L)"

lemma hit_finite: "finite {k. hit L m k}"
  by (rule finite_subset [of _ "snd ` set L"]) (auto simp: hit_def intro: rev_image_eqI)

lemma hit_Cons_same:
  "m k = Some (t, v) \<Longrightarrow> {k'. hit ((t, k) # L) m k'} = insert k {k'. hit L (m(k := None)) k'}"
  by (auto simp: hit_def split: if_splits)

lemma hit_Cons_other:
  "\<nexists>v. m k = Some (t, v) \<Longrightarrow> hit ((t, k) # L) m = hit L m"
  by (auto simp: hit_def fun_eq_iff)

lemma fold_expire_entry:
  "fold tbc_expire_entry L (m, n) =
     ((\<lambda>k. if hit L m k then None else m k), n + card {k. hit L m k})"
proof (induction L arbitrary: m n)
  case Nil
  then show ?case by (simp add: hit_def)
next
  case (Cons x L)
  obtain t k where x: "x = (t, k)" by (cases x)
  show ?case
  proof (cases "\<exists>v. m k = Some (t, v)")
    case True
    then obtain v where v: "m k = Some (t, v)" by blast
    let ?m = "m(k := None)"
    have "\<not> hit L ?m k" by (simp add: hit_def)
    then have c: "card {k'. hit (x # L) m k'} = Suc (card {k'. hit L ?m k'})"
      unfolding x hit_Cons_same [of m k t v L, OF v] by (simp add: hit_finite)
    have f: "(\<lambda>k'. if hit L ?m k' then None else ?m k') =
             (\<lambda>k'. if hit (x # L) m k' then None else m k')"
      using v by (auto simp: x hit_def fun_eq_iff)
    have "tbc_expire_entry x (m, n) = (?m, Suc n)"
      using v by (simp add: tbc_expire_entry_def x)
    then have "fold tbc_expire_entry (x # L) (m, n) = fold tbc_expire_entry L (?m, Suc n)"
      by simp
    also have "\<dots> = ((\<lambda>k'. if hit (x # L) m k' then None else m k'), Suc n + card {k'. hit L ?m k'})"
      using Cons.IH [of ?m "Suc n"] unfolding f .
    finally show ?thesis unfolding c by simp
  next
    case False
    then have "tbc_expire_entry x (m, n) = (m, n)"
      by (auto simp: tbc_expire_entry_def x split: option.splits)
    moreover have "hit (x # L) m = hit L m" using hit_Cons_other [of m k t L] False x by simp
    ultimately show ?thesis using Cons.IH [of m n] by simp
  qed
qed

definition expired_key :: "instant \<Rightarrow> ('k, 'v) time_bound_cache \<Rightarrow> 'k \<Rightarrow> bool" where
  "expired_key inst c k \<longleftrightarrow> (\<exists>t v. tbc_map c k = Some (t, v) \<and> t \<le> inst)"

lemma hit_drained:
  assumes "tbc_inv c"
  shows "hit (map (\<lambda>e. (tme_time e, tme_item e)) (filter (due inst) (tm_heap (tbc_expiry c)))) (tbc_map c)
         = expired_key inst c"
proof (rule ext)
  fix k
  let ?L = "map (\<lambda>e. (tme_time e, tme_item e)) (filter (due inst) (tm_heap (tbc_expiry c)))"
  have "(t, k) \<in> set ?L \<longleftrightarrow> t \<le> inst" if "tbc_map c k = Some (t, v)" for t v
  proof -
    obtain e where "e \<in> set (tm_heap (tbc_expiry c))" "tme_time e = t" "tme_item e = k"
      using assms \<open>tbc_map c k = Some (t, v)\<close> unfolding tbc_inv_def by blast
    then show ?thesis by (auto simp: image_iff)
  qed
  then show "hit ?L (tbc_map c) k = expired_key inst c k"
    unfolding hit_def expired_key_def by blast
qed

lemma tbc_expire_until_eq:
  assumes "tbc_inv c"
  shows "tbc_expire_until inst c =
    (c\<lparr> tbc_map := (\<lambda>k. if expired_key inst c k then None else tbc_map c k),
        tbc_expiry := (tbc_expiry c)\<lparr> tm_heap :=
          filter (\<lambda>e. \<not> due inst e) (tm_heap (tbc_expiry c)) \<rparr> \<rparr>,
     card {k. expired_key inst c k})"
proof -
  have "sorted_wrt tme_before (tm_heap (tbc_expiry c))"
    using assms by (simp add: tbc_inv_def tm_inv_def)
  from drain_until_eq [OF this] show ?thesis
    by (simp add: tbc_expire_until_def fold_expire_entry hit_drained [OF assms])
qed

lemma tbc_inv_default [simp]: "tbc_inv tbc_default"
  by (simp add: tbc_inv_def tbc_default_def)

lemma tbc_inv_insert [simp]: "tbc_inv c \<Longrightarrow> tbc_inv (tbc_insert k v t c)"
  by (auto simp: tbc_inv_def tbc_insert_def)

lemma tbc_inv_expire [simp]:
  assumes "tbc_inv c"
  shows "tbc_inv (tbc_expire inst c)"
proof -
  let ?h = "filter (\<lambda>e. \<not> due inst e) (tm_heap (tbc_expiry c))"
  have 1: "tm_inv ((tbc_expiry c)\<lparr> tm_heap := ?h \<rparr>)"
    using assms by (simp add: tbc_inv_def tm_inv_def sorted_wrt_filter)
  have 2: "\<exists>e \<in> set ?h. tme_time e = t \<and> tme_item e = k"
    if kt: "tbc_map c k = Some (t, v)" and "\<not> expired_key inst c k" for k t v
  proof -
    obtain e where "e \<in> set (tm_heap (tbc_expiry c))" "tme_time e = t" "tme_item e = k"
      using assms kt unfolding tbc_inv_def by blast
    with that show ?thesis by (auto simp: expired_key_def)
  qed
  show ?thesis
    using 1 2 by (simp add: tbc_expire_until_eq [OF assms] tbc_inv_def split: if_splits) blast
qed

lemma tbc_map_expire:
  "tbc_inv c \<Longrightarrow> tbc_map (tbc_expire inst c) k = (if expired_key inst c k then None else tbc_map c k)"
  by (simp add: tbc_expire_until_eq)

text \<open>
  What a client of an expiring cache may rely on: an inserted entry is found, entries
  with another key are not touched, and expiring removes an entry exactly when its
  instant has come.
\<close>

locale expiring_cache =
  fixes ok :: "'c \<Rightarrow> bool"
    and entry :: "'c \<Rightarrow> 'k \<Rightarrow> (instant \<times> 'v) option"
    and empty :: 'c
    and ins :: "'k \<Rightarrow> 'v \<Rightarrow> instant \<Rightarrow> 'c \<Rightarrow> 'c"
    and expire :: "instant \<Rightarrow> 'c \<Rightarrow> 'c"
  assumes ok_empty: "ok empty"
    and entry_empty: "entry empty k = None"
    and ok_ins: "ok c \<Longrightarrow> ok (ins k v t c)"
    and entry_ins: "ok c \<Longrightarrow> entry (ins k v t c) k' = (if k' = k then Some (t, v) else entry c k')"
    and ok_expire: "ok c \<Longrightarrow> ok (expire now c)"
    and entry_expire: "ok c \<Longrightarrow>
      entry (expire now c) k =
        (case entry c k of Some (t, v) \<Rightarrow> if t \<le> now then None else Some (t, v) | None \<Rightarrow> None)"
begin

lemma fresh_survives:
  "ok c \<Longrightarrow> entry c k = Some (t, v) \<Longrightarrow> now < t \<Longrightarrow> entry (expire now c) k = Some (t, v)"
  by (simp add: entry_expire)

lemma stale_removed:
  "ok c \<Longrightarrow> entry c k = Some (t, v) \<Longrightarrow> t \<le> now \<Longrightarrow> entry (expire now c) k = None"
  by (simp add: entry_expire)

lemma expire_shrinks: "ok c \<Longrightarrow> entry (expire now c) k = Some e \<Longrightarrow> entry c k = Some e"
  by (auto simp: entry_expire split: option.splits if_splits)

lemma expire_twice:
  "ok c \<Longrightarrow> now \<le> now' \<Longrightarrow> entry (expire now' (expire now c)) k = entry (expire now' c) k"
  by (auto simp: entry_expire ok_expire split: option.splits)

end

interpretation tbc: expiring_cache tbc_inv tbc_map tbc_default tbc_insert tbc_expire
proof unfold_locales
  show "tbc_map tbc_default k = None" for k by (simp add: tbc_default_def)
  show "tbc_map (tbc_insert k v t c) k' = (if k' = k then Some (t, v) else tbc_map c k')"
    for c :: "('k, 'v) time_bound_cache" and k v t k' by (simp add: tbc_insert_def)
qed (auto simp: tbc_map_expire expired_key_def split: option.splits)

end
