(* ===== verification/Plumtree.thy ===== *)
theory Plumtree
  imports Std_Collections Time_Cache
begin

text \<open>
  \<^verbatim>\<open>src/src/proto/plumtree.rs\<close>: the broadcast protocol of one topic.  As in \<^verbatim>\<open>hyparview\<close>, an
  operation maps a configuration of state and pushed outputs to the next one, and \<open>None\<close>
  is a panic.

  Rounds are 16-bit.  Whether \<^verbatim>\<open>+\<close> panics or wraps on overflow is a property of the build:
  \<open>overflow_checks\<close> is true for a debug build and false for the release profile of
  \<^verbatim>\<open>Cargo.toml\<close>, which does not set it.  The content hash (crate \<^verbatim>\<open>blake3\<close>), the maximal encoded size
  of an \<^verbatim>\<open>IHave\<close> and the encoded size of the frame around a message (crate \<^verbatim>\<open>postcard\<close>) are
  parameters.  The statistics counters are 64-bit in
  the sources and unbounded here.  An \<^verbatim>\<open>Instant\<close> and a \<^verbatim>\<open>Duration\<close> are natural numbers.
\<close>

section \<open>Messages and events\<close>

type_synonym message_id = bytes
type_synonym round = u16

record pt_env =
  content_hash :: "bytes \<Rightarrow> message_id"
  ihave_max_size :: nat
  header_size :: nat
  overflow_checks :: bool

datatype delivery_scope = Swarm round | Neighbors

datatype scope = ScopeSwarm | ScopeNeighbors

fun is_direct :: "delivery_scope \<Rightarrow> bool" where
  "is_direct Neighbors = True"
| "is_direct (Swarm r) = (r = 0)"

record gossip =
  gs_id :: message_id
  gs_content :: bytes
  gs_scope :: delivery_scope

record ihave =
  ih_id :: message_id
  ih_round :: round

record graft =
  gr_id :: "message_id option"
  gr_round :: round

datatype pt_message = PtGossip gossip | PtPrune | PtGraft graft | PtIHave "ihave list"

record 'p gossip_event =
  ge_content :: bytes
  ge_delivered_from :: 'p
  ge_scope :: delivery_scope

datatype 'p pt_event = Received "'p gossip_event" | MissingMessages round 'p

datatype pt_timer = SendGraft message_id | DispatchLazyPush | EvictCache

datatype 'p pt_in =
    PtRecvMessage 'p pt_message
  | PtBroadcast bytes scope
  | PtTimerExpired pt_timer
  | PtNeighborUp 'p
  | PtNeighborDown 'p

datatype 'p pt_out =
    PtSendMessage 'p pt_message
  | PtScheduleTimer duration pt_timer
  | PtEmitEvent "'p pt_event"

definition checked_incr :: "pt_env \<Rightarrow> u16 \<Rightarrow> u16 option" where
  "checked_incr E r = (if overflow_checks E \<and> r = - 1 then None else Some (r + 1))"

definition round_next :: "pt_env \<Rightarrow> round \<Rightarrow> round option" where
  "round_next E r = checked_incr E r"

definition gossip_round :: "gossip \<Rightarrow> round option" where
  "gossip_round g = (case gs_scope g of Swarm r \<Rightarrow> Some r | Neighbors \<Rightarrow> None)"

text \<open>The outer option is the panic, the inner one the \<^verbatim>\<open>Option\<close> the Rust method returns.\<close>

definition next_round :: "pt_env \<Rightarrow> gossip \<Rightarrow> gossip option option" where
  "next_round E g =
     (case gs_scope g of
        Neighbors \<Rightarrow> Some None
      | Swarm r \<Rightarrow> map_option (\<lambda>r'. Some (g\<lparr> gs_scope := Swarm r' \<rparr>)) (round_next E r))"

definition gossip_validate :: "pt_env \<Rightarrow> gossip \<Rightarrow> bool" where
  "gossip_validate E g \<longleftrightarrow> content_hash E (gs_content g) = gs_id g"

definition gossip_event_from_message :: "gossip \<Rightarrow> 'p \<Rightarrow> 'p gossip_event" where
  "gossip_event_from_message g from =
     \<lparr> ge_content = gs_content g, ge_delivered_from = from, ge_scope = gs_scope g \<rparr>"

section \<open>Configuration and state\<close>

record pt_config =
  graft_timeout_1 :: duration
  graft_timeout_2 :: duration
  dispatch_timeout :: duration
  optimization_threshold :: round
  message_cache_retention :: duration
  message_id_retention :: duration
  cache_evict_interval :: duration

definition pt_default_config :: pt_config where
  "pt_default_config =
     \<lparr> graft_timeout_1 = 300, graft_timeout_2 = 200, dispatch_timeout = 15,
       optimization_threshold = 7, message_cache_retention = 30000,
       message_id_retention = 90000, cache_evict_interval = 1000 \<rparr>"

record 'p pt_state =
  pt_me :: 'p
  pt_config :: pt_config
  eager_push_peers :: "'p list"
  lazy_push_peers :: "'p list"
  lazy_push_queue :: "('p \<times> ihave list) list"
  missing_messages :: "message_id \<rightharpoonup> ('p \<times> round) list"
  received_messages :: "(message_id, unit) time_bound_cache"
  pt_cache :: "(message_id, gossip) time_bound_cache"
  graft_timer_scheduled :: "message_id set"
  dispatch_timer_scheduled :: bool
  pt_init :: bool
  locally_authored :: "message_id set"
  payload_messages_received :: nat
  control_messages_received :: nat
  max_last_delivery_hop :: u16
  max_seen_round :: round
  pt_max_message_size :: nat

definition pt_new :: "'p \<Rightarrow> pt_config \<Rightarrow> nat \<Rightarrow> 'p pt_state" where
  "pt_new me config max_message_size =
     \<lparr> pt_me = me, pt_config = config, eager_push_peers = [], lazy_push_peers = [],
       lazy_push_queue = [], missing_messages = Map.empty, received_messages = tbc_default,
       pt_cache = tbc_default, graft_timer_scheduled = {}, dispatch_timer_scheduled = False,
       pt_init = False, locally_authored = {}, payload_messages_received = 0,
       control_messages_received = 0, max_last_delivery_hop = 0, max_seen_round = 0,
       pt_max_message_size = max_message_size \<rparr>"

type_synonym 'p pt_conf = "'p pt_state \<times> 'p pt_out list"

section \<open>Operations\<close>

definition add_eager :: "'p::linorder \<Rightarrow> 'p pt_state \<Rightarrow> 'p pt_state" where
  "add_eager peer s =
     s\<lparr> lazy_push_peers := bset_remove peer (lazy_push_peers s),
        eager_push_peers := bset_insert peer (eager_push_peers s) \<rparr>"

definition add_lazy :: "'p::linorder \<Rightarrow> 'p pt_state \<Rightarrow> 'p pt_state" where
  "add_lazy peer s =
     s\<lparr> eager_push_peers := bset_remove peer (eager_push_peers s),
        lazy_push_peers := bset_insert peer (lazy_push_peers s) \<rparr>"

definition eager_push :: "gossip \<Rightarrow> 'p \<Rightarrow> 'p pt_conf \<Rightarrow> 'p pt_conf" where
  "eager_push gossip sender = (\<lambda>(s, io).
     (s, io @ map (\<lambda>peer. PtSendMessage peer (PtGossip gossip))
                  (filter (\<lambda>peer. peer \<noteq> pt_me s \<and> peer \<noteq> sender) (eager_push_peers s))))"

definition lazy_push :: "gossip \<Rightarrow> 'p::linorder \<Rightarrow> 'p pt_conf \<Rightarrow> 'p pt_conf" where
  "lazy_push gossip sender = (\<lambda>(s, io).
     case gossip_round gossip of
       None \<Rightarrow> (s, io)
     | Some round \<Rightarrow>
         let peers = filter (\<lambda>x. x \<noteq> sender) (lazy_push_peers s);
             has_lazy_peer = (peers \<noteq> []);
             s1 = s\<lparr> lazy_push_queue :=
               fold (\<lambda>peer. bmap_push peer \<lparr> ih_id = gs_id gossip, ih_round = round \<rparr>)
                    peers (lazy_push_queue s) \<rparr>
         in if has_lazy_peer \<and> \<not> dispatch_timer_scheduled s1
            then (s1\<lparr> dispatch_timer_scheduled := True \<rparr>,
                  io @ [PtScheduleTimer (dispatch_timeout (pt_config s1)) DispatchLazyPush])
            else (s1, io))"

definition on_evict_cache_timer :: "instant \<Rightarrow> 'p pt_conf \<Rightarrow> 'p pt_conf" where
  "on_evict_cache_timer now = (\<lambda>(s, io).
     (s\<lparr> pt_cache := tbc_expire now (pt_cache s),
         received_messages := tbc_expire now (received_messages s) \<rparr>,
      io @ [PtScheduleTimer (cache_evict_interval (pt_config s)) EvictCache]))"

definition on_neighbor_up :: "'p::linorder \<Rightarrow> 'p pt_conf \<Rightarrow> 'p pt_conf" where
  "on_neighbor_up peer = (\<lambda>(s, io). (add_eager peer s, io))"

definition retain_ihaves :: "'p \<Rightarrow> ('p \<times> round) list \<Rightarrow> ('p \<times> round) list" where
  "retain_ihaves peer ihaves = filter (\<lambda>(ihave_peer, _). ihave_peer \<noteq> peer) ihaves"

definition on_neighbor_down :: "'p \<Rightarrow> 'p pt_conf \<Rightarrow> 'p pt_conf" where
  "on_neighbor_down peer = (\<lambda>(s, io).
     (s\<lparr> missing_messages := (\<lambda>i.
           case missing_messages s i of
             None \<Rightarrow> None
           | Some ihaves \<Rightarrow>
               if retain_ihaves peer ihaves = [] then None else Some (retain_ihaves peer ihaves)),
         eager_push_peers := bset_remove peer (eager_push_peers s),
         lazy_push_peers := bset_remove peer (lazy_push_peers s) \<rparr>, io))"

definition on_graft :: "'p::linorder \<Rightarrow> graft \<Rightarrow> 'p pt_conf \<Rightarrow> 'p pt_conf" where
  "on_graft sender details = (\<lambda>(s, io).
     let s1 = add_eager sender s
     in case gr_id details of
          None \<Rightarrow> (s1, io)
        | Some i \<Rightarrow>
            (case tbc_get (pt_cache s1) i of
               Some message \<Rightarrow> (s1, io @ [PtSendMessage sender (PtGossip message)])
             | None \<Rightarrow> (s1, io)))"

definition on_send_graft_timer :: "message_id \<Rightarrow> 'p::linorder pt_conf \<Rightarrow> 'p pt_conf" where
  "on_send_graft_timer i = (\<lambda>(s, io).
     let s1 = s\<lparr> graft_timer_scheduled := graft_timer_scheduled s - {i} \<rparr>
     in if tbc_contains_key (received_messages s1) i then (s1, io)
        else
          case missing_messages s1 i of
            Some ((peer, round) # entries) \<Rightarrow>
              (add_eager peer (s1\<lparr> missing_messages := (missing_messages s1)(i \<mapsto> entries) \<rparr>),
               io @ [PtSendMessage peer (PtGraft \<lparr> gr_id = Some i, gr_round = round \<rparr>),
                     PtScheduleTimer (graft_timeout_2 (pt_config s1)) (SendGraft i)])
          | _ \<Rightarrow> (s1, io))"

definition on_ihave_entry :: "'p \<Rightarrow> ihave \<Rightarrow> 'p pt_conf \<Rightarrow> 'p pt_conf" where
  "on_ihave_entry sender ihave = (\<lambda>(s, io).
     if tbc_contains_key (received_messages s) (ih_id ihave) then (s, io)
     else
       let old = (case missing_messages s (ih_id ihave) of None \<Rightarrow> [] | Some l \<Rightarrow> l);
           s1 = s\<lparr> missing_messages :=
                  (missing_messages s)(ih_id ihave \<mapsto> old @ [(sender, ih_round ihave)]) \<rparr>
       in if ih_id ihave \<in> graft_timer_scheduled s1 then (s1, io)
          else (s1\<lparr> graft_timer_scheduled := insert (ih_id ihave) (graft_timer_scheduled s1) \<rparr>,
                io @ [PtScheduleTimer (graft_timeout_1 (pt_config s1)) (SendGraft (ih_id ihave))]))"

definition on_ihave :: "'p \<Rightarrow> ihave list \<Rightarrow> 'p pt_conf \<Rightarrow> 'p pt_conf" where
  "on_ihave sender ihaves c = fold (on_ihave_entry sender) ihaves c"

definition on_prune :: "'p::linorder \<Rightarrow> 'p pt_conf \<Rightarrow> 'p pt_conf" where
  "on_prune sender = (\<lambda>(s, io). (add_lazy sender s, io))"

text \<open>\<^verbatim>\<open>Iterator::min_by\<close> returns the first of several minimal elements.\<close>

fun min_by_round :: "('p \<times> round) list \<Rightarrow> ('p \<times> round) option" where
  "min_by_round [] = None"
| "min_by_round (x # xs) =
     (case min_by_round xs of
        None \<Rightarrow> Some x
      | Some y \<Rightarrow> if snd x \<le> snd y then Some x else Some y)"

definition optimize_tree ::
  "'p::linorder \<Rightarrow> gossip \<Rightarrow> ('p \<times> round) list \<Rightarrow> 'p pt_conf \<Rightarrow> 'p pt_conf option" where
  "optimize_tree gossip_sender message previous_ihaves = (\<lambda>(s, io).
     case gossip_round message of
       None \<Rightarrow> None
     | Some round \<Rightarrow>
         (case min_by_round previous_ihaves of
            None \<Rightarrow> Some (s, io)
          | Some (ihave_peer, ihave_round) \<Rightarrow>
              if ihave_round < round \<and> optimization_threshold (pt_config s) \<le> round - ihave_round
              then
                let (s1, io1) =
                  (if ihave_peer \<in> set (eager_push_peers s) then (s, io)
                   else (add_eager ihave_peer s,
                         io @ [PtSendMessage ihave_peer
                                 (PtGraft \<lparr> gr_id = None, gr_round = ihave_round \<rparr>)]))
                in Some (add_lazy gossip_sender s1, io1 @ [PtSendMessage gossip_sender PtPrune])
              else Some (s, io)))"

text \<open>
  \<^verbatim>\<open>on_gossip\<close> in its parts: a duplicate, and the bookkeeping for a new swarm message.
\<close>

definition on_gossip_duplicate :: "'p::linorder \<Rightarrow> gossip \<Rightarrow> 'p pt_conf \<Rightarrow> 'p pt_conf" where
  "on_gossip_duplicate sender message = (\<lambda>(s, io).
     if gs_id message \<in> locally_authored s
     then (s\<lparr> locally_authored := locally_authored s - {gs_id message} \<rparr>, io)
     else (add_lazy sender s, io @ [PtSendMessage sender PtPrune]))"

definition detect_gap :: "pt_env \<Rightarrow> 'p \<Rightarrow> round \<Rightarrow> 'p pt_conf \<Rightarrow> 'p pt_conf option" where
  "detect_gap E sender prev_round = (\<lambda>(s, io).
     case checked_incr E (max_seen_round s) of
       None \<Rightarrow> None
     | Some limit \<Rightarrow>
         Some (s\<lparr> max_seen_round := max (max_seen_round s) prev_round \<rparr>,
               if limit < prev_round
               then io @ [PtEmitEvent (MissingMessages (max_seen_round s) sender)]
               else io))"

definition forward_gossip ::
  "'p::linorder \<Rightarrow> gossip \<Rightarrow> instant \<Rightarrow> 'p pt_conf \<Rightarrow> 'p pt_conf" where
  "forward_gossip sender message now = (\<lambda>(s, io).
     lazy_push message sender
       (eager_push message sender
         (s\<lparr> pt_cache := tbc_insert (gs_id message) message
               (now + message_cache_retention (pt_config s)) (pt_cache s) \<rparr>, io)))"

definition settle_missing :: "'p::linorder \<Rightarrow> gossip \<Rightarrow> 'p pt_conf \<Rightarrow> 'p pt_conf option" where
  "settle_missing sender message = (\<lambda>(s, io).
     let previous_ihaves = missing_messages s (gs_id message);
         s1 = s\<lparr> graft_timer_scheduled := graft_timer_scheduled s - {gs_id message},
                 missing_messages := (missing_messages s)(gs_id message := None) \<rparr>
     in case previous_ihaves of
          None \<Rightarrow> Some (s1, io)
        | Some ihaves \<Rightarrow> optimize_tree sender message ihaves (s1, io))"

definition accept_swarm ::
  "pt_env \<Rightarrow> 'p::linorder \<Rightarrow> gossip \<Rightarrow> round \<Rightarrow> instant \<Rightarrow> 'p pt_conf \<Rightarrow> 'p pt_conf option" where
  "accept_swarm E sender message prev_round now = (\<lambda>(s, io).
     let s1 = s\<lparr> received_messages := tbc_insert (gs_id message) ()
                   (now + message_id_retention (pt_config s)) (received_messages s) \<rparr>
     in case detect_gap E sender prev_round (s1, io) of
          None \<Rightarrow> None
        | Some c2 \<Rightarrow>
            (case next_round E message of
               None \<Rightarrow> None
             | Some None \<Rightarrow> None
             | Some (Some message') \<Rightarrow>
                 map_option
                   (\<lambda>(s4, io4).
                      (s4\<lparr> max_last_delivery_hop := max (max_last_delivery_hop s4) prev_round \<rparr>, io4))
                   (settle_missing sender message' (forward_gossip sender message' now c2))))"

definition on_gossip ::
  "pt_env \<Rightarrow> 'p::linorder \<Rightarrow> gossip \<Rightarrow> instant \<Rightarrow> 'p pt_conf \<Rightarrow> 'p pt_conf option" where
  "on_gossip E sender message now = (\<lambda>(s, io).
     if \<not> gossip_validate E message then Some (s, io)
     else if tbc_contains_key (received_messages s) (gs_id message)
     then Some (on_gossip_duplicate sender message (s, io))
     else
       let io1 = io @ [PtEmitEvent (Received (gossip_event_from_message message sender))]
       in case gs_scope message of
            Neighbors \<Rightarrow> Some (s, io1)
          | Swarm prev_round \<Rightarrow> accept_swarm E sender message prev_round now (s, io1))"

definition broadcast :: "pt_env \<Rightarrow> bytes \<Rightarrow> scope \<Rightarrow> instant \<Rightarrow> 'p::linorder pt_conf \<Rightarrow> 'p pt_conf" where
  "broadcast E content scope now = (\<lambda>(s, io).
     let i = content_hash E content;
         dscope = (case scope of ScopeNeighbors \<Rightarrow> Neighbors | ScopeSwarm \<Rightarrow> Swarm 0);
         message = \<lparr> gs_id = i, gs_content = content, gs_scope = dscope \<rparr>;
         me = pt_me s;
         c1 = (case dscope of
                 Swarm _ \<Rightarrow>
                   lazy_push message me
                     (s\<lparr> received_messages := tbc_insert i ()
                           (now + message_id_retention (pt_config s)) (received_messages s),
                         pt_cache := tbc_insert i message
                           (now + message_cache_retention (pt_config s)) (pt_cache s),
                         locally_authored := insert i (locally_authored s) \<rparr>, io)
               | Neighbors \<Rightarrow> (s, io))
     in eager_push message me c1)"

definition usize_sub :: "pt_env \<Rightarrow> nat \<Rightarrow> nat \<Rightarrow> nat option" where
  "usize_sub E a b =
     (if b \<le> a then Some (a - b) else if overflow_checks E then None else Some (a + 2 ^ 64 - b))"

function chunks :: "nat \<Rightarrow> 'a list \<Rightarrow> 'a list list" where
  "chunks n xs = (if xs = [] \<or> n = 0 then [] else take n xs # chunks n (drop n xs))"
  by pat_completeness auto
termination
  by (relation "measure (\<lambda>(n, xs). length xs)") auto

declare chunks.simps [simp del]

text \<open>
  \<^verbatim>\<open>on_dispatch_timer\<close>: \<^verbatim>\<open>slice::chunks\<close> panics on a chunk length of zero, division by the size of
  an \<^verbatim>\<open>IHave\<close> is by a positive constant.
\<close>

definition ihave_chunk_len :: "pt_env \<Rightarrow> 'p pt_state \<Rightarrow> nat option" where
  "ihave_chunk_len E s =
     (case usize_sub E (pt_max_message_size s) 1 of
        None \<Rightarrow> None
      | Some n \<Rightarrow>
          (case usize_sub E n 2 of
             None \<Rightarrow> None
           | Some chunk_size \<Rightarrow> Some (chunk_size div ihave_max_size E)))"

definition on_dispatch_timer :: "pt_env \<Rightarrow> 'p pt_conf \<Rightarrow> 'p pt_conf option" where
  "on_dispatch_timer E = (\<lambda>(s, io).
     case ihave_chunk_len E s of
       None \<Rightarrow> None
     | Some chunk_len \<Rightarrow>
         if chunk_len = 0 \<and> lazy_push_queue s \<noteq> [] then None
         else Some (s\<lparr> lazy_push_queue := [], dispatch_timer_scheduled := False \<rparr>,
                    io @ concat (map (\<lambda>(peer, list).
                           map (\<lambda>chunk. PtSendMessage peer (PtIHave chunk)) (chunks chunk_len list))
                         (lazy_push_queue s))))"

section \<open>Dispatch\<close>

definition is_gossip_message :: "pt_message \<Rightarrow> bool" where
  "is_gossip_message m = (case m of PtGossip _ \<Rightarrow> True | _ \<Rightarrow> False)"

definition pt_handle_message ::
  "pt_env \<Rightarrow> 'p::linorder \<Rightarrow> pt_message \<Rightarrow> instant \<Rightarrow> 'p pt_conf \<Rightarrow> 'p pt_conf option" where
  "pt_handle_message E sender message now = (\<lambda>(s, io).
     let s1 = (if is_gossip_message message
               then s\<lparr> payload_messages_received := payload_messages_received s + 1 \<rparr>
               else s\<lparr> control_messages_received := control_messages_received s + 1 \<rparr>)
     in case message of
          PtGossip details \<Rightarrow> on_gossip E sender details now (s1, io)
        | PtPrune \<Rightarrow> Some (on_prune sender (s1, io))
        | PtIHave details \<Rightarrow> Some (on_ihave sender details (s1, io))
        | PtGraft details \<Rightarrow> Some (on_graft sender details (s1, io)))"

definition pt_initialize :: "instant \<Rightarrow> 'p pt_conf \<Rightarrow> 'p pt_conf" where
  "pt_initialize now = (\<lambda>(s, io).
     if pt_init s then (s, io) else on_evict_cache_timer now (s\<lparr> pt_init := True \<rparr>, io))"

definition pt_dispatch ::
  "pt_env \<Rightarrow> 'p::linorder pt_in \<Rightarrow> instant \<Rightarrow> 'p pt_conf \<Rightarrow> 'p pt_conf option" where
  "pt_dispatch E event now c =
     (case event of
        PtRecvMessage from message \<Rightarrow> pt_handle_message E from message now c
      | PtBroadcast data scope \<Rightarrow> Some (broadcast E data scope now c)
      | PtNeighborUp peer \<Rightarrow> Some (on_neighbor_up peer c)
      | PtNeighborDown peer \<Rightarrow> Some (on_neighbor_down peer c)
      | PtTimerExpired timer \<Rightarrow>
          (case timer of
             DispatchLazyPush \<Rightarrow> on_dispatch_timer E c
           | SendGraft i \<Rightarrow> Some (on_send_graft_timer i c)
           | EvictCache \<Rightarrow> Some (on_evict_cache_timer now c)))"

definition pt_handle ::
  "pt_env \<Rightarrow> 'p::linorder pt_in \<Rightarrow> instant \<Rightarrow> 'p pt_conf \<Rightarrow> 'p pt_conf option" where
  "pt_handle E event now c = pt_dispatch E event now (pt_initialize now c)"

end
