(* ===== verification/Topic.thy ===== *)
theory Topic
  imports Hyparview Plumtree
begin

text \<open>
  \<^verbatim>\<open>src/src/proto/topic.rs\<close>: the protocol state of one topic, which owns a membership state and
  a broadcast state, routes each input event to one of them, and forwards the neighbour
  events of the membership layer to the broadcast layer.
\<close>

section \<open>Messages and events\<close>

datatype 'p tp_message = TpSwarm "'p hv_message" | TpGossip pt_message

datatype message_kind = DataKind | ControlKind

fun tp_message_kind :: "'p tp_message \<Rightarrow> message_kind" where
  "tp_message_kind (TpSwarm _) = ControlKind"
| "tp_message_kind (TpGossip m) = (case m of PtGossip _ \<Rightarrow> DataKind | _ \<Rightarrow> ControlKind)"

definition is_disconnect :: "'p tp_message \<Rightarrow> bool" where
  "is_disconnect m = (case m of TpSwarm (HvDisconnect _) \<Rightarrow> True | _ \<Rightarrow> False)"

datatype 'p tp_event =
    TpNeighborUp 'p
  | TpNeighborDown 'p
  | TpReceived "'p gossip_event"
  | TpMissingMessages round 'p

datatype 'p tp_timer = TpSwarmTimer "'p hv_timer" | TpGossipTimer pt_timer

datatype 'p tp_command = TpJoin "'p list" | TpBroadcast bytes scope | TpQuit

datatype 'p tp_in =
    TpRecvMessage 'p "'p tp_message"
  | TpCommand "'p tp_command"
  | TpTimerExpired "'p tp_timer"
  | TpPeerDisconnected 'p
  | TpUpdatePeerData peer_data

datatype 'p tp_out =
    TpSendMessage 'p "'p tp_message"
  | TpEmitEvent "'p tp_event"
  | TpScheduleTimer duration "'p tp_timer"
  | TpDisconnectPeer 'p
  | TpPeerData 'p peer_data

fun event_from_hv :: "'p hv_event \<Rightarrow> 'p tp_event" where
  "event_from_hv (HvNeighborUp p) = TpNeighborUp p"
| "event_from_hv (HvNeighborDown p) = TpNeighborDown p"

fun event_from_pt :: "'p pt_event \<Rightarrow> 'p tp_event" where
  "event_from_pt (Received e) = TpReceived e"
| "event_from_pt (MissingMessages r p) = TpMissingMessages r p"

fun out_from_hv :: "'p hv_out \<Rightarrow> 'p tp_out" where
  "out_from_hv (HvSendMessage to m) = TpSendMessage to (TpSwarm m)"
| "out_from_hv (HvScheduleTimer d t) = TpScheduleTimer d (TpSwarmTimer t)"
| "out_from_hv (HvDisconnectPeer p) = TpDisconnectPeer p"
| "out_from_hv (HvEmitEvent e) = TpEmitEvent (event_from_hv e)"
| "out_from_hv (HvPeerData p d) = TpPeerData p d"

fun out_from_pt :: "'p pt_out \<Rightarrow> 'p tp_out" where
  "out_from_pt (PtSendMessage to m) = TpSendMessage to (TpGossip m)"
| "out_from_pt (PtScheduleTimer d t) = TpScheduleTimer d (TpGossipTimer t)"
| "out_from_pt (PtEmitEvent e) = TpEmitEvent (event_from_pt e)"

section \<open>Configuration and state\<close>

record tp_config =
  membership :: hv_config
  broadcast_cfg :: pt_config
  max_message_size :: nat

definition default_max_message_size :: nat where
  "default_max_message_size = 4096"

definition min_max_message_size :: nat where
  "min_max_message_size = 512"

definition tp_default_config :: tp_config where
  "tp_default_config =
     \<lparr> membership = hv_default_config, broadcast_cfg = pt_default_config,
       max_message_size = default_max_message_size \<rparr>"

record ('p, 'r) tp_state =
  tp_me :: 'p
  tp_swarm :: "('p, 'r) hv_state"
  tp_gossip :: "'p pt_state"
  tp_outbox :: "'p tp_out list"
  messages_sent :: nat
  messages_received :: nat

definition with_rng ::
  "pt_env \<Rightarrow> 'p \<Rightarrow> peer_data option \<Rightarrow> tp_config \<Rightarrow> 'r \<Rightarrow> ('p, 'r) tp_state option" where
  "with_rng E me me_data config rng =
     (if max_message_size config < min_max_message_size then None
      else
        case usize_sub E (max_message_size config) (header_size E) of
          None \<Rightarrow> None
        | Some max_payload_size \<Rightarrow>
            Some \<lparr> tp_me = me, tp_swarm = hv_new me me_data (membership config) rng,
                   tp_gossip = pt_new me (broadcast_cfg config) max_payload_size,
                   tp_outbox = [], messages_sent = 0, messages_received = 0 \<rparr>)"

section \<open>Handling an event\<close>

definition swarm_call ::
  "('p, 'r) ext \<Rightarrow> 'p hv_in \<Rightarrow> ('p, 'r) tp_state \<Rightarrow> ('p, 'r) tp_state option" where
  "swarm_call X e s =
     map_option
       (\<lambda>(sw, out). s\<lparr> tp_swarm := sw, tp_outbox := tp_outbox s @ map out_from_hv out \<rparr>)
       (hv_handle X e (tp_swarm s, []))"

definition gossip_call ::
  "pt_env \<Rightarrow> 'p::linorder pt_in \<Rightarrow> instant \<Rightarrow> ('p, 'r) tp_state \<Rightarrow> ('p, 'r) tp_state option" where
  "gossip_call E e now s =
     map_option
       (\<lambda>(g, out). s\<lparr> tp_gossip := g, tp_outbox := tp_outbox s @ map out_from_pt out \<rparr>)
       (pt_handle E e now (tp_gossip s, []))"

fun join_all :: "('p, 'r) ext \<Rightarrow> 'p list \<Rightarrow> ('p, 'r) tp_state \<Rightarrow> ('p, 'r) tp_state option" where
  "join_all X [] s = Some s"
| "join_all X (p # ps) s = Option.bind (swarm_call X (HvRequestJoin p) s) (join_all X ps)"

definition tp_dispatch ::
  "('p::linorder, 'r) ext \<Rightarrow> pt_env \<Rightarrow> 'p tp_in \<Rightarrow> instant \<Rightarrow> ('p, 'r) tp_state \<Rightarrow>
   ('p, 'r) tp_state option" where
  "tp_dispatch X E event now s =
     (case event of
        TpCommand command \<Rightarrow>
          (case command of
             TpJoin peers \<Rightarrow> join_all X peers s
           | TpBroadcast data scope \<Rightarrow> gossip_call E (PtBroadcast data scope) now s
           | TpQuit \<Rightarrow> swarm_call X HvQuit s)
      | TpRecvMessage from message \<Rightarrow>
          let s1 = s\<lparr> messages_received := messages_received s + 1 \<rparr>
          in (case message of
                TpSwarm m \<Rightarrow> swarm_call X (HvRecvMessage from m) s1
              | TpGossip m \<Rightarrow> gossip_call E (PtRecvMessage from m) now s1)
      | TpTimerExpired timer \<Rightarrow>
          (case timer of
             TpSwarmTimer t \<Rightarrow> swarm_call X (HvTimerExpired t) s
           | TpGossipTimer t \<Rightarrow> gossip_call E (PtTimerExpired t) now s)
      | TpPeerDisconnected peer \<Rightarrow>
          Option.bind (swarm_call X (HvPeerDisconnected peer) s)
            (gossip_call E (PtNeighborDown peer) now)
      | TpUpdatePeerData data \<Rightarrow> swarm_call X (HvUpdatePeerData data) s)"

text \<open>
  The loop over the outbox that forwards the neighbour events.  Its outputs go to a
  separate queue that is appended to the outbox afterwards.
\<close>

fun neighbor_input :: "'p tp_out \<Rightarrow> 'p pt_in option" where
  "neighbor_input (TpEmitEvent (TpNeighborUp p)) = Some (PtNeighborUp p)"
| "neighbor_input (TpEmitEvent (TpNeighborDown p)) = Some (PtNeighborDown p)"
| "neighbor_input _ = None"

fun forward_neighbors ::
  "pt_env \<Rightarrow> instant \<Rightarrow> 'p::linorder tp_out list \<Rightarrow> 'p pt_conf \<Rightarrow> 'p pt_conf option" where
  "forward_neighbors E now [] c = Some c"
| "forward_neighbors E now (e # es) c =
     (case neighbor_input e of
        None \<Rightarrow> forward_neighbors E now es c
      | Some i \<Rightarrow> Option.bind (pt_handle E i now c) (forward_neighbors E now es))"

definition is_send :: "'p tp_out \<Rightarrow> bool" where
  "is_send e = (case e of TpSendMessage _ _ \<Rightarrow> True | _ \<Rightarrow> False)"

definition tp_flush ::
  "pt_env \<Rightarrow> instant \<Rightarrow> ('p::linorder, 'r) tp_state \<Rightarrow> (('p, 'r) tp_state \<times> 'p tp_out list) option" where
  "tp_flush E now s =
     (case forward_neighbors E now (tp_outbox s) (tp_gossip s, []) of
        None \<Rightarrow> None
      | Some (g, io) \<Rightarrow>
          let outbox = tp_outbox s @ map out_from_pt io
          in Some (s\<lparr> tp_gossip := g,
                      messages_sent := messages_sent s + length (filter is_send outbox),
                      tp_outbox := [] \<rparr>, outbox))"

definition tp_handle ::
  "('p::linorder, 'r) ext \<Rightarrow> pt_env \<Rightarrow> 'p tp_in \<Rightarrow> instant \<Rightarrow> ('p, 'r) tp_state \<Rightarrow>
   (('p, 'r) tp_state \<times> 'p tp_out list) option" where
  "tp_handle X E event now s = Option.bind (tp_dispatch X E event now s) (tp_flush E now)"

definition has_active_peers :: "('p, 'r) tp_state \<Rightarrow> bool" where
  "has_active_peers s \<longleftrightarrow> active_view (tp_swarm s) \<noteq> []"

definition tp_reset_stats :: "('p, 'r) tp_state \<Rightarrow> ('p, 'r) tp_state" where
  "tp_reset_stats s =
     s\<lparr> tp_gossip := (tp_gossip s)\<lparr> payload_messages_received := 0, control_messages_received := 0,
                                    max_last_delivery_hop := 0 \<rparr>,
        tp_swarm := (tp_swarm s)\<lparr> total_connections := 0 \<rparr>,
        messages_sent := 0, messages_received := 0 \<rparr>"

end
