(* ===== verification/Proto_State.thy ===== *)
theory Proto_State
  imports Topic
begin

text \<open>
  \<^verbatim>\<open>src/src/proto/state.rs\<close>: the protocol state of a node, which multiplexes the states of its
  topics and keeps track of which topics use the connection to a peer.

  A \<^verbatim>\<open>HashMap\<close> is iterated in an unspecified order.  \<^verbatim>\<open>State::handle\<close> iterates over the topics
  when an event concerns all of them; the order is an argument of the model.  The metrics
  counters have no influence on the protocol and are left out.
\<close>

section \<open>Messages and events\<close>

type_synonym topic_id = bytes

record 'p st_message =
  msg_topic :: topic_id
  msg_message :: "'p tp_message"

record 'p st_timer =
  tm_topic :: topic_id
  tm_timer :: "'p tp_timer"

datatype 'p st_in =
    StRecvMessage 'p "'p st_message"
  | StCommand topic_id "'p tp_command"
  | StTimerExpired "'p st_timer"
  | StPeerDisconnected 'p
  | StUpdatePeerData peer_data

datatype 'p st_out =
    StSendMessage 'p "'p st_message"
  | StEmitEvent topic_id "'p tp_event"
  | StScheduleTimer duration "'p st_timer"
  | StDisconnectPeer 'p
  | StPeerData 'p peer_data

datatype 'p in_event_mapped = All "'p tp_in" | TopicEvent topic_id "'p tp_in"

fun in_event_map :: "'p st_in \<Rightarrow> 'p in_event_mapped" where
  "in_event_map (StRecvMessage from m) = TopicEvent (msg_topic m) (TpRecvMessage from (msg_message m))"
| "in_event_map (StCommand topic command) = TopicEvent topic (TpCommand command)"
| "in_event_map (StTimerExpired t) = TopicEvent (tm_topic t) (TpTimerExpired (tm_timer t))"
| "in_event_map (StPeerDisconnected peer) = All (TpPeerDisconnected peer)"
| "in_event_map (StUpdatePeerData data) = All (TpUpdatePeerData data)"

section \<open>State\<close>

type_synonym 'p conns_map = "'p \<rightharpoonup> topic_id set"

record ('p, 'r) st_state =
  st_me :: 'p
  st_me_data :: peer_data
  st_config :: tp_config
  st_rng :: 'r
  st_states :: "topic_id \<rightharpoonup> ('p, 'r) tp_state"
  st_outbox :: "'p st_out list"
  peer_topics :: "'p conns_map"

definition st_new :: "'p \<Rightarrow> peer_data \<Rightarrow> tp_config \<Rightarrow> 'r \<Rightarrow> ('p, 'r) st_state option" where
  "st_new me me_data config rng =
     (if max_message_size config < min_max_message_size then None
      else Some \<lparr> st_me = me, st_me_data = me_data, st_config = config, st_rng = rng,
                  st_states = Map.empty, st_outbox = [], peer_topics = Map.empty \<rparr>)"

definition st_has_active_peers :: "topic_id \<Rightarrow> ('p, 'r) st_state \<Rightarrow> bool" where
  "st_has_active_peers topic s =
     (case st_states s topic of None \<Rightarrow> False | Some t \<Rightarrow> has_active_peers t)"

definition st_reset_stats :: "topic_id \<Rightarrow> ('p, 'r) st_state \<Rightarrow> ('p, 'r) st_state" where
  "st_reset_stats topic s =
     (case st_states s topic of
        None \<Rightarrow> s
      | Some t \<Rightarrow> s\<lparr> st_states := (st_states s)(topic \<mapsto> tp_reset_stats t) \<rparr>)"

section \<open>Handling an event\<close>

definition handle_out_event ::
  "topic_id \<Rightarrow> 'p tp_out \<Rightarrow> 'p conns_map \<times> 'p st_out list \<Rightarrow> 'p conns_map \<times> 'p st_out list" where
  "handle_out_event topic event = (\<lambda>(conns, outbox).
     case event of
       TpSendMessage to message \<Rightarrow>
         (conns, outbox @ [StSendMessage to \<lparr> msg_topic = topic, msg_message = message \<rparr>])
     | TpEmitEvent ev \<Rightarrow> (conns, outbox @ [StEmitEvent topic ev])
     | TpScheduleTimer delay timer \<Rightarrow>
         (conns, outbox @ [StScheduleTimer delay \<lparr> tm_topic = topic, tm_timer = timer \<rparr>])
     | TpDisconnectPeer peer \<Rightarrow>
         (case conns peer of
            None \<Rightarrow> (conns, outbox)
          | Some topics \<Rightarrow>
              let removed = (topic \<in> topics);
                  topics' = topics - {topic};
                  empty = (removed \<or> topics' = {})
              in if empty then (conns(peer := None), outbox @ [StDisconnectPeer peer])
                 else (conns(peer \<mapsto> topics'), outbox))
     | TpPeerData peer data \<Rightarrow> (conns, outbox @ [StPeerData peer data]))"

definition note_sender :: "topic_id \<Rightarrow> 'p tp_in \<Rightarrow> 'p conns_map \<Rightarrow> 'p conns_map" where
  "note_sender topic event conns =
     (case event of
        TpRecvMessage from _ \<Rightarrow>
          conns(from \<mapsto> insert topic (case conns from of None \<Rightarrow> {} | Some ts \<Rightarrow> ts))
      | _ \<Rightarrow> conns)"

text \<open>One topic handles an event, and its outputs are passed on.\<close>

definition run_topic ::
  "('p::linorder, 'r) ext \<Rightarrow> pt_env \<Rightarrow> 'p tp_in \<Rightarrow> instant \<Rightarrow> topic_id \<Rightarrow> ('p, 'r) tp_state \<Rightarrow>
   ('p, 'r) st_state \<Rightarrow> ('p, 'r) st_state option" where
  "run_topic X E event now topic t s =
     (case tp_handle X E event now t of
        None \<Rightarrow> None
      | Some (t', out) \<Rightarrow>
          let (conns, outbox) = fold (handle_out_event topic) out (peer_topics s, st_outbox s)
          in Some (s\<lparr> st_states := (st_states s)(topic \<mapsto> t'), peer_topics := conns,
                      st_outbox := outbox \<rparr>))"

definition is_join :: "'p tp_in \<Rightarrow> bool" where
  "is_join e = (case e of TpCommand (TpJoin _) \<Rightarrow> True | _ \<Rightarrow> False)"

definition is_quit :: "'p tp_in \<Rightarrow> bool" where
  "is_quit e = (case e of TpCommand TpQuit \<Rightarrow> True | _ \<Rightarrow> False)"

definition init_topic ::
  "('p, 'r) ext \<Rightarrow> pt_env \<Rightarrow> topic_id \<Rightarrow> 'p tp_in \<Rightarrow> ('p, 'r) st_state \<Rightarrow> ('p, 'r) st_state option" where
  "init_topic X E topic event s =
     (if is_join event \<and> st_states s topic = None
      then
        let (r, rng) = from_rng X (st_rng s)
        in map_option (\<lambda>t. s\<lparr> st_states := (st_states s)(topic \<mapsto> t), st_rng := rng \<rparr>)
             (with_rng E (st_me s) (Some (st_me_data s)) (st_config s) r)
      else Some s)"

definition handle_topic_event ::
  "('p::linorder, 'r) ext \<Rightarrow> pt_env \<Rightarrow> topic_id \<Rightarrow> 'p tp_in \<Rightarrow> instant \<Rightarrow> ('p, 'r) st_state \<Rightarrow>
   ('p, 'r) st_state option" where
  "handle_topic_event X E topic event now s =
     Option.bind (init_topic X E topic event s) (\<lambda>s1.
       map_option
         (\<lambda>s2. if is_quit event then s2\<lparr> st_states := (st_states s2)(topic := None) \<rparr> else s2)
         (case st_states s1 topic of
            None \<Rightarrow> Some s1
          | Some t \<Rightarrow>
              run_topic X E event now topic t
                (s1\<lparr> peer_topics := note_sender topic event (peer_topics s1) \<rparr>)))"

fun run_topics ::
  "('p::linorder, 'r) ext \<Rightarrow> pt_env \<Rightarrow> 'p tp_in \<Rightarrow> instant \<Rightarrow> topic_id list \<Rightarrow>
   ('p, 'r) st_state \<Rightarrow> ('p, 'r) st_state option" where
  "run_topics X E event now [] s = Some s"
| "run_topics X E event now (topic # topics) s =
     (case st_states s topic of
        None \<Rightarrow> run_topics X E event now topics s
      | Some t \<Rightarrow> Option.bind (run_topic X E event now topic t s) (run_topics X E event now topics))"

definition update_me_data :: "'p tp_in \<Rightarrow> ('p, 'r) st_state \<Rightarrow> ('p, 'r) st_state" where
  "update_me_data e s = (case e of TpUpdatePeerData data \<Rightarrow> s\<lparr> st_me_data := data \<rparr> | _ \<Rightarrow> s)"

text \<open>\<open>order\<close> lists the keys of the map of topics in the order the iterator visits them.\<close>

definition st_handle ::
  "('p::linorder, 'r) ext \<Rightarrow> pt_env \<Rightarrow> (topic_id set \<Rightarrow> topic_id list) \<Rightarrow> 'p st_in \<Rightarrow> instant \<Rightarrow>
   ('p, 'r) st_state \<Rightarrow> (('p, 'r) st_state \<times> 'p st_out list) option" where
  "st_handle X E order event now s =
     map_option (\<lambda>s'. (s'\<lparr> st_outbox := [] \<rparr>, st_outbox s'))
       (case in_event_map event of
          TopicEvent topic e \<Rightarrow> handle_topic_event X E topic e now s
        | All e \<Rightarrow> run_topics X E e now (order (dom (st_states s))) (update_me_data e s))"

end
