(* ===== verification/Hyparview_Inv.thy ===== *)
theory Hyparview_Inv
  imports Hyparview
begin

text \<open>
  The invariant of the membership state and what the handlers promise.

  \<open>hv_wf\<close>: the two views are duplicate-free, disjoint, never contain the node itself and
  respect their capacities.  \<open>nbr_log\<close> replays the emitted \<^verbatim>\<open>NeighborUp\<close> and
  \<^verbatim>\<open>NeighborDown\<close> events; every handler but \<^verbatim>\<open>handle_quit\<close> keeps the replay equal to the
  active view, which is what the broadcast layer relies on.
\<close>

section \<open>The invariant\<close>

definition hv_wf :: "('p, 'r) hv_state \<Rightarrow> bool" where
  "hv_wf s \<longleftrightarrow>
     distinct (active_view s) \<and> distinct (passive_view s) \<and>
     set (active_view s) \<inter> set (passive_view s) = {} \<and>
     hv_me s \<notin> set (active_view s) \<and> hv_me s \<notin> set (passive_view s) \<and>
     length (active_view s) \<le> max 1 (active_view_capacity (hv_config s)) \<and>
     length (passive_view s) \<le> max 1 (passive_view_capacity (hv_config s)) \<and>
     finite (pending_neighbor_requests s)"

fun apply_nbr :: "'p hv_out \<Rightarrow> 'p set \<Rightarrow> 'p set" where
  "apply_nbr (HvEmitEvent (HvNeighborUp p)) A = insert p A"
| "apply_nbr (HvEmitEvent (HvNeighborDown p)) A = A - {p}"
| "apply_nbr _ A = A"

definition nbr_log :: "'p hv_out list \<Rightarrow> 'p set \<Rightarrow> 'p set" where
  "nbr_log io A = fold apply_nbr io A"

lemma nbr_log_simps [simp]:
  "nbr_log [] A = A"
  "nbr_log (e # io) A = nbr_log io (apply_nbr e A)"
  "nbr_log (io @ io') A = nbr_log io' (nbr_log io A)"
  by (simp_all add: nbr_log_def)

lemma nbr_log_sends [simp]: "nbr_log (map (\<lambda>n. HvSendMessage n (m n)) xs) A = A"
  by (induction xs) simp_all

lemma hv_wf_new: "hv_wf (hv_new me data cfg rng)"
  by (simp add: hv_wf_def hv_new_def)

section \<open>What each operation leaves alone\<close>

lemma insert_peer_info_frame [simp]:
  "active_view (fst (insert_peer_info i c)) = active_view (fst c)"
  "passive_view (fst (insert_peer_info i c)) = passive_view (fst c)"
  "hv_me (fst (insert_peer_info i c)) = hv_me (fst c)"
  "hv_config (fst (insert_peer_info i c)) = hv_config (fst c)"
  "hv_rng (fst (insert_peer_info i c)) = hv_rng (fst c)"
  "pending_neighbor_requests (fst (insert_peer_info i c)) = pending_neighbor_requests (fst c)"
  "alive_disconnect_peers (fst (insert_peer_info i c)) = alive_disconnect_peers (fst c)"
  "nbr_log (snd (insert_peer_info i c)) A = nbr_log (snd c) A"
  by (cases c; simp add: insert_peer_info_def Let_def split: option.splits)+

lemma send_neighbor_frame [simp]:
  "active_view (fst (send_neighbor p pr c)) = active_view (fst c)"
  "passive_view (fst (send_neighbor p pr c)) = passive_view (fst c)"
  "hv_me (fst (send_neighbor p pr c)) = hv_me (fst c)"
  "hv_config (fst (send_neighbor p pr c)) = hv_config (fst c)"
  "pending_neighbor_requests (fst (send_neighbor p pr c)) = insert p (pending_neighbor_requests (fst c))"
  "nbr_log (snd (send_neighbor p pr c)) A = nbr_log (snd c) A"
  by (cases c; auto simp: send_neighbor_def)+

lemma send_shuffle_reply_frame [simp]:
  "active_view (fst (send_shuffle_reply X p n c)) = active_view (fst c)"
  "passive_view (fst (send_shuffle_reply X p n c)) = passive_view (fst c)"
  "hv_me (fst (send_shuffle_reply X p n c)) = hv_me (fst c)"
  "hv_config (fst (send_shuffle_reply X p n c)) = hv_config (fst c)"
  "pending_neighbor_requests (fst (send_shuffle_reply X p n c)) = pending_neighbor_requests (fst c)"
  "peer_data_map (fst (send_shuffle_reply X p n c)) = peer_data_map (fst c)"
  "alive_disconnect_peers (fst (send_shuffle_reply X p n c)) = alive_disconnect_peers (fst c)"
  "nbr_log (snd (send_shuffle_reply X p n c)) A = nbr_log (snd c) A"
  by (cases c; simp add: send_shuffle_reply_def Let_def split: prod.splits)+

lemma send_disconnect_frame [simp]:
  "active_view (fst (send_disconnect X p b c)) = active_view (fst c)"
  "passive_view (fst (send_disconnect X p b c)) = passive_view (fst c)"
  "hv_me (fst (send_disconnect X p b c)) = hv_me (fst c)"
  "hv_config (fst (send_disconnect X p b c)) = hv_config (fst c)"
  "pending_neighbor_requests (fst (send_disconnect X p b c)) = pending_neighbor_requests (fst c)"
  "peer_data_map (fst (send_disconnect X p b c)) = peer_data_map (fst c)"
  "alive_disconnect_peers (fst (send_disconnect X p b c)) = alive_disconnect_peers (fst c)"
  "nbr_log (snd (send_disconnect X p b c)) A = nbr_log (snd c) A"
  by (cases c; simp add: send_disconnect_def Let_def case_prod_unfold)+

lemma add_passive_frame [simp]:
  "active_view (fst (add_passive X p d c)) = active_view (fst c)"
  "hv_me (fst (add_passive X p d c)) = hv_me (fst c)"
  "hv_config (fst (add_passive X p d c)) = hv_config (fst c)"
  "pending_neighbor_requests (fst (add_passive X p d c)) = pending_neighbor_requests (fst c)"
  "alive_disconnect_peers (fst (add_passive X p d c)) = alive_disconnect_peers (fst c)"
  "nbr_log (snd (add_passive X p d c)) A = nbr_log (snd c) A"
  by (simp_all add: add_passive_def Let_def case_prod_unfold)

lemma add_passive_nodes_frame [simp]:
  "active_view (fst (add_passive_nodes X ns c)) = active_view (fst c)"
  "hv_me (fst (add_passive_nodes X ns c)) = hv_me (fst c)"
  "hv_config (fst (add_passive_nodes X ns c)) = hv_config (fst c)"
  "pending_neighbor_requests (fst (add_passive_nodes X ns c)) = pending_neighbor_requests (fst c)"
  "nbr_log (snd (add_passive_nodes X ns c)) A = nbr_log (snd c) A"
  unfolding add_passive_nodes_def by (induction ns arbitrary: c) simp_all

lemma refill_frame [simp]:
  "active_view (fst (refill_active_from_passive X sk c)) = active_view (fst c)"
  "passive_view (fst (refill_active_from_passive X sk c)) = passive_view (fst c)"
  "hv_me (fst (refill_active_from_passive X sk c)) = hv_me (fst c)"
  "hv_config (fst (refill_active_from_passive X sk c)) = hv_config (fst c)"
  "nbr_log (snd (refill_active_from_passive X sk c)) A = nbr_log (snd c) A"
  by (cases c; simp add: refill_active_from_passive_def Let_def case_prod_unfold split: option.splits)+

lemma refill_pending_finite [simp]:
  "finite (pending_neighbor_requests (fst (refill_active_from_passive X sk c)))
   \<longleftrightarrow> finite (pending_neighbor_requests (fst c))"
  by (cases c; simp add: refill_active_from_passive_def Let_def case_prod_unfold split: option.splits)

section \<open>Every operation keeps the invariant\<close>

lemma hv_wf_cong:
  "active_view s' = active_view s \<Longrightarrow> passive_view s' = passive_view s \<Longrightarrow> hv_me s' = hv_me s \<Longrightarrow>
   hv_config s' = hv_config s \<Longrightarrow>
   finite (pending_neighbor_requests s') = finite (pending_neighbor_requests s) \<Longrightarrow>
   hv_wf s' = hv_wf s"
  by (simp add: hv_wf_def)

lemma insert_peer_info_wf [simp]: "hv_wf (fst (insert_peer_info i c)) = hv_wf (fst c)"
  and send_neighbor_wf [simp]: "hv_wf (fst (send_neighbor p pr c)) = hv_wf (fst c)"
  and send_shuffle_reply_wf [simp]: "hv_wf (fst (send_shuffle_reply X p n c)) = hv_wf (fst c)"
  and send_disconnect_wf [simp]: "hv_wf (fst (send_disconnect X p b c)) = hv_wf (fst c)"
  and refill_wf [simp]: "hv_wf (fst (refill_active_from_passive X sk c)) = hv_wf (fst c)"
  by (rule hv_wf_cong; simp)+

lemma add_passive_view:
  assumes X: "ext_ok X" and wf: "hv_wf (fst c)"
  shows "distinct (passive_view (fst (add_passive X p d c)))"
    and "set (passive_view (fst (add_passive X p d c))) \<subseteq>
           set (passive_view (fst c)) \<union> ({p} - set (active_view (fst c)) - {hv_me (fst c)})"
    and "length (passive_view (fst (add_passive X p d c)))
           \<le> max 1 (passive_view_capacity (hv_config (fst c)))"
proof -
  define s where "s = fst (insert_peer_info \<lparr> pi_id = p, pi_data = d \<rparr> c)"
  have s: "passive_view s = passive_view (fst c)" "active_view s = active_view (fst c)"
    "hv_me s = hv_me (fst c)" "hv_config s = hv_config (fst c)" by (simp_all add: s_def)
  have d: "distinct (passive_view s)" and l: "length (passive_view s) \<le> max 1 (passive_view_capacity (hv_config s))"
    using wf by (simp_all add: s hv_wf_def)
  have "distinct v \<and> set v \<subseteq> set (passive_view s) \<union> ({p} - set (active_view s) - {hv_me s}) \<and>
        length v \<le> max 1 (passive_view_capacity (hv_config s))"
    if v: "v = passive_view (fst (add_passive X p d c))" for v
  proof (cases "p \<in> set (active_view s) \<or> p \<in> set (passive_view s) \<or> p = hv_me s")
    case True
    then have "v = passive_view s"
      by (simp add: v add_passive_def Let_def case_prod_unfold s_def)
    with d l show ?thesis by auto
  next
    case False
    show ?thesis
    proof (cases "passive_is_full s")
      case True
      obtain y w r where rr: "remove_random X (passive_view s) (hv_rng s) = (y, w, r)"
        by (cases "remove_random X (passive_view s) (hv_rng s)") auto
      note w = remove_random_facts [OF X rr d]
      have "p \<notin> set w" using w(3) False by auto
      then have "v = w @ [p]"
        using False True rr
        by (simp add: v add_passive_def Let_def case_prod_unfold s_def ixs_insert_eq [OF X])
      with w False l \<open>p \<notin> set w\<close> show ?thesis by auto
    next
      case nf: False
      then have "v = passive_view s @ [p]"
        using False by (simp add: v add_passive_def Let_def case_prod_unfold s_def ixs_insert_eq [OF X])
      with False d nf show ?thesis by (auto simp: passive_is_full_def)
    qed
  qed
  from this [OF refl]
  show "distinct (passive_view (fst (add_passive X p d c)))"
    and "set (passive_view (fst (add_passive X p d c))) \<subseteq>
           set (passive_view (fst c)) \<union> ({p} - set (active_view (fst c)) - {hv_me (fst c)})"
    and "length (passive_view (fst (add_passive X p d c)))
           \<le> max 1 (passive_view_capacity (hv_config (fst c)))"
    by (simp_all add: s)
qed

lemma add_passive_wf [wf_intros]:
  assumes "ext_ok X" "hv_wf (fst c)"
  shows "hv_wf (fst (add_passive X p d c))"
  using assms(2) add_passive_view [OF assms, of p d] unfolding hv_wf_def by auto

lemma add_passive_nodes_wf [wf_intros]:
  "ext_ok X \<Longrightarrow> hv_wf (fst c) \<Longrightarrow> hv_wf (fst (add_passive_nodes X ns c))"
  unfolding add_passive_nodes_def by (induction ns arbitrary: c) (simp_all add: wf_intros)

lemma announce_removal_frame [simp]:
  "active_view (fst (announce_removal X p re c)) = active_view (fst c)"
  "passive_view (fst (announce_removal X p re c)) = passive_view (fst c)"
  "hv_me (fst (announce_removal X p re c)) = hv_me (fst c)"
  "hv_config (fst (announce_removal X p re c)) = hv_config (fst c)"
  "pending_neighbor_requests (fst (announce_removal X p re c)) = pending_neighbor_requests (fst c)"
  "nbr_log (snd (announce_removal X p re c)) A = nbr_log (snd c) A"
  by (cases re; simp add: announce_removal_def)+

lemma keep_as_passive_frame [simp]:
  "active_view (fst (snd (keep_as_passive p re c))) = active_view (fst c)"
  "passive_view (fst (snd (keep_as_passive p re c))) = passive_view (fst c)"
  "hv_me (fst (snd (keep_as_passive p re c))) = hv_me (fst c)"
  "hv_config (fst (snd (keep_as_passive p re c))) = hv_config (fst c)"
  "pending_neighbor_requests (fst (snd (keep_as_passive p re c))) = pending_neighbor_requests (fst c)"
  "nbr_log (snd (snd (keep_as_passive p re c))) A = nbr_log (snd c) A"
  by (cases c; cases re; simp add: keep_as_passive_def)+

lemma file_removed_frame [simp]:
  "active_view (fst (file_removed X p re c)) = active_view (fst c)"
  "hv_me (fst (file_removed X p re c)) = hv_me (fst c)"
  "hv_config (fst (file_removed X p re c)) = hv_config (fst c)"
  "pending_neighbor_requests (fst (file_removed X p re c)) = pending_neighbor_requests (fst c)"
  "nbr_log (snd (file_removed X p re c)) A = nbr_log (snd c) A"
  by (cases c; simp add: file_removed_def Let_def case_prod_unfold)+

lemma announce_removal_wf [simp]: "hv_wf (fst (announce_removal X p re c)) = hv_wf (fst c)"
  and keep_as_passive_wf [simp]: "hv_wf (fst (snd (keep_as_passive p re c))) = hv_wf (fst c)"
  by (rule hv_wf_cong; simp)+

lemma hv_wf_update [simp]:
  "hv_wf (s\<lparr> peer_data_map := m \<rparr>) = hv_wf s"
  "hv_wf (s\<lparr> alive_disconnect_peers := a \<rparr>) = hv_wf s"
  "hv_wf (s\<lparr> hv_rng := r \<rparr>) = hv_wf s"
  "hv_wf (s\<lparr> total_connections := n \<rparr>) = hv_wf s"
  "hv_wf (s\<lparr> shuffle_scheduled := b \<rparr>) = hv_wf s"
  "hv_wf (s\<lparr> hv_me_data := d \<rparr>) = hv_wf s"
  "hv_wf (s\<lparr> pending_neighbor_requests := pending_neighbor_requests s - {p} \<rparr>) = hv_wf s"
  by (rule hv_wf_cong; simp)+

lemma file_removed_wf [wf_intros]:
  "ext_ok X \<Longrightarrow> hv_wf (fst c) \<Longrightarrow> hv_wf (fst (file_removed X p re c))"
  by (cases c) (simp add: file_removed_def Let_def case_prod_unfold add_passive_wf)

text \<open>
  The removal first takes the peer out of the active view and may then put it into the
  passive one; in between the invariant holds with the peer in neither.
\<close>

lemma remove_active_by_index_facts:
  fixes reason
  assumes X: "ext_ok X" and wf: "hv_wf (fst c)" and i: "i < length (active_view (fst c))"
  defines "p \<equiv> active_view (fst c) ! i" and "c' \<equiv> snd (remove_active_by_index X i reason c)"
  shows "fst (remove_active_by_index X i reason c) = Some p"
    and "hv_wf (fst c')"
    and "set (active_view (fst c')) = set (active_view (fst c)) - {p}"
    and "length (active_view (fst c')) = length (active_view (fst c)) - 1"
    and "nbr_log (snd c') A = nbr_log (snd c) A - {p}"
    and "hv_me (fst c') = hv_me (fst c)" and "hv_config (fst c') = hv_config (fst c)"
    and "pending_neighbor_requests (fst c') = pending_neighbor_requests (fst c)"
proof -
  obtain s io where c: "c = (s, io)" by (cases c)
  obtain y v where r: "remove_index X (active_view s) i = (y, v)"
    by (cases "remove_index X (active_view s) i")
  have ds: "distinct (active_view s)" using wf by (simp add: c hv_wf_def)
  have f: "y = Some p" "length v = length (active_view s) - 1"
    "distinct v" "set v = set (active_view s) - {p}"
    using remove_at_facts [OF ext_swap_remove_index [OF X], of i "active_view s" y v] i r ds
    by (simp_all add: c remove_index_def p_def)
  define c1 where "c1 = (s\<lparr> active_view := v \<rparr>, io @ [HvEmitEvent (HvNeighborDown p)])"
  define k where "k = keep_as_passive p reason (announce_removal X p reason c1)"
  have e: "remove_active_by_index X i reason c =
             (Some p, if fst k then file_removed X p reason (snd k) else snd k)"
    by (simp add: remove_active_by_index_def c r f(1) k_def c1_def Let_def case_prod_unfold)
  have c'_eq: "c' = (if fst k then file_removed X p reason (snd k) else snd k)"
    by (simp add: c'_def e)
  have wf1: "hv_wf (fst c1)" using wf f by (auto simp: c c1_def hv_wf_def)
  show "fst (remove_active_by_index X i reason c) = Some p" by (simp add: e)
  show "hv_wf (fst c')"
    using wf1 by (simp add: c'_eq k_def file_removed_wf [OF X])
  show "set (active_view (fst c')) = set (active_view (fst c)) - {p}"
    and "length (active_view (fst c')) = length (active_view (fst c)) - 1"
    and "nbr_log (snd c') A = nbr_log (snd c) A - {p}"
    and "hv_me (fst c') = hv_me (fst c)" and "hv_config (fst c') = hv_config (fst c)"
    and "pending_neighbor_requests (fst c') = pending_neighbor_requests (fst c)"
    by (simp_all add: c'_eq k_def c1_def c f)
qed

lemma free_random_slot_facts:
  assumes X: "ext_ok X" and wf: "hv_wf (fst c)"
  defines "c' \<equiv> free_random_slot_in_active_view X c"
  shows "hv_wf (fst c')"
    and "set (active_view (fst c')) \<subseteq> set (active_view (fst c))"
    and "length (active_view (fst c')) = length (active_view (fst c)) - 1"
    and "nbr_log (snd c) A = set (active_view (fst c)) \<Longrightarrow> nbr_log (snd c') A = set (active_view (fst c'))"
    and "hv_me (fst c') = hv_me (fst c)" and "hv_config (fst c') = hv_config (fst c)"
    and "pending_neighbor_requests (fst c') = pending_neighbor_requests (fst c)"
proof -
  obtain s io where c: "c = (s, io)" by (cases c)
  obtain i r where p: "pick_random_index X (active_view s) (hv_rng s) = (i, r)"
    by (cases "pick_random_index X (active_view s) (hv_rng s)")
  let ?c = "(s\<lparr> hv_rng := r \<rparr>, io)"
  have "hv_wf (fst c') \<and> set (active_view (fst c')) \<subseteq> set (active_view s) \<and>
    length (active_view (fst c')) = length (active_view s) - 1 \<and>
    (nbr_log io A = set (active_view s) \<longrightarrow> nbr_log (snd c') A = set (active_view (fst c'))) \<and>
    hv_me (fst c') = hv_me s \<and> hv_config (fst c') = hv_config s \<and>
    pending_neighbor_requests (fst c') = pending_neighbor_requests s"
  proof (cases i)
    case None
    with p have "active_view s = []" using pick_random_index_None by metis
    with None p wf show ?thesis by (simp add: c'_def c free_random_slot_in_active_view_def)
  next
    case (Some j)
    then have j: "j < length (active_view (fst ?c))"
      using pick_random_index_range [OF X] p by simp
    have wf': "hv_wf (fst ?c)" using wf by (simp add: c)
    have c': "c' = snd (remove_active_by_index X j Random ?c)"
      using Some p by (simp add: c'_def c free_random_slot_in_active_view_def)
    note f = remove_active_by_index_facts [OF X wf' j, of Random, folded c']
    show ?thesis
      using f(2) f(3) f(4) f(5) [of A] f(6) f(7) f(8) by auto
  qed
  then show "hv_wf (fst c')"
    and "set (active_view (fst c')) \<subseteq> set (active_view (fst c))"
    and "length (active_view (fst c')) = length (active_view (fst c)) - 1"
    and "nbr_log (snd c) A = set (active_view (fst c)) \<Longrightarrow> nbr_log (snd c') A = set (active_view (fst c'))"
    and "hv_me (fst c') = hv_me (fst c)" and "hv_config (fst c') = hv_config (fst c)"
    and "pending_neighbor_requests (fst c') = pending_neighbor_requests (fst c)"
    by (simp_all add: c)
qed

text \<open>\<^verbatim>\<open>remove_active\<close> cannot panic: the index it unwraps was just looked up.\<close>

lemma remove_active_facts:
  assumes X: "ext_ok X" and wf: "hv_wf (fst c)"
  shows "\<exists>c'. remove_active X p reason c = Some c' \<and> hv_wf (fst c') \<and>
    set (active_view (fst c')) = set (active_view (fst c)) - {p} \<and>
    (nbr_log (snd c) A = set (active_view (fst c)) \<longrightarrow> nbr_log (snd c') A = set (active_view (fst c'))) \<and>
    hv_me (fst c') = hv_me (fst c) \<and> hv_config (fst c') = hv_config (fst c)"
proof (cases "index_of (active_view (fst c)) p")
  case None
  then have "p \<notin> set (active_view (fst c))" by (simp add: index_of_None)
  with None wf show ?thesis by (auto simp: remove_active_def)
next
  case (Some i)
  have i: "i < length (active_view (fst c))" "active_view (fst c) ! i = p"
    using index_of_Some [OF Some] by simp_all
  note f = remove_active_by_index_facts [OF X wf i(1), of reason, unfolded i(2)]
  define c1 where "c1 = snd (remove_active_by_index X i reason c)"
  have "remove_active_by_index X i reason c = (Some p, c1)"
    using f(1) by (simp add: c1_def prod_eq_iff)
  then have "remove_active X p reason c = Some (refill_active_from_passive X {p} c1)"
    using Some by (simp add: remove_active_def)
  then show ?thesis
    using f(2,3,5,6,7) [folded c1_def] by auto
qed

lemma add_active_unchecked_facts:
  fixes pr reply
  assumes X: "ext_ok X" and wf: "hv_wf (fst c)"
    and p: "p \<noteq> hv_me (fst c)" "p \<notin> set (active_view (fst c))"
    and l: "length (active_view (fst c)) < max 1 (active_view_capacity (hv_config (fst c)))"
  defines "c' \<equiv> add_active_unchecked X p pr reply c"
  shows "hv_wf (fst c')"
    and "active_view (fst c') = active_view (fst c) @ [p]"
    and "nbr_log (snd c') A = insert p (nbr_log (snd c) A)"
    and "hv_me (fst c') = hv_me (fst c)" and "hv_config (fst c') = hv_config (fst c)"
proof -
  obtain s io where c: "c = (s, io)" by (cases c)
  obtain y v where r: "ixs_remove X (passive_view s) p = (y, v)" by (cases "ixs_remove X (passive_view s) p")
  have "distinct (passive_view s)" using wf by (simp add: c hv_wf_def)
  note v = ixs_remove_facts [OF X r this]
  define t where "t = s\<lparr> passive_view := v, active_view := active_view s @ [p] \<rparr>"
  have e: "c' = (if reply then send_neighbor p pr (t, io @ [HvEmitEvent (HvNeighborUp p)])
                 else (t, io @ [HvEmitEvent (HvNeighborUp p)]))"
    using p by (simp add: c'_def add_active_unchecked_def c r ixs_insert_eq [OF X] Let_def t_def)
  have "hv_wf t" using wf p l v(1,2,3) by (auto simp: hv_wf_def c t_def)
  then show "hv_wf (fst c')" by (simp add: e)
  show "active_view (fst c') = active_view (fst c) @ [p]"
    and "nbr_log (snd c') A = insert p (nbr_log (snd c) A)"
    and "hv_me (fst c') = hv_me (fst c)" and "hv_config (fst c') = hv_config (fst c)"
    by (simp_all add: e t_def c)
qed

definition log_ok :: "'p set \<Rightarrow> ('p, 'r) hv_conf \<Rightarrow> bool" where
  "log_ok A c \<longleftrightarrow> nbr_log (snd c) A = set (active_view (fst c))"

lemma add_active_facts:
  fixes p pr reply d
  assumes X: "ext_ok X" and wf: "hv_wf (fst c)"
  defines "acc \<equiv> fst (add_active X p d pr reply c)" and "c' \<equiv> snd (add_active X p d pr reply c)"
  shows "acc \<longleftrightarrow> p \<noteq> hv_me (fst c) \<and> (p \<in> set (active_view (fst c)) \<or> pr = High \<or> \<not> active_is_full (fst c))"
    and "acc \<Longrightarrow> p \<in> set (active_view (fst c'))"
    and "\<not> acc \<Longrightarrow> active_view (fst c') = active_view (fst c) \<and> passive_view (fst c') = passive_view (fst c)"
    and "hv_wf (fst c')"
    and "log_ok A c \<Longrightarrow> log_ok A c'"
    and "hv_me (fst c') = hv_me (fst c)" and "hv_config (fst c') = hv_config (fst c)"
proof -
  define c1 where "c1 = insert_peer_info \<lparr> pi_id = p, pi_data = d \<rparr> c"
  have fr: "active_view (fst c1) = active_view (fst c)" "passive_view (fst c1) = passive_view (fst c)"
    "hv_me (fst c1) = hv_me (fst c)" "hv_config (fst c1) = hv_config (fst c)" "hv_wf (fst c1)"
    "log_ok A c1 = log_ok A c" "active_is_full (fst c1) = active_is_full (fst c)"
    using wf by (simp_all add: c1_def log_ok_def active_is_full_def)
  define c2 where "c2 = (if active_is_full (fst c) then free_random_slot_in_active_view X c1 else c1)"
  have room: "length (active_view (fst c2)) < max 1 (active_view_capacity (hv_config (fst c2)))"
    using free_random_slot_facts(3,6) [OF X fr(5)] fr wf
    by (auto simp: c2_def active_is_full_def hv_wf_def)
  have c2: "hv_wf (fst c2)" "set (active_view (fst c2)) \<subseteq> set (active_view (fst c))"
    "log_ok A c \<Longrightarrow> log_ok A c2" "hv_me (fst c2) = hv_me (fst c)" "hv_config (fst c2) = hv_config (fst c)"
    using free_random_slot_facts [OF X fr(5)] fr by (auto simp: c2_def log_ok_def)
  have goal: "(acc \<longleftrightarrow> p \<noteq> hv_me (fst c) \<and> (p \<in> set (active_view (fst c)) \<or> pr = High \<or> \<not> active_is_full (fst c))) \<and>
    (acc \<longrightarrow> p \<in> set (active_view (fst c'))) \<and>
    (\<not> acc \<longrightarrow> active_view (fst c') = active_view (fst c) \<and> passive_view (fst c') = passive_view (fst c)) \<and>
    hv_wf (fst c') \<and> (log_ok A c \<longrightarrow> log_ok A c') \<and>
    hv_me (fst c') = hv_me (fst c) \<and> hv_config (fst c') = hv_config (fst c)"
  proof (cases "p = hv_me (fst c)")
    case True
    with wf show ?thesis by (simp add: acc_def c'_def add_active_def)
  next
    case ne: False
    show ?thesis
    proof (cases "p \<in> set (active_view (fst c))")
      case True
      with ne have "add_active X p d pr reply c = (True, if reply then send_neighbor p pr c1 else c1)"
        by (simp add: add_active_def c1_def Let_def)
      with True ne fr show ?thesis by (simp add: acc_def c'_def log_ok_def)
    next
      case out: False
      show ?thesis
      proof (cases "pr = Low \<and> active_is_full (fst c)")
        case True
        with ne out fr have "add_active X p d pr reply c = (False, c1)"
          by (simp add: add_active_def c1_def Let_def)
        with True ne out fr show ?thesis by (simp add: acc_def c'_def)
      next
        case False
        have e: "add_active X p d pr reply c = (True, add_active_unchecked X p pr reply c2)"
          using False ne out fr
          by (cases pr; cases "active_is_full (fst c)")
             (simp_all add: add_active_def c1_def [symmetric] c2_def Let_def)
        have "p \<noteq> hv_me (fst c2)" "p \<notin> set (active_view (fst c2))" using ne out c2 by auto
        note u = add_active_unchecked_facts [OF X c2(1) this room, of pr reply]
        have acc: "acc" and c': "c' = add_active_unchecked X p pr reply c2"
          by (simp_all add: acc_def c'_def e)
        have "pr = High \<or> \<not> active_is_full (fst c)" using False by (cases pr) simp_all
        with acc u(1,2,4,5) u(3) [of A] c2 ne show ?thesis
          unfolding c' by (simp add: log_ok_def)
      qed
    qed
  qed
  show "acc \<longleftrightarrow> p \<noteq> hv_me (fst c) \<and> (p \<in> set (active_view (fst c)) \<or> pr = High \<or> \<not> active_is_full (fst c))"
    and "acc \<Longrightarrow> p \<in> set (active_view (fst c'))"
    and "\<not> acc \<Longrightarrow> active_view (fst c') = active_view (fst c) \<and> passive_view (fst c') = passive_view (fst c)"
    and "hv_wf (fst c')" and "log_ok A c \<Longrightarrow> log_ok A c'"
    and "hv_me (fst c') = hv_me (fst c)" and "hv_config (fst c') = hv_config (fst c)"
    using goal by auto
qed

section \<open>The handlers\<close>

text \<open>What every handler but \<^verbatim>\<open>handle_quit\<close> keeps: the invariant, the log, the node and its configuration.\<close>

definition keeps :: "'p set \<Rightarrow> ('p, 'r) hv_conf \<Rightarrow> ('p, 'r) hv_conf \<Rightarrow> bool" where
  "keeps A c c' \<longleftrightarrow>
     hv_wf (fst c') \<and> (log_ok A c \<longrightarrow> log_ok A c') \<and>
     hv_me (fst c') = hv_me (fst c) \<and> hv_config (fst c') = hv_config (fst c)"

lemma keeps_trans: "keeps A c c' \<Longrightarrow> keeps A c' c'' \<Longrightarrow> keeps A c c''"
  by (simp add: keeps_def)

lemma keeps_wf: "keeps A c c' \<Longrightarrow> hv_wf (fst c')"
  by (simp add: keeps_def)

lemma handle_join_keeps [wf_intros]: "hv_wf (fst c) \<Longrightarrow> keeps A c (handle_join p c)"
  by (cases c) (simp add: handle_join_def keeps_def log_ok_def)

lemma add_active_keeps: "ext_ok X \<Longrightarrow> hv_wf (fst c) \<Longrightarrow> keeps A c (snd (add_active X p d pr reply c))"
  by (simp add: keeps_def add_active_facts(4,5,6,7))

lemma send_neighbor_keeps: "hv_wf (fst c) \<Longrightarrow> keeps A c (send_neighbor p pr c)"
  and insert_peer_info_keeps: "hv_wf (fst c) \<Longrightarrow> keeps A c (insert_peer_info i c)"
  and send_disconnect_keeps: "hv_wf (fst c) \<Longrightarrow> keeps A c (send_disconnect X p b c)"
  and send_shuffle_reply_keeps: "hv_wf (fst c) \<Longrightarrow> keeps A c (send_shuffle_reply X p n c)"
  and refill_keeps: "hv_wf (fst c) \<Longrightarrow> keeps A c (refill_active_from_passive X sk c)"
  by (simp_all add: keeps_def log_ok_def)

lemma add_passive_keeps: "ext_ok X \<Longrightarrow> hv_wf (fst c) \<Longrightarrow> keeps A c (add_passive X p d c)"
  and add_passive_nodes_keeps: "ext_ok X \<Longrightarrow> hv_wf (fst c) \<Longrightarrow> keeps A c (add_passive_nodes X ns c)"
  by (simp_all add: keeps_def log_ok_def wf_intros)

lemma keeps_state:
  "hv_wf (fst c) \<Longrightarrow> hv_wf s' \<Longrightarrow> active_view s' = active_view (fst c) \<Longrightarrow> hv_me s' = hv_me (fst c) \<Longrightarrow>
   hv_config s' = hv_config (fst c) \<Longrightarrow> io' = snd c \<Longrightarrow> keeps A c (s', io')"
  by (simp add: keeps_def log_ok_def)

lemma on_join_keeps [wf_intros]:
  assumes "ext_ok X" "hv_wf (fst c)"
  shows "keeps A c (on_join X p d c)"
proof -
  let ?c = "snd (add_active X p d High True c)"
  have "keeps A ?c (on_join X p d c)"
    using keeps_wf [OF add_active_keeps [OF assms]]
    by (simp add: on_join_def keeps_def log_ok_def Let_def case_prod_unfold)
  then show ?thesis using add_active_keeps [OF assms] keeps_trans by blast
qed

lemma on_neighbor_keeps [wf_intros]:
  assumes "ext_ok X" "hv_wf (fst c)"
  shows "keeps A c (on_neighbor X p d c)"
proof -
  obtain s io where c: "c = (s, io)" by (cases c)
  let ?c0 = "(s\<lparr> pending_neighbor_requests := pending_neighbor_requests s - {p} \<rparr>, io)"
  let ?r = "add_active X p (nb_data d) (nb_priority d) (p \<notin> pending_neighbor_requests s) ?c0"
  have 0: "keeps A c ?c0" using assms(2) by (intro keeps_state) (simp_all add: c)
  have 1: "keeps A ?c0 (snd ?r)" using add_active_keeps [OF assms(1) keeps_wf [OF 0]] .
  have "keeps A (snd ?r) (on_neighbor X p d c)"
    using keeps_wf [OF 1] send_disconnect_keeps [OF keeps_wf [OF 1], of A X p True]
    by (cases "fst ?r") (simp_all add: on_neighbor_def c Let_def case_prod_unfold keeps_def)
  with 0 1 show ?thesis using keeps_trans by blast
qed

lemma on_shuffle_keeps [wf_intros]:
  assumes X: "ext_ok X" and wf: "hv_wf (fst c)"
  shows "keeps A c (on_shuffle X p m c)"
proof -
  obtain s io where c: "c = (s, io)" by (cases c)
  show ?thesis
  proof (cases "ttl_expired (sh_ttl m) \<or> length (active_view s) \<le> 1")
    case True
    then have "on_shuffle X p m c =
        send_shuffle_reply X (sh_origin m) (length (sh_nodes m)) (add_passive_nodes X (sh_nodes m) c)"
      by (simp add: on_shuffle_def c)
    then show ?thesis
      using add_passive_nodes_keeps [OF X wf] send_shuffle_reply_keeps keeps_wf keeps_trans by metis
  next
    case False
    with wf show ?thesis
      by (simp add: on_shuffle_def c case_prod_unfold keeps_def log_ok_def split: option.splits)
  qed
qed

lemma on_shuffle_reply_keeps [wf_intros]:
  assumes "ext_ok X" "hv_wf (fst c)"
  shows "keeps A c (on_shuffle_reply X ns c)"
  unfolding on_shuffle_reply_def
  using add_passive_nodes_keeps [OF assms, of A ns] refill_keeps keeps_wf keeps_trans by blast

lemma handle_shuffle_timer_keeps [wf_intros]:
  "hv_wf (fst c) \<Longrightarrow> keeps A c (handle_shuffle_timer X c)"
  by (cases c)
     (simp add: handle_shuffle_timer_def keeps_def log_ok_def Let_def case_prod_unfold split: option.splits)

lemma passive_remove_wf:
  assumes "ext_ok X" "hv_wf s"
  shows "hv_wf (s\<lparr> passive_view := snd (ixs_remove X (passive_view s) p) \<rparr>)"
proof -
  obtain y v where r: "ixs_remove X (passive_view s) p = (y, v)" by (cases "ixs_remove X (passive_view s) p")
  have "distinct (passive_view s)" using assms(2) by (simp add: hv_wf_def)
  from ixs_remove_facts [OF assms(1) r this] assms(2) r show ?thesis by (auto simp: hv_wf_def)
qed

lemma handle_pending_neighbor_timer_keeps [wf_intros]:
  assumes "ext_ok X" "hv_wf (fst c)"
  shows "keeps A c (handle_pending_neighbor_timer X p c)"
proof -
  obtain s io where c: "c = (s, io)" by (cases c)
  let ?t = "s\<lparr> pending_neighbor_requests := pending_neighbor_requests s - {p} \<rparr>"
  let ?u = "?t\<lparr> passive_view := snd (ixs_remove X (passive_view ?t) p) \<rparr>"
  have "hv_wf ?t" using assms(2) by (simp add: c)
  then have u: "hv_wf ?u" by (rule passive_remove_wf [OF assms(1)])
  then have "keeps A c (?u, io)" using assms(2) by (intro keeps_state) (simp_all add: c)
  moreover have "keeps A (?u, io) (refill_active_from_passive X {} (?u, io))"
    using u by (intro refill_keeps) simp
  ultimately have "keeps A c (refill_active_from_passive X {} (?u, io))" by (rule keeps_trans)
  moreover have "keeps A c c" using assms(2) by (simp add: keeps_def)
  ultimately show ?thesis by (simp add: handle_pending_neighbor_timer_def c)
qed

lemma remove_active_keeps:
  assumes "ext_ok X" "hv_wf (fst c)"
  shows "\<exists>c'. remove_active X p re c = Some c' \<and> keeps A c c'"
  using remove_active_facts [OF assms, of p re A] by (auto simp: keeps_def log_ok_def)

lemma on_disconnect_keeps [wf_intros]:
  assumes "ext_ok X" "hv_wf (fst c)"
  shows "\<exists>c'. on_disconnect X p d c = Some c' \<and> keeps A c c'"
proof -
  obtain s io where c: "c = (s, io)" by (cases c)
  let ?t = "s\<lparr> pending_neighbor_requests := pending_neighbor_requests s - {p} \<rparr>"
  have t: "keeps A c (?t, io)" using assms(2) by (intro keeps_state) (simp_all add: c)
  have "\<exists>c'. remove_active X p (DisconnectReceived (dc_alive d)) (?t, io) = Some c' \<and> keeps A (?t, io) c'"
    using remove_active_keeps [OF assms(1) keeps_wf [OF t]] .
  moreover have "keeps A (?t, io) (?t\<lparr> alive_disconnect_peers := a \<rparr>, io)" for a
    using keeps_wf [OF t] by (intro keeps_state) simp_all
  ultimately show ?thesis
    using t keeps_trans [OF t] by (auto simp: on_disconnect_def c Let_def)
qed

lemma handle_connection_closed_keeps [wf_intros]:
  assumes "ext_ok X" "hv_wf (fst c)"
  shows "\<exists>c'. handle_connection_closed X p c = Some c' \<and> keeps A c c'"
proof -
  obtain s io where c: "c = (s, io)" by (cases c)
  let ?t = "s\<lparr> pending_neighbor_requests := pending_neighbor_requests s - {p} \<rparr>"
  let ?u = "?t\<lparr> alive_disconnect_peers := alive_disconnect_peers ?t - {p} \<rparr>"
  let ?v = "?u\<lparr> passive_view := snd (ixs_remove X (passive_view ?u) p),
                peer_data_map := (peer_data_map ?u)(p := None) \<rparr>"
  have t: "keeps A c (?t, io)" using assms(2) by (intro keeps_state) (simp_all add: c)
  have u: "keeps A c (?u, io)" using assms(2) by (intro keeps_state) (simp_all add: c)
  have "hv_wf (?u\<lparr> passive_view := snd (ixs_remove X (passive_view ?u) p) \<rparr>)"
    using passive_remove_wf [OF assms(1), of ?u p] keeps_wf [OF u] by simp
  then have v: "keeps A c (?v, io)" using assms(2) by (intro keeps_state) (simp_all add: c)
  have "\<exists>c'. remove_active X p ConnectionClosed (?t, io) = Some c' \<and> keeps A (?t, io) c'"
    using remove_active_keeps [OF assms(1) keeps_wf [OF t]] .
  then show ?thesis
    using u v keeps_trans [OF t] by (auto simp: handle_connection_closed_def c Let_def)
qed

text \<open>
  The \<^verbatim>\<open>unreachable!\<close> of \<^verbatim>\<open>on_forward_join\<close> is unreachable: in that branch the active view has at
  least two members, so one of them differs from the sender.
\<close>

lemma on_forward_join_keeps [wf_intros]:
  assumes X: "ext_ok X" and wf: "hv_wf (fst c)"
  shows "\<exists>c'. on_forward_join X p m c = Some c' \<and> keeps A c c'"
proof -
  let ?q = "pi_id (fj_peer m)"
  have accept: "keeps A c (send_neighbor ?q High (insert_peer_info (fj_peer m) c))"
    using insert_peer_info_keeps [OF wf] send_neighbor_keeps keeps_wf keeps_trans by metis
  define c1 where "c1 = (if fj_ttl m = passive_random_walk_length (hv_config (fst c))
                         then add_passive X ?q (pi_data (fj_peer m)) c else c)"
  have c1: "keeps A c c1"
    using add_passive_keeps [OF X wf] wf by (simp add: c1_def keeps_def)
  have a1: "active_view (fst c1) = active_view (fst c)" by (simp add: c1_def)
  show ?thesis
  proof (cases "?q \<in> set (active_view (fst c)) \<or> ttl_expired (fj_ttl m) \<or> length (active_view (fst c)) \<le> 1")
    case True
    then have "on_forward_join X p m c = Some (send_neighbor ?q High (insert_peer_info (fj_peer m) c))"
      by (auto simp: on_forward_join_def Let_def)
    then show ?thesis using accept by blast
  next
    case False
    then have two: "2 \<le> length (active_view (fst c1))" by (simp add: a1)
    have "distinct (active_view (fst c1))" using keeps_wf [OF c1] by (simp add: hv_wf_def)
    from pick_random_without_exists [OF X this two, of p "hv_rng (fst c1)"] obtain n r where
      n: "pick_random_without X (active_view (fst c1)) {p} (hv_rng (fst c1)) = (Some n, r)" by blast
    let ?m = "HvSendMessage n (HvForwardJoin (ForwardJoin (fj_peer m) (ttl_next (fj_ttl m))))"
    have fwd: "keeps A c1 ((fst c1)\<lparr> hv_rng := r \<rparr>, snd c1 @ [?m])"
      using keeps_wf [OF c1] by (simp add: keeps_def log_ok_def)
    have "on_forward_join X p m c =
       Some (if ?q \<notin> set (active_view (fst c1)) \<and> ?q \<notin> pending_neighbor_requests (fst c1)
             then ((fst c1)\<lparr> hv_rng := r \<rparr>, snd c1 @ [?m]) else c1)"
      using False n
      by (simp add: on_forward_join_def c1_def [symmetric] Let_def case_prod_unfold)
    then show ?thesis using c1 keeps_trans [OF c1 fwd] by (simp del: split_paired_Ex)
  qed
qed

lemma quit_step:
  fixes p
  assumes X: "ext_ok X" and wf: "hv_wf (fst c)"
  defines "c' \<equiv> (\<lambda>(s, io). send_disconnect X p False
                  (s\<lparr> active_view := snd (ixs_remove X (active_view s) p) \<rparr>, io)) c"
  shows "hv_wf (fst c')" and "set (active_view (fst c')) = set (active_view (fst c)) - {p}"
    and "hv_me (fst c') = hv_me (fst c)" and "hv_config (fst c') = hv_config (fst c)"
proof -
  obtain s io where c: "c = (s, io)" by (cases c)
  obtain y v where r: "ixs_remove X (active_view s) p = (y, v)" by (cases "ixs_remove X (active_view s) p")
  have "distinct (active_view s)" using wf by (simp add: c hv_wf_def)
  note v = ixs_remove_facts [OF X r this]
  have "hv_wf (s\<lparr> active_view := v \<rparr>)" using wf v by (auto simp: c hv_wf_def)
  then show "hv_wf (fst c')" by (simp add: c'_def c r)
  show "set (active_view (fst c')) = set (active_view (fst c)) - {p}"
    and "hv_me (fst c') = hv_me (fst c)" and "hv_config (fst c') = hv_config (fst c)"
    by (simp_all add: c'_def c r v)
qed

lemma handle_quit_facts:
  assumes X: "ext_ok X" and wf: "hv_wf (fst c)"
  shows "hv_wf (fst (handle_quit X c))" and "active_view (fst (handle_quit X c)) = []"
    and "hv_me (fst (handle_quit X c)) = hv_me (fst c)"
    and "hv_config (fst (handle_quit X c)) = hv_config (fst c)"
proof -
  let ?f = "\<lambda>p (s, io). send_disconnect X p False
              (s\<lparr> active_view := snd (ixs_remove X (active_view s) p) \<rparr>, io)"
  have "hv_wf (fst (fold ?f ps c)) \<and> set (active_view (fst (fold ?f ps c))) = set (active_view (fst c)) - set ps \<and>
        hv_me (fst (fold ?f ps c)) = hv_me (fst c) \<and> hv_config (fst (fold ?f ps c)) = hv_config (fst c)"
    if "hv_wf (fst c)" for ps c
    using that
  proof (induction ps arbitrary: c)
    case (Cons p ps)
    show ?case using Cons.IH quit_step [OF X Cons.prems, of p] by auto
  qed simp
  from this [OF wf, of "active_view (fst c)"]
  show "hv_wf (fst (handle_quit X c))" and "active_view (fst (handle_quit X c)) = []"
    and "hv_me (fst (handle_quit X c)) = hv_me (fst c)"
    and "hv_config (fst (handle_quit X c)) = hv_config (fst c)"
    by (simp_all add: handle_quit_def)
qed

section \<open>The whole machine\<close>

lemma hv_handle_message_keeps:
  assumes X: "ext_ok X" and wf: "hv_wf (fst c)"
  shows "\<exists>c'. hv_handle_message X p m c = Some c' \<and> keeps A c c'"
proof -
  obtain s io where c: "c = (s, io)" by (cases c)
  define c0 where "c0 = (if \<not> is_disconnect_message m \<and> p \<notin> set (active_view s)
              then (s\<lparr> total_connections := total_connections s + 1 \<rparr>, io) else (s, io))"
  have k0: "keeps A c c0" using wf by (simp add: c0_def c keeps_def log_ok_def)
  note w = keeps_wf [OF k0]
  have e: "hv_handle_message X p m c =
      (case m of
          HvJoin data \<Rightarrow> Some (on_join X p data c0)
        | HvForwardJoin details \<Rightarrow> on_forward_join X p details c0
        | HvShuffle details \<Rightarrow> Some (on_shuffle X p details c0)
        | HvShuffleReply nodes \<Rightarrow> Some (on_shuffle_reply X nodes c0)
        | HvNeighbor details \<Rightarrow> Some (on_neighbor X p details c0)
        | HvDisconnect details \<Rightarrow> on_disconnect X p details c0)"
    unfolding hv_handle_message_def c c0_def Let_def by simp
  have "\<exists>c'. hv_handle_message X p m c = Some c' \<and> keeps A c0 c'"
    unfolding e
    using on_join_keeps [OF X w] on_forward_join_keeps [OF X w] on_shuffle_keeps [OF X w]
      on_shuffle_reply_keeps [OF X w] on_neighbor_keeps [OF X w] on_disconnect_keeps [OF X w]
    by (cases m) simp_all
  then show ?thesis using keeps_trans [OF k0] by blast
qed

lemma hv_schedule_shuffle_keeps: "hv_wf (fst c) \<Longrightarrow> keeps A c (hv_schedule_shuffle c)"
  by (cases c) (simp add: hv_schedule_shuffle_def keeps_def log_ok_def)

lemma hv_dispatch_keeps:
  assumes X: "ext_ok X" and wf: "hv_wf (fst c)" and e: "e \<noteq> HvQuit"
  shows "\<exists>c'. hv_dispatch X e c = Some c' \<and> keeps A c c'"
proof (cases e)
  case (HvRecvMessage p m)
  then show ?thesis using hv_handle_message_keeps [OF X wf] by (simp add: hv_dispatch_def)
next
  case (HvTimerExpired t)
  then show ?thesis
    using handle_shuffle_timer_keeps [OF wf] handle_pending_neighbor_timer_keeps [OF X wf]
    by (cases t) (simp_all add: hv_dispatch_def del: split_paired_Ex)
next
  case (HvPeerDisconnected p)
  then show ?thesis using handle_connection_closed_keeps [OF X wf] by (simp add: hv_dispatch_def)
next
  case (HvRequestJoin p)
  then show ?thesis using handle_join_keeps [OF wf] by (simp add: hv_dispatch_def del: split_paired_Ex)
next
  case (HvUpdatePeerData d)
  have "keeps A c ((fst c)\<lparr> hv_me_data := Some d \<rparr>, snd c)"
    using wf by (intro keeps_state) simp_all
  with HvUpdatePeerData show ?thesis by (simp add: hv_dispatch_def)
next
  case HvQuit
  with e show ?thesis by simp
qed

lemma hv_handle_keeps:
  assumes X: "ext_ok X" and wf: "hv_wf (fst c)" and e: "e \<noteq> HvQuit"
  shows "\<exists>c'. hv_handle X e c = Some c' \<and> keeps A c c'"
proof -
  obtain c1 where c1: "hv_dispatch X e c = Some c1" "keeps A c c1"
    using hv_dispatch_keeps [OF assms] by blast
  from c1(1) have "hv_handle X e c = Some (hv_schedule_shuffle c1)" by (simp add: hv_handle_def)
  moreover have "keeps A c (hv_schedule_shuffle c1)"
    by (rule keeps_trans [OF c1(2) hv_schedule_shuffle_keeps [OF keeps_wf [OF c1(2)]]])
  ultimately show ?thesis by blast
qed

lemma hv_handle_safe:
  assumes X: "ext_ok X" and wf: "hv_wf (fst c)"
  shows "\<exists>c'. hv_handle X e c = Some c' \<and> hv_wf (fst c') \<and> hv_me (fst c') = hv_me (fst c) \<and>
    hv_config (fst c') = hv_config (fst c)"
proof (cases "e = HvQuit")
  case True
  let ?c = "handle_quit X c"
  have "keeps {} ?c (hv_schedule_shuffle ?c)"
    by (rule hv_schedule_shuffle_keeps) (rule handle_quit_facts(1) [OF X wf])
  with True handle_quit_facts [OF X wf] show ?thesis
    by (simp add: hv_handle_def hv_dispatch_def keeps_def)
next
  case False
  from hv_handle_keeps [OF X wf False, of "{}"] show ?thesis by (auto simp: keeps_def)
qed

abbreviation hv_step :: "('p, 'r) ext \<Rightarrow> ('p, 'r) hv_state \<Rightarrow> 'p hv_in \<Rightarrow> (('p, 'r) hv_state \<times> 'p hv_out list) option" where
  "hv_step X s e \<equiv> hv_handle X e (s, [])"

interpretation hvm: safe_machine "hv_step X" "\<lambda>s. ext_ok X \<and> hv_wf s" "\<lambda>e. True" for X
proof unfold_locales
  show "\<exists>s' out. hv_step X s e = Some (s', out) \<and> ext_ok X \<and> hv_wf s'" if "ext_ok X \<and> hv_wf s" for s e
    using hv_handle_safe [of X "(s, [])" e] that by auto
qed

interpretation hvt: tracked_machine "hv_step X" "\<lambda>s. ext_ok X \<and> hv_wf s" "\<lambda>e. e \<noteq> HvQuit"
    "\<lambda>s out s'. nbr_log out (set (active_view s)) = set (active_view s')" for X
proof unfold_locales
  show "\<exists>s' out. hv_step X s e = Some (s', out) \<and> ext_ok X \<and> hv_wf s'" if "ext_ok X \<and> hv_wf s" for s e
    using hv_handle_safe [of X "(s, [])" e] that by auto
  show "nbr_log out (set (active_view s)) = set (active_view s')"
    if "ext_ok X \<and> hv_wf s" "e \<noteq> HvQuit" "hv_step X s e = Some (s', out)" for s e s' out
    using hv_handle_keeps [of X "(s, [])" e "set (active_view s)"] that
    by (auto simp: keeps_def log_ok_def)
qed simp_all

end
