(* ===== verification/Plumtree_Inv.thy ===== *)
theory Plumtree_Inv
  imports Plumtree
begin

text \<open>
  The invariant of the broadcast state and what the handlers promise.

  \<open>pt_wf\<close>: the eager and the lazy set are proper ordered sets and disjoint; a queued
  announcement always has its dispatch timer; the two caches are consistent and the
  message cache holds validated swarm messages under their own id only; the chunk
  length of the announcements is positive; and a build with overflow checks has never
  seen the last round.
\<close>

section \<open>The invariant\<close>

definition peers_ok :: "'p::linorder pt_state \<Rightarrow> bool" where
  "peers_ok s \<longleftrightarrow>
     bset_inv (eager_push_peers s) \<and> bset_inv (lazy_push_peers s) \<and>
     set (eager_push_peers s) \<inter> set (lazy_push_peers s) = {}"

definition queue_ok :: "'p::linorder pt_state \<Rightarrow> bool" where
  "queue_ok s \<longleftrightarrow>
     bmap_inv (lazy_push_queue s) \<and> [] \<notin> snd ` set (lazy_push_queue s) \<and>
     (lazy_push_queue s \<noteq> [] \<longrightarrow> dispatch_timer_scheduled s)"

definition store_ok :: "pt_env \<Rightarrow> 'p pt_state \<Rightarrow> bool" where
  "store_ok E s \<longleftrightarrow>
     tbc_inv (received_messages s) \<and> tbc_inv (pt_cache s) \<and>
     (\<forall>i t g. tbc_map (pt_cache s) i = Some (t, g) \<longrightarrow>
        gs_id g = i \<and> gossip_validate E g \<and> gs_scope g \<noteq> Neighbors)"

definition size_ok :: "pt_env \<Rightarrow> 'p pt_state \<Rightarrow> bool" where
  "size_ok E s \<longleftrightarrow> 0 < ihave_max_size E \<and> ihave_max_size E + 3 \<le> pt_max_message_size s"

definition round_ok :: "pt_env \<Rightarrow> 'p pt_state \<Rightarrow> bool" where
  "round_ok E s \<longleftrightarrow> (overflow_checks E \<longrightarrow> max_seen_round s \<noteq> - 1)"

definition pt_wf :: "pt_env \<Rightarrow> 'p::linorder pt_state \<Rightarrow> bool" where
  "pt_wf E s \<longleftrightarrow> peers_ok s \<and> queue_ok s \<and> store_ok E s \<and> size_ok E s \<and> round_ok E s"

definition tree_peers :: "'p pt_state \<Rightarrow> 'p set" where
  "tree_peers s = set (eager_push_peers s) \<union> set (lazy_push_peers s)"

lemmas pt_inv_defs = peers_ok_def queue_ok_def store_ok_def size_ok_def round_ok_def

lemma pt_wf_new:
  "0 < ihave_max_size E \<Longrightarrow> ihave_max_size E + 3 \<le> n \<Longrightarrow> pt_wf E (pt_new me cfg n)"
  by (simp add: pt_wf_def pt_inv_defs pt_new_def) (simp add: tbc_default_def)

text \<open>An instance of the parameters: contents are their own identifiers, the sizes are those of \<^verbatim>\<open>postcard\<close>.\<close>

definition demo_env :: "bool \<Rightarrow> pt_env" where
  "demo_env checks =
     \<lparr> content_hash = (\<lambda>c. c), ihave_max_size = 35, header_size = 33, overflow_checks = checks \<rparr>"

lemma demo_env_simps [simp]:
  "content_hash (demo_env b) c = c" "ihave_max_size (demo_env b) = 35"
  "header_size (demo_env b) = 33" "overflow_checks (demo_env b) = b"
  by (simp_all add: demo_env_def)

lemma demo_new_wf [simp]: "38 \<le> n \<Longrightarrow> pt_wf (demo_env b) (pt_new me cfg n)"
  by (rule pt_wf_new) simp_all

definition demo_gossip :: "round \<Rightarrow> gossip" where
  "demo_gossip r = \<lparr> gs_id = [7], gs_content = [7], gs_scope = Swarm r \<rparr>"

definition demo_state :: "nat list \<Rightarrow> nat list \<Rightarrow> nat pt_state" where
  "demo_state eager lazy =
     (pt_new 0 pt_default_config 4063)\<lparr> eager_push_peers := eager, lazy_push_peers := lazy \<rparr>"

lemma demo_gossip_simps [simp]:
  "gs_id (demo_gossip r) = [7]" "gs_content (demo_gossip r) = [7]" "gs_scope (demo_gossip r) = Swarm r"
  "gossip_validate (demo_env b) (demo_gossip r)"
  by (simp_all add: demo_gossip_def gossip_validate_def)

lemma demo_state_simps [simp]:
  "eager_push_peers (demo_state a b) = a" "lazy_push_peers (demo_state a b) = b" "pt_me (demo_state a b) = 0"
  "tbc_map (received_messages (demo_state a b)) = Map.empty" "pt_config (demo_state a b) = pt_default_config"
  "lazy_push_queue (demo_state a b) = []"
  by (simp_all add: demo_state_def pt_new_def tbc_default_def)

lemma demo_state_wf [simp]:
  "bset_inv a \<Longrightarrow> bset_inv b \<Longrightarrow> set a \<inter> set b = {} \<Longrightarrow> pt_wf (demo_env c) (demo_state a b)"
  using demo_new_wf [of 4063 c 0 pt_default_config]
  by (simp add: pt_wf_def pt_inv_defs demo_state_def pt_new_def)

text \<open>
  What every operation but \<^verbatim>\<open>on_neighbor_down\<close> does to the state: the invariant stays, no
  peer leaves the tree, and the node's identity and configuration are fixed.
\<close>

definition pt_keeps :: "pt_env \<Rightarrow> 'p::linorder pt_conf \<Rightarrow> 'p pt_conf \<Rightarrow> bool" where
  "pt_keeps E c c' \<longleftrightarrow>
     pt_wf E (fst c') \<and> tree_peers (fst c) \<subseteq> tree_peers (fst c') \<and>
     pt_me (fst c') = pt_me (fst c) \<and> pt_config (fst c') = pt_config (fst c)"

lemma pt_keeps_refl: "pt_wf E (fst c) \<Longrightarrow> pt_keeps E c c"
  by (simp add: pt_keeps_def)

lemma pt_keeps_trans: "pt_keeps E c c' \<Longrightarrow> pt_keeps E c' c'' \<Longrightarrow> pt_keeps E c c''"
  by (auto simp: pt_keeps_def)

lemma pt_keeps_wf: "pt_keeps E c c' \<Longrightarrow> pt_wf E (fst c')"
  by (simp add: pt_keeps_def)

section \<open>The tree\<close>

lemma pt_wf_peers:
  "pt_wf E s \<Longrightarrow> peers_ok (s\<lparr> eager_push_peers := a, lazy_push_peers := b \<rparr>) \<Longrightarrow>
   pt_wf E (s\<lparr> eager_push_peers := a, lazy_push_peers := b \<rparr>)"
  by (simp add: pt_wf_def queue_ok_def store_ok_def size_ok_def round_ok_def)

lemma add_eager_eq:
  "add_eager p s = s\<lparr> eager_push_peers := bset_insert p (eager_push_peers s),
                      lazy_push_peers := bset_remove p (lazy_push_peers s) \<rparr>"
  by (simp add: add_eager_def)

lemma add_lazy_eq:
  "add_lazy p s = s\<lparr> eager_push_peers := bset_remove p (eager_push_peers s),
                     lazy_push_peers := bset_insert p (lazy_push_peers s) \<rparr>"
  by (simp add: add_lazy_def)

lemma peers_move:
  assumes "peers_ok s"
  shows "peers_ok (add_eager p s)" and "peers_ok (add_lazy p s)"
    and "tree_peers (add_eager p s) = insert p (tree_peers s)"
    and "tree_peers (add_lazy p s) = insert p (tree_peers s)"
  using assms bset.move_disjoint [of "eager_push_peers s" "lazy_push_peers s" p]
    bset.move_disjoint [of "lazy_push_peers s" "eager_push_peers s" p]
    bset.move_union [of "eager_push_peers s" "lazy_push_peers s" p]
    bset.move_union [of "lazy_push_peers s" "eager_push_peers s" p]
  by (auto simp: peers_ok_def add_eager_def add_lazy_def tree_peers_def)

lemma add_eager_wf [wf_intros]: "pt_wf E s \<Longrightarrow> pt_wf E (add_eager p s)"
  and add_lazy_wf [wf_intros]: "pt_wf E s \<Longrightarrow> pt_wf E (add_lazy p s)"
  using peers_move [of s p] pt_wf_peers [of E s]
  by (simp_all add: add_eager_eq add_lazy_eq pt_wf_def)

lemma add_eager_keeps: "pt_wf E s \<Longrightarrow> pt_keeps E (s, io) (add_eager p s, io')"
  and add_lazy_keeps: "pt_wf E s \<Longrightarrow> pt_keeps E (s, io) (add_lazy p s, io')"
  using peers_move(3,4) [of s p] add_eager_wf [of E s p] add_lazy_wf [of E s p]
  by (auto simp: pt_keeps_def pt_wf_def add_eager_def add_lazy_def)

lemma on_neighbor_down_wf:
  assumes "pt_wf E (fst c)"
  shows "pt_wf E (fst (on_neighbor_down p c))"
    and "tree_peers (fst (on_neighbor_down p c)) = tree_peers (fst c) - {p}"
    and "pt_me (fst (on_neighbor_down p c)) = pt_me (fst c)"
    and "pt_config (fst (on_neighbor_down p c)) = pt_config (fst c)"
    and "snd (on_neighbor_down p c) = snd c"
proof -
  obtain s io where c: "c = (s, io)" by (cases c)
  let ?s = "fst (on_neighbor_down p c)"
  have "peers_ok s" using assms by (simp add: pt_wf_def c)
  then have 1: "peers_ok ?s"
    using bset.drop_disjoint [of "eager_push_peers s" "lazy_push_peers s" p]
    by (simp add: peers_ok_def on_neighbor_down_def c)
  then show "pt_wf E ?s"
    using assms
    by (simp add: pt_wf_def queue_ok_def store_ok_def size_ok_def round_ok_def on_neighbor_down_def c)
  show "tree_peers ?s = tree_peers (fst c) - {p}"
    by (auto simp: tree_peers_def on_neighbor_down_def c)
qed (simp_all add: on_neighbor_down_def case_prod_unfold)

section \<open>Pushing\<close>

lemma eager_push_fst [simp]: "fst (eager_push g p c) = fst c"
  by (simp add: eager_push_def case_prod_unfold)

lemma bmap_push_nonempty:
  "[] \<notin> snd ` set m \<Longrightarrow> [] \<notin> snd ` set (bmap_push k v m)"
  by (induction k v m rule: bmap_push.induct) auto

lemma fold_bmap_push_nonempty:
  "[] \<notin> snd ` set m \<Longrightarrow> [] \<notin> snd ` set (fold (\<lambda>p. bmap_push p v) ps m)"
proof (induction ps arbitrary: m)
  case (Cons p ps)
  from Cons.IH [OF bmap_push_nonempty [OF Cons.prems]] show ?case by simp
qed simp

lemma fold_bmap_push_inv: "bmap_inv m \<Longrightarrow> bmap_inv (fold (\<lambda>p. bmap_push p v) ps m)"
  by (induction ps arbitrary: m) simp_all

lemma fold_bmap_push_Nil [simp]:
  "fold (\<lambda>p. bmap_push p v) ps m = [] \<longleftrightarrow> ps = [] \<and> m = []"
  by (induction ps arbitrary: m) simp_all

lemma lazy_push_keeps:
  assumes "pt_wf E (fst c)"
  shows "pt_keeps E c (lazy_push g p c)"
proof (cases "gossip_round g")
  case None
  with assms show ?thesis by (simp add: lazy_push_def case_prod_unfold pt_keeps_def)
next
  case (Some r)
  obtain s io where c: "c = (s, io)" by (cases c)
  let ?ps = "filter (\<lambda>x. x \<noteq> p) (lazy_push_peers s)"
  let ?v = "\<lparr> ih_id = gs_id g, ih_round = r \<rparr>"
  let ?q = "fold (\<lambda>p. bmap_push p ?v) ?ps (lazy_push_queue s)"
  have q: "bmap_inv (lazy_push_queue s)" "[] \<notin> snd ` set (lazy_push_queue s)"
    using assms by (simp_all add: pt_wf_def queue_ok_def c)
  note f = fold_bmap_push_inv [OF q(1), of ?v ?ps] fold_bmap_push_nonempty [OF q(2), of ?v ?ps]
  define d where "d = (dispatch_timer_scheduled s \<or> ?ps \<noteq> [])"
  have e: "fst (lazy_push g p c) = s\<lparr> lazy_push_queue := ?q, dispatch_timer_scheduled := d \<rparr>"
    by (simp add: lazy_push_def c Some Let_def d_def)
  have "queue_ok (s\<lparr> lazy_push_queue := ?q, dispatch_timer_scheduled := d \<rparr>)"
    using f assms by (auto simp: queue_ok_def d_def pt_wf_def c)
  then have "pt_wf E (fst (lazy_push g p c))"
    using assms unfolding e
    by (simp add: pt_wf_def peers_ok_def store_ok_def size_ok_def round_ok_def c)
  then show ?thesis by (simp add: pt_keeps_def e tree_peers_def) (simp add: c)
qed

lemma pt_keeps_push_out: "pt_wf E (fst c) \<Longrightarrow> pt_keeps E c (fst c, io)"
  by (simp add: pt_keeps_def)

section \<open>Caches and records of missing messages\<close>

lemma pt_wf_irrelevant [simp]:
  "pt_wf E (s\<lparr> missing_messages := m \<rparr>) = pt_wf E s"
  "pt_wf E (s\<lparr> graft_timer_scheduled := g \<rparr>) = pt_wf E s"
  "pt_wf E (s\<lparr> locally_authored := l \<rparr>) = pt_wf E s"
  "pt_wf E (s\<lparr> pt_init := b \<rparr>) = pt_wf E s"
  "pt_wf E (s\<lparr> payload_messages_received := n \<rparr>) = pt_wf E s"
  "pt_wf E (s\<lparr> control_messages_received := n \<rparr>) = pt_wf E s"
  "pt_wf E (s\<lparr> max_last_delivery_hop := h \<rparr>) = pt_wf E s"
  by (simp_all add: pt_wf_def pt_inv_defs)

lemma tree_peers_irrelevant [simp]:
  "tree_peers (s\<lparr> missing_messages := m \<rparr>) = tree_peers s"
  "tree_peers (s\<lparr> graft_timer_scheduled := g \<rparr>) = tree_peers s"
  "tree_peers (s\<lparr> locally_authored := l \<rparr>) = tree_peers s"
  "tree_peers (s\<lparr> pt_init := b \<rparr>) = tree_peers s"
  "tree_peers (s\<lparr> payload_messages_received := n \<rparr>) = tree_peers s"
  "tree_peers (s\<lparr> control_messages_received := n \<rparr>) = tree_peers s"
  "tree_peers (s\<lparr> max_last_delivery_hop := h \<rparr>) = tree_peers s"
  "tree_peers (s\<lparr> received_messages := rc \<rparr>) = tree_peers s"
  "tree_peers (s\<lparr> pt_cache := ca \<rparr>) = tree_peers s"
  "tree_peers (s\<lparr> max_seen_round := ro \<rparr>) = tree_peers s"
  "tree_peers (s\<lparr> lazy_push_queue := q \<rparr>) = tree_peers s"
  "tree_peers (s\<lparr> dispatch_timer_scheduled := b \<rparr>) = tree_peers s"
  by (simp_all add: tree_peers_def)

lemma received_insert_wf [simp]:
  "pt_wf E s \<Longrightarrow> pt_wf E (s\<lparr> received_messages := tbc_insert i () t (received_messages s) \<rparr>)"
  by (simp add: pt_wf_def pt_inv_defs)

lemma cache_insert_wf:
  "pt_wf E s \<Longrightarrow> gossip_validate E g \<Longrightarrow> gs_scope g \<noteq> Neighbors \<Longrightarrow>
   pt_wf E (s\<lparr> pt_cache := tbc_insert (gs_id g) g t (pt_cache s) \<rparr>)"
  by (simp add: pt_wf_def pt_inv_defs tbc.entry_ins)

lemma evict_wf:
  assumes "pt_wf E s"
  shows "pt_wf E (s\<lparr> pt_cache := tbc_expire now (pt_cache s),
                     received_messages := tbc_expire now (received_messages s) \<rparr>)"
proof -
  have c: "tbc_inv (pt_cache s)" "tbc_inv (received_messages s)"
    using assms by (simp_all add: pt_wf_def store_ok_def)
  have "store_ok E (s\<lparr> pt_cache := tbc_expire now (pt_cache s),
                       received_messages := tbc_expire now (received_messages s) \<rparr>)"
    using assms c tbc.expire_shrinks [OF c(1)] unfolding pt_wf_def store_ok_def
    by (simp, blast)
  with assms show ?thesis by (simp add: pt_wf_def peers_ok_def queue_ok_def size_ok_def round_ok_def)
qed

lemma on_evict_keeps: "pt_wf E (fst c) \<Longrightarrow> pt_keeps E c (on_evict_cache_timer now c)"
  by (cases c) (simp add: on_evict_cache_timer_def pt_keeps_def evict_wf)

lemma pt_initialize_keeps: "pt_wf E (fst c) \<Longrightarrow> pt_keeps E c (pt_initialize now c)"
  using on_evict_keeps [of E "((fst c)\<lparr> pt_init := True \<rparr>, snd c)" now]
  by (cases c) (simp add: pt_initialize_def pt_keeps_def)

lemma on_graft_keeps: "pt_wf E (fst c) \<Longrightarrow> pt_keeps E c (on_graft p d c)"
  by (cases c)
     (auto simp: on_graft_def Let_def intro: add_eager_keeps split: option.splits)

lemma on_send_graft_timer_keeps:
  assumes "pt_wf E (fst c)"
  shows "pt_keeps E c (on_send_graft_timer i c)"
proof -
  obtain s io where c: "c = (s, io)" by (cases c)
  let ?s = "s\<lparr> graft_timer_scheduled := graft_timer_scheduled s - {i} \<rparr>"
  have s1: "pt_keeps E c (?s, io')" for io' using assms by (simp add: pt_keeps_def c)
  have m: "pt_keeps E c (?s\<lparr> missing_messages := m \<rparr>, io)" for m
    using assms by (simp add: pt_keeps_def c)
  have "pt_keeps E c (add_eager p (?s\<lparr> missing_messages := m \<rparr>), io')" for p m io'
    using pt_keeps_trans [OF m add_eager_keeps] pt_keeps_wf [OF m] by simp
  with s1 show ?thesis
    by (auto simp: on_send_graft_timer_def c Let_def split: option.splits list.splits)
qed

lemma on_ihave_entry_keeps: "pt_wf E (fst c) \<Longrightarrow> pt_keeps E c (on_ihave_entry p i c)"
  by (cases c) (simp add: on_ihave_entry_def Let_def pt_keeps_def)

lemma on_ihave_keeps: "pt_wf E (fst c) \<Longrightarrow> pt_keeps E c (on_ihave p is c)"
  unfolding on_ihave_def
proof (induction "is" arbitrary: c)
  case (Cons i "is")
  note step = on_ihave_entry_keeps [OF Cons.prems, of p i]
  from pt_keeps_trans [OF step Cons.IH [OF pt_keeps_wf [OF step]]] show ?case by simp
qed (simp add: pt_keeps_refl)

lemma on_prune_keeps: "pt_wf E (fst c) \<Longrightarrow> pt_keeps E c (on_prune p c)"
  and on_neighbor_up_keeps: "pt_wf E (fst c) \<Longrightarrow> pt_keeps E c (on_neighbor_up p c)"
  by (cases c; simp add: on_prune_def on_neighbor_up_def add_lazy_keeps add_eager_keeps)+

section \<open>Gossip\<close>

lemma max_not_minus_one: "a \<noteq> - 1 \<Longrightarrow> b \<noteq> - 1 \<Longrightarrow> max a b \<noteq> (- 1 :: u16)"
  by (simp add: max_def)

text \<open>The one message that a build with overflow checks cannot take.\<close>

definition last_round_gossip :: "pt_env \<Rightarrow> pt_message \<Rightarrow> bool" where
  "last_round_gossip E m =
     (case m of PtGossip g \<Rightarrow> overflow_checks E \<and> gs_scope g = Swarm (- 1) | _ \<Rightarrow> False)"

lemma detect_gap_keeps:
  assumes "pt_wf E (fst c)" "overflow_checks E \<Longrightarrow> r \<noteq> - 1"
  shows "\<exists>c'. detect_gap E p r c = Some c' \<and> pt_keeps E c c'"
proof -
  obtain s io where c: "c = (s, io)" by (cases c)
  have "round_ok E (s\<lparr> max_seen_round := max (max_seen_round s) r \<rparr>)"
    using assms max_not_minus_one [of "max_seen_round s" r]
    by (auto simp: pt_wf_def round_ok_def c)
  with assms show ?thesis
    by (auto simp: detect_gap_def checked_incr_def pt_keeps_def c pt_wf_def round_ok_def
        peers_ok_def queue_ok_def store_ok_def size_ok_def)
qed

lemma forward_gossip_keeps:
  assumes "pt_wf E (fst c)" "gossip_validate E g" "gs_scope g \<noteq> Neighbors"
  shows "pt_keeps E c (forward_gossip p g now c)"
proof -
  obtain s io where c: "c = (s, io)" by (cases c)
  let ?s = "s\<lparr> pt_cache := tbc_insert (gs_id g) g (now + message_cache_retention (pt_config s)) (pt_cache s) \<rparr>"
  have 1: "pt_keeps E c (?s, io)"
    using cache_insert_wf [OF _ assms(2,3)] assms(1) by (simp add: pt_keeps_def c)
  have 2: "pt_keeps E c (eager_push g p (?s, io))"
    using 1 by (simp add: pt_keeps_def c)
  from pt_keeps_trans [OF 2 lazy_push_keeps [OF pt_keeps_wf [OF 2]]]
  show ?thesis by (simp add: forward_gossip_def c)
qed

lemma optimize_tree_keeps:
  assumes "pt_wf E (fst c)" "gs_scope g = Swarm r"
  shows "\<exists>c'. optimize_tree p g is c = Some c' \<and> pt_keeps E c c'"
proof -
  obtain s io where c: "c = (s, io)" by (cases c)
  have w: "pt_wf E s" using assms by (simp add: c)
  have one: "pt_keeps E c (add_lazy p s, io')" for io'
    unfolding c by (rule add_lazy_keeps [OF w])
  have two: "pt_keeps E c (add_lazy p (add_eager q s), io')" for q io'
    unfolding c
    by (rule pt_keeps_trans [OF add_eager_keeps [OF w] add_lazy_keeps [OF add_eager_wf [OF w]]])
  have "pt_keeps E c (s, io)" using w by (simp add: pt_keeps_def c)
  with one two show ?thesis
    using assms(2)
    by (auto simp: optimize_tree_def c gossip_round_def Let_def split: option.splits)
qed

lemma settle_missing_keeps:
  assumes "pt_wf E (fst c)" "gs_scope g = Swarm r"
  shows "\<exists>c'. settle_missing p g c = Some c' \<and> pt_keeps E c c'"
proof -
  obtain s io where c: "c = (s, io)" by (cases c)
  let ?s = "s\<lparr> graft_timer_scheduled := graft_timer_scheduled s - {gs_id g},
               missing_messages := (missing_messages s)(gs_id g := None) \<rparr>"
  have 1: "pt_keeps E c (?s, io)" using assms(1) by (simp add: pt_keeps_def c)
  show ?thesis
  proof (cases "missing_messages s (gs_id g)")
    case None
    with 1 show ?thesis by (simp add: settle_missing_def c)
  next
    case (Some l)
    obtain c' where c': "optimize_tree p g l (?s, io) = Some c'" "pt_keeps E (?s, io) c'"
      using optimize_tree_keeps [OF pt_keeps_wf [OF 1] assms(2)] by blast
    with Some pt_keeps_trans [OF 1] show ?thesis by (simp add: settle_missing_def c)
  qed
qed

lemma next_round_facts:
  assumes "gs_scope g = Swarm r" "overflow_checks E \<Longrightarrow> r \<noteq> - 1"
  shows "next_round E g = Some (Some (g\<lparr> gs_scope := Swarm (r + 1) \<rparr>))"
  using assms by (auto simp: next_round_def round_next_def checked_incr_def)

lemma accept_swarm_keeps:
  assumes "pt_wf E (fst c)" "gossip_validate E g" "gs_scope g = Swarm r"
    "overflow_checks E \<Longrightarrow> r \<noteq> - 1"
  shows "\<exists>c'. accept_swarm E p g r now c = Some c' \<and> pt_keeps E c c'"
proof -
  obtain s io where c: "c = (s, io)" by (cases c)
  let ?s = "s\<lparr> received_messages := tbc_insert (gs_id g) ()
                (now + message_id_retention (pt_config s)) (received_messages s) \<rparr>"
  let ?g = "g\<lparr> gs_scope := Swarm (r + 1) \<rparr>"
  have g: "gossip_validate E ?g" "gs_scope ?g = Swarm (r + 1)"
    using assms(2) by (simp_all add: gossip_validate_def)
  have 1: "pt_keeps E c (?s, io)" using assms(1) by (simp add: pt_keeps_def c)
  obtain c2 where d: "detect_gap E p r (?s, io) = Some c2" and 2: "pt_keeps E (?s, io) c2"
    using detect_gap_keeps [OF pt_keeps_wf [OF 1] assms(4)] by blast
  have 3: "pt_keeps E c2 (forward_gossip p ?g now c2)"
    using forward_gossip_keeps [OF pt_keeps_wf [OF 2] g(1)] by simp
  obtain c4 where m: "settle_missing p ?g (forward_gossip p ?g now c2) = Some c4"
    and 4: "pt_keeps E (forward_gossip p ?g now c2) c4"
    using settle_missing_keeps [OF pt_keeps_wf [OF 3] g(2)] by blast
  let ?c = "((fst c4)\<lparr> max_last_delivery_hop := max (max_last_delivery_hop (fst c4)) r \<rparr>, snd c4)"
  have "pt_keeps E c c4" using 1 2 3 4 by (blast intro: pt_keeps_trans)
  then have "pt_keeps E c ?c" by (simp add: pt_keeps_def)
  moreover have "accept_swarm E p g r now c = Some ?c"
    using d m next_round_facts [OF assms(3,4)]
    by (simp add: accept_swarm_def c Let_def case_prod_unfold)
  ultimately show ?thesis by blast
qed

lemma on_gossip_keeps:
  assumes "pt_wf E (fst c)" "\<not> last_round_gossip E (PtGossip g)"
  shows "\<exists>c'. on_gossip E p g now c = Some c' \<and> pt_keeps E c c'"
proof -
  obtain s io where c: "c = (s, io)" by (cases c)
  let ?io = "io @ [PtEmitEvent (Received (gossip_event_from_message g p))]"
  have w: "pt_wf E s" using assms by (simp add: c)
  have same: "pt_keeps E c (s, io')" for io' using w by (simp add: pt_keeps_def c)
  have dup: "pt_keeps E c (on_gossip_duplicate p g (s, io))"
    using w by (simp add: on_gossip_duplicate_def add_lazy_keeps c) (simp add: pt_keeps_def)
  have new: "\<exists>c'. accept_swarm E p g r now (s, ?io) = Some c' \<and> pt_keeps E c c'"
    if valid: "gossip_validate E g" and swarm: "gs_scope g = Swarm r" for r
  proof -
    have "r \<noteq> - 1" if "overflow_checks E"
      using that assms(2) swarm by (simp add: last_round_gossip_def)
    then obtain c' where "accept_swarm E p g r now (s, ?io) = Some c'" "pt_keeps E (s, ?io) c'"
      using accept_swarm_keeps [of E "(s, ?io)" g r p now] w valid swarm by auto
    with pt_keeps_trans [OF same] show ?thesis by blast
  qed
  show ?thesis
  proof (cases "gossip_validate E g \<and> \<not> tbc_contains_key (received_messages s) (gs_id g)")
    case True
    then show ?thesis
      using new same by (cases "gs_scope g") (simp_all add: on_gossip_def c Let_def)
  next
    case False
    then show ?thesis using dup same by (auto simp: on_gossip_def c simp del: split_paired_Ex)
  qed
qed

lemma broadcast_keeps:
  assumes "pt_wf E (fst c)"
  shows "pt_keeps E c (broadcast E d sc now c)"
proof -
  obtain s io where c: "c = (s, io)" by (cases c)
  let ?i = "content_hash E d"
  let ?m = "\<lparr> gs_id = ?i, gs_content = d, gs_scope = Swarm 0 \<rparr>"
  let ?s = "s\<lparr> received_messages := tbc_insert ?i () (now + message_id_retention (pt_config s)) (received_messages s),
             pt_cache := tbc_insert ?i ?m (now + message_cache_retention (pt_config s)) (pt_cache s),
             locally_authored := insert ?i (locally_authored s) \<rparr>"
  have "pt_wf E (?s)"
    using cache_insert_wf [of E "s\<lparr> received_messages := tbc_insert ?i () (now + message_id_retention (pt_config s)) (received_messages s) \<rparr>" ?m]
      received_insert_wf [of E s] assms by (simp add: c gossip_validate_def)
  then have 1: "pt_keeps E c (?s, io)" by (simp add: pt_keeps_def c)
  note pt_keeps_trans [OF 1 lazy_push_keeps [OF pt_keeps_wf [OF 1], of ?m "pt_me s"]]
  with assms show ?thesis by (cases sc) (simp_all add: broadcast_def c Let_def pt_keeps_def)
qed

section \<open>Dispatching announcements\<close>

lemma ihave_chunk_len_pos:
  assumes "size_ok E s"
  shows "ihave_chunk_len E s = Some ((pt_max_message_size s - 3) div ihave_max_size E)"
    and "0 < (pt_max_message_size s - 3) div ihave_max_size E"
  using assms
  by (auto simp: ihave_chunk_len_def usize_sub_def size_ok_def div_greater_zero_iff numeral_3_eq_3)

lemma on_dispatch_timer_keeps:
  assumes "pt_wf E (fst c)"
  shows "\<exists>c'. on_dispatch_timer E c = Some c' \<and> pt_keeps E c c'"
proof -
  obtain s io where c: "c = (s, io)" by (cases c)
  have "pt_wf E (s\<lparr> lazy_push_queue := [], dispatch_timer_scheduled := False \<rparr>)"
    using assms by (simp add: c pt_wf_def pt_inv_defs)
  then show ?thesis
    using ihave_chunk_len_pos [of E s] assms
    by (simp add: on_dispatch_timer_def c pt_wf_def pt_keeps_def)
qed

section \<open>The handler\<close>

fun pt_admitted :: "pt_env \<Rightarrow> 'p pt_in \<Rightarrow> bool" where
  "pt_admitted E (PtRecvMessage _ m) = (\<not> last_round_gossip E m)"
| "pt_admitted E _ = True"

lemma pt_handle_message_keeps:
  assumes "pt_wf E (fst c)" "\<not> last_round_gossip E m"
  shows "\<exists>c'. pt_handle_message E p m now c = Some c' \<and> pt_keeps E c c'"
proof -
  obtain s io where c: "c = (s, io)" by (cases c)
  define s1 where "s1 = (if is_gossip_message m
               then s\<lparr> payload_messages_received := payload_messages_received s + 1 \<rparr>
               else s\<lparr> control_messages_received := control_messages_received s + 1 \<rparr>)"
  have 1: "pt_keeps E c (s1, io)" using assms(1) by (simp add: s1_def pt_keeps_def c)
  have w: "pt_wf E (fst (s1, io))" using pt_keeps_wf [OF 1] .
  have e: "pt_handle_message E p m now c =
     (case m of
          PtGossip details \<Rightarrow> on_gossip E p details now (s1, io)
        | PtPrune \<Rightarrow> Some (on_prune p (s1, io))
        | PtIHave details \<Rightarrow> Some (on_ihave p details (s1, io))
        | PtGraft details \<Rightarrow> Some (on_graft p details (s1, io)))"
    by (simp only: pt_handle_message_def c s1_def Let_def prod.case)
  have "\<exists>c'. pt_handle_message E p m now c = Some c' \<and> pt_keeps E (s1, io) c'"
    using on_gossip_keeps [OF w] on_prune_keeps [OF w] on_ihave_keeps [OF w] on_graft_keeps [OF w]
      assms(2) unfolding e by (cases m) simp_all
  with pt_keeps_trans [OF 1] show ?thesis by blast
qed

definition pt_moves :: "pt_env \<Rightarrow> 'p::linorder pt_in \<Rightarrow> 'p pt_conf \<Rightarrow> 'p pt_conf \<Rightarrow> bool" where
  "pt_moves E e c c' \<longleftrightarrow>
     pt_wf E (fst c') \<and> pt_me (fst c') = pt_me (fst c) \<and> pt_config (fst c') = pt_config (fst c) \<and>
     (case e of PtNeighborDown p \<Rightarrow> tree_peers (fst c') = tree_peers (fst c) - {p}
              | PtNeighborUp p \<Rightarrow> tree_peers (fst c') = insert p (tree_peers (fst c))
              | _ \<Rightarrow> tree_peers (fst c) \<subseteq> tree_peers (fst c'))"

lemma pt_dispatch_moves:
  assumes "pt_wf E (fst c)" "pt_admitted E e"
  shows "\<exists>c'. pt_dispatch E e now c = Some c' \<and> pt_moves E e c c'"
proof (cases e)
  case (PtRecvMessage p m)
  with assms(2) have "\<not> last_round_gossip E m" by simp
  then obtain c' where "pt_handle_message E p m now c = Some c'" "pt_keeps E c c'"
    using pt_handle_message_keeps [OF assms(1)] by blast
  with PtRecvMessage show ?thesis by (simp add: pt_dispatch_def pt_moves_def pt_keeps_def)
next
  case (PtBroadcast d sc)
  with broadcast_keeps [OF assms(1)] show ?thesis
    by (simp add: pt_dispatch_def pt_moves_def pt_keeps_def)
next
  case (PtTimerExpired t)
  obtain c' where "on_dispatch_timer E c = Some c'" "pt_keeps E c c'"
    using on_dispatch_timer_keeps [OF assms(1)] by blast
  with PtTimerExpired on_send_graft_timer_keeps [OF assms(1)] on_evict_keeps [OF assms(1)]
  show ?thesis by (cases t) (simp_all add: pt_dispatch_def pt_moves_def pt_keeps_def)
next
  case (PtNeighborUp p)
  have "peers_ok (fst c)" using assms by (simp add: pt_wf_def)
  with PtNeighborUp on_neighbor_up_keeps [OF assms(1)] peers_move(3) [of "fst c" p] show ?thesis
    by (cases c) (simp add: pt_dispatch_def pt_moves_def pt_keeps_def on_neighbor_up_def)
next
  case (PtNeighborDown p)
  with on_neighbor_down_wf [OF assms(1), of p] show ?thesis
    by (simp add: pt_dispatch_def pt_moves_def)
qed

lemma pt_initialize_tree [simp]: "tree_peers (fst (pt_initialize now c)) = tree_peers (fst c)"
  by (cases c) (simp add: pt_initialize_def on_evict_cache_timer_def)

lemma pt_handle_moves:
  assumes "pt_wf E (fst c)" "pt_admitted E e"
  shows "\<exists>c'. pt_handle E e now c = Some c' \<and> pt_moves E e c c'"
proof -
  note k = pt_initialize_keeps [OF assms(1), of now]
  obtain c' where "pt_dispatch E e now (pt_initialize now c) = Some c'"
    and "pt_moves E e (pt_initialize now c) c'"
    using pt_dispatch_moves [OF pt_keeps_wf [OF k] assms(2)] by blast
  with k show ?thesis
    by (auto simp: pt_handle_def pt_moves_def pt_keeps_def split: pt_in.splits)
qed

end
