(* ===== verification/Topic_Inv.thy ===== *)
theory Topic_Inv
  imports Topic Hyparview_Inv Plumtree_Inv
begin

text \<open>
  The invariant of a topic.  Besides the invariants of its two layers it states how they
  fit together: every peer of the active view is in the broadcast tree, as an eager or a
  lazy peer, so a swarm message is pushed or announced to every neighbour.
\<close>

section \<open>Replaying neighbour events\<close>

text \<open>What an output of the topic does to the set of neighbours.\<close>

fun tp_apply_nbr :: "'p tp_out \<Rightarrow> 'p set \<Rightarrow> 'p set" where
  "tp_apply_nbr (TpEmitEvent (TpNeighborUp p)) A = insert p A"
| "tp_apply_nbr (TpEmitEvent (TpNeighborDown p)) A = A - {p}"
| "tp_apply_nbr _ A = A"

definition tp_nbr_log :: "'p tp_out list \<Rightarrow> 'p set \<Rightarrow> 'p set" where
  "tp_nbr_log io A = fold tp_apply_nbr io A"

lemma tp_nbr_log_append [simp]: "tp_nbr_log (io @ io') A = tp_nbr_log io' (tp_nbr_log io A)"
  and tp_nbr_log_Nil [simp]: "tp_nbr_log [] A = A"
  and tp_nbr_log_Cons [simp]: "tp_nbr_log (e # io) A = tp_nbr_log io (tp_apply_nbr e A)"
  by (simp_all add: tp_nbr_log_def)

lemma tp_apply_nbr_hv [simp]: "tp_apply_nbr (out_from_hv e) A = apply_nbr e A"
  by (cases "(e, A)" rule: apply_nbr.cases) simp_all

lemma tp_nbr_log_hv [simp]: "tp_nbr_log (map out_from_hv io) A = nbr_log io A"
  by (induction io arbitrary: A) simp_all

lemma tp_apply_nbr_pt [simp]: "tp_apply_nbr (out_from_pt e) A = A"
proof (cases e)
  case (PtEmitEvent x)
  then show ?thesis by (cases x) simp_all
qed simp_all

lemma tp_nbr_log_pt [simp]: "tp_nbr_log (map out_from_pt io) A = A"
  by (induction io arbitrary: A) simp_all

lemma tp_nbr_log_mono: "A \<subseteq> B \<Longrightarrow> tp_nbr_log io A \<subseteq> tp_nbr_log io B"
proof (induction io arbitrary: A B)
  case (Cons e io)
  have "tp_apply_nbr e A \<subseteq> tp_apply_nbr e B" using Cons.prems by (cases "(e, A)" rule: tp_apply_nbr.cases) auto
  with Cons.IH show ?case by simp
qed simp

lemma tp_nbr_log_drop: "tp_nbr_log io A - {p} \<subseteq> tp_nbr_log io (A - {p})"
proof (induction io arbitrary: A)
  case (Cons e io)
  have "tp_apply_nbr e A - {p} \<subseteq> tp_apply_nbr e (A - {p})"
    by (cases "(e, A)" rule: tp_apply_nbr.cases) auto
  then have "tp_nbr_log io (tp_apply_nbr e A - {p}) \<subseteq> tp_nbr_log io (tp_apply_nbr e (A - {p}))"
    by (rule tp_nbr_log_mono)
  with Cons.IH [of "tp_apply_nbr e A"] show ?case by simp
qed simp

lemma nbr_log_mono: "A \<subseteq> B \<Longrightarrow> nbr_log io A \<subseteq> nbr_log io B"
  using tp_nbr_log_mono [of A B "map out_from_hv io"] by simp

section \<open>The invariant\<close>

definition env_ok :: "pt_env \<Rightarrow> bool" where
  "env_ok E \<longleftrightarrow> 0 < ihave_max_size E \<and> header_size E + ihave_max_size E + 3 \<le> min_max_message_size"

definition layers_ok :: "pt_env \<Rightarrow> ('p::linorder, 'r) tp_state \<Rightarrow> bool" where
  "layers_ok E s \<longleftrightarrow>
     hv_wf (tp_swarm s) \<and> pt_wf E (tp_gossip s) \<and>
     hv_me (tp_swarm s) = tp_me s \<and> pt_me (tp_gossip s) = tp_me s"

definition tp_wf :: "pt_env \<Rightarrow> ('p::linorder, 'r) tp_state \<Rightarrow> bool" where
  "tp_wf E s \<longleftrightarrow>
     layers_ok E s \<and> tp_outbox s = [] \<and> set (active_view (tp_swarm s)) \<subseteq> tree_peers (tp_gossip s)"

lemma with_rng_wf:
  assumes "env_ok E"
  shows "min_max_message_size \<le> max_message_size cfg \<Longrightarrow>
           \<exists>s. with_rng E me d cfg r = Some s \<and> tp_wf E s \<and> active_view (tp_swarm s) = []"
    and "max_message_size cfg < min_max_message_size \<Longrightarrow> with_rng E me d cfg r = None"
  using assms pt_wf_new [of E "max_message_size cfg - header_size E" me "broadcast_cfg cfg"]
    hv_wf_new [of me d "membership cfg" r]
  by (auto simp: with_rng_def usize_sub_def env_ok_def tp_wf_def layers_ok_def hv_new_def pt_new_def)

text \<open>
  During the dispatch of an event the neighbour events still wait in the outbox: replaying
  them on the tree must give at least the active view.
\<close>

definition in_step :: "pt_env \<Rightarrow> ('p::linorder, 'r) tp_state \<Rightarrow> bool" where
  "in_step E s \<longleftrightarrow>
     layers_ok E s \<and> set (active_view (tp_swarm s)) \<subseteq> tp_nbr_log (tp_outbox s) (tree_peers (tp_gossip s))"

lemma tp_wf_in_step: "tp_wf E s \<Longrightarrow> in_step E s"
  by (simp add: tp_wf_def in_step_def)

section \<open>The calls of the layers\<close>

lemma swarm_call_facts:
  assumes X: "ext_ok X" and s: "in_step E s"
  shows "\<exists>s'. swarm_call X e s = Some s' \<and> in_step E s' \<and> tp_gossip s' = tp_gossip s \<and>
    tp_me s' = tp_me s \<and>
    (e \<noteq> HvQuit \<longrightarrow> (\<forall>A. tp_nbr_log (tp_outbox s) A = set (active_view (tp_swarm s)) \<longrightarrow>
        tp_nbr_log (tp_outbox s') A = set (active_view (tp_swarm s'))))"
proof -
  have w: "hv_wf (fst (tp_swarm s, []))" using s by (simp add: in_step_def layers_ok_def)
  obtain sw out where h: "hv_handle X e (tp_swarm s, []) = Some (sw, out)" and
    wf: "hv_wf sw" "hv_me sw = hv_me (tp_swarm s)"
    using hv_handle_safe [OF X w, of e] by auto
  let ?s = "s\<lparr> tp_swarm := sw, tp_outbox := tp_outbox s @ map out_from_hv out \<rparr>"
  have c: "swarm_call X e s = Some ?s" by (simp add: swarm_call_def h)
  have log: "nbr_log out (set (active_view (tp_swarm s))) = set (active_view sw)" if "e \<noteq> HvQuit"
    using hv_handle_keeps [OF X w that, of "set (active_view (tp_swarm s))"] h
    by (auto simp: keeps_def log_ok_def)
  have quit: "active_view sw = []" if "e = HvQuit"
    using h handle_quit_facts(2) [OF X w]
    by (auto simp: that hv_handle_def hv_dispatch_def hv_schedule_shuffle_def split: prod.splits if_splits)
  have "set (active_view sw) \<subseteq> nbr_log out (tp_nbr_log (tp_outbox s) (tree_peers (tp_gossip s)))"
  proof (cases "e = HvQuit")
    case False
    have "set (active_view (tp_swarm s)) \<subseteq> tp_nbr_log (tp_outbox s) (tree_peers (tp_gossip s))"
      using s by (simp add: in_step_def)
    from nbr_log_mono [OF this, of out] log [OF False] show ?thesis by simp
  qed (simp add: quit)
  with s wf have "in_step E ?s" by (simp add: in_step_def layers_ok_def)
  with c log show ?thesis by simp
qed

lemma gossip_call_facts:
  assumes s: "in_step E s" and e: "pt_admitted E e" "\<nexists>p. e = PtNeighborDown p"
  shows "\<exists>s'. gossip_call E e now s = Some s' \<and> in_step E s' \<and> tp_swarm s' = tp_swarm s \<and>
    tp_me s' = tp_me s \<and> (\<forall>A. tp_nbr_log (tp_outbox s') A = tp_nbr_log (tp_outbox s) A)"
proof -
  have w: "pt_wf E (fst (tp_gossip s, []))" using s by (simp add: in_step_def layers_ok_def)
  obtain g out where h: "pt_handle E e now (tp_gossip s, []) = Some (g, out)" and
    m: "pt_moves E e (tp_gossip s, []) (g, out)"
    using pt_handle_moves [OF w e(1), where now = now] by auto
  have "tree_peers (tp_gossip s) \<subseteq> tree_peers g"
    using m e(2) by (auto simp: pt_moves_def split: pt_in.splits)
  from tp_nbr_log_mono [OF this, of "tp_outbox s"] show ?thesis
    using h m s by (auto simp: gossip_call_def pt_moves_def in_step_def layers_ok_def)
qed

lemma gossip_down_facts:
  assumes s: "in_step E s" and p: "p \<notin> set (active_view (tp_swarm s))"
  shows "\<exists>s'. gossip_call E (PtNeighborDown p) now s = Some s' \<and> in_step E s' \<and>
    tp_swarm s' = tp_swarm s \<and> tp_me s' = tp_me s \<and>
    (\<forall>A. tp_nbr_log (tp_outbox s') A = tp_nbr_log (tp_outbox s) A)"
proof -
  have w: "pt_wf E (fst (tp_gossip s, []))" using s by (simp add: in_step_def layers_ok_def)
  obtain g out where h: "pt_handle E (PtNeighborDown p) now (tp_gossip s, []) = Some (g, out)" and
    m: "pt_moves E (PtNeighborDown p) (tp_gossip s, []) (g, out)"
    using pt_handle_moves [OF w, of "PtNeighborDown p" now] by auto
  have "tree_peers g = tree_peers (tp_gossip s) - {p}" using m by (simp add: pt_moves_def)
  with tp_nbr_log_drop [of "tp_outbox s" "tree_peers (tp_gossip s)" p] p show ?thesis
    using h m s by (auto simp: gossip_call_def pt_moves_def in_step_def layers_ok_def)
qed

lemma join_all_facts:
  assumes X: "ext_ok X"
  shows "in_step E s \<Longrightarrow> \<exists>s'. join_all X ps s = Some s' \<and> in_step E s' \<and> tp_me s' = tp_me s \<and>
    tp_gossip s' = tp_gossip s \<and>
    (\<forall>A. tp_nbr_log (tp_outbox s) A = set (active_view (tp_swarm s)) \<longrightarrow>
        tp_nbr_log (tp_outbox s') A = set (active_view (tp_swarm s')))"
proof (induction ps arbitrary: s)
  case (Cons p ps)
  from swarm_call_facts [OF X Cons.prems, of "HvRequestJoin p"] obtain s1 where
    1: "swarm_call X (HvRequestJoin p) s = Some s1" "in_step E s1" "tp_me s1 = tp_me s"
      "tp_gossip s1 = tp_gossip s" and
    l1: "\<forall>A. tp_nbr_log (tp_outbox s) A = set (active_view (tp_swarm s)) \<longrightarrow>
        tp_nbr_log (tp_outbox s1) A = set (active_view (tp_swarm s1))"
    by auto
  from Cons.IH [OF 1(2)] 1 l1 show ?case by auto
qed simp

section \<open>The handler\<close>

lemma hv_schedule_shuffle_active [simp]:
  "active_view (fst (hv_schedule_shuffle c)) = active_view (fst c)"
  by (cases c) (simp add: hv_schedule_shuffle_def)

lemma connection_closed_not_active:
  assumes X: "ext_ok X" and s: "hv_wf s"
    and h: "hv_handle X (HvPeerDisconnected p) (s, io) = Some c'"
  shows "p \<notin> set (active_view (fst c'))"
proof -
  let ?t = "s\<lparr> pending_neighbor_requests := pending_neighbor_requests s - {p} \<rparr>"
  have t: "hv_wf (fst (?t, io))" using s by (simp add: hv_wf_def)
  obtain c1 where c1: "handle_connection_closed X p (s, io) = Some c1" "c' = hv_schedule_shuffle c1"
    using h by (auto simp: hv_handle_def hv_dispatch_def)
  have "p \<notin> set (active_view (fst c1))"
  proof (cases "p \<in> set (active_view s)")
    case True
    then have "remove_active X p ConnectionClosed (?t, io) = Some c1"
      using c1(1) by (simp add: handle_connection_closed_def)
    with remove_active_facts [OF X t, of p ConnectionClosed "{}"] show ?thesis by auto
  next
    case False
    with c1(1) show ?thesis by (auto simp: handle_connection_closed_def Let_def split: if_splits)
  qed
  with c1(2) show ?thesis by simp
qed

fun admitted_message :: "pt_env \<Rightarrow> 'p tp_message \<Rightarrow> bool" where
  "admitted_message E (TpGossip m) = (\<not> last_round_gossip E m)"
| "admitted_message E (TpSwarm _) = True"

fun tp_admitted :: "pt_env \<Rightarrow> 'p tp_in \<Rightarrow> bool" where
  "tp_admitted E (TpRecvMessage _ m) = admitted_message E m"
| "tp_admitted E _ = True"

text \<open>
  The neighbour events of the outbox are the changes of the active view, unless the topic
  is quit: then the view is emptied without an event.
\<close>

definition outbox_tracks :: "('p, 'r) tp_state \<Rightarrow> ('p, 'r) tp_state \<Rightarrow> bool" where
  "outbox_tracks s s' \<longleftrightarrow>
     tp_nbr_log (tp_outbox s') (set (active_view (tp_swarm s))) = set (active_view (tp_swarm s'))"

definition dispatched ::
  "pt_env \<Rightarrow> 'p::linorder tp_in \<Rightarrow> ('p, 'r) tp_state \<Rightarrow> ('p, 'r) tp_state \<Rightarrow> bool" where
  "dispatched E e s s' \<longleftrightarrow>
     in_step E s' \<and> tp_me s' = tp_me s \<and> (e \<noteq> TpCommand TpQuit \<longrightarrow> outbox_tracks s s')"

lemma dispatched_received [simp]:
  "dispatched E e (s\<lparr> messages_received := n \<rparr>) s' = dispatched E e s s'"
  by (simp add: dispatched_def outbox_tracks_def)

lemma swarm_call_dispatched:
  assumes "ext_ok X" "in_step E s" "tp_outbox s = []" "e' = TpCommand TpQuit \<or> e \<noteq> HvQuit"
  shows "\<exists>s'. swarm_call X e s = Some s' \<and> dispatched E e' s s'"
proof -
  obtain s' where s': "swarm_call X e s = Some s'" "in_step E s'" "tp_me s' = tp_me s" and
    log: "e \<noteq> HvQuit \<Longrightarrow> tp_nbr_log (tp_outbox s) A = set (active_view (tp_swarm s)) \<Longrightarrow>
        tp_nbr_log (tp_outbox s') A = set (active_view (tp_swarm s'))" for A
    using swarm_call_facts [OF assms(1,2), of e] by blast
  have "outbox_tracks s s'" if "e \<noteq> HvQuit"
    using log [OF that] assms(3) by (simp add: outbox_tracks_def)
  with s' assms(4) show ?thesis unfolding dispatched_def by blast
qed

lemma gossip_call_dispatched:
  assumes "in_step E s" "tp_outbox s = []" "pt_admitted E e" "\<nexists>p. e = PtNeighborDown p"
  shows "\<exists>s'. gossip_call E e now s = Some s' \<and> dispatched E e' s s'"
proof -
  obtain s' where s': "gossip_call E e now s = Some s'" "in_step E s'" "tp_me s' = tp_me s"
    "tp_swarm s' = tp_swarm s" and log: "tp_nbr_log (tp_outbox s') A = tp_nbr_log (tp_outbox s) A" for A
    using gossip_call_facts [OF assms(1,3,4), of now] by blast
  have "outbox_tracks s s'" using s'(4) assms(2) by (simp add: outbox_tracks_def log)
  with s' show ?thesis unfolding dispatched_def by blast
qed

lemma disconnected_dispatched:
  assumes X: "ext_ok X" and i: "in_step E s" and o: "tp_outbox s = []"
  shows "\<exists>s'. tp_dispatch X E (TpPeerDisconnected p) now s = Some s' \<and>
    dispatched E (TpPeerDisconnected p) s s'"
proof -
  obtain s1 where 1: "swarm_call X (HvPeerDisconnected p) s = Some s1" "in_step E s1" "tp_me s1 = tp_me s"
    "tp_nbr_log (tp_outbox s1) (set (active_view (tp_swarm s))) = set (active_view (tp_swarm s1))"
    using swarm_call_facts [OF X i, of "HvPeerDisconnected p"] o by auto
  have "hv_wf (tp_swarm s)" using i by (simp add: in_step_def layers_ok_def)
  from connection_closed_not_active [OF X this, of p "[]"] 1(1)
  have "p \<notin> set (active_view (tp_swarm s1))" by (auto simp: swarm_call_def)
  from gossip_down_facts [OF 1(2) this, of now] 1 show ?thesis
    by (auto simp: tp_dispatch_def outbox_tracks_def dispatched_def)
qed

lemma tp_dispatch_facts:
  assumes X: "ext_ok X" and s: "tp_wf E s" and e: "tp_admitted E e"
  shows "\<exists>s'. tp_dispatch X E e now s = Some s' \<and> dispatched E e s s'"
proof -
  have i: "in_step E s" and o: "tp_outbox s = []"
    using s by (simp_all add: tp_wf_in_step) (simp add: tp_wf_def)
  note calls = swarm_call_dispatched [OF X i o] gossip_call_dispatched [OF i o]
  show ?thesis
  proof (cases e)
    case (TpRecvMessage p m)
    let ?s = "s\<lparr> messages_received := messages_received s + 1 \<rparr>"
    have 1: "in_step E ?s" "tp_outbox ?s = []" using i o by (simp_all add: in_step_def layers_ok_def)
    show ?thesis
      using swarm_call_dispatched [OF X 1] gossip_call_dispatched [OF 1] TpRecvMessage e
      by (cases m) (simp_all add: tp_dispatch_def Let_def)
  next
    case (TpCommand c)
    have "\<exists>s'. join_all X ps s = Some s' \<and> dispatched E e s s'" for ps
      using join_all_facts [OF X i, of ps] o unfolding dispatched_def outbox_tracks_def by auto
    with TpCommand calls show ?thesis by (cases c) (simp_all add: tp_dispatch_def)
  next
    case (TpTimerExpired t)
    then show ?thesis using calls by (cases t) (simp_all add: tp_dispatch_def)
  next
    case (TpPeerDisconnected p)
    with disconnected_dispatched [OF X i o] show ?thesis by simp
  next
    case (TpUpdatePeerData d)
    with calls show ?thesis by (simp add: tp_dispatch_def)
  qed
qed

lemma neighbor_input_Some:
  "neighbor_input e = Some i \<Longrightarrow>
   (\<exists>p. e = TpEmitEvent (TpNeighborUp p) \<and> i = PtNeighborUp p) \<or>
   (\<exists>p. e = TpEmitEvent (TpNeighborDown p) \<and> i = PtNeighborDown p)"
  by (cases e rule: neighbor_input.cases) auto

lemma neighbor_input_None: "neighbor_input e = None \<Longrightarrow> tp_apply_nbr e A = A"
  by (cases e rule: neighbor_input.cases) auto

lemma forward_neighbors_facts:
  "pt_wf E (fst c) \<Longrightarrow> \<exists>c'. forward_neighbors E now es c = Some c' \<and> pt_wf E (fst c') \<and>
     pt_me (fst c') = pt_me (fst c) \<and> tree_peers (fst c') = tp_nbr_log es (tree_peers (fst c))"
proof (induction es arbitrary: c)
  case (Cons e es)
  show ?case
  proof (cases "neighbor_input e")
    case None
    with Cons neighbor_input_None [OF None] show ?thesis by simp
  next
    case (Some i)
    then have "pt_admitted E i" using neighbor_input_Some [OF Some] by auto
    then obtain c1 where 1: "pt_handle E i now c = Some c1" "pt_moves E i c c1"
      using pt_handle_moves [OF Cons.prems] by blast
    have t: "pt_wf E (fst c1)" "pt_me (fst c1) = pt_me (fst c)"
      "tree_peers (fst c1) = tp_apply_nbr e (tree_peers (fst c))"
      using 1(2) neighbor_input_Some [OF Some] by (auto simp: pt_moves_def)
    from Cons.IH [OF t(1)] Some 1(1) t show ?thesis by simp
  qed
qed simp

lemma tp_flush_facts:
  assumes "in_step E s"
  shows "\<exists>s' out. tp_flush E now s = Some (s', out) \<and> tp_wf E s' \<and> tp_me s' = tp_me s \<and>
    tp_swarm s' = tp_swarm s \<and> (\<forall>A. tp_nbr_log out A = tp_nbr_log (tp_outbox s) A)"
proof -
  have w: "pt_wf E (fst (tp_gossip s, []))" using assms by (simp add: in_step_def layers_ok_def)
  obtain g io where "forward_neighbors E now (tp_outbox s) (tp_gossip s, []) = Some (g, io)"
    "pt_wf E g" "pt_me g = pt_me (tp_gossip s)"
    "tree_peers g = tp_nbr_log (tp_outbox s) (tree_peers (tp_gossip s))"
    using forward_neighbors_facts [OF w, of now "tp_outbox s"] by auto
  with assms show ?thesis
    by (auto simp: tp_flush_def Let_def tp_wf_def in_step_def layers_ok_def)
qed

lemma tp_handle_facts:
  assumes X: "ext_ok X" and s: "tp_wf E s" and e: "tp_admitted E e"
  shows "\<exists>s' out. tp_handle X E e now s = Some (s', out) \<and> tp_wf E s' \<and> tp_me s' = tp_me s \<and>
    (e \<noteq> TpCommand TpQuit \<longrightarrow>
       tp_nbr_log out (set (active_view (tp_swarm s))) = set (active_view (tp_swarm s')))"
proof -
  obtain s1 where 1: "tp_dispatch X E e now s = Some s1" "in_step E s1" "tp_me s1 = tp_me s"
    "e \<noteq> TpCommand TpQuit \<longrightarrow> outbox_tracks s s1"
    using tp_dispatch_facts [OF assms, of now] unfolding dispatched_def by blast
  from tp_flush_facts [OF 1(2), of now] 1 show ?thesis
    by (auto simp: tp_handle_def outbox_tracks_def)
qed

abbreviation tp_step ::
  "('p::linorder, 'r) ext \<Rightarrow> pt_env \<Rightarrow> ('p, 'r) tp_state \<Rightarrow> 'p tp_in \<times> instant \<Rightarrow>
   (('p, 'r) tp_state \<times> 'p tp_out list) option" where
  "tp_step X E s en \<equiv> tp_handle X E (fst en) (snd en) s"

interpretation tpm: tracked_machine "tp_step X E" "\<lambda>s. ext_ok X \<and> tp_wf E s"
    "\<lambda>(e, now). tp_admitted E e \<and> e \<noteq> TpCommand TpQuit"
    "\<lambda>s out s'. tp_nbr_log out (set (active_view (tp_swarm s))) = set (active_view (tp_swarm s')) \<and>
                 tp_me s' = tp_me s"
  for X E
proof unfold_locales
  show "\<exists>s' out. tp_step X E s en = Some (s', out) \<and> ext_ok X \<and> tp_wf E s'"
    if "ext_ok X \<and> tp_wf E s" "case en of (e, now) \<Rightarrow> tp_admitted E e \<and> e \<noteq> TpCommand TpQuit" for s en
    using tp_handle_facts [of X E s "fst en" "snd en"] that by (cases en) auto
  show "tp_nbr_log out (set (active_view (tp_swarm s))) = set (active_view (tp_swarm s')) \<and> tp_me s' = tp_me s"
    if "ext_ok X \<and> tp_wf E s" "case en of (e, now) \<Rightarrow> tp_admitted E e \<and> e \<noteq> TpCommand TpQuit"
      "tp_step X E s en = Some (s', out)" for s en s' out
    using tp_handle_facts [of X E s "fst en" "snd en"] that by (cases en) auto
qed auto

text \<open>
  C7. A topic with at least the minimal message size never panics on admitted events other
  than the command to quit, and its two layers stay in step: every peer of the active view is an eager or a lazy peer of
  the broadcast tree, no peer is both, and the neighbour events the application has seen
  add up to the active view.  Quitting ends a topic; it empties the active view without
  an event for each neighbour.
\<close>

theorem topic_layers_in_step:
  assumes "ext_ok X" "env_ok E" "min_max_message_size \<le> max_message_size cfg"
    and "list_all (\<lambda>(e, now). tp_admitted E e \<and> e \<noteq> TpCommand TpQuit) es"
  shows "\<exists>s0 s out. with_rng E me data cfg rng = Some s0 \<and> run_machine (tp_step X E) s0 es = Some (s, out) \<and>
    set (active_view (tp_swarm s)) \<subseteq>
      set (eager_push_peers (tp_gossip s)) \<union> set (lazy_push_peers (tp_gossip s)) \<and>
    set (eager_push_peers (tp_gossip s)) \<inter> set (lazy_push_peers (tp_gossip s)) = {} \<and>
    tp_nbr_log out {} = set (active_view (tp_swarm s))"
proof -
  obtain s0 where s0: "with_rng E me data cfg rng = Some s0" "tp_wf E s0" "active_view (tp_swarm s0) = []"
    using with_rng_wf(1) [OF assms(2,3), of me data rng] by blast
  have i: "ext_ok X \<and> tp_wf E s0" using assms(1) s0(2) by simp
  obtain s out where r: "run_machine (tp_step X E) s0 es = Some (s, out)" "tp_wf E s"
    using tpm.run_safe [OF i assms(4)] by blast
  from tpm.run_rel [OF i assms(4) r(1)] s0 r show ?thesis
    by (auto simp: tp_wf_def layers_ok_def tree_peers_def pt_wf_def peers_ok_def)
qed

theorem topic_layers_in_step_witness:
  "\<exists>s0 s out. with_rng (demo_env True) (0::nat) None tp_default_config 0 = Some s0 \<and>
    run_machine (tp_step demo_ext (demo_env True)) s0
      [(TpCommand (TpJoin [1, 2]), 5), (TpRecvMessage 1 (TpSwarm (HvNeighbor (Neighbor High None))), 10),
       (TpRecvMessage 1 (TpGossip PtPrune), 12), (TpPeerDisconnected 1, 20)] = Some (s, out) \<and>
    set (active_view (tp_swarm s)) \<subseteq>
      set (eager_push_peers (tp_gossip s)) \<union> set (lazy_push_peers (tp_gossip s)) \<and>
    set (eager_push_peers (tp_gossip s)) \<inter> set (lazy_push_peers (tp_gossip s)) = {} \<and>
    tp_nbr_log out {} = set (active_view (tp_swarm s))"
  by (rule topic_layers_in_step)
     (simp_all add: demo_ext_ok env_ok_def min_max_message_size_def tp_default_config_def
       default_max_message_size_def last_round_gossip_def)

text \<open>
  The neighbour events of the membership layer may make the broadcast layer emit
  something: the first one initialises it, which schedules its cache eviction timer.
\<close>

theorem first_neighbor_event_emits:
  assumes "\<not> pt_init g"
  shows "\<exists>g'. forward_neighbors E now [TpEmitEvent (TpNeighborUp p)] (g, []) =
    Some (g', [PtScheduleTimer (cache_evict_interval (pt_config g)) EvictCache])"
  using assms
  by (simp add: pt_handle_def pt_initialize_def on_evict_cache_timer_def pt_dispatch_def on_neighbor_up_def)

theorem first_neighbor_event_emits_witness:
  "\<exists>g'. forward_neighbors (demo_env True) 3 [TpEmitEvent (TpNeighborUp 1)] (demo_state [] [], []) =
    Some (g', [PtScheduleTimer (cache_evict_interval (pt_config (demo_state [] []))) EvictCache])"
  by (rule first_neighbor_event_emits) (simp add: demo_state_def pt_new_def)

end
