(* ===== verification/Membership.thy ===== *)
theory Membership
  imports Hyparview_Inv
begin

text \<open>
  What the membership protocol guarantees to its users, from the facts on the single
  handlers: runs never panic and keep the views well-formed, the emitted neighbour events
  are the changes of the active view, joining peers are taken in and announced, random
  walks are bounded, and quitting tells every neighbour.
\<close>

text \<open>A concrete fresh state, for examples.\<close>

definition demo_hv :: "(nat, nat) hv_state" where
  "demo_hv = hv_new 0 None hv_default_config 0"

lemma demo_hv_simps [simp]:
  "hv_me demo_hv = 0" "active_view demo_hv = []" "passive_view demo_hv = []" "hv_wf demo_hv"
  "\<not> active_is_full demo_hv" "hv_config demo_hv = hv_default_config"
  using hv_wf_new [of 0 None hv_default_config 0]
  by (simp_all add: demo_hv_def hv_new_def active_is_full_def hv_default_config_def)

text \<open>
  C13. Whatever events a fresh membership state is fed with, no handler panics, and
  afterwards the active and the passive view are duplicate-free, disjoint, within their
  capacities and without the node itself.
\<close>

theorem membership_safe:
  assumes "ext_ok X"
  shows "\<exists>s out. run_machine (hv_step X) (hv_new me data cfg rng) es = Some (s, out) \<and>
    distinct (active_view s) \<and> distinct (passive_view s) \<and>
    set (active_view s) \<inter> set (passive_view s) = {} \<and>
    hv_me s \<notin> set (active_view s) \<union> set (passive_view s) \<and>
    length (active_view s) \<le> max 1 (active_view_capacity (hv_config s)) \<and>
    length (passive_view s) \<le> max 1 (passive_view_capacity (hv_config s))"
proof -
  have "list_all (\<lambda>e. True) es" by (simp add: list_all_iff)
  from hvm.run_safe [OF _ this, of X "hv_new me data cfg rng"] assms hv_wf_new [of me data cfg rng]
  show ?thesis by (auto simp: hv_wf_def)
qed

theorem membership_safe_witness:
  "\<exists>s out. run_machine (hv_step demo_ext) (hv_new (0::nat) None hv_default_config 0)
      [HvRecvMessage 1 (HvJoin None), HvRecvMessage 2 (HvNeighbor (Neighbor High None)),
       HvRecvMessage 1 (HvForwardJoin (ForwardJoin \<lparr> pi_id = 3, pi_data = None \<rparr> 3)),
       HvPeerDisconnected 1, HvQuit] = Some (s, out) \<and>
    distinct (active_view s) \<and> distinct (passive_view s) \<and>
    set (active_view s) \<inter> set (passive_view s) = {} \<and>
    hv_me s \<notin> set (active_view s) \<union> set (passive_view s) \<and>
    length (active_view s) \<le> max 1 (active_view_capacity (hv_config s)) \<and>
    length (passive_view s) \<le> max 1 (passive_view_capacity (hv_config s))"
  by (rule membership_safe) (rule demo_ext_ok)

text \<open>
  C23. The neighbour events are a faithful log: replaying the \<^verbatim>\<open>NeighborUp\<close> and
  \<^verbatim>\<open>NeighborDown\<close> events of a run that does not quit gives exactly the active view.
  Quitting, the last thing a topic does, empties the view without \<^verbatim>\<open>NeighborDown\<close> events.
\<close>

theorem neighbor_events_track_view:
  assumes "ext_ok X" "HvQuit \<notin> set es"
    and "run_machine (hv_step X) (hv_new me data cfg rng) es = Some (s, out)"
  shows "nbr_log out {} = set (active_view s)"
proof -
  have "list_all (\<lambda>e. e \<noteq> HvQuit) es" using assms(2) by (auto simp: list_all_iff)
  from hvt.run_rel [OF _ this assms(3)] assms(1) hv_wf_new [of me data cfg rng]
  show ?thesis by (simp add: hv_new_def)
qed

theorem neighbor_events_track_view_witness:
  "\<exists>s out. run_machine (hv_step demo_ext) (hv_new (0::nat) None hv_default_config 0)
      [HvRecvMessage 1 (HvJoin None), HvRecvMessage 2 (HvJoin None), HvPeerDisconnected 1] = Some (s, out) \<and>
    nbr_log out {} = set (active_view s)"
proof -
  let ?es = "[HvRecvMessage 1 (HvJoin None), HvRecvMessage 2 (HvJoin None), HvPeerDisconnected 1] :: nat hv_in list"
  have "ext_ok demo_ext \<and> hv_wf (hv_new (0::nat) None hv_default_config (0::nat))" "list_all (\<lambda>e. True) ?es"
    by (simp_all add: demo_ext_ok hv_wf_new)
  from hvm.run_safe [OF this] obtain s out where
    r: "run_machine (hv_step demo_ext) (hv_new (0::nat) None hv_default_config 0) ?es = Some (s, out)" by blast
  from neighbor_events_track_view [OF demo_ext_ok _ r] r show ?thesis by simp
qed

section \<open>Joining\<close>

text \<open>
  A join request of another node is always granted, even if the active view is full,
  and the other active peers are told: the sender is in the active view afterwards, and
  every other member of it is sent a \<^verbatim>\<open>ForwardJoin\<close> with the configured walk length.
\<close>

theorem join_granted:
  assumes "ext_ok X" "hv_wf s" "p \<noteq> hv_me s"
  shows "\<exists>s' out. on_join X p data (s, []) = (s', out) \<and> hv_wf s' \<and> p \<in> set (active_view s') \<and>
    (\<forall>q \<in> set (active_view s') - {p}.
       HvSendMessage q (HvForwardJoin (ForwardJoin \<lparr> pi_id = p, pi_data = data \<rparr>
         (active_random_walk_length (hv_config s)))) \<in> set out)"
proof -
  obtain acc s' io where a: "add_active X p data High True (s, []) = (acc, s', io)"
    by (cases "add_active X p data High True (s, [])") auto
  have f: "acc" "p \<in> set (active_view s')" "hv_wf s'" "hv_config s' = hv_config s"
    using add_active_facts [OF assms(1), of "(s, [])", where p = p and d = data and pr = High and reply = True]
      assms(2,3) by (simp_all add: a)
  then show ?thesis
    by (auto simp: on_join_def a Let_def iter_without_def)
qed

theorem join_granted_witness:
  "\<exists>s' out. on_join demo_ext (1::nat) None (demo_hv, []) = (s', out) \<and> hv_wf s' \<and>
    1 \<in> set (active_view s') \<and>
    (\<forall>q \<in> set (active_view s') - {1}.
       HvSendMessage q (HvForwardJoin (ForwardJoin \<lparr> pi_id = 1, pi_data = None \<rparr>
         (active_random_walk_length (hv_config demo_hv)))) \<in> set out)"
  by (rule join_granted) (simp_all add: demo_ext_ok)

text \<open>
  A neighbour request is answered by its priority: a request of another node is
  accepted if the node is active already, if the priority is high, or if there is room;
  otherwise the views stay as they are and the connection is closed.
\<close>

theorem neighbor_request_decided:
  assumes "ext_ok X" "hv_wf s"
  shows "\<exists>s' out. on_neighbor X p details (s, []) = (s', out) \<and> hv_wf s' \<and>
    (if p \<noteq> hv_me s \<and> (p \<in> set (active_view s) \<or> nb_priority details = High \<or> \<not> active_is_full s)
     then p \<in> set (active_view s')
     else active_view s' = active_view s \<and> passive_view s' = passive_view s \<and> HvDisconnectPeer p \<in> set out)"
proof -
  let ?s = "s\<lparr> pending_neighbor_requests := pending_neighbor_requests s - {p} \<rparr>"
  let ?r = "p \<notin> pending_neighbor_requests s"
  obtain acc s' io where a: "add_active X p (nb_data details) (nb_priority details) ?r (?s, []) = (acc, s', io)"
    by (cases "add_active X p (nb_data details) (nb_priority details) ?r (?s, [])") auto
  have w: "hv_wf (fst (?s, []))" using assms(2) by (simp add: hv_wf_def)
  note f = add_active_facts [OF assms(1) w, where p = p and d = "nb_data details" and pr = "nb_priority details" and reply = ?r]
  have acc: "acc \<longleftrightarrow> p \<noteq> hv_me s \<and> (p \<in> set (active_view s) \<or> nb_priority details = High \<or> \<not> active_is_full s)"
    using f(1) by (simp add: a active_is_full_def)
  have e: "on_neighbor X p details (s, []) = (if acc then (s', io) else send_disconnect X p True (s', io))"
    by (simp add: on_neighbor_def a Let_def)
  show ?thesis
  proof (cases acc)
    case True
    with e f(2,4) show ?thesis by (simp add: a acc [symmetric])
  next
    case False
    have "hv_wf (fst (send_disconnect X p True (s', io)))"
      using hv_wf_cong [of s' "fst (send_disconnect X p True (s', io))"] f(4) by (simp add: a)
    moreover have "HvDisconnectPeer p \<in> set (snd (send_disconnect X p True (s', io)))"
      by (simp add: send_disconnect_def Let_def case_prod_unfold)
    ultimately show ?thesis
      using e False f(3) by (simp add: a acc [symmetric] prod_eq_iff)
  qed
qed

theorem neighbor_request_decided_witness:
  "\<exists>s' out. on_neighbor demo_ext (1::nat) (Neighbor Low None) (demo_hv, []) = (s', out) \<and>
    hv_wf s' \<and> 1 \<in> set (active_view s')"
  using neighbor_request_decided [OF demo_ext_ok demo_hv_simps(4), of 1 "Neighbor Low None"] by simp

section \<open>Random walks\<close>

fun walk_ttl :: "'p hv_message \<Rightarrow> ttl option" where
  "walk_ttl (HvForwardJoin m) = Some (fj_ttl m)"
| "walk_ttl (HvShuffle m) = Some (sh_ttl m)"
| "walk_ttl _ = None"

text \<open>The walk messages an operation sends, given those pushed before.\<close>

definition walks_below :: "nat \<Rightarrow> 'p hv_out list \<Rightarrow> bool" where
  "walks_below n out \<longleftrightarrow> (\<forall>q m t. HvSendMessage q m \<in> set out \<longrightarrow> walk_ttl m = Some t \<longrightarrow> unat t < n)"

lemma walks_below_simps [simp]:
  "walks_below n []"
  "walks_below n (out @ out') \<longleftrightarrow> walks_below n out \<and> walks_below n out'"
  by (auto simp: walks_below_def)

lemma walks_below_Cons [simp]:
  "walks_below n (HvSendMessage q m # out) \<longleftrightarrow>
     (case walk_ttl m of None \<Rightarrow> True | Some t \<Rightarrow> unat t < n) \<and> walks_below n out"
  "walks_below n (HvScheduleTimer d t # out) \<longleftrightarrow> walks_below n out"
  "walks_below n (HvPeerData q pd # out) \<longleftrightarrow> walks_below n out"
  by (auto simp: walks_below_def split: option.splits)

lemma insert_peer_info_walks [simp]:
  "walks_below n (snd (insert_peer_info i c)) \<longleftrightarrow> walks_below n (snd c)"
  by (cases c) (simp add: insert_peer_info_def Let_def split: option.splits)

lemma send_neighbor_walks [simp]:
  "walks_below n (snd (send_neighbor p pr c)) \<longleftrightarrow> walks_below n (snd c)"
  by (cases c) (simp add: send_neighbor_def)

lemma add_passive_walks [simp]:
  "walks_below n (snd (add_passive X p d c)) \<longleftrightarrow> walks_below n (snd c)"
proof -
  have "snd (add_passive X p d c) = snd (insert_peer_info \<lparr> pi_id = p, pi_data = d \<rparr> c)"
    by (simp add: add_passive_def Let_def case_prod_unfold)
  then show ?thesis by simp
qed

lemma add_passive_nodes_walks [simp]:
  "walks_below n (snd (add_passive_nodes X ns c)) \<longleftrightarrow> walks_below n (snd c)"
  unfolding add_passive_nodes_def by (induction ns arbitrary: c) simp_all

lemma send_shuffle_reply_walks [simp]:
  "walks_below n (snd (send_shuffle_reply X p k c)) \<longleftrightarrow> walks_below n (snd c)"
  by (cases c) (simp add: send_shuffle_reply_def Let_def case_prod_unfold)

lemma ttl_next_less: "\<not> ttl_expired t \<Longrightarrow> unat (ttl_next t) < unat t"
  using unat_saturating_sub_one_less [of t] by (simp add: ttl_expired_def ttl_next_def)

lemma on_forward_join_walks:
  assumes "on_forward_join X p f c = Some c'" "walks_below (unat (fj_ttl f)) (snd c)"
  shows "walks_below (unat (fj_ttl f)) (snd c')"
proof -
  define c1 where "c1 = (if fj_ttl f = passive_random_walk_length (hv_config (fst c))
      then add_passive X (pi_id (fj_peer f)) (pi_data (fj_peer f)) c else c)"
  have 1: "walks_below (unat (fj_ttl f)) (snd c1)" 
    using assms(2) unfolding c1_def by (simp only: add_passive_walks split: if_split) simp
  consider "c' = send_neighbor (pi_id (fj_peer f)) High (insert_peer_info (fj_peer f) c)"
    | q r where "\<not> ttl_expired (fj_ttl f)" "c' = ((fst c1)\<lparr> hv_rng := r \<rparr>, snd c1 @ [HvSendMessage q
        (HvForwardJoin (ForwardJoin (fj_peer f) (ttl_next (fj_ttl f))))])"
    | "c' = c1"
    using assms(1) unfolding on_forward_join_def Let_def c1_def [symmetric] case_prod_unfold
    by (auto split: if_splits option.splits)
  then show ?thesis
  proof cases
    case 1
    with assms(2) show ?thesis by simp
  next
    case 2
    with 1 ttl_next_less show ?thesis by simp
  next
    case 3
    with 1 show ?thesis by simp
  qed
qed

lemma on_shuffle_walks:
  assumes "walks_below (unat (sh_ttl m)) (snd c)"
  shows "walks_below (unat (sh_ttl m)) (snd (on_shuffle X p m c))"
  using assms ttl_next_less [of "sh_ttl m"]
  by (cases c) (auto simp: on_shuffle_def split: option.splits prod.splits)

text \<open>
  Random walks are bounded: whatever a node sends on behalf of a received
  \<^verbatim>\<open>ForwardJoin\<close> or \<^verbatim>\<open>Shuffle\<close> carries a strictly smaller time to live, so a walk ends after
  at most as many hops as its first time to live.
\<close>

theorem random_walk_bounded:
  assumes "walk_ttl m = Some t" "hv_handle_message X p m (s, []) = Some (s', out)"
    and "HvSendMessage q m' \<in> set out" "walk_ttl m' = Some t'"
  shows "unat t' < unat t"
proof -
  have "walks_below (unat t) out"
  proof (cases m)
    case (HvForwardJoin f)
    then obtain s1 where "on_forward_join X p f (s1, []) = Some (s', out)" "t = fj_ttl f"
      using assms(1,2) by (auto simp: hv_handle_message_def Let_def split: if_splits)
    with on_forward_join_walks [of X p f "(s1, [])"] show ?thesis by auto
  next
    case (HvShuffle f)
    then obtain s1 where "on_shuffle X p f (s1, []) = (s', out)" "t = sh_ttl f"
      using assms(1,2) by (auto simp: hv_handle_message_def Let_def split: if_splits)
    with on_shuffle_walks [of f "(s1, [])" X p] show ?thesis by simp
  qed (use assms(1) in simp_all)
  with assms(3,4) show ?thesis by (auto simp: walks_below_def)
qed

theorem random_walk_bounded_witness:
  "\<exists>s'. hv_handle_message demo_ext 1 (HvForwardJoin (ForwardJoin \<lparr> pi_id = 3, pi_data = None \<rparr> 6))
        (demo_hv\<lparr> active_view := [1, 2] \<rparr>, []) =
      Some (s', [HvSendMessage 2 (HvForwardJoin (ForwardJoin \<lparr> pi_id = 3, pi_data = None \<rparr> 5))]) \<and>
    unat (5::ttl) < unat (6::ttl)"
proof -
  let ?s = "demo_hv\<lparr> active_view := [1, 2] \<rparr>"
  let ?m = "\<lambda>t. HvForwardJoin (ForwardJoin \<lparr> pi_id = 3, pi_data = None \<rparr> t)"
  have h: "hv_handle_message demo_ext 1 (?m 6) (?s, []) = Some (?s\<lparr> hv_rng := Suc 0 \<rparr>, [HvSendMessage 2 (?m 5)])"
    by (simp add: hv_handle_message_def is_disconnect_message_def on_forward_join_def Let_def ttl_expired_def
        demo_hv_def hv_new_def hv_default_config_def pick_random_without_def demo_ext_def ttl_next_def saturating_sub_def)
  from random_walk_bounded [OF _ h, of 6 2 "?m 5" 5] h show ?thesis by simp
qed

section \<open>Leaving\<close>

lemma send_disconnect_out:
  "\<exists>more. snd (send_disconnect X p alive c) =
     snd c @ more @ [HvSendMessage p (HvDisconnect (Disconnect alive False)), HvDisconnectPeer p]"
  by (cases c) (simp add: send_disconnect_def send_shuffle_reply_def Let_def case_prod_unfold)

text \<open>
  Quitting a topic empties the active view and tells every neighbour: each of them is
  sent a \<^verbatim>\<open>Disconnect\<close> that does not claim the node is still alive, and its connection is
  given up.
\<close>

theorem quit_tells_neighbors:
  assumes "ext_ok X" "hv_wf s"
  shows "active_view (fst (handle_quit X (s, []))) = [] \<and>
    (\<forall>p \<in> set (active_view s).
       HvSendMessage p (HvDisconnect (Disconnect False False)) \<in> set (snd (handle_quit X (s, []))) \<and>
       HvDisconnectPeer p \<in> set (snd (handle_quit X (s, []))))"
proof -
  define f where "f = (\<lambda>p (s, io). send_disconnect X p False
              (s\<lparr> active_view := snd (ixs_remove X (active_view s) p) \<rparr>, io))"
  have f: "set (snd c) \<subseteq> set (snd (f p c))"
    "HvSendMessage p (HvDisconnect (Disconnect False False)) \<in> set (snd (f p c))"
    "HvDisconnectPeer p \<in> set (snd (f p c))" for p c
    using send_disconnect_out [of X p False "((fst c)\<lparr> active_view := snd (ixs_remove X (active_view (fst c)) p) \<rparr>, snd c)"]
    by (auto simp: f_def case_prod_unfold)
  have "handle_quit X (s, []) = fold f (active_view s) (s, [])" by (simp add: handle_quit_def f_def)
  with fold_outputs_emit [OF f(1), where e = "\<lambda>p. HvSendMessage p (HvDisconnect (Disconnect False False))", OF f(2)]
    fold_outputs_emit [OF f(1), where e = HvDisconnectPeer, OF f(3)]
    handle_quit_facts(2) [OF assms(1), of "(s, [])"] assms(2)
  show ?thesis by simp
qed

theorem quit_tells_neighbors_witness:
  "active_view (fst (handle_quit demo_ext (demo_hv\<lparr> active_view := [1, 2] \<rparr>, []))) = [] \<and>
    HvSendMessage 1 (HvDisconnect (Disconnect False False)) \<in>
      set (snd (handle_quit demo_ext (demo_hv\<lparr> active_view := [1, 2] \<rparr>, []))) \<and>
    HvDisconnectPeer 2 \<in> set (snd (handle_quit demo_ext (demo_hv\<lparr> active_view := [1, 2] \<rparr>, [])))"
proof -
  have "hv_wf (demo_hv\<lparr> active_view := [1, 2] \<rparr>)"
    by (simp add: hv_wf_def demo_hv_def hv_new_def hv_default_config_def)
  from quit_tells_neighbors [OF demo_ext_ok this] show ?thesis by simp
qed

end
