(* ===== verification/Proto_State_Inv.thy ===== *)
theory Proto_State_Inv
  imports Proto_State Topic_Inv Membership "HOL-Library.List_Lexorder"
begin

text \<open>
  The invariant of the protocol state: every topic satisfies the invariant of a topic and
  belongs to this node.  No event makes the state panic, topics do not touch each other,
  and what leaves the node for a topic carries the topic's identifier.
\<close>

section \<open>The invariant\<close>

definition st_wf :: "pt_env \<Rightarrow> ('p::linorder, 'r) st_state \<Rightarrow> bool" where
  "st_wf E s \<longleftrightarrow>
     min_max_message_size \<le> max_message_size (st_config s) \<and> st_outbox s = [] \<and>
     finite (dom (st_states s)) \<and>
     (\<forall>t ts. st_states s t = Some ts \<longrightarrow> tp_wf E ts \<and> tp_me ts = st_me s)"

text \<open>The same while outputs are collected.\<close>

definition st_mid :: "pt_env \<Rightarrow> ('p::linorder, 'r) st_state \<Rightarrow> bool" where
  "st_mid E s \<longleftrightarrow> st_wf E (s\<lparr> st_outbox := [] \<rparr>)"

fun st_admitted :: "pt_env \<Rightarrow> 'p st_in \<Rightarrow> bool" where
  "st_admitted E (StRecvMessage _ m) = admitted_message E (msg_message m)"
| "st_admitted E _ = True"

lemma st_mid_iff:
  "st_mid E s \<longleftrightarrow>
     min_max_message_size \<le> max_message_size (st_config s) \<and> finite (dom (st_states s)) \<and>
     (\<forall>t ts. st_states s t = Some ts \<longrightarrow> tp_wf E ts \<and> tp_me ts = st_me s)"
  by (simp add: st_mid_def st_wf_def)

lemma st_wf_mid: "st_wf E s \<longleftrightarrow> st_mid E s \<and> st_outbox s = []"
  by (auto simp: st_mid_iff st_wf_def)

lemma st_new_wf:
  "st_new me d cfg r = Some s \<Longrightarrow> st_wf E s"
  by (auto simp: st_new_def st_wf_def split: if_splits)

section \<open>One topic\<close>

text \<open>
  What handling an event in topic \<open>t\<close> changes: only that topic, and every message, event and
  timer it adds to the outbox carries \<open>t\<close>.
\<close>

fun out_topic :: "'p st_out \<Rightarrow> topic_id option" where
  "out_topic (StSendMessage _ m) = Some (msg_topic m)"
| "out_topic (StEmitEvent t _) = Some t"
| "out_topic (StScheduleTimer _ t) = Some (tm_topic t)"
| "out_topic _ = None"

lemma handle_out_event_topic:
  "\<exists>new. snd (handle_out_event t e c) = snd c @ new \<and>
     (\<forall>x \<in> set new. out_topic x = None \<or> out_topic x = Some t)"
  by (cases c; cases e) (auto simp: handle_out_event_def Let_def split: option.splits)

lemma fold_handle_out_event_topic:
  "\<exists>new. snd (fold (handle_out_event t) es c) = snd c @ new \<and>
     (\<forall>x \<in> set new. out_topic x = None \<or> out_topic x = Some t)"
proof (induction es arbitrary: c)
  case (Cons e es)
  obtain n1 where 1: "snd (handle_out_event t e c) = snd c @ n1"
    "\<forall>x \<in> set n1. out_topic x = None \<or> out_topic x = Some t"
    using handle_out_event_topic [of t e c] by blast
  obtain n2 where 2: "snd (fold (handle_out_event t) es (handle_out_event t e c)) =
      snd (handle_out_event t e c) @ n2"
    "\<forall>x \<in> set n2. out_topic x = None \<or> out_topic x = Some t"
    using Cons.IH by blast
  have "snd (fold (handle_out_event t) (e # es) c) = snd c @ (n1 @ n2)" using 1(1) 2(1) by simp
  moreover have "\<forall>x \<in> set (n1 @ n2). out_topic x = None \<or> out_topic x = Some t" using 1(2) 2(2) by auto
  ultimately show ?case by blast
qed simp

definition only_topic :: "topic_id \<Rightarrow> ('p, 'r) st_state \<Rightarrow> ('p, 'r) st_state \<Rightarrow> bool" where
  "only_topic t s s' \<longleftrightarrow>
     (\<forall>t'. t' \<noteq> t \<longrightarrow> st_states s' t' = st_states s t') \<and>
     st_me s' = st_me s \<and> st_config s' = st_config s \<and>
     (\<exists>new. st_outbox s' = st_outbox s @ new \<and>
        (\<forall>x \<in> set new. out_topic x = None \<or> out_topic x = Some t))"

lemma run_topic_facts:
  assumes X: "ext_ok X" and s: "st_mid E s" and t: "tp_wf E ts" "tp_me ts = st_me s"
    and e: "tp_admitted E e"
  shows "\<exists>s'. run_topic X E e now t ts s = Some s' \<and> st_mid E s' \<and> only_topic t s s' \<and>
    dom (st_states s') = insert t (dom (st_states s))"
proof -
  obtain ts' out where h: "tp_handle X E e now ts = Some (ts', out)" "tp_wf E ts'" "tp_me ts' = tp_me ts"
    using tp_handle_facts [OF X t(1) e, of now] by blast
  let ?f = "fold (handle_out_event t) out (peer_topics s, st_outbox s)"
  let ?s = "s\<lparr> st_states := (st_states s)(t \<mapsto> ts'), peer_topics := fst ?f, st_outbox := snd ?f \<rparr>"
  have r: "run_topic X E e now t ts s = Some ?s"
    by (simp add: run_topic_def h(1) case_prod_unfold Let_def)
  have m: "st_mid E ?s" using s t h(2,3) by (simp add: st_mid_iff)
  have o: "only_topic t s ?s"
    using fold_handle_out_event_topic [of t out "(peer_topics s, st_outbox s)"]
    by (simp add: only_topic_def)
  from r m o show ?thesis by (intro exI [of _ ?s]) simp
qed

lemma only_topic_refl: "only_topic t s s"
  by (simp add: only_topic_def)

lemma only_topic_conns: "only_topic t (s\<lparr> peer_topics := c \<rparr>) s' = only_topic t s s'"
  by (simp add: only_topic_def)

lemma init_topic_facts:
  assumes E: "env_ok E" and s: "st_mid E s"
  shows "\<exists>s'. init_topic X E t e s = Some s' \<and> st_mid E s' \<and> only_topic t s s' \<and>
    peer_topics s' = peer_topics s \<and> st_outbox s' = st_outbox s \<and>
    dom (st_states s') = (if is_join e then insert t (dom (st_states s)) else dom (st_states s)) \<and>
    (st_states s t \<noteq> None \<longrightarrow> s' = s)"
proof (cases "is_join e \<and> st_states s t = None")
  case True
  obtain r rng where r: "from_rng X (st_rng s) = (r, rng)" by (cases "from_rng X (st_rng s)")
  have "min_max_message_size \<le> max_message_size (st_config s)" using s by (simp add: st_mid_iff)
  then obtain ts where ts: "with_rng E (st_me s) (Some (st_me_data s)) (st_config s) r = Some ts" "tp_wf E ts"
    using with_rng_wf(1) [OF E, of "st_config s" "st_me s" "Some (st_me_data s)" r] by auto
  have me: "tp_me ts = st_me s" using ts(1) by (auto simp: with_rng_def split: if_splits option.splits)
  let ?s = "s\<lparr> st_states := (st_states s)(t \<mapsto> ts), st_rng := rng \<rparr>"
  have "st_mid E ?s" "only_topic t s ?s" using s ts(2) me by (simp_all add: st_mid_iff only_topic_def)
  then show ?thesis using True r ts(1) by (simp add: init_topic_def)
next
  case False
  then show ?thesis using s by (auto simp: init_topic_def only_topic_refl insert_absorb)
qed

lemma only_topic_trans: "only_topic t s s1 \<Longrightarrow> only_topic t s1 s2 \<Longrightarrow> only_topic t s s2"
  unfolding only_topic_def by fastforce

lemma handle_topic_event_facts:
  assumes X: "ext_ok X" and E: "env_ok E" and s: "st_mid E s" and e: "tp_admitted E e"
  shows "\<exists>s'. handle_topic_event X E t e now s = Some s' \<and> st_mid E s' \<and> only_topic t s s'"
proof -
  obtain s1 where 1: "init_topic X E t e s = Some s1" "st_mid E s1" "only_topic t s s1"
    using init_topic_facts [OF E s] by blast
  have fin: "st_mid E s2 \<Longrightarrow> only_topic t s s2 \<Longrightarrow>
      st_mid E (s2\<lparr> st_states := (st_states s2)(t := None) \<rparr>) \<and>
      only_topic t s (s2\<lparr> st_states := (st_states s2)(t := None) \<rparr>)" for s2
    by (auto simp: st_mid_iff only_topic_def)
  show ?thesis
  proof (cases "st_states s1 t")
    case None
    with 1 fin show ?thesis by (simp add: handle_topic_event_def)
  next
    case (Some ts)
    let ?s1 = "s1\<lparr> peer_topics := note_sender t e (peer_topics s1) \<rparr>"
    have ts: "tp_wf E ts" "tp_me ts = st_me ?s1" and m: "st_mid E ?s1"
      using 1(2) Some by (simp_all add: st_mid_iff)
    obtain s2 where 2: "run_topic X E e now t ts ?s1 = Some s2" "st_mid E s2" "only_topic t ?s1 s2"
      using run_topic_facts [OF X m ts e] by blast
    have "only_topic t s s2" using 1(3) 2(3) only_topic_trans by (simp add: only_topic_conns)
    with 1 2 Some fin [of s2] show ?thesis by (simp add: handle_topic_event_def)
  qed
qed

section \<open>All topics\<close>

lemma run_topics_facts:
  assumes X: "ext_ok X" and e: "tp_admitted E e"
  shows "st_mid E s \<Longrightarrow> \<exists>s'. run_topics X E e now ts s = Some s' \<and> st_mid E s' \<and>
    dom (st_states s') = dom (st_states s) \<and> st_me s' = st_me s \<and> st_config s' = st_config s"
proof (induction ts arbitrary: s)
  case (Cons t ts)
  show ?case
  proof (cases "st_states s t")
    case None
    with Cons show ?thesis by simp
  next
    case (Some x)
    have x: "tp_wf E x" "tp_me x = st_me s" using Cons.prems Some by (simp_all add: st_mid_iff)
    obtain s1 where 1: "run_topic X E e now t x s = Some s1" "st_mid E s1" "only_topic t s s1"
      "dom (st_states s1) = insert t (dom (st_states s))"
      using run_topic_facts [OF X Cons.prems x e] by blast
    have d: "dom (st_states s1) = dom (st_states s)" using 1(4) Some by auto
    have f: "st_me s1 = st_me s" "st_config s1 = st_config s" using 1(3) by (simp_all add: only_topic_def)
    from Cons.IH [OF 1(2)] Some 1(1) d f show ?thesis by simp
  qed
qed simp

lemma update_me_data_mid [simp]: "st_mid E (update_me_data e s) = st_mid E s"
  by (cases e) (simp_all add: update_me_data_def st_mid_iff)

lemma st_handle_safe:
  assumes X: "ext_ok X" and E: "env_ok E" and s: "st_wf E s" and e: "st_admitted E e"
  shows "\<exists>s' out. st_handle X E order e now s = Some (s', out) \<and> st_wf E s'"
proof -
  have m: "st_mid E s" using s by (simp add: st_wf_mid)
  have "\<exists>s'. (case in_event_map e of
          TopicEvent topic e \<Rightarrow> handle_topic_event X E topic e now s
        | All e \<Rightarrow> run_topics X E e now (order (dom (st_states s))) (update_me_data e s)) = Some s' \<and> st_mid E s'"
  proof (cases "in_event_map e")
    case (All x)
    then have "tp_admitted E x" by (cases e) auto
    from run_topics_facts [OF X this, of "update_me_data x s" now "order (dom (st_states s))"] All m
    show ?thesis by auto
  next
    case (TopicEvent t x)
    then have "tp_admitted E x" using e by (cases e) auto
    with TopicEvent handle_topic_event_facts [OF X E m this] show ?thesis by (simp, blast)
  qed
  then show ?thesis by (auto simp: st_handle_def st_mid_def)
qed

abbreviation st_step where
  "st_step X E order s en \<equiv> st_handle X E order (fst en) (snd en) s"

interpretation stm: safe_machine "st_step X E order" "\<lambda>s. ext_ok X \<and> env_ok E \<and> st_wf E s"
    "\<lambda>en. st_admitted E (fst en)" for X E order
  by unfold_locales (use st_handle_safe in blast)

section \<open>Properties\<close>

text \<open>
  C3. The protocol state never panics: from a new state with a valid message size, any
  sequence of admitted events is handled, in whatever order the topics are visited, and
  every topic state it holds satisfies the invariants of both protocol layers.
\<close>

theorem state_never_panics:
  assumes "ext_ok X" "env_ok E" "st_new me data cfg rng = Some s0"
    and "list_all (\<lambda>en. st_admitted E (fst en)) es"
  shows "\<exists>s out. run_machine (st_step X E order) s0 es = Some (s, out) \<and>
    (\<forall>t ts. st_states s t = Some ts \<longrightarrow>
       hv_wf (tp_swarm ts) \<and> pt_wf E (tp_gossip ts) \<and>
       set (active_view (tp_swarm ts)) \<subseteq> tree_peers (tp_gossip ts))"
proof -
  have "ext_ok X \<and> env_ok E \<and> st_wf E s0" using assms(1,2) st_new_wf [OF assms(3)] by simp
  from stm.run_safe [OF this assms(4), of order] obtain s out where
    "run_machine (st_step X E order) s0 es = Some (s, out)" "st_wf E s" by blast
  then show ?thesis by (auto simp: st_wf_def tp_wf_def layers_ok_def)
qed

definition demo_events :: "(nat st_in \<times> instant) list" where
  "demo_events =
     [(StCommand [1] (TpJoin [3]), 1), (StCommand [2] (TpJoin [3]), 2),
      (StRecvMessage 3 \<lparr> msg_topic = [1], msg_message = TpSwarm (HvNeighbor (Neighbor High None)) \<rparr>, 4),
      (StPeerDisconnected 3, 9), (StCommand [1] TpQuit, 12)]"

definition demo_st :: "(nat, nat) st_state" where
  "demo_st =
     \<lparr> st_me = 0, st_me_data = PeerData [], st_config = tp_default_config, st_rng = 0,
       st_states = Map.empty, st_outbox = [], peer_topics = Map.empty \<rparr>"

lemma demo_st_new: "st_new 0 (PeerData []) tp_default_config 0 = Some demo_st"
  by (simp add: st_new_def demo_st_def tp_default_config_def min_max_message_size_def default_max_message_size_def)

lemma demo_env_ok: "env_ok (demo_env b)"
  by (simp add: env_ok_def min_max_message_size_def)

theorem state_never_panics_witness:
  "\<exists>s out. run_machine (st_step demo_ext (demo_env True) (\<lambda>T. [[2], [1]])) demo_st demo_events = Some (s, out) \<and>
    (\<forall>t ts. st_states s t = Some ts \<longrightarrow>
       hv_wf (tp_swarm ts) \<and> pt_wf (demo_env True) (tp_gossip ts) \<and>
       set (active_view (tp_swarm ts)) \<subseteq> tree_peers (tp_gossip ts))"
  by (rule state_never_panics [OF demo_ext_ok demo_env_ok demo_st_new]) (simp add: demo_events_def)

text \<open>
  The life of a topic: after a join the topic has a state, after a quit it has none,
  and an event other than a join for a topic without a state changes nothing and produces
  nothing.
\<close>

theorem topic_lifecycle:
  assumes "ext_ok X" "env_ok E" "st_wf E s"
  shows "(\<exists>s' out. st_handle X E order (StCommand t (TpJoin ps)) now s = Some (s', out) \<and> st_states s' t \<noteq> None) \<and>
    (\<exists>s' out. st_handle X E order (StCommand t TpQuit) now s = Some (s', out) \<and> st_states s' t = None) \<and>
    (\<forall>e x. in_event_map e = TopicEvent t x \<longrightarrow> \<not> is_join x \<longrightarrow> st_states s t = None \<longrightarrow>
       st_handle X E order e now s = Some (s, []))"
proof -
  have m: "st_mid E s" and o: "st_outbox s = []" using assms(3) by (simp_all add: st_wf_mid)
  have join: "\<exists>s' out. st_handle X E order (StCommand t (TpJoin ps)) now s = Some (s', out) \<and> st_states s' t \<noteq> None"
  proof -
    let ?e = "TpCommand (TpJoin ps)"
    have j: "is_join ?e" by (simp add: is_join_def)
    obtain s1 where 1: "init_topic X E t ?e s = Some s1" "st_mid E s1"
      "dom (st_states s1) = insert t (dom (st_states s))"
      using init_topic_facts [OF assms(2) m, of X t ?e, unfolded eqTrueI [OF j] if_True] by blast
    then obtain ts where ts: "st_states s1 t = Some ts" by auto
    let ?s1 = "s1\<lparr> peer_topics := note_sender t ?e (peer_topics s1) \<rparr>"
    have "st_mid E ?s1" "tp_wf E ts" "tp_me ts = st_me ?s1" using 1(2) ts by (simp_all add: st_mid_iff)
    from run_topic_facts [OF assms(1) this, of ?e now t] obtain s2 where
      2: "run_topic X E ?e now t ts ?s1 = Some s2" "t \<in> dom (st_states s2)" by auto
    with 1 ts show ?thesis by (auto simp: st_handle_def handle_topic_event_def is_quit_def)
  qed
  have quit: "\<exists>s' out. st_handle X E order (StCommand t TpQuit) now s = Some (s', out) \<and> st_states s' t = None"
  proof -
    obtain s' where "handle_topic_event X E t (TpCommand TpQuit) now s = Some s'"
      using handle_topic_event_facts [OF assms(1,2) m, of "TpCommand TpQuit" t now] by auto
    then show ?thesis by (auto simp: st_handle_def handle_topic_event_def is_quit_def bind_eq_Some_conv)
  qed
  have none: "st_handle X E order e now s = Some (s, [])"
    if "in_event_map e = TopicEvent t x" "\<not> is_join x" "st_states s t = None" for e x
  proof -
    have u: "(st_states s)(t := None) = st_states s" using that(3) by auto
    have "s\<lparr> st_states := (st_states s)(t := None) \<rparr> = s" unfolding u by simp
    then have "handle_topic_event X E t x now s = Some s"
      using that by (simp add: handle_topic_event_def init_topic_def)
    with that(1) o show ?thesis by (simp add: st_handle_def)
  qed
  from join quit none show ?thesis by blast
qed

theorem topic_lifecycle_witness:
  "(\<exists>s' out. st_handle demo_ext (demo_env True) (\<lambda>T. []) (StCommand [1] (TpJoin [3])) 5 demo_st = Some (s', out) \<and>
      st_states s' [1] \<noteq> None) \<and>
    st_handle demo_ext (demo_env True) (\<lambda>T. []) (StCommand [1] (TpBroadcast [7] ScopeSwarm)) 5 demo_st =
      Some (demo_st, [])"
  using topic_lifecycle [OF demo_ext_ok demo_env_ok st_new_wf [OF demo_st_new], of True "\<lambda>T. []" "[1]" "[3]" 5]
  by (simp add: is_join_def demo_st_def)

text \<open>The outputs of a topic, stamped with its identifier; disconnects are for the node to decide.\<close>

fun stamp :: "topic_id \<Rightarrow> 'p tp_out \<Rightarrow> 'p st_out list" where
  "stamp t (TpSendMessage to message) = [StSendMessage to \<lparr> msg_topic = t, msg_message = message \<rparr>]"
| "stamp t (TpEmitEvent ev) = [StEmitEvent t ev]"
| "stamp t (TpScheduleTimer delay timer) = [StScheduleTimer delay \<lparr> tm_topic = t, tm_timer = timer \<rparr>]"
| "stamp t (TpPeerData peer data) = [StPeerData peer data]"
| "stamp t (TpDisconnectPeer peer) = []"

fun is_disconnect_out :: "'p st_out \<Rightarrow> bool" where
  "is_disconnect_out (StDisconnectPeer _) \<longleftrightarrow> True"
| "is_disconnect_out _ \<longleftrightarrow> False"

definition passes_on :: "topic_id \<Rightarrow> 'p tp_out list \<Rightarrow> 'p st_out list \<Rightarrow> bool" where
  "passes_on t tout out \<longleftrightarrow>
     filter (\<lambda>x. \<not> is_disconnect_out x) out = concat (map (stamp t) tout)
     \<and> (\<forall>p. StDisconnectPeer p \<in> set out \<longrightarrow> TpDisconnectPeer p \<in> set tout)"

lemma handle_out_event_stamps: "\<exists>new. snd (handle_out_event t e c) = snd c @ new \<and> passes_on t [e] new"
  by (cases c; cases e) (auto simp: handle_out_event_def passes_on_def Let_def split: option.splits)

lemma passes_on_append: "passes_on t es xs \<Longrightarrow> passes_on t ds ys \<Longrightarrow> passes_on t (es @ ds) (xs @ ys)"
  by (auto simp: passes_on_def)

lemma fold_handle_out_event_stamps:
  "\<exists>new. snd (fold (handle_out_event t) es c) = snd c @ new \<and> passes_on t es new"
proof (induction es arbitrary: c)
  case Nil
  show ?case by (simp add: passes_on_def)
next
  case (Cons e es)
  obtain n1 where 1: "snd (handle_out_event t e c) = snd c @ n1" "passes_on t [e] n1"
    using handle_out_event_stamps by blast
  obtain n2 where 2: "snd (fold (handle_out_event t) es (handle_out_event t e c)) = snd (handle_out_event t e c) @ n2"
    "passes_on t es n2" using Cons.IH by blast
  from passes_on_append [OF 1(2) 2(2)] 1(1) 2(1) show ?case by (intro exI [of _ "n1 @ n2"]) simp
qed

lemma handle_topic_event_stamps:
  assumes "st_states s t = Some ts" and "handle_topic_event X E t x now s = Some s'"
  shows "\<exists>ts' tout new. tp_handle X E x now ts = Some (ts', tout) \<and> st_outbox s' = st_outbox s @ new \<and> passes_on t tout new"
proof -
  have "init_topic X E t x s = Some s" using assms(1) by (simp add: init_topic_def)
  with assms obtain ts' tout where h: "tp_handle X E x now ts = Some (ts', tout)"
    and s': "st_outbox s' = snd (fold (handle_out_event t) tout (note_sender t x (peer_topics s), st_outbox s))"
    by (auto simp: handle_topic_event_def run_topic_def case_prod_unfold Let_def split: option.splits if_splits)
  with fold_handle_out_event_stamps [of t tout "(note_sender t x (peer_topics s), st_outbox s)"] show ?thesis by auto
qed

text \<open>
  C34. Topics have their own states and outputs: an event for one topic leaves the states of
  all other topics as they are.  What it produces are the outputs of that topic's own state:
  messages, application events and timers stamped with the identifier of the topic, peer
  data, and requests to close a connection, of which it passes on only those the topic made.
  (Closing a connection concerns every topic that uses it.)  For a topic without a state
  nothing is produced unless it is joined.
\<close>

theorem topics_isolated:
  assumes "ext_ok X" "env_ok E" "st_wf E s" "st_admitted E e" "in_event_map e = TopicEvent t x"
  shows "\<exists>s' out. st_handle X E order e now s = Some (s', out) \<and>
    (\<forall>t'. t' \<noteq> t \<longrightarrow> st_states s' t' = st_states s t') \<and>
    (\<forall>o' \<in> set out. out_topic o' = Some t \<or> (\<exists>p. o' = StDisconnectPeer p) \<or> (\<exists>p d. o' = StPeerData p d)) \<and>
    (case st_states s t of
       None \<Rightarrow> is_join x \<or> out = []
     | Some ts \<Rightarrow> (\<exists>ts' tout. tp_handle X E x now ts = Some (ts', tout) \<and> passes_on t tout out))"
proof -
  have m: "st_mid E s" and o: "st_outbox s = []" using assms(3) by (simp_all add: st_wf_mid)
  have "tp_admitted E x" using assms(4,5) by (cases e) auto
  then obtain s' where s': "handle_topic_event X E t x now s = Some s'" and only: "only_topic t s s'"
    using handle_topic_event_facts [OF assms(1,2) m] by blast
  have kinds: "out_topic o' = None \<longleftrightarrow> (\<exists>p. o' = StDisconnectPeer p) \<or> (\<exists>p d. o' = StPeerData p d)" for o' :: "'a st_out"
    by (cases o') auto
  have "is_join x \<or> st_outbox s' = []" if "st_states s t = None"
    using s' that o by (auto simp: handle_topic_event_def init_topic_def split: if_splits)
  moreover have "\<exists>ts' tout. tp_handle X E x now ts = Some (ts', tout) \<and> passes_on t tout (st_outbox s')"
    if "st_states s t = Some ts" for ts
    using handle_topic_event_stamps [OF that s'] o by auto
  ultimately show ?thesis
    using s' only o assms(5) kinds by (auto simp: st_handle_def only_topic_def split: option.splits)
qed

theorem topics_isolated_witness:
  "\<exists>s1 out1 s2 out2. st_handle demo_ext (demo_env True) (\<lambda>T. []) (StCommand [2] (TpJoin [3])) 4 demo_st = Some (s1, out1)
     \<and> st_states s1 [2] \<noteq> None
     \<and> st_handle demo_ext (demo_env True) (\<lambda>T. []) (StCommand [1] (TpJoin [3])) 5 s1 = Some (s2, out2)
     \<and> st_states s2 [2] = st_states s1 [2]
     \<and> (\<forall>o' \<in> set out2. out_topic o' = Some [1] \<or> (\<exists>p. o' = StDisconnectPeer p) \<or> (\<exists>p d. o' = StPeerData p d))"
proof -
  note wf = st_new_wf [OF demo_st_new, of "demo_env True"]
  obtain s1 out1 where 1: "st_handle demo_ext (demo_env True) (\<lambda>T. []) (StCommand [2] (TpJoin [3])) 4 demo_st = Some (s1, out1)"
    "st_states s1 [2] \<noteq> None"
    using topic_lifecycle [OF demo_ext_ok demo_env_ok wf, of "\<lambda>T. []" "[2]" "[3]" 4] by auto
  have "st_wf (demo_env True) s1"
    using st_handle_safe [OF demo_ext_ok demo_env_ok wf, of "StCommand [2] (TpJoin [3])" "\<lambda>T. []" 4] 1(1) by auto
  from topics_isolated [OF demo_ext_ok demo_env_ok this, of "StCommand [1] (TpJoin [3])" "[1]" "TpCommand (TpJoin [3])" "\<lambda>T. []" 5]
  obtain s2 out2 where "st_handle demo_ext (demo_env True) (\<lambda>T. []) (StCommand [1] (TpJoin [3])) 5 s1 = Some (s2, out2)"
    "st_states s2 [2] = st_states s1 [2]"
    "\<forall>o' \<in> set out2. out_topic o' = Some [1] \<or> (\<exists>p. o' = StDisconnectPeer p) \<or> (\<exists>p d. o' = StPeerData p d)" by auto
  with 1 show ?thesis by blast
qed

section \<open>Disconnects\<close>

lemma tp_handle_disconnected:
  assumes X: "ext_ok X" and s: "tp_wf E ts" and h: "tp_handle X E (TpPeerDisconnected p) now ts = Some (ts', out)"
  shows "p \<notin> set (active_view (tp_swarm ts'))"
proof -
  obtain sw io where sw: "hv_handle X (HvPeerDisconnected p) (tp_swarm ts, []) = Some (sw, io)" "tp_swarm ts' = sw"
    using h
    by (auto simp: tp_handle_def tp_dispatch_def swarm_call_def gossip_call_def tp_flush_def Let_def
        bind_eq_Some_conv split: option.splits)
  from connection_closed_not_active [OF X _ sw(1)] s show ?thesis
    by (simp add: sw(2) tp_wf_def layers_ok_def)
qed

lemma run_topics_disconnected:
  fixes X :: "('p::linorder, 'r) ext"
  assumes X: "ext_ok X"
  defines "gone \<equiv> \<lambda>p (s :: ('p, 'r) st_state) t. \<forall>x. st_states s t = Some x \<longrightarrow> p \<notin> set (active_view (tp_swarm x))"
  shows "st_mid E s \<Longrightarrow> run_topics X E (TpPeerDisconnected p) now ts s = Some s' \<Longrightarrow>
    t \<in> set ts \<or> gone p s t \<Longrightarrow> gone p s' t"
proof (induction ts arbitrary: s)
  case (Cons u ts)
  show ?case
  proof (cases "st_states s u")
    case None
    then have "gone p s u" by (simp add: gone_def)
    with None Cons.IH [OF Cons.prems(1)] Cons.prems(2,3) show ?thesis by auto
  next
    case (Some x)
    have x: "tp_wf E x" "tp_me x = st_me s" using Cons.prems(1) Some by (simp_all add: st_mid_iff)
    obtain s1 where 1: "run_topic X E (TpPeerDisconnected p) now u x s = Some s1" "st_mid E s1" "only_topic u s s1"
      using run_topic_facts [OF X Cons.prems(1) x, of "TpPeerDisconnected p" now u] by auto
    obtain x' out where "tp_handle X E (TpPeerDisconnected p) now x = Some (x', out)" "st_states s1 u = Some x'"
      using 1(1) by (auto simp: run_topic_def Let_def case_prod_unfold split: option.splits)
    with tp_handle_disconnected [OF X x(1)] have "gone p s1 u" by (auto simp: gone_def)
    moreover have "gone p s1 v" if "gone p s v" "v \<noteq> u" for v
      using that 1(3) by (simp add: gone_def only_topic_def)
    ultimately have "t \<in> set ts \<or> gone p s1 t" using Cons.prems(3) by auto
    moreover have "run_topics X E (TpPeerDisconnected p) now ts s1 = Some s'" using Cons.prems(2) Some 1(1) by simp
    ultimately show ?thesis using Cons.IH [OF 1(2)] by blast
  qed
qed simp

text \<open>
  The loss of a connection reaches every topic: afterwards no topic has the peer in
  its active view.
\<close>

theorem disconnect_reaches_all_topics:
  assumes "ext_ok X" "env_ok E" "st_wf E s" "order_ok order"
  shows "\<exists>s' out. st_handle X E order (StPeerDisconnected p) now s = Some (s', out) \<and>
    (\<forall>t ts. st_states s' t = Some ts \<longrightarrow> p \<notin> set (active_view (tp_swarm ts)))"
proof -
  let ?e = "TpPeerDisconnected p" and ?ts = "order (dom (st_states s))"
  have m: "st_mid E s" and fin: "finite (dom (st_states s))"
    using assms(3) by (simp_all add: st_wf_mid st_mid_iff)
  obtain s' where r: "run_topics X E ?e now ?ts s = Some s'" "dom (st_states s') = dom (st_states s)"
    using run_topics_facts [OF assms(1), of E ?e s now ?ts] m by auto
  have "set ?ts = dom (st_states s)" using assms(4) fin by (simp add: order_ok_def)
  then have "p \<notin> set (active_view (tp_swarm ts))" if "st_states s' t = Some ts" for t ts
    using run_topics_disconnected [OF assms(1) m r(1), of t] that r(2) by auto
  with r(1) show ?thesis by (simp add: st_handle_def update_me_data_def)
qed

theorem disconnect_reaches_all_topics_witness:
  "\<exists>s' out. st_handle demo_ext (demo_env True) sorted_list_of_set (StPeerDisconnected 3) 9 demo_st = Some (s', out) \<and>
    (\<forall>t ts. st_states s' t = Some ts \<longrightarrow> 3 \<notin> set (active_view (tp_swarm ts)))"
  by (rule disconnect_reaches_all_topics [OF demo_ext_ok demo_env_ok st_new_wf [OF demo_st_new]])
     (simp add: order_ok_def)

lemma handle_out_event_closed:
  assumes "conns p = None \<and> StDisconnectPeer p \<in> set box"
  shows "fst (handle_out_event t e (conns, box)) p = None \<and>
    StDisconnectPeer p \<in> set (snd (handle_out_event t e (conns, box)))"
  using assms by (cases e) (auto simp: handle_out_event_def Let_def split: option.splits)

lemma handle_out_event_open:
  assumes "conns p = Some T" "t \<in> T"
  shows "if e = TpDisconnectPeer p
    then fst (handle_out_event t e (conns, box)) p = None \<and>
         StDisconnectPeer p \<in> set (snd (handle_out_event t e (conns, box)))
    else fst (handle_out_event t e (conns, box)) p = Some T"
  using assms by (cases e) (auto simp: handle_out_event_def Let_def split: option.splits)

lemma fold_handle_out_event_closed:
  "fst c p = None \<and> StDisconnectPeer p \<in> set (snd c) \<Longrightarrow>
   fst (fold (handle_out_event t) es c) p = None \<and>
   StDisconnectPeer p \<in> set (snd (fold (handle_out_event t) es c))"
proof (induction es arbitrary: c)
  case (Cons e es)
  from Cons.IH [of "handle_out_event t e c"] handle_out_event_closed [of "fst c" p "snd c" t e] Cons.prems
  show ?case by simp
qed simp

lemma fold_handle_out_event_disconnects:
  "fst c p = Some T \<Longrightarrow> t \<in> T \<Longrightarrow> TpDisconnectPeer p \<in> set es \<Longrightarrow>
   fst (fold (handle_out_event t) es c) p = None \<and>
   StDisconnectPeer p \<in> set (snd (fold (handle_out_event t) es c))"
proof (induction es arbitrary: c)
  case (Cons e es)
  note op = handle_out_event_open [of "fst c" p T t e "snd c", OF Cons.prems(1,2)]
  show ?case
  proof (cases "e = TpDisconnectPeer p")
    case True
    with op fold_handle_out_event_closed [of "handle_out_event t e c" p t es] show ?thesis by simp
  next
    case False
    with op Cons.IH [of "handle_out_event t e c"] Cons.prems(2,3) show ?thesis by auto
  qed
qed simp

text \<open>The outputs of removing an active peer after its disconnect message.\<close>

lemma refill_out_grows: "set (snd c) \<subseteq> set (snd (refill_active_from_passive X sk c))"
  by (cases c)
     (auto simp: refill_active_from_passive_def send_neighbor_def Let_def split: option.splits prod.splits)

lemma add_passive_out_grows: "set (snd c) \<subseteq> set (snd (add_passive X p d c))"
proof -
  have "snd (add_passive X p d c) = snd (insert_peer_info \<lparr> pi_id = p, pi_data = d \<rparr> c)"
    by (simp add: add_passive_def Let_def case_prod_unfold)
  then show ?thesis by (cases c) (auto simp: insert_peer_info_def Let_def split: option.splits)
qed

lemma remove_active_by_index_out:
  assumes "fst (remove_active_by_index X i (DisconnectReceived b) c) = Some p"
  shows "HvDisconnectPeer p \<in> set (snd (snd (remove_active_by_index X i (DisconnectReceived b) c)))"
proof -
  obtain s io where c: "c = (s, io)" by (cases c)
  obtain v where v: "remove_index X (active_view s) i = (Some p, v)"
    using assms by (cases "remove_index X (active_view s) i")
      (auto simp: remove_active_by_index_def c Let_def split: option.splits prod.splits)
  let ?c = "(s\<lparr> active_view := v \<rparr>, (io @ [HvEmitEvent (HvNeighborDown p)]) @ [HvDisconnectPeer p])"
  have "snd (remove_active_by_index X i (DisconnectReceived b) c) =
      (if b then file_removed X p (DisconnectReceived b) ?c else ?c)"
    by (simp add: remove_active_by_index_def c v announce_removal_def keep_as_passive_def)
  moreover have "set (snd ?c) \<subseteq> set (snd (file_removed X p (DisconnectReceived b) ?c))"
    using add_passive_out_grows [of "((fst ?c)\<lparr> peer_data_map := (peer_data_map (fst ?c))(p := None) \<rparr>, snd ?c)" X p]
    by (simp add: file_removed_def Let_def case_prod_unfold)
  ultimately show ?thesis by (cases b) auto
qed

lemma disconnect_message_out:
  assumes X: "ext_ok X" and s: "hv_wf s" and p: "p \<in> set (active_view s)"
    and h: "hv_handle X (HvRecvMessage p (HvDisconnect d)) (s, []) = Some (s', out)"
  shows "HvDisconnectPeer p \<in> set out"
proof -
  let ?t = "s\<lparr> pending_neighbor_requests := pending_neighbor_requests s - {p} \<rparr>"
  obtain i where i: "index_of (active_view s) p = Some i" using p by (cases "index_of (active_view s) p") (auto simp: index_of_None)
  let ?r = "remove_active_by_index X i (DisconnectReceived (dc_alive d)) (?t, [])"
  have t: "hv_wf (fst (?t, []))" "i < length (active_view (fst (?t, [])))" "active_view (fst (?t, [])) ! i = p"
    using s index_of_Some [OF i] by (simp_all add: hv_wf_def)
  have r: "fst ?r = Some p"
    using remove_active_by_index_facts(1) [OF X t(1,2), of "DisconnectReceived (dc_alive d)"] t(3) by simp
  then obtain c where c: "?r = (Some p, c)" by (cases ?r) auto
  have "HvDisconnectPeer p \<in> set (snd (refill_active_from_passive X {p} c))"
    using remove_active_by_index_out [OF r] refill_out_grows [of c X "{p}"] by (auto simp: c)
  moreover have "Some (s', out) = Some (hv_schedule_shuffle (refill_active_from_passive X {p} c))"
    using h p i c
    by (simp add: hv_handle_def hv_dispatch_def hv_handle_message_def is_disconnect_message_def
        on_disconnect_def remove_active_def)
  ultimately show ?thesis
    by (cases "refill_active_from_passive X {p} c") (auto simp: hv_schedule_shuffle_def split: if_splits)
qed

lemma tp_disconnect_message_out:
  assumes X: "ext_ok X" and s: "tp_wf E ts" and p: "p \<in> set (active_view (tp_swarm ts))"
    and h: "tp_handle X E (TpRecvMessage p (TpSwarm (HvDisconnect d))) now ts = Some (ts', out)"
  shows "TpDisconnectPeer p \<in> set out"
proof -
  obtain sw io io' where sw: "hv_handle X (HvRecvMessage p (HvDisconnect d)) (tp_swarm ts, []) = Some (sw, io)"
    "out = map out_from_hv io @ io'"
    using h s
    by (auto simp: tp_handle_def tp_dispatch_def swarm_call_def tp_flush_def Let_def tp_wf_def
        bind_eq_Some_conv split: option.splits)
  have "HvDisconnectPeer p \<in> set io"
    using disconnect_message_out [OF X _ p sw(1)] s by (simp add: tp_wf_def layers_ok_def)
  then show ?thesis by (force simp: sw(2) image_iff)
qed

text \<open>
  C33. A connection that two topics use is closed as soon as one of them drops the peer: if
  a peer that is active in two topics sends a disconnect message for the first, the node
  closes the connection and forgets its users, although the second topic still has the
  peer in its active view.
\<close>

theorem shared_connection_closed:
  assumes "ext_ok X" "env_ok E" "st_wf E s" "t \<noteq> u"
    and "st_states s t = Some a" "p \<in> set (active_view (tp_swarm a))"
    and "st_states s u = Some b" "p \<in> set (active_view (tp_swarm b))"
  shows "\<exists>s' out. st_handle X E order
      (StRecvMessage p \<lparr> msg_topic = t, msg_message = TpSwarm (HvDisconnect d) \<rparr>) now s = Some (s', out) \<and>
    StDisconnectPeer p \<in> set out \<and> peer_topics s' p = None \<and> st_states s' u = Some b"
proof -
  let ?e = "TpRecvMessage p (TpSwarm (HvDisconnect d))"
  let ?s = "s\<lparr> peer_topics := note_sender t ?e (peer_topics s) \<rparr>"
  have m: "st_mid E s" and o: "st_outbox s = []" using assms(3) by (simp_all add: st_wf_mid)
  have a: "tp_wf E a" using m assms(5) by (simp add: st_mid_iff)
  obtain a' out where h: "tp_handle X E ?e now a = Some (a', out)"
    using tp_handle_facts [OF assms(1) a, of ?e now] by auto
  note d = tp_disconnect_message_out [OF assms(1) a assms(6) h]
  let ?f = "fold (handle_out_event t) out (peer_topics ?s, [])"
  obtain T where T: "peer_topics ?s p = Some T" "t \<in> T" by (simp add: note_sender_def)
  have f: "fst ?f p = None" "StDisconnectPeer p \<in> set (snd ?f)"
    using fold_handle_out_event_disconnects [of "(peer_topics ?s, [])" p T t out] T d by simp_all
  have "run_topic X E ?e now t a ?s =
      Some (?s\<lparr> st_states := (st_states s)(t \<mapsto> a'), peer_topics := fst ?f, st_outbox := snd ?f \<rparr>)"
    using o by (simp add: run_topic_def h case_prod_unfold Let_def)
  then have "st_handle X E order (StRecvMessage p \<lparr> msg_topic = t, msg_message = TpSwarm (HvDisconnect d) \<rparr>) now s =
      Some (s\<lparr> st_states := (st_states s)(t \<mapsto> a'), peer_topics := fst ?f \<rparr>, snd ?f)"
    using assms(5) o
    by (simp add: st_handle_def handle_topic_event_def init_topic_def is_join_def is_quit_def)
  with f assms(4,7) show ?thesis by simp
qed

definition demo_tp :: "(nat, nat) tp_state" where
  "demo_tp =
     \<lparr> tp_me = 0, tp_swarm = demo_hv\<lparr> active_view := [3] \<rparr>, tp_gossip = demo_state [3] [],
       tp_outbox = [], messages_sent = 0, messages_received = 0 \<rparr>"

lemma demo_tp_active: "active_view (tp_swarm demo_tp) = [3]"
  by (simp add: demo_tp_def)

lemma demo_tp_wf: "tp_wf (demo_env b) demo_tp"
proof -
  have "hv_wf (demo_hv\<lparr> active_view := [3] \<rparr>)" using demo_hv_simps by (simp add: hv_wf_def hv_default_config_def)
  then show ?thesis by (simp add: tp_wf_def layers_ok_def demo_tp_def tree_peers_def bset_inv_def)
qed

theorem shared_connection_closed_witness:
  "\<exists>s' out. st_handle demo_ext (demo_env True) (\<lambda>T. [])
      (StRecvMessage 3 \<lparr> msg_topic = [1], msg_message = TpSwarm (HvDisconnect (Disconnect True False)) \<rparr>) 7
      (demo_st\<lparr> st_states := [[1] \<mapsto> demo_tp, [2] \<mapsto> demo_tp] \<rparr>) = Some (s', out) \<and>
    StDisconnectPeer 3 \<in> set out \<and> peer_topics s' 3 = None \<and> st_states s' [2] = Some demo_tp"
proof (rule shared_connection_closed [OF demo_ext_ok demo_env_ok, where a = demo_tp])
  show "st_wf (demo_env True) (demo_st\<lparr> st_states := [[1] \<mapsto> demo_tp, [2] \<mapsto> demo_tp] \<rparr>)"
    using demo_tp_wf st_new_wf [OF demo_st_new, of "demo_env True"]
    by (auto simp: st_wf_def demo_st_def demo_tp_def split: if_splits)
qed (simp_all add: demo_tp_active)

end
