(* ===== verification/Plumtree_Delivery.thy ===== *)
theory Plumtree_Delivery
  imports Plumtree_Inv
begin

text \<open>
  What the broadcast layer delivers and sends: a swarm message is handed to the
  application once while its identifier is remembered, it is pushed to the eager peers and
  announced to the lazy ones, announcements are sent completely and in chunks that fit,
  and grafts are answered from the cache.
\<close>

section \<open>Deliveries\<close>

fun delivery :: "pt_env \<Rightarrow> message_id \<Rightarrow> 'p pt_out \<Rightarrow> 'p gossip_event list" where
  "delivery E i (PtEmitEvent (Received ev)) = (if content_hash E (ge_content ev) = i then [ev] else [])"
| "delivery E i _ = []"

definition deliveries :: "pt_env \<Rightarrow> message_id \<Rightarrow> 'p pt_out list \<Rightarrow> 'p gossip_event list" where
  "deliveries E i out = concat (map (delivery E i) out)"

lemma deliveries_simps [simp]:
  "deliveries E i [] = []"
  "deliveries E i (x # out) = delivery E i x @ deliveries E i out"
  "deliveries E i (out @ out') = deliveries E i out @ deliveries E i out'"
  by (simp_all add: deliveries_def)

lemma deliveries_sends [simp]: "deliveries E i (map (\<lambda>p. PtSendMessage (f p) (m p)) ps) = []"
  by (induction ps) simp_all

text \<open>Operations that deliver nothing and leave the received identifiers alone.\<close>

definition inert :: "'p pt_conf \<Rightarrow> 'p pt_conf \<Rightarrow> bool" where
  "inert c c' \<longleftrightarrow>
     received_messages (fst c') = received_messages (fst c) \<and> pt_config (fst c') = pt_config (fst c) \<and>
     (\<forall>E i. deliveries E i (snd c') = deliveries E i (snd c))"

lemma inert_refl [simp]: "inert c c"
  by (simp add: inert_def)

lemma inert_trans: "inert c c' \<Longrightarrow> inert c' c'' \<Longrightarrow> inert c c''"
  by (simp add: inert_def)

lemma add_peer_frame [simp]:
  "received_messages (add_eager p s) = received_messages s"
  "received_messages (add_lazy p s) = received_messages s"
  "pt_config (add_eager p s) = pt_config s"
  "pt_config (add_lazy p s) = pt_config s"
  "pt_cache (add_eager p s) = pt_cache s"
  "pt_cache (add_lazy p s) = pt_cache s"
  "lazy_push_queue (add_eager p s) = lazy_push_queue s"
  "lazy_push_queue (add_lazy p s) = lazy_push_queue s"
  "pt_me (add_eager p s) = pt_me s"
  "pt_me (add_lazy p s) = pt_me s"
  "missing_messages (add_eager p s) = missing_messages s"
  "missing_messages (add_lazy p s) = missing_messages s"
  by (simp_all add: add_eager_def add_lazy_def)

lemma eager_push_inert: "inert c (eager_push g p c)"
  by (cases c) (simp add: eager_push_def inert_def)

lemma lazy_push_inert: "inert c (lazy_push g p c)"
  by (cases c) (simp add: lazy_push_def inert_def Let_def split: option.splits)

lemma on_graft_inert: "inert c (on_graft p d c)"
  by (cases c) (simp add: on_graft_def inert_def Let_def split: option.splits)

lemma on_send_graft_timer_inert: "inert c (on_send_graft_timer i c)"
  by (cases c)
     (auto simp: on_send_graft_timer_def inert_def Let_def split: option.splits list.splits)

lemma on_ihave_inert: "inert c (on_ihave p is c)"
  unfolding on_ihave_def
proof (induction "is" arbitrary: c)
  case (Cons i "is")
  have "inert c (on_ihave_entry p i c)"
    by (cases c) (simp add: on_ihave_entry_def inert_def Let_def)
  with Cons.IH inert_trans show ?case by (simp, blast)
qed simp

lemma on_peer_inert:
  "inert c (on_prune p c)" "inert c (on_neighbor_up p c)" "inert c (on_neighbor_down p c)"
  "inert c (on_gossip_duplicate p g c)"
  by (cases c; simp add: on_prune_def on_neighbor_up_def on_neighbor_down_def
      on_gossip_duplicate_def inert_def)+

lemma detect_gap_inert: "detect_gap E p r c = Some c' \<Longrightarrow> inert c c'"
  by (cases c) (auto simp: detect_gap_def inert_def split: option.splits)

lemma forward_gossip_inert: "inert c (forward_gossip p g now c)"
proof -
  obtain s io where c: "c = (s, io)" by (cases c)
  have "inert c (s\<lparr> pt_cache := tbc_insert (gs_id g) g (now + message_cache_retention (pt_config s)) (pt_cache s) \<rparr>, io)"
    by (simp add: inert_def c)
  from inert_trans [OF inert_trans [OF this eager_push_inert] lazy_push_inert]
  show ?thesis by (simp add: forward_gossip_def c)
qed

lemma optimize_tree_inert: "optimize_tree p g is c = Some c' \<Longrightarrow> inert c c'"
  by (cases c)
     (auto simp: optimize_tree_def inert_def Let_def split: option.splits if_splits prod.splits)

lemma settle_missing_inert: "settle_missing p g c = Some c' \<Longrightarrow> inert c c'"
  using optimize_tree_inert [of p g _ "((fst c)\<lparr> graft_timer_scheduled := graft_timer_scheduled (fst c) - {gs_id g},
      missing_messages := (missing_messages (fst c))(gs_id g := None) \<rparr>, snd c)" c']
  by (cases c) (auto simp: settle_missing_def inert_def Let_def split: option.splits)

lemma on_dispatch_timer_inert: "on_dispatch_timer E c = Some c' \<Longrightarrow> inert c c'"
proof -
  have "deliveries E i (concat (map (\<lambda>(p, l). map (\<lambda>ch. PtSendMessage p (PtIHave ch)) (chunks n l)) q)) = []"
    for E i n and q :: "('a \<times> ihave list) list"
    by (induction q) auto
  then show "on_dispatch_timer E c = Some c' \<Longrightarrow> inert c c'"
    by (cases c) (auto simp: on_dispatch_timer_def inert_def split: option.splits if_splits)
qed

lemma accept_swarm_effect:
  assumes "accept_swarm E p g r now c = Some c'"
  shows "received_messages (fst c') = tbc_insert (gs_id g) ()
           (now + message_id_retention (pt_config (fst c))) (received_messages (fst c))"
    and "deliveries E i (snd c') = deliveries E i (snd c)"
    and "pt_config (fst c') = pt_config (fst c)"
proof -
  obtain s io where c: "c = (s, io)" by (cases c)
  let ?s = "s\<lparr> received_messages := tbc_insert (gs_id g) ()
                (now + message_id_retention (pt_config s)) (received_messages s) \<rparr>"
  obtain c2 g' c4 where d: "detect_gap E p r (?s, io) = Some c2" and
    m: "settle_missing p g' (forward_gossip p g' now c2) = Some c4" and
    c': "received_messages (fst c') = received_messages (fst c4)" "snd c' = snd c4"
      "pt_config (fst c') = pt_config (fst c4)"
    using assms by (auto simp: accept_swarm_def c Let_def split: option.splits)
  have "inert (?s, io) c4"
    using inert_trans [OF inert_trans [OF detect_gap_inert [OF d] forward_gossip_inert] settle_missing_inert [OF m]] .
  then show "received_messages (fst c') = tbc_insert (gs_id g) ()
           (now + message_id_retention (pt_config (fst c))) (received_messages (fst c))"
    and "deliveries E i (snd c') = deliveries E i (snd c)" and "pt_config (fst c') = pt_config (fst c)"
    by (simp_all add: inert_def c' c)
qed

section \<open>At most one delivery\<close>

text \<open>
  The identifier \<open>i\<close> is remembered at least until \<open>T\<close>, and \<open>D\<close> was delivered under it.
\<close>

definition remembered :: "pt_env \<Rightarrow> message_id \<Rightarrow> instant \<Rightarrow> 'p gossip_event list \<Rightarrow> 'p pt_conf \<Rightarrow> bool" where
  "remembered E i T D c \<longleftrightarrow>
     (\<exists>t. tbc_map (received_messages (fst c)) i = Some (t, ()) \<and> T \<le> t) \<and> deliveries E i (snd c) = D"

lemma remembered_inert: "remembered E i T D c \<Longrightarrow> inert c c' \<Longrightarrow> remembered E i T D c'"
  by (simp add: remembered_def inert_def)

lemma evict_remembered:
  assumes "pt_wf E (fst c)" "remembered E i T D c" "now < T"
  shows "remembered E i T D (on_evict_cache_timer now c)"
proof -
  have "tbc_inv (received_messages (fst c))" using assms(1) by (simp add: pt_wf_def store_ok_def)
  with assms(2,3) show ?thesis
    by (cases c) (auto simp: remembered_def on_evict_cache_timer_def tbc.fresh_survives)
qed

lemma initialize_remembered:
  assumes "pt_wf E (fst c)" "remembered E i T D c" "now < T"
  shows "remembered E i T D (pt_initialize now c)"
  using evict_remembered [of E "((fst c)\<lparr> pt_init := True \<rparr>, snd c)" i T D now] assms
  by (cases c) (simp add: pt_initialize_def remembered_def)

lemma on_gossip_remembered:
  assumes w: "pt_wf E (fst c)" and r: "remembered E i T D c"
    and h: "on_gossip E p g now c = Some c'"
  shows "remembered E i T D c'"
proof -
  obtain s io where c: "c = (s, io)" by (cases c)
  let ?io = "io @ [PtEmitEvent (Received (gossip_event_from_message g p))]"
  have ti: "tbc_inv (received_messages s)" using w by (simp add: pt_wf_def store_ok_def c)
  have known: "tbc_contains_key (received_messages s) i"
    using r by (auto simp: remembered_def tbc_contains_key_def c)
  consider "\<not> gossip_validate E g" | "tbc_contains_key (received_messages s) (gs_id g)" "gossip_validate E g"
    | "gossip_validate E g" "\<not> tbc_contains_key (received_messages s) (gs_id g)" by blast
  then show ?thesis
  proof cases
    case 1
    with h r show ?thesis by (simp add: on_gossip_def c)
  next
    case 2
    with h remembered_inert [OF r on_peer_inert(4)] show ?thesis
      by (auto simp: on_gossip_def c)
  next
    case 3
    have ne: "gs_id g \<noteq> i" using 3(2) known by auto
    then have "delivery E i (PtEmitEvent (Received (gossip_event_from_message g p))) = []"
      using 3(1) by (simp add: gossip_validate_def gossip_event_from_message_def)
    then have r1: "remembered E i T D (s, ?io)" using r by (simp add: remembered_def c)
    show ?thesis
    proof (cases "gs_scope g")
      case Neighbors
      with 3 h r1 show ?thesis by (simp add: on_gossip_def c Let_def)
    next
      case (Swarm x)
      with 3 h have "accept_swarm E p g x now (s, ?io) = Some c'"
        by (simp add: on_gossip_def c Let_def)
      from accept_swarm_effect [OF this] r1 ne ti show ?thesis
        by (simp add: remembered_def tbc.entry_ins)
    qed
  qed
qed

lemma broadcast_remembered:
  assumes w: "pt_wf E (fst c)" and r: "remembered E i T D c"
    and t: "T \<le> now + message_id_retention (pt_config (fst c))"
  shows "remembered E i T D (broadcast E d sc now c)"
proof -
  obtain s io where c: "c = (s, io)" by (cases c)
  let ?i = "content_hash E d"
  let ?m = "\<lparr> gs_id = ?i, gs_content = d, gs_scope = Swarm 0 \<rparr>"
  let ?s = "s\<lparr> received_messages := tbc_insert ?i () (now + message_id_retention (pt_config s)) (received_messages s),
             pt_cache := tbc_insert ?i ?m (now + message_cache_retention (pt_config s)) (pt_cache s),
             locally_authored := insert ?i (locally_authored s) \<rparr>"
  have "tbc_inv (received_messages s)" using w by (simp add: pt_wf_def store_ok_def c)
  then have 1: "remembered E i T D (?s, io)" using r t by (auto simp: remembered_def c tbc.entry_ins)
  show ?thesis
  proof (cases sc)
    case ScopeSwarm
    then have "broadcast E d sc now c = eager_push ?m (pt_me s) (lazy_push ?m (pt_me s) (?s, io))"
      by (simp add: broadcast_def c Let_def)
    with remembered_inert [OF 1 inert_trans [OF lazy_push_inert eager_push_inert]] show ?thesis by simp
  next
    case ScopeNeighbors
    with remembered_inert [OF r eager_push_inert] show ?thesis by (simp add: broadcast_def c Let_def)
  qed
qed

lemma pt_handle_message_remembered:
  assumes w: "pt_wf E (fst c)" and r: "remembered E i T D c"
    and h: "pt_handle_message E p m now c = Some c'"
  shows "remembered E i T D c'"
proof -
  obtain s io where c: "c = (s, io)" by (cases c)
  define s1 where "s1 = (if is_gossip_message m
               then s\<lparr> payload_messages_received := payload_messages_received s + 1 \<rparr>
               else s\<lparr> control_messages_received := control_messages_received s + 1 \<rparr>)"
  have 1: "remembered E i T D (s1, io)" "pt_wf E (fst (s1, io))"
    using r w by (simp_all add: s1_def remembered_def c)
  have e: "pt_handle_message E p m now c =
     (case m of
          PtGossip details \<Rightarrow> on_gossip E p details now (s1, io)
        | PtPrune \<Rightarrow> Some (on_prune p (s1, io))
        | PtIHave details \<Rightarrow> Some (on_ihave p details (s1, io))
        | PtGraft details \<Rightarrow> Some (on_graft p details (s1, io)))"
    by (simp only: pt_handle_message_def c s1_def Let_def prod.case)
  note inerts = remembered_inert [OF 1(1) on_ihave_inert] remembered_inert [OF 1(1) on_graft_inert]
    remembered_inert [OF 1(1) on_peer_inert(1)]
  show ?thesis
    using h inerts on_gossip_remembered [OF 1(2,1)] unfolding e by (cases m) auto
qed

lemma pt_dispatch_remembered:
  assumes w: "pt_wf E (fst c)" and r: "remembered E i T D c" and now: "now < T"
    and t: "T \<le> now + message_id_retention (pt_config (fst c))"
    and h: "pt_dispatch E e now c = Some c'"
  shows "remembered E i T D c'"
proof (cases e)
  case (PtRecvMessage p m)
  with h pt_handle_message_remembered [OF w r] show ?thesis by (simp add: pt_dispatch_def)
next
  case (PtBroadcast d sc)
  with h broadcast_remembered [OF w r t] show ?thesis by (auto simp: pt_dispatch_def)
next
  case (PtTimerExpired x)
  with h evict_remembered [OF w r now] remembered_inert [OF r on_send_graft_timer_inert]
    remembered_inert [OF r on_dispatch_timer_inert] show ?thesis
    by (cases x) (auto simp: pt_dispatch_def)
next
  case (PtNeighborUp p)
  with h remembered_inert [OF r on_peer_inert(2)] show ?thesis by (auto simp: pt_dispatch_def)
next
  case (PtNeighborDown p)
  with h remembered_inert [OF r on_peer_inert(3)] show ?thesis by (auto simp: pt_dispatch_def)
qed

lemma pt_handle_remembered:
  assumes w: "pt_wf E (fst c)" and r: "remembered E i T D c" and now: "now < T"
    and t: "T \<le> now + message_id_retention (pt_config (fst c))"
    and h: "pt_handle E e now c = Some c'"
  shows "remembered E i T D c'"
proof -
  have k: "pt_keeps E c (pt_initialize now c)" using pt_initialize_keeps [OF w] .
  from k have "pt_config (fst (pt_initialize now c)) = pt_config (fst c)" by (simp add: pt_keeps_def)
  with pt_dispatch_remembered [OF pt_keeps_wf [OF k] initialize_remembered [OF w r now] now] t h
  show ?thesis by (simp add: pt_handle_def)
qed

section \<open>Runs\<close>

abbreviation pt_step ::
  "pt_env \<Rightarrow> 'p::linorder pt_state \<Rightarrow> 'p pt_in \<times> instant \<Rightarrow> ('p pt_state \<times> 'p pt_out list) option" where
  "pt_step E s en \<equiv> pt_handle E (fst en) (snd en) (s, [])"

interpretation ptm: safe_machine "pt_step E" "pt_wf E" "\<lambda>en. pt_admitted E (fst en)" for E
proof unfold_locales
  show "\<exists>s' out. pt_step E s en = Some (s', out) \<and> pt_wf E s'"
    if "pt_wf E s" "pt_admitted E (fst en)" for s :: "'a pt_state" and en
    using pt_handle_moves [of E "(s, [])" "fst en" "snd en"] that by (auto simp: pt_moves_def)
qed

definition remembers :: "pt_env \<Rightarrow> pt_config \<Rightarrow> message_id \<Rightarrow> instant \<Rightarrow> 'p::linorder pt_state \<Rightarrow> bool" where
  "remembers E cfg i T s \<longleftrightarrow> pt_wf E s \<and> pt_config s = cfg \<and> remembered E i T [] (s, [])"

interpretation ptd: tracked_machine "pt_step E" "remembers E cfg i (t0 + message_id_retention cfg)"
    "\<lambda>en. pt_admitted E (fst en) \<and> t0 \<le> snd en \<and> snd en < t0 + message_id_retention cfg"
    "\<lambda>s out s'. deliveries E i out = []" for E cfg i t0
proof unfold_locales
  fix s :: "'a pt_state" and en :: "'a pt_in \<times> instant"
  assume s: "remembers E cfg i (t0 + message_id_retention cfg) s"
    and en: "pt_admitted E (fst en) \<and> t0 \<le> snd en \<and> snd en < t0 + message_id_retention cfg"
  have w: "pt_wf E (fst (s, []))" and cfg: "pt_config s = cfg" using s by (simp_all add: remembers_def)
  have step: "remembered E i (t0 + message_id_retention cfg) [] c'" if "pt_step E s en = Some c'" for c'
    using pt_handle_remembered [OF w _ _ _ that] s en cfg by (simp add: remembers_def)
  show "\<exists>s' out. pt_step E s en = Some (s', out) \<and> remembers E cfg i (t0 + message_id_retention cfg) s'"
    using pt_handle_moves [OF w, of "fst en" "snd en"] en step cfg
    by (auto simp: pt_moves_def remembers_def remembered_def)
  show "deliveries E i out = []" if "pt_step E s en = Some (s', out)" for s' out
    using step [OF that] by (simp add: remembered_def)
qed simp_all

lemma tbc_contains_insert: "tbc_inv c \<Longrightarrow> tbc_contains_key (tbc_insert k v t c) k"
  by (simp add: tbc_contains_key_def tbc.entry_ins)

lemma initialize_not_known:
  assumes "pt_wf E s" "\<not> tbc_contains_key (received_messages s) i"
  shows "\<not> tbc_contains_key (received_messages (fst (pt_initialize now (s, io)))) i"
proof -
  have "tbc_inv (received_messages s)" using assms(1) by (simp add: pt_wf_def store_ok_def)
  with assms(2) show ?thesis
    by (auto simp: pt_initialize_def on_evict_cache_timer_def tbc_contains_key_def domIff
        dest: tbc.expire_shrinks)
qed

lemma initialize_deliveries [simp]: "deliveries E i (snd (pt_initialize now c)) = deliveries E i (snd c)"
  by (cases c) (simp add: pt_initialize_def on_evict_cache_timer_def)

lemma on_gossip_new:
  assumes w: "pt_wf E (fst c)" and g: "gossip_validate E g" "gs_scope g = Swarm r"
    and r: "overflow_checks E \<longrightarrow> r \<noteq> - 1"
    and new: "\<not> tbc_contains_key (received_messages (fst c)) (gs_id g)"
    and none: "deliveries E (gs_id g) (snd c) = []"
  shows "\<exists>c'. on_gossip E p g now c = Some c' \<and> pt_keeps E c c' \<and>
    remembered E (gs_id g) (now + message_id_retention (pt_config (fst c)))
      [gossip_event_from_message g p] c'"
proof -
  obtain s io where c: "c = (s, io)" by (cases c)
  let ?io = "io @ [PtEmitEvent (Received (gossip_event_from_message g p))]"
  have "\<not> last_round_gossip E (PtGossip g)" using g(2) r by (simp add: last_round_gossip_def)
  then obtain c' where h: "on_gossip E p g now c = Some c'" "pt_keeps E c c'"
    using on_gossip_keeps [OF w] by blast
  have a: "accept_swarm E p g r now (s, ?io) = Some c'"
    using h(1) g new by (simp add: on_gossip_def c Let_def)
  have "tbc_inv (received_messages s)" using w by (simp add: pt_wf_def store_ok_def c)
  with accept_swarm_effect [OF a] g(1) none
  have "remembered E (gs_id g) (now + message_id_retention (pt_config (fst c)))
      [gossip_event_from_message g p] c'"
    by (simp add: remembered_def c tbc.entry_ins gossip_validate_def gossip_event_from_message_def)
  with h show ?thesis by blast
qed

lemma pt_handle_new:
  assumes w: "pt_wf E s" and g: "gossip_validate E g" "gs_scope g = Swarm r"
    and r: "overflow_checks E \<longrightarrow> r \<noteq> - 1"
    and new: "\<not> tbc_contains_key (received_messages s) (gs_id g)"
  shows "\<exists>s' out. pt_handle E (PtRecvMessage p (PtGossip g)) now (s, []) = Some (s', out) \<and>
    remembers E (pt_config s) (gs_id g) (now + message_id_retention (pt_config s)) s' \<and>
    deliveries E (gs_id g) out = [gossip_event_from_message g p]"
proof -
  let ?i = "pt_initialize now (s, [])"
  let ?c = "((fst ?i)\<lparr> payload_messages_received := payload_messages_received (fst ?i) + 1 \<rparr>, snd ?i)"
  have k: "pt_keeps E (s, []) ?i" using pt_initialize_keeps [of E "(s, [])" now] w by simp
  have c: "pt_wf E (fst ?c)" "pt_config (fst ?c) = pt_config s"
    "\<not> tbc_contains_key (received_messages (fst ?c)) (gs_id g)" "deliveries E (gs_id g) (snd ?c) = []"
    using k initialize_not_known [OF w new] by (simp_all add: pt_keeps_def)
  obtain c' where h: "on_gossip E p g now ?c = Some c'" "pt_keeps E ?c c'"
    "remembered E (gs_id g) (now + message_id_retention (pt_config s)) [gossip_event_from_message g p] c'"
    using on_gossip_new [OF c(1) g r c(3,4)] unfolding c(2) by blast
  have "pt_handle E (PtRecvMessage p (PtGossip g)) now (s, []) = Some c'"
    using h(1) by (simp add: pt_handle_def pt_dispatch_def pt_handle_message_def case_prod_unfold
        is_gossip_message_def)
  with h(2,3) c(2) show ?thesis
    by (cases c') (auto simp: remembers_def remembered_def pt_keeps_def)
qed

text \<open>
  C2. A valid swarm message that is not yet known is delivered to the application exactly
  once when it arrives, and nothing that happens afterwards, as long as its identifier is
  retained, delivers content with this identifier again.
\<close>

theorem swarm_delivered_once:
  assumes "pt_wf E s" "gossip_validate E g" "gs_scope g = Swarm r" "overflow_checks E \<longrightarrow> r \<noteq> - 1"
    and "\<not> tbc_contains_key (received_messages s) (gs_id g)"
    and "list_all (\<lambda>en. pt_admitted E (fst en) \<and> t0 \<le> snd en \<and>
           snd en < t0 + message_id_retention (pt_config s)) es"
  shows "\<exists>s1 out1 s2 out2.
    pt_handle E (PtRecvMessage p (PtGossip g)) t0 (s, []) = Some (s1, out1) \<and>
    run_machine (pt_step E) s1 es = Some (s2, out2) \<and>
    deliveries E (gs_id g) out1 = [gossip_event_from_message g p] \<and>
    deliveries E (gs_id g) out2 = []"
proof -
  obtain s1 out1 where 1: "pt_handle E (PtRecvMessage p (PtGossip g)) t0 (s, []) = Some (s1, out1)"
    "remembers E (pt_config s) (gs_id g) (t0 + message_id_retention (pt_config s)) s1"
    "deliveries E (gs_id g) out1 = [gossip_event_from_message g p]"
    using pt_handle_new [OF assms(1-5)] by blast
  obtain s2 out2 where 2: "run_machine (pt_step E) s1 es = Some (s2, out2)"
    using ptd.run_safe [OF 1(2) assms(6)] by blast
  with 1 ptd.run_rel [OF 1(2) assms(6) 2] show ?thesis by blast
qed

theorem swarm_delivered_once_witness:
  "\<exists>s1 out1 s2 out2.
    pt_handle (demo_env True) (PtRecvMessage 1 (PtGossip (demo_gossip 3))) 10 (demo_state [1] [2], []) =
      Some (s1, out1) \<and>
    run_machine (pt_step (demo_env True)) s1
      [(PtRecvMessage 2 (PtGossip (demo_gossip 4)), 40), (PtTimerExpired EvictCache, 1000),
       (PtBroadcast [7] ScopeSwarm, 2000),
       (PtRecvMessage 3 (PtGossip ((demo_gossip 0)\<lparr> gs_scope := Neighbors \<rparr>)), 80000)] = Some (s2, out2) \<and>
    deliveries (demo_env True) (gs_id (demo_gossip 3)) out1 = [gossip_event_from_message (demo_gossip 3) 1] \<and>
    deliveries (demo_env True) (gs_id (demo_gossip 3)) out2 = []"
  by (rule swarm_delivered_once [where r = 3])
     (simp_all add: bset_inv_def tbc_contains_key_def last_round_gossip_def pt_default_config_def u16_max)

section \<open>Forwarding\<close>

fun gossip_send :: "'p pt_out \<Rightarrow> ('p \<times> gossip) list" where
  "gossip_send (PtSendMessage p (PtGossip g)) = [(p, g)]"
| "gossip_send _ = []"

definition gossip_sends :: "'p pt_out list \<Rightarrow> ('p \<times> gossip) list" where
  "gossip_sends out = concat (map gossip_send out)"

lemma gossip_sends_simps [simp]:
  "gossip_sends [] = []"
  "gossip_sends (x # out) = gossip_send x @ gossip_sends out"
  "gossip_sends (out @ out') = gossip_sends out @ gossip_sends out'"
  by (simp_all add: gossip_sends_def)

lemma gossip_sends_map [simp]:
  "gossip_sends (map (\<lambda>p. PtSendMessage p (PtGossip g)) ps) = map (\<lambda>p. (p, g)) ps"
  by (induction ps) simp_all

text \<open>The announcements that wait for a peer.\<close>

definition pending :: "'p \<Rightarrow> 'p pt_state \<Rightarrow> ihave list" where
  "pending p s = (case map_of (lazy_push_queue s) p of None \<Rightarrow> [] | Some l \<Rightarrow> l)"

lemma fold_bmap_push_lookup:
  "bmap_inv m \<Longrightarrow> distinct ps \<Longrightarrow>
   map_of (fold (\<lambda>p. bmap_push p v) ps m) q =
     (if q \<in> set ps then Some ((case map_of m q of None \<Rightarrow> [] | Some l \<Rightarrow> l) @ [v]) else map_of m q)"
proof (induction ps arbitrary: m)
  case (Cons p ps)
  have "map_of (bmap_push p v m) q =
      (if q = p then Some ((case map_of m q of None \<Rightarrow> [] | Some l \<Rightarrow> l) @ [v]) else map_of m q)"
    using bmap_push_lookup [OF Cons.prems(1), of p v] by (auto split: option.splits)
  with Cons.IH [of "bmap_push p v m"] Cons.prems show ?case by auto
qed simp

lemma lazy_push_pending:
  assumes "pt_wf E (fst c)" "gossip_round g = Some r"
  shows "pending q (fst (lazy_push g p c)) =
     pending q (fst c) @
       (if q \<in> set (lazy_push_peers (fst c)) - {p} then [\<lparr> ih_id = gs_id g, ih_round = r \<rparr>] else [])"
proof -
  obtain s io where c: "c = (s, io)" by (cases c)
  let ?ps = "filter (\<lambda>x. x \<noteq> p) (lazy_push_peers s)"
  let ?v = "\<lparr> ih_id = gs_id g, ih_round = r \<rparr>"
  have "bmap_inv (lazy_push_queue s)" "distinct ?ps"
    using assms(1) by (simp_all add: pt_wf_def queue_ok_def peers_ok_def c bset_inv_distinct)
  note look = fold_bmap_push_lookup [OF this, of ?v q]
  have "lazy_push_queue (fst (lazy_push g p c)) = fold (\<lambda>p. bmap_push p ?v) ?ps (lazy_push_queue s)"
    using assms(2) by (simp add: lazy_push_def c Let_def)
  with look show ?thesis by (auto simp: pending_def c)
qed

lemma lazy_push_sends [simp]: "gossip_sends (snd (lazy_push g p c)) = gossip_sends (snd c)"
  and lazy_push_cache [simp]: "pt_cache (fst (lazy_push g p c)) = pt_cache (fst c)"
  and lazy_push_peers_frame [simp]: "eager_push_peers (fst (lazy_push g p c)) = eager_push_peers (fst c)"
    "pt_me (fst (lazy_push g p c)) = pt_me (fst c)"
  by (cases c; simp add: lazy_push_def Let_def split: option.splits)+

lemma optimize_tree_frame:
  assumes "optimize_tree p g is c = Some c'"
  shows "gossip_sends (snd c') = gossip_sends (snd c)" "lazy_push_queue (fst c') = lazy_push_queue (fst c)"
    "pt_cache (fst c') = pt_cache (fst c)"
  using assms
  by (cases c; auto simp: optimize_tree_def Let_def split: option.splits if_splits prod.splits)+

lemma settle_missing_frame:
  assumes "settle_missing p g c = Some c'"
  shows "gossip_sends (snd c') = gossip_sends (snd c)" "lazy_push_queue (fst c') = lazy_push_queue (fst c)"
    "pt_cache (fst c') = pt_cache (fst c)"
  using assms optimize_tree_frame
    [of p g _ "((fst c)\<lparr> graft_timer_scheduled := graft_timer_scheduled (fst c) - {gs_id g},
      missing_messages := (missing_messages (fst c))(gs_id g := None) \<rparr>, snd c)" c']
  by (cases c; auto simp: settle_missing_def Let_def split: option.splits)+

lemma detect_gap_frame:
  assumes "detect_gap E p r c = Some c'"
  shows "gossip_sends (snd c') = gossip_sends (snd c)" "lazy_push_queue (fst c') = lazy_push_queue (fst c)"
    "pt_cache (fst c') = pt_cache (fst c)" "eager_push_peers (fst c') = eager_push_peers (fst c)"
    "lazy_push_peers (fst c') = lazy_push_peers (fst c)" "pt_me (fst c') = pt_me (fst c)"
    "pt_config (fst c') = pt_config (fst c)"
  using assms by (cases c; auto simp: detect_gap_def split: option.splits)+

text \<open>The peers that get a message pushed or announced.\<close>

definition push_targets :: "'p \<Rightarrow> 'p pt_state \<Rightarrow> 'p list" where
  "push_targets sender s = filter (\<lambda>p. p \<noteq> pt_me s \<and> p \<noteq> sender) (eager_push_peers s)"

definition spreads :: "gossip \<Rightarrow> round \<Rightarrow> 'p \<Rightarrow> 'p pt_conf \<Rightarrow> 'p pt_conf \<Rightarrow> bool" where
  "spreads g r sender c c' \<longleftrightarrow>
     gossip_sends (snd c') = gossip_sends (snd c) @ map (\<lambda>p. (p, g)) (push_targets sender (fst c)) \<and>
     (\<forall>q. pending q (fst c') = pending q (fst c) @
        (if q \<in> set (lazy_push_peers (fst c)) - {sender} then [\<lparr> ih_id = gs_id g, ih_round = r \<rparr>] else [])) \<and>
     tbc_get (pt_cache (fst c')) (gs_id g) = Some g"

lemma forward_gossip_spreads:
  assumes w: "pt_wf E (fst c)" and g: "gossip_validate E g" "gs_scope g = Swarm r"
  shows "spreads g r p c (forward_gossip p g now c)"
proof -
  obtain s io where c: "c = (s, io)" by (cases c)
  let ?s = "s\<lparr> pt_cache := tbc_insert (gs_id g) g (now + message_cache_retention (pt_config s)) (pt_cache s) \<rparr>"
  let ?c = "eager_push g p (?s, io)"
  have w1: "pt_wf E (fst ?c)" using cache_insert_wf [OF _ g(1)] w g(2) by (simp add: c)
  have ti: "tbc_inv (pt_cache s)" using w by (simp add: pt_wf_def store_ok_def c)
  have "gossip_round g = Some r" using g(2) by (simp add: gossip_round_def)
  note pend = lazy_push_pending [OF w1 this, of _ p]
  have "snd ?c = io @ map (\<lambda>q. PtSendMessage q (PtGossip g)) (push_targets p s)"
    by (simp add: eager_push_def push_targets_def)
  with pend ti show ?thesis
    by (simp add: forward_gossip_def c spreads_def tbc_get_def tbc.entry_ins) (simp add: pending_def push_targets_def)
qed

lemma spreads_frame:
  assumes "spreads g r p c c'" "gossip_sends (snd c0) = gossip_sends (snd c)"
    "lazy_push_queue (fst c0) = lazy_push_queue (fst c)" "eager_push_peers (fst c0) = eager_push_peers (fst c)"
    "lazy_push_peers (fst c0) = lazy_push_peers (fst c)" "pt_me (fst c0) = pt_me (fst c)"
    "gossip_sends (snd c1) = gossip_sends (snd c')" "lazy_push_queue (fst c1) = lazy_push_queue (fst c')"
    "pt_cache (fst c1) = pt_cache (fst c')"
  shows "spreads g r p c0 c1"
  using assms by (simp add: spreads_def pending_def push_targets_def)

lemma accept_swarm_spreads:
  assumes w: "pt_wf E (fst c)" and g: "gossip_validate E g" "gs_scope g = Swarm r"
    and r: "overflow_checks E \<longrightarrow> r \<noteq> - 1"
    and h: "accept_swarm E p g r now c = Some c'"
  shows "spreads (g\<lparr> gs_scope := Swarm (r + 1) \<rparr>) (r + 1) p c c'"
proof -
  obtain s io where c: "c = (s, io)" by (cases c)
  let ?g = "g\<lparr> gs_scope := Swarm (r + 1) \<rparr>"
  let ?s = "s\<lparr> received_messages := tbc_insert (gs_id g) ()
                (now + message_id_retention (pt_config s)) (received_messages s) \<rparr>"
  have w1: "pt_wf E (fst (?s, io))" using w by (simp add: c)
  obtain c2 where d: "detect_gap E p r (?s, io) = Some c2" "pt_keeps E (?s, io) c2"
    using detect_gap_keeps [OF w1] r by blast
  have v: "gossip_validate E ?g" "gs_scope ?g = Swarm (r + 1)" using g by (simp_all add: gossip_validate_def)
  note f = forward_gossip_spreads [OF pt_keeps_wf [OF d(2)] v, of p now]
  obtain c4 where m: "settle_missing p ?g (forward_gossip p ?g now c2) = Some c4" and
    c': "c' = ((fst c4)\<lparr> max_last_delivery_hop := max (max_last_delivery_hop (fst c4)) r \<rparr>, snd c4)"
    using h d(1) next_round_facts [OF g(2), of E] r
    by (auto simp: accept_swarm_def c Let_def split: option.splits)
  show ?thesis
    by (rule spreads_frame [OF f])
       (use detect_gap_frame [OF d(1)] settle_missing_frame [OF m] in \<open>simp_all add: c c'\<close>)
qed

text \<open>
  C12. Forwarding is complete and exact: a new valid swarm message, with its round
  incremented, is sent to precisely the eager peers other than the sender and the node
  itself, queued as an announcement for precisely the lazy peers other than the sender,
  and stored in the cache for grafts.
\<close>

theorem swarm_forwarded:
  assumes "pt_wf E s" "gossip_validate E g" "gs_scope g = Swarm r" "overflow_checks E \<longrightarrow> r \<noteq> - 1"
    and "\<not> tbc_contains_key (received_messages s) (gs_id g)"
  shows "\<exists>s' out. on_gossip E p g now (s, []) = Some (s', out) \<and>
    gossip_sends out =
      map (\<lambda>q. (q, g\<lparr> gs_scope := Swarm (r + 1) \<rparr>))
        (filter (\<lambda>q. q \<noteq> pt_me s \<and> q \<noteq> p) (eager_push_peers s)) \<and>
    (\<forall>q. pending q s' = pending q s @
       (if q \<in> set (lazy_push_peers s) \<and> q \<noteq> p then [\<lparr> ih_id = gs_id g, ih_round = r + 1 \<rparr>] else [])) \<and>
    tbc_get (pt_cache s') (gs_id g) = Some (g\<lparr> gs_scope := Swarm (r + 1) \<rparr>)"
proof -
  let ?io = "[PtEmitEvent (Received (gossip_event_from_message g p))]"
  obtain c' where h: "accept_swarm E p g r now (s, ?io) = Some c'"
    using accept_swarm_keeps [of E "(s, ?io)" g r p now] assms by auto
  then have "on_gossip E p g now (s, []) = Some c'"
    using assms by (simp add: on_gossip_def Let_def)
  moreover have "spreads (g\<lparr> gs_scope := Swarm (r + 1) \<rparr>) (r + 1) p (s, ?io) c'"
    using accept_swarm_spreads [OF _ assms(2-4) h] assms(1) by simp
  ultimately show ?thesis by (cases c') (simp add: spreads_def push_targets_def)
qed

theorem swarm_forwarded_witness:
  "\<exists>s' out. on_gossip (demo_env False) 1 (demo_gossip 3) 10 (demo_state [0, 1, 2] [3, 4], []) = Some (s', out) \<and>
     gossip_sends out = [(2, (demo_gossip 3)\<lparr> gs_scope := Swarm 4 \<rparr>)] \<and>
     pending 3 s' = [\<lparr> ih_id = [7], ih_round = 4 \<rparr>] \<and> pending 1 s' = []"
proof -
  have "pt_wf (demo_env False) (demo_state [0, 1, 2] [3, 4])" by (simp add: bset_inv_def)
  from swarm_forwarded [OF this, of "demo_gossip 3" 3 1 10] obtain s' out where
    "on_gossip (demo_env False) 1 (demo_gossip 3) 10 (demo_state [0, 1, 2] [3, 4], []) = Some (s', out)"
    "gossip_sends out = [(2, (demo_gossip 3)\<lparr> gs_scope := Swarm 4 \<rparr>)]"
    "\<forall>q. pending q s' = pending q (demo_state [0, 1, 2] [3, 4]) @
       (if q \<in> {3, 4} then [\<lparr> ih_id = [7], ih_round = 4 \<rparr>] else [])"
    by (auto simp: tbc_contains_key_def)
  then show ?thesis by (simp add: pending_def)
qed

end
