(* ===== verification/Plumtree_Repair.thy ===== *)
theory Plumtree_Repair
  imports Plumtree_Delivery
begin

text \<open>
  The repair side of the broadcast layer: announcements leave the node completely and in
  chunks that fit a message, a graft is answered as long as the message is cached, a
  missing message is asked for from one announcer after the other, and a peer that goes
  down is forgotten.  Two lemmas at the end record what happens at the last round and to
  the second peer that relays one of the node's own messages.
\<close>

section \<open>Announcements\<close>

lemma chunks_concat: "0 < n \<Longrightarrow> concat (chunks n xs) = xs"
  by (induction n xs rule: chunks.induct) (subst chunks.simps, simp)

lemma chunks_length: "ch \<in> set (chunks n xs) \<Longrightarrow> 0 < length ch \<and> length ch \<le> n"
proof (induction n xs rule: chunks.induct)
  case (1 n xs)
  show ?case
  proof (cases "xs = [] \<or> n = 0")
    case True
    with "1.prems" show ?thesis by (simp add: chunks.simps [of n xs])
  next
    case False
    with "1.prems" consider "ch = take n xs" | "ch \<in> set (chunks n (drop n xs))"
      by (auto simp: chunks.simps [of n xs])
    then show ?thesis using "1.IH" [OF False] False by cases auto
  qed
qed

fun ihave_send :: "'p \<Rightarrow> 'p pt_out \<Rightarrow> ihave list" where
  "ihave_send q (PtSendMessage p (PtIHave l)) = (if p = q then l else [])"
| "ihave_send q _ = []"

definition announced :: "'p \<Rightarrow> 'p pt_out list \<Rightarrow> ihave list" where
  "announced q out = concat (map (ihave_send q) out)"

lemma announced_simps [simp]:
  "announced q [] = []"
  "announced q (x # out) = ihave_send q x @ announced q out"
  "announced q (out @ out') = announced q out @ announced q out'"
  by (simp_all add: announced_def)

lemma announced_chunks:
  "announced q (map (\<lambda>ch. PtSendMessage p (PtIHave ch)) css) = (if p = q then concat css else [])"
  by (induction css) simp_all

lemma announced_queue:
  assumes "0 < n" "distinct (map fst m)"
  shows "announced q (concat (map (\<lambda>(p, l). map (\<lambda>ch. PtSendMessage p (PtIHave ch)) (chunks n l)) m)) =
     (case map_of m q of None \<Rightarrow> [] | Some l \<Rightarrow> l)"
  using assms(2)
proof (induction m)
  case (Cons x m)
  obtain p l where x: "x = (p, l)" by (cases x)
  have "map_of m p = None" using Cons.prems by (auto simp: x map_of_eq_None_iff)
  with Cons show ?case by (auto simp: x announced_chunks chunks_concat [OF assms(1)])
qed simp

definition ihave_fits :: "pt_env \<Rightarrow> nat \<Rightarrow> 'p pt_out \<Rightarrow> bool" where
  "ihave_fits E n x =
     (case x of PtSendMessage _ (PtIHave l) \<Rightarrow> l \<noteq> [] \<and> length l * ihave_max_size E + 3 \<le> n | _ \<Rightarrow> True)"

text \<open>
  C22. When the dispatch timer fires, every queued announcement is sent: what each peer is
  sent, put together in order, is exactly what was queued for it.  Every message holds at
  least one announcement, and its announcements at their maximal size leave the three bytes
  of the maximal message size that the code sets aside for the discriminator and the length
  prefix.  The queue is empty afterwards.  (A prefix of two bytes is enough for fewer than
  16384 announcements.)
\<close>

theorem announcements_dispatched:
  assumes "pt_wf E s"
  shows "\<exists>s' out. on_dispatch_timer E (s, []) = Some (s', out) \<and>
    (\<forall>q. announced q out = pending q s) \<and> (\<forall>q. pending q s' = []) \<and>
    list_all (ihave_fits E (pt_max_message_size s)) out"
proof -
  let ?n = "(pt_max_message_size s - 3) div ihave_max_size E"
  let ?out = "concat (map (\<lambda>(p, l). map (\<lambda>ch. PtSendMessage p (PtIHave ch)) (chunks ?n l)) (lazy_push_queue s))"
  have "size_ok E s" using assms by (simp add: pt_wf_def)
  note n = ihave_chunk_len_pos [OF this]
  have "length ch * ihave_max_size E + 3 \<le> pt_max_message_size s" if "length ch \<le> ?n" for ch :: "ihave list"
  proof -
    have "length ch * ihave_max_size E \<le> pt_max_message_size s - 3"
      using mult_le_mono1 [OF that, of "ihave_max_size E"] div_times_less_eq_dividend order_trans by blast
    moreover have "3 \<le> pt_max_message_size s" using assms by (simp add: pt_wf_def size_ok_def)
    ultimately show ?thesis by linarith
  qed
  then have fits: "list_all (ihave_fits E (pt_max_message_size s)) ?out"
    by (auto simp: list_all_iff ihave_fits_def dest!: chunks_length)
  have "distinct (map fst (lazy_push_queue s))"
    using assms bset_inv_distinct by (auto simp: pt_wf_def queue_ok_def bmap_inv_def)
  from announced_queue [OF n(2) this] have "\<forall>q. announced q ?out = pending q s" by (simp add: pending_def)
  with fits n show ?thesis
    by (simp add: on_dispatch_timer_def pending_def)
qed

theorem announcements_dispatched_witness:
  "\<exists>s' out. on_dispatch_timer (demo_env True)
      ((demo_state [] [3])\<lparr> lazy_push_queue := [(3, [\<lparr> ih_id = [1], ih_round = 2 \<rparr>])],
                            dispatch_timer_scheduled := True \<rparr>, []) = Some (s', out) \<and>
    (\<forall>q. announced q out = pending q ((demo_state [] [3])\<lparr> lazy_push_queue := [(3, [\<lparr> ih_id = [1], ih_round = 2 \<rparr>])],
                            dispatch_timer_scheduled := True \<rparr>)) \<and> (\<forall>q. pending q s' = []) \<and>
    list_all (ihave_fits (demo_env True) (pt_max_message_size
      ((demo_state [] [3])\<lparr> lazy_push_queue := [(3, [\<lparr> ih_id = [1], ih_round = 2 \<rparr>])],
                            dispatch_timer_scheduled := True \<rparr>))) out"
  by (rule announcements_dispatched)
     (use demo_state_wf [of "[]" "[3]" True] in \<open>simp add: pt_wf_def pt_inv_defs bset_inv_def bmap_inv_def\<close>)

section \<open>Grafts\<close>

text \<open>A message is cached under \<open>i\<close> at least until \<open>T\<close>.\<close>

definition cached :: "message_id \<Rightarrow> instant \<Rightarrow> 'p pt_state \<Rightarrow> bool" where
  "cached i T s \<longleftrightarrow> (\<exists>t g. tbc_map (pt_cache s) i = Some (t, g) \<and> T \<le> t)"

lemma cached_frame: "pt_cache s' = pt_cache s \<Longrightarrow> cached i T s' = cached i T s"
  by (simp add: cached_def)

lemma cached_insert:
  assumes "pt_wf E s" "cached i T s \<or> j = i" "T \<le> t" "pt_cache s' = tbc_insert j g t (pt_cache s)"
  shows "cached i T s'"
proof -
  have "tbc_inv (pt_cache s)" using assms(1) by (simp add: pt_wf_def store_ok_def)
  with assms show ?thesis by (auto simp: cached_def tbc.entry_ins)
qed

lemma evict_cached:
  assumes "pt_wf E (fst c)" "cached i T (fst c)" "now < T"
  shows "cached i T (fst (on_evict_cache_timer now c))"
proof -
  have "tbc_inv (pt_cache (fst c))" using assms(1) by (simp add: pt_wf_def store_ok_def)
  with assms(2,3) show ?thesis
    by (cases c) (auto simp: cached_def on_evict_cache_timer_def tbc.fresh_survives)
qed

lemma cache_untouched [simp]:
  "pt_cache (fst (eager_push g p c)) = pt_cache (fst c)"
  "pt_cache (fst (on_graft p d c)) = pt_cache (fst c)"
  "pt_cache (fst (on_send_graft_timer i c)) = pt_cache (fst c)"
  "pt_cache (fst (on_prune p c)) = pt_cache (fst c)"
  "pt_cache (fst (on_neighbor_up p c)) = pt_cache (fst c)"
  "pt_cache (fst (on_neighbor_down p c)) = pt_cache (fst c)"
  "pt_cache (fst (on_gossip_duplicate p g c)) = pt_cache (fst c)"
  by (cases c; auto simp: on_graft_def on_send_graft_timer_def on_prune_def
      on_neighbor_up_def on_neighbor_down_def on_gossip_duplicate_def Let_def
      split: option.splits list.splits)+

lemma on_ihave_entry_cache [simp]: "pt_cache (fst (on_ihave_entry p h c)) = pt_cache (fst c)"
  by (cases c) (simp add: on_ihave_entry_def Let_def)

lemma on_ihave_cache [simp]: "pt_cache (fst (on_ihave p is c)) = pt_cache (fst c)"
  unfolding on_ihave_def by (induction "is" arbitrary: c) simp_all

lemma on_dispatch_timer_cache: "on_dispatch_timer E c = Some c' \<Longrightarrow> pt_cache (fst c') = pt_cache (fst c)"
  by (cases c) (auto simp: on_dispatch_timer_def split: option.splits if_splits)

lemma forward_gossip_cache:
  "pt_cache (fst (forward_gossip p g now c)) =
     tbc_insert (gs_id g) g (now + message_cache_retention (pt_config (fst c))) (pt_cache (fst c))"
  by (cases c) (simp add: forward_gossip_def)

lemma accept_swarm_cache:
  assumes "accept_swarm E p g r now c = Some c'"
  shows "\<exists>g'. pt_cache (fst c') =
     tbc_insert (gs_id g) g' (now + message_cache_retention (pt_config (fst c))) (pt_cache (fst c))"
proof -
  obtain s io where c: "c = (s, io)" by (cases c)
  let ?s = "s\<lparr> received_messages := tbc_insert (gs_id g) ()
                (now + message_id_retention (pt_config s)) (received_messages s) \<rparr>"
  obtain c2 g' c4 where d: "detect_gap E p r (?s, io) = Some c2" and n: "next_round E g = Some (Some g')" and
    m: "settle_missing p g' (forward_gossip p g' now c2) = Some c4" and c': "pt_cache (fst c') = pt_cache (fst c4)"
    using assms by (auto simp: accept_swarm_def c Let_def split: option.splits)
  have "gs_id g' = gs_id g" using n by (auto simp: next_round_def split: delivery_scope.splits)
  with settle_missing_frame(3) [OF m] detect_gap_frame [OF d] c' show ?thesis
    by (auto simp: forward_gossip_cache c)
qed

lemma on_gossip_cached:
  assumes w: "pt_wf E (fst c)" and k: "cached i T (fst c)"
    and t: "T \<le> now + message_cache_retention (pt_config (fst c))"
    and h: "on_gossip E p g now c = Some c'"
  shows "cached i T (fst c')"
proof -
  obtain s io where c: "c = (s, io)" by (cases c)
  let ?io = "io @ [PtEmitEvent (Received (gossip_event_from_message g p))]"
  consider "pt_cache (fst c') = pt_cache s" | r where "accept_swarm E p g r now (s, ?io) = Some c'"
    using h cache_untouched(7) [of p g "(s, io)"]
    by (auto simp: on_gossip_def c Let_def split: if_splits delivery_scope.splits)
  then show ?thesis
  proof cases
    case 1
    with k show ?thesis by (simp add: cached_def c)
  next
    case 2
    from accept_swarm_cache [OF this] cached_insert [of E s i T] w k t show ?thesis by (auto simp: c)
  qed
qed

lemma broadcast_cached:
  assumes w: "pt_wf E (fst c)" and k: "cached i T (fst c)"
    and t: "T \<le> now + message_cache_retention (pt_config (fst c))"
  shows "cached i T (fst (broadcast E d sc now c))"
proof (cases sc)
  case ScopeSwarm
  then have "pt_cache (fst (broadcast E d sc now c)) = tbc_insert (content_hash E d)
      \<lparr> gs_id = content_hash E d, gs_content = d, gs_scope = Swarm 0 \<rparr>
      (now + message_cache_retention (pt_config (fst c))) (pt_cache (fst c))"
    by (cases c) (simp add: broadcast_def Let_def)
  from cached_insert [OF w _ t this] k show ?thesis by simp
next
  case ScopeNeighbors
  with k show ?thesis by (cases c) (simp add: broadcast_def Let_def cached_def)
qed

lemma pt_dispatch_cached:
  assumes w: "pt_wf E (fst c)" and k: "cached i T (fst c)" and now: "now < T"
    and t: "T \<le> now + message_cache_retention (pt_config (fst c))"
    and h: "pt_dispatch E e now c = Some c'"
  shows "cached i T (fst c')"
proof (cases e)
  case (PtRecvMessage p m)
  let ?pay = "((fst c)\<lparr> payload_messages_received := payload_messages_received (fst c) + 1 \<rparr>, snd c)"
  have "cached i T (fst ?pay)" "pt_wf E (fst ?pay)" using k w by (simp_all add: cached_def)
  note g = on_gossip_cached [OF this(2,1)]
  show ?thesis
  proof (cases m)
    case (PtGossip x)
    with PtRecvMessage h have "on_gossip E p x now ?pay = Some c'"
      by (simp add: pt_dispatch_def pt_handle_message_def case_prod_unfold is_gossip_message_def)
    from g [OF _ this] t show ?thesis by simp
  qed (use PtRecvMessage h k in \<open>auto simp: pt_dispatch_def pt_handle_message_def case_prod_unfold
         is_gossip_message_def Let_def cached_def\<close>)
next
  case (PtBroadcast d sc)
  with h broadcast_cached [OF w k t] show ?thesis by (auto simp: pt_dispatch_def)
next
  case (PtTimerExpired x)
  with h k evict_cached [OF w k now] on_dispatch_timer_cache [of E c c'] show ?thesis
    by (cases x) (auto simp: pt_dispatch_def cached_def)
qed (use h k in \<open>auto simp: pt_dispatch_def cached_def\<close>)

lemma pt_handle_cached:
  assumes w: "pt_wf E (fst c)" and k: "cached i T (fst c)" and now: "now < T"
    and t: "T \<le> now + message_cache_retention (pt_config (fst c))"
    and h: "pt_handle E e now c = Some c'"
  shows "cached i T (fst c')"
proof -
  let ?c = "pt_initialize now c"
  have kp: "pt_keeps E c ?c" using pt_initialize_keeps [OF w] .
  have "cached i T (fst ?c)"
    using evict_cached [of E "((fst c)\<lparr> pt_init := True \<rparr>, snd c)" i T now] w k now
    by (cases c) (simp add: pt_initialize_def cached_def)
  from pt_dispatch_cached [OF pt_keeps_wf [OF kp] this now _ h [unfolded pt_handle_def]] kp t
  show ?thesis by (simp add: pt_keeps_def)
qed

definition holds_cached :: "pt_env \<Rightarrow> pt_config \<Rightarrow> message_id \<Rightarrow> instant \<Rightarrow> 'p::linorder pt_state \<Rightarrow> bool" where
  "holds_cached E cfg i T s \<longleftrightarrow> pt_wf E s \<and> pt_config s = cfg \<and> cached i T s"

interpretation ptg: safe_machine "pt_step E" "holds_cached E cfg i (t0 + message_cache_retention cfg)"
    "\<lambda>en. pt_admitted E (fst en) \<and> t0 \<le> snd en \<and> snd en < t0 + message_cache_retention cfg" for E cfg i t0
proof unfold_locales
  fix s :: "'a pt_state" and en :: "'a pt_in \<times> instant"
  assume s: "holds_cached E cfg i (t0 + message_cache_retention cfg) s"
    and en: "pt_admitted E (fst en) \<and> t0 \<le> snd en \<and> snd en < t0 + message_cache_retention cfg"
  have w: "pt_wf E (fst (s, []))" and cfg: "pt_config s = cfg" and k: "cached i (t0 + message_cache_retention cfg) (fst (s, []))"
    using s by (simp_all add: holds_cached_def)
  obtain s' out where h: "pt_step E s en = Some (s', out)" "pt_moves E (fst en) (s, []) (s', out)"
    using pt_handle_moves [OF w, of "fst en" "snd en"] en by auto
  have "cached i (t0 + message_cache_retention cfg) s'"
    using pt_handle_cached [OF w k _ _ h(1)] en cfg by simp
  with h cfg show "\<exists>s' out. pt_step E s en = Some (s', out) \<and> holds_cached E cfg i (t0 + message_cache_retention cfg) s'"
    by (auto simp: holds_cached_def pt_moves_def)
qed

lemma on_graft_answer:
  assumes w: "pt_wf E s" and k: "cached i T s"
  shows "\<exists>m. on_graft p \<lparr> gr_id = Some i, gr_round = r \<rparr> (s, io) =
       (add_eager p s, io @ [PtSendMessage p (PtGossip m)]) \<and>
     gs_id m = i \<and> gossip_validate E m \<and> gs_scope m \<noteq> Neighbors"
proof -
  obtain t m where m: "tbc_map (pt_cache s) i = Some (t, m)" using k by (auto simp: cached_def)
  then have "gs_id m = i \<and> gossip_validate E m \<and> gs_scope m \<noteq> Neighbors"
    using w by (auto simp: pt_wf_def store_ok_def)
  with m show ?thesis by (auto simp: on_graft_def tbc_get_def Let_def)
qed

text \<open>
  A swarm message that was broadcast can be recovered: after any run within the
  retention time of the message cache, a graft for its identifier is answered with a
  message that carries this identifier and passes the requester's validation, and the
  requester becomes an eager peer.
\<close>

theorem graft_answered:
  assumes "pt_wf E s"
    and "list_all (\<lambda>en. pt_admitted E (fst en) \<and> t0 \<le> snd en \<and>
           snd en < t0 + message_cache_retention (pt_config s)) es"
  shows "\<exists>s2 out m. run_machine (pt_step E) (fst (broadcast E content ScopeSwarm t0 (s, []))) es = Some (s2, out) \<and>
    on_graft p \<lparr> gr_id = Some (content_hash E content), gr_round = r \<rparr> (s2, []) =
      (add_eager p s2, [PtSendMessage p (PtGossip m)]) \<and>
    gs_id m = content_hash E content \<and> gossip_validate E m \<and> gs_scope m \<noteq> Neighbors"
proof -
  let ?s = "fst (broadcast E content ScopeSwarm t0 (s, []))"
  let ?T = "t0 + message_cache_retention (pt_config s)"
  have kp: "pt_keeps E (s, []) (broadcast E content ScopeSwarm t0 (s, []))"
    using broadcast_keeps [of E "(s, [])"] assms(1) by simp
  have "pt_cache ?s = tbc_insert (content_hash E content)
      \<lparr> gs_id = content_hash E content, gs_content = content, gs_scope = Swarm 0 \<rparr> ?T (pt_cache s)"
    by (simp add: broadcast_def Let_def)
  then have "cached (content_hash E content) ?T ?s"
    using cached_insert [OF assms(1)] by blast
  then have "holds_cached E (pt_config s) (content_hash E content) ?T ?s"
    using kp by (simp add: holds_cached_def pt_keeps_def)
  from ptg.run_safe [OF this assms(2)] obtain s2 out where
    "run_machine (pt_step E) ?s es = Some (s2, out)" "pt_wf E s2" "cached (content_hash E content) ?T s2"
    by (auto simp: holds_cached_def)
  with on_graft_answer [of E s2 "content_hash E content" ?T p r "[]"] show ?thesis by auto
qed

theorem graft_answered_witness:
  "\<exists>s2 out m. run_machine (pt_step (demo_env True))
        (fst (broadcast (demo_env True) [9] ScopeSwarm 50 (demo_state [1] [2], [])))
        [(PtTimerExpired EvictCache, 20000), (PtRecvMessage 1 (PtGossip (demo_gossip 1)), 30000)] = Some (s2, out) \<and>
    on_graft 2 \<lparr> gr_id = Some (content_hash (demo_env True) [9]), gr_round = 0 \<rparr> (s2, []) =
      (add_eager 2 s2, [PtSendMessage 2 (PtGossip m)]) \<and>
    gs_id m = content_hash (demo_env True) [9] \<and> gossip_validate (demo_env True) m \<and> gs_scope m \<noteq> Neighbors"
  by (rule graft_answered)
     (simp_all add: bset_inv_def last_round_gossip_def pt_default_config_def u16_max)

section \<open>Asking for a missing message\<close>

fun graft_send :: "message_id \<Rightarrow> 'p pt_out \<Rightarrow> 'p list" where
  "graft_send i (PtSendMessage p (PtGraft d)) = (if gr_id d = Some i then [p] else [])"
| "graft_send i _ = []"

definition graft_targets :: "message_id \<Rightarrow> 'p pt_out list \<Rightarrow> 'p list" where
  "graft_targets i out = concat (map (graft_send i) out)"

lemma graft_targets_simps [simp]:
  "graft_targets i [] = []"
  "graft_targets i (x # out) = graft_send i x @ graft_targets i out"
  "graft_targets i (out @ out') = graft_targets i out @ graft_targets i out'"
  by (simp_all add: graft_targets_def)

lemma on_send_graft_timer_next:
  assumes "\<not> tbc_contains_key (received_messages s) i" "missing_messages s i = Some ((p, r) # l)"
  shows "on_send_graft_timer i (s, io) =
    (add_eager p (s\<lparr> graft_timer_scheduled := graft_timer_scheduled s - {i},
                     missing_messages := (missing_messages s)(i \<mapsto> l) \<rparr>),
     io @ [PtSendMessage p (PtGraft \<lparr> gr_id = Some i, gr_round = r \<rparr>),
           PtScheduleTimer (graft_timeout_2 (pt_config s)) (SendGraft i)])"
  using assms by (simp add: on_send_graft_timer_def Let_def)

text \<open>
  As long as a message stays missing, the graft timer asks its announcers one after
  the other: firing it as often as there are announcements sends one graft to each
  announcer, in the order of the announcements.
\<close>

theorem graft_asks_every_announcer:
  assumes "\<not> tbc_contains_key (received_messages s) i" "missing_messages s i = Some l"
  shows "graft_targets i (snd ((on_send_graft_timer i ^^ length l) (s, io))) =
     graft_targets i io @ map fst l"
  using assms
proof (induction l arbitrary: s io)
  case (Cons x l)
  obtain p r where x: "x = (p, r)" by (cases x)
  note step = on_send_graft_timer_next [of s i p r l io] Cons.prems
  let ?s = "add_eager p (s\<lparr> graft_timer_scheduled := graft_timer_scheduled s - {i},
                     missing_messages := (missing_messages s)(i \<mapsto> l) \<rparr>)"
  have "graft_targets i (snd ((on_send_graft_timer i ^^ length l) (?s, io'))) = graft_targets i io' @ map fst l" for io'
    using Cons.IH [of ?s io'] Cons.prems(1) by simp
  with step show ?case by (simp add: x funpow_swap1)
qed simp

theorem graft_asks_every_announcer_witness:
  "graft_targets [5] (snd ((on_send_graft_timer [5] ^^ length [(2, 1), (4, 3)])
      ((demo_state [] [])\<lparr> missing_messages := [[5] \<mapsto> [(2, 1), (4, 3)]] \<rparr>, []))) = [2, 4]"
  using graft_asks_every_announcer [of "(demo_state [] [])\<lparr> missing_messages := [[5] \<mapsto> [(2, 1), (4, 3)]] \<rparr>"
      "[5]" "[(2, 1), (4, 3)]" "[]"]
  by (simp add: tbc_contains_key_def)

text \<open>
  C17. Repair between two nodes: node \<open>b\<close> hears of an unknown message from node \<open>a\<close>, which has it
  in its cache.  The announcement starts the graft timer, the timer sends a graft to \<open>a\<close>, \<open>a\<close>
  answers with the message, and \<open>b\<close> delivers it.
\<close>

theorem lazy_repair:
  assumes wa: "pt_wf E a" and wb: "pt_wf E b"
    and m: "tbc_map (pt_cache a) i = Some (t, m)" "\<not> last_round_gossip E (PtGossip m)"
    and new: "\<not> tbc_contains_key (received_messages b) i" "missing_messages b i = None"
      "i \<notin> graft_timer_scheduled b"
  shows "\<exists>b1 b2 b3 out a'.
    on_ihave (pt_me a) [\<lparr> ih_id = i, ih_round = r \<rparr>] (b, []) =
      (b1, [PtScheduleTimer (graft_timeout_1 (pt_config b)) (SendGraft i)]) \<and>
    on_send_graft_timer i (b1, []) =
      (b2, [PtSendMessage (pt_me a) (PtGraft \<lparr> gr_id = Some i, gr_round = r \<rparr>),
            PtScheduleTimer (graft_timeout_2 (pt_config b)) (SendGraft i)]) \<and>
    on_graft (pt_me b) \<lparr> gr_id = Some i, gr_round = r \<rparr> (a, []) =
      (a', [PtSendMessage (pt_me b) (PtGossip m)]) \<and>
    on_gossip E (pt_me a) m now (b2, []) = Some (b3, out) \<and>
    deliveries E i out = [gossip_event_from_message m (pt_me a)]"
proof -
  have ok: "gs_id m = i" "gossip_validate E m" "gs_scope m \<noteq> Neighbors"
    using wa m(1) by (auto simp: pt_wf_def store_ok_def)
  obtain rd where rd: "gs_scope m = Swarm rd" using ok(3) by (cases "gs_scope m") auto
  define c1 where "c1 = on_ihave (pt_me a) [\<lparr> ih_id = i, ih_round = r \<rparr>] (b, [])"
  have 1: "c1 = (b\<lparr> missing_messages := (missing_messages b)(i \<mapsto> [(pt_me a, r)]),
      graft_timer_scheduled := insert i (graft_timer_scheduled b) \<rparr>,
      [PtScheduleTimer (graft_timeout_1 (pt_config b)) (SendGraft i)])"
    using new by (simp add: c1_def on_ihave_def on_ihave_entry_def Let_def)
  define c2 where "c2 = on_send_graft_timer i (fst c1, [])"
  have 2: "c2 = (fst c2, [PtSendMessage (pt_me a) (PtGraft \<lparr> gr_id = Some i, gr_round = r \<rparr>),
            PtScheduleTimer (graft_timeout_2 (pt_config b)) (SendGraft i)])"
    "received_messages (fst c2) = received_messages b"
    using new(1) by (simp_all add: c2_def 1 on_send_graft_timer_next)
  have w1: "pt_wf E (fst c1)"
    using pt_keeps_wf [OF on_ihave_keeps [of E "(b, [])"]] wb by (simp add: c1_def)
  have w2: "pt_wf E (fst (fst c2, []))"
    using pt_keeps_wf [OF on_send_graft_timer_keeps [of E "(fst c1, [])"]] w1 by (simp add: c2_def)
  have "overflow_checks E \<longrightarrow> rd \<noteq> - 1" using m(2) rd by (auto simp: last_round_gossip_def)
  from on_gossip_new [OF w2 ok(2) rd this, of "pt_me a" now] new(1) ok(1) obtain c3 where
    3: "on_gossip E (pt_me a) m now (fst c2, []) = Some c3"
      "deliveries E i (snd c3) = [gossip_event_from_message m (pt_me a)]"
    by (auto simp: remembered_def 2(2))
  have 4: "on_graft (pt_me b) \<lparr> gr_id = Some i, gr_round = r \<rparr> (a, []) =
      (add_eager (pt_me b) a, [PtSendMessage (pt_me b) (PtGossip m)])"
    using m(1) by (simp add: on_graft_def tbc_get_def)
  have "on_ihave (pt_me a) [\<lparr> ih_id = i, ih_round = r \<rparr>] (b, []) =
      (fst c1, [PtScheduleTimer (graft_timeout_1 (pt_config b)) (SendGraft i)])"
    using 1 by (simp flip: c1_def)
  moreover have "on_send_graft_timer i (fst c1, []) =
      (fst c2, [PtSendMessage (pt_me a) (PtGraft \<lparr> gr_id = Some i, gr_round = r \<rparr>),
            PtScheduleTimer (graft_timeout_2 (pt_config b)) (SendGraft i)])"
    using 2(1) unfolding c2_def [symmetric] .
  moreover have "on_gossip E (pt_me a) m now (fst c2, []) = Some (fst c3, snd c3)" using 3(1) by simp
  ultimately show ?thesis using 3(2) 4 by blast
qed

theorem lazy_repair_witness:
  "\<exists>b1 b2 b3 out a'.
    on_ihave 0 [\<lparr> ih_id = [9], ih_round = 0 \<rparr>] (pt_new 1 pt_default_config 4063, []) =
      (b1, [PtScheduleTimer 300 (SendGraft [9])]) \<and>
    on_send_graft_timer [9] (b1, []) =
      (b2, [PtSendMessage (0::nat) (PtGraft \<lparr> gr_id = Some [9], gr_round = 0 \<rparr>),
            PtScheduleTimer 200 (SendGraft [9])]) \<and>
    on_graft 1 \<lparr> gr_id = Some [9], gr_round = 0 \<rparr>
        (fst (broadcast (demo_env True) [9] ScopeSwarm 50 (demo_state [] [1], []))
         , []) =
      (a', [PtSendMessage 1 (PtGossip \<lparr> gs_id = [9], gs_content = [9], gs_scope = Swarm 0 \<rparr>)]) \<and>
    on_gossip (demo_env True) 0 \<lparr> gs_id = [9], gs_content = [9], gs_scope = Swarm 0 \<rparr> 70 (b2, []) = Some (b3, out) \<and>
    deliveries (demo_env True) [9] out =
      [gossip_event_from_message \<lparr> gs_id = [9], gs_content = [9], gs_scope = Swarm 0 \<rparr> 0]"
proof -
  let ?a = "fst (broadcast (demo_env True) [9] ScopeSwarm 50 (demo_state [] [1], []))"
  let ?m = "\<lparr> gs_id = [9], gs_content = [9], gs_scope = Swarm 0 \<rparr>"
  have d: "pt_wf (demo_env True) (demo_state [] [1])" by (simp add: bset_inv_def)
  have k: "pt_keeps (demo_env True) (demo_state [] [1], []) (broadcast (demo_env True) [9] ScopeSwarm 50 (demo_state [] [1], []))"
    using broadcast_keeps [of "demo_env True" "(demo_state [] [1], [])"] d by simp
  have a: "pt_wf (demo_env True) ?a" "pt_me ?a = 0" using k by (simp_all add: pt_keeps_def)
  have "tbc_inv (pt_cache (demo_state [] [1]))" using d by (simp add: pt_wf_def store_ok_def)
  then have m: "tbc_map (pt_cache ?a) [9] = Some (30050, ?m)"
    by (simp add: broadcast_def Let_def tbc.entry_ins pt_default_config_def)
  let ?b = "pt_new (1::nat) pt_default_config 4063"
  have b: "pt_me ?b = 1" "graft_timeout_1 (pt_config ?b) = 300" "graft_timeout_2 (pt_config ?b) = 200"
    and new: "\<not> tbc_contains_key (received_messages ?b) [9]" "missing_messages ?b [9] = None"
      "[9] \<notin> graft_timer_scheduled ?b"
    by (simp_all add: pt_new_def pt_default_config_def tbc_contains_key_def tbc_default_def)
  have "\<not> last_round_gossip (demo_env True) (PtGossip ?m)" by (simp add: last_round_gossip_def u16_max)
  from lazy_repair [OF a(1) _ m this new, of 0 70] show ?thesis by (simp only: a(2) b demo_new_wf)
qed

section \<open>Two corner cases\<close>

lemma max_seen_round_frame [simp]:
  "max_seen_round (fst (lazy_push g p c)) = max_seen_round (fst c)"
  "max_seen_round (add_eager p s) = max_seen_round s"
  "max_seen_round (add_lazy p s) = max_seen_round s"
  by (cases c; simp add: lazy_push_def Let_def add_eager_def add_lazy_def split: option.splits)+

lemma forward_gossip_round [simp]: "max_seen_round (fst (forward_gossip p g now c)) = max_seen_round (fst c)"
  by (cases c) (simp add: forward_gossip_def)

lemma optimize_tree_round: "optimize_tree p g is c = Some c' \<Longrightarrow> max_seen_round (fst c') = max_seen_round (fst c)"
  by (cases c) (auto simp: optimize_tree_def Let_def split: option.splits if_splits prod.splits)

lemma settle_missing_round: "settle_missing p g c = Some c' \<Longrightarrow> max_seen_round (fst c') = max_seen_round (fst c)"
  using optimize_tree_round
    [of p g _ "((fst c)\<lparr> graft_timer_scheduled := graft_timer_scheduled (fst c) - {gs_id g},
      missing_messages := (missing_messages (fst c))(gs_id g := None) \<rparr>, snd c)" c']
  by (cases c) (auto simp: settle_missing_def Let_def split: option.splits)

lemma accept_swarm_round:
  assumes "accept_swarm E p g r now c = Some c'"
  shows "max_seen_round (fst c') = max (max_seen_round (fst c)) r"
proof -
  obtain s io where c: "c = (s, io)" by (cases c)
  let ?s = "s\<lparr> received_messages := tbc_insert (gs_id g) ()
                (now + message_id_retention (pt_config s)) (received_messages s) \<rparr>"
  obtain c2 g' c4 where d: "detect_gap E p r (?s, io) = Some c2" and
    m: "settle_missing p g' (forward_gossip p g' now c2) = Some c4" and
    c': "max_seen_round (fst c') = max_seen_round (fst c4)"
    using assms by (auto simp: accept_swarm_def c Let_def split: option.splits)
  have "max_seen_round (fst c2) = max (max_seen_round s) r"
    using d by (auto simp: detect_gap_def split: option.splits)
  with c' settle_missing_round [OF m] show ?thesis by (simp add: c)
qed

text \<open>
  A message of the last round.  A build with overflow checks panics on it.  In a build
  without them the round wraps: the message is forwarded with round 0, as if it came from
  its author, and from then on every swarm message of a later round is reported as a gap.
\<close>

theorem last_round_message:
  assumes "pt_wf E s" "gossip_validate E g" "gs_scope g = Swarm (- 1)"
    and "\<not> tbc_contains_key (received_messages s) (gs_id g)"
  shows "(overflow_checks E \<longrightarrow> on_gossip E p g now (s, []) = None) \<and>
    (\<not> overflow_checks E \<longrightarrow>
       (\<exists>s' out. on_gossip E p g now (s, []) = Some (s', out) \<and>
          gossip_sends out = map (\<lambda>q. (q, g\<lparr> gs_scope := Swarm 0 \<rparr>)) (push_targets p s) \<and>
          (\<forall>q r. 0 < r \<longrightarrow> (\<exists>s''. detect_gap E q r (s', []) =
             Some (s'', [PtEmitEvent (MissingMessages (- 1) q)])))))"
proof (cases "overflow_checks E")
  case True
  have "accept_swarm E p g (- 1) now c = None" for c
    using True assms(3)
    by (cases c) (simp add: accept_swarm_def Let_def next_round_def round_next_def checked_incr_def split: option.splits)
  with True assms show ?thesis by (simp add: on_gossip_def Let_def)
next
  case False
  let ?io = "[PtEmitEvent (Received (gossip_event_from_message g p))]"
  obtain s' out where h: "accept_swarm E p g (- 1) now (s, ?io) = Some (s', out)"
    using accept_swarm_keeps [of E "(s, ?io)" g "- 1" p now] assms False by auto
  have sp: "spreads (g\<lparr> gs_scope := Swarm (- 1 + 1) \<rparr>) (- 1 + 1) p (s, ?io) (s', out)"
    using accept_swarm_spreads [OF _ assms(2,3) _ h] assms(1) False by simp
  have "max_seen_round s' = max (max_seen_round s) (- 1)" using accept_swarm_round [OF h] by simp
  then have "max_seen_round s' = - 1" by (simp add: max_absorb2)
  then have gap: "\<exists>s''. detect_gap E q r (s', []) = Some (s'', [PtEmitEvent (MissingMessages (- 1) q)])"
    if "0 < r" for q :: 'a and r
    using that False by (simp add: detect_gap_def checked_incr_def)
  have "on_gossip E p g now (s, []) = Some (s', out)" using h assms by (simp add: on_gossip_def Let_def)
  with sp gap False show ?thesis by (simp add: spreads_def push_targets_def)
qed

theorem last_round_message_witness:
  "on_gossip (demo_env True) 1 (demo_gossip (- 1)) 10 (demo_state [1, 2] [], []) = None"
  using last_round_message [of "demo_env True" "demo_state [1, 2] []" "demo_gossip (- 1)" 1 10]
  by (simp add: bset_inv_def tbc_contains_key_def)

text \<open>
  The first peer that relays one of the node's own messages back is spared; the second
  one is sent a prune and becomes a lazy peer.
\<close>

theorem second_relay_pruned:
  assumes "gossip_validate E g" "tbc_contains_key (received_messages s) (gs_id g)"
    and "gs_id g \<in> locally_authored s"
  shows "\<exists>s1. on_gossip E p g now (s, []) = Some (s1, []) \<and>
    eager_push_peers s1 = eager_push_peers s \<and>
    on_gossip E q g now' (s1, []) = Some (add_lazy q s1, [PtSendMessage q PtPrune])"
  using assms by (simp add: on_gossip_def on_gossip_duplicate_def)

theorem second_relay_pruned_witness:
  "\<exists>s1. on_gossip (demo_env True) 1 (demo_gossip 1) 60
        (fst (broadcast (demo_env True) [7] ScopeSwarm 50 (demo_state [1, 2] [], [])), []) = Some (s1, []) \<and>
    eager_push_peers s1 = eager_push_peers (fst (broadcast (demo_env True) [7] ScopeSwarm 50 (demo_state [1, 2] [], []))) \<and>
    on_gossip (demo_env True) 2 (demo_gossip 1) 61 (s1, []) = Some (add_lazy 2 s1, [PtSendMessage 2 PtPrune])"
  by (rule second_relay_pruned)
     (simp_all add: broadcast_def Let_def lazy_push_def gossip_round_def tbc_contains_key_def tbc_insert_def)

end
