(* ===== verification/Signing.thy ===== *)
theory Signing
  imports Prelude
begin

text \<open>
  The cryptographic primitives the sources call and the framing of signed objects
  (\<^verbatim>\<open>src/src/protocol_signing.rs\<close>).  Ed25519, BLAKE3, X25519 and AES-GCM come from
  crates, so they are the record \<open>crypto\<close> of functions; \<open>crypto_ok\<close> states what their
  documentation promises of honest use.  Nothing is assumed about forgery: where a
  theorem speaks of authenticity it says that the signature was checked.

  A \<^verbatim>\<open>postcard\<close> encoder is a parameter of the definitions that call it.  Where the
  source propagates an encoding error the parameter returns a sum; where it calls
  \<^verbatim>\<open>expect("postcard encoding cannot fail")\<close> on a tuple of fixed-size values, strings
  and byte strings, the parameter is a total function.
\<close>

type_synonym public_key = bytes
type_synonym secret_key = bytes
type_synonym signature = bytes

record crypto =
  sk_public :: "secret_key \<Rightarrow> public_key"
  sk_sign :: "secret_key \<Rightarrow> bytes \<Rightarrow> signature"
  pk_verify :: "public_key \<Rightarrow> bytes \<Rightarrow> signature \<Rightarrow> bool"
  blake3 :: "bytes \<Rightarrow> bytes"
  to_hex :: "bytes \<Rightarrow> string"
  x_public :: "bytes \<Rightarrow> bytes"
  diffie_hellman :: "bytes \<Rightarrow> bytes \<Rightarrow> bytes"
  aes_encrypt :: "bytes \<Rightarrow> bytes \<Rightarrow> bytes \<Rightarrow> bytes \<Rightarrow> bytes option"
  aes_decrypt :: "bytes \<Rightarrow> bytes \<Rightarrow> bytes \<Rightarrow> bytes \<Rightarrow> bytes option"

definition SIGNATURE_LEN :: nat where
  "SIGNATURE_LEN = 64"

section \<open>What the documentation of the crates promises\<close>

text \<open>An Ed25519 signature has 64 bytes and verifies under the signer's public key.\<close>

definition sign_ok :: "crypto \<Rightarrow> bool" where
  "sign_ok C \<longleftrightarrow>
     (\<forall>sk d. length (sk_sign C sk d) = SIGNATURE_LEN
           \<and> pk_verify C (sk_public C sk) d (sk_sign C sk d))"

text \<open>The two sides of an X25519 exchange compute the same shared secret.\<close>

definition dh_ok :: "crypto \<Rightarrow> bool" where
  "dh_ok C \<longleftrightarrow>
     (\<forall>a b. diffie_hellman C a (x_public C b) = diffie_hellman C b (x_public C a))"

text \<open>What AES-GCM encrypted decrypts under the same key, nonce and associated data.\<close>

definition aead_ok :: "crypto \<Rightarrow> bool" where
  "aead_ok C \<longleftrightarrow>
     (\<forall>k n m a c. aes_encrypt C k n m a = Some c \<longrightarrow> aes_decrypt C k n c a = Some m)"

definition hash_ok :: "crypto \<Rightarrow> bool" where
  "hash_ok C \<longleftrightarrow> (\<forall>d. length (blake3 C d) = 32)"

definition crypto_ok :: "crypto \<Rightarrow> bool" where
  "crypto_ok C \<longleftrightarrow> sign_ok C \<and> dh_ok C \<and> aead_ok C \<and> hash_ok C"

section \<open>The signed framing\<close>

definition canonical_signed_bytes :: "(string \<times> u16 \<times> 'f \<Rightarrow> 'r) \<Rightarrow> string \<Rightarrow> u16 \<Rightarrow> 'f \<Rightarrow> 'r" where
  "canonical_signed_bytes to_stdvec protocol version fs = to_stdvec (protocol, version, fs)"

definition verify :: "crypto \<Rightarrow> public_key \<Rightarrow> signature \<Rightarrow> bytes \<Rightarrow> bool" where
  "verify C key sig data \<longleftrightarrow> length sig = SIGNATURE_LEN \<and> pk_verify C key data sig"

definition verify_canonical_or_legacy ::
  "crypto \<Rightarrow> public_key \<Rightarrow> signature \<Rightarrow> bytes \<Rightarrow> bytes \<Rightarrow> bool" where
  "verify_canonical_or_legacy C key sig canonical legacy \<longleftrightarrow>
     verify C key sig canonical \<or> verify C key sig legacy"

lemma verify_own_signature [simp]:
  "sign_ok C \<Longrightarrow> verify C (sk_public C sk) (sk_sign C sk d) d"
  by (simp add: sign_ok_def verify_def)

lemma verify_own_canonical [simp]:
  "sign_ok C \<Longrightarrow> verify_canonical_or_legacy C (sk_public C sk) (sk_sign C sk d) d legacy"
  by (simp add: verify_canonical_or_legacy_def)

lemma crypto_okD:
  assumes "crypto_ok C"
  shows "sign_ok C" "dh_ok C" "aead_ok C" "hash_ok C"
  using assms by (simp_all add: crypto_ok_def)

lemma aead_roundtrip: "aead_ok C \<Longrightarrow> aes_encrypt C k n m a = Some c \<Longrightarrow> aes_decrypt C k n c a = Some m"
  by (simp add: aead_ok_def)

section \<open>An instance\<close>

text \<open>
  A toy instance that keeps the promises, for evaluating the model: the public key is the
  secret key, a signature is the key byte and the length of the data padded to 64 bytes,
  encryption appends a tag byte.
\<close>

definition ascii :: "string \<Rightarrow> bytes" where
  "ascii s = map (\<lambda>c. of_char c) s"

definition demo_sign :: "secret_key \<Rightarrow> bytes \<Rightarrow> signature" where
  "demo_sign sk d =
     take SIGNATURE_LEN (sum_list d # of_nat (length d) # sk @ replicate SIGNATURE_LEN 0)"

definition demo_crypto :: crypto where
  "demo_crypto =
     \<lparr>sk_public = (\<lambda>sk. sk), sk_sign = demo_sign,
      pk_verify = (\<lambda>pk d s. s = demo_sign pk d),
      blake3 = (\<lambda>d. take 32 (sum_list d # rev d @ replicate 32 0)),
      to_hex = map (\<lambda>b. char_of (unat b)),
      x_public = (\<lambda>sk. sk),
      diffie_hellman = (\<lambda>a b. [sum_list a + sum_list b]),
      aes_encrypt = (\<lambda>k n m a. Some (m @ [sum_list (k @ n @ a)])),
      aes_decrypt = (\<lambda>k n c a.
        if c \<noteq> [] \<and> last c = sum_list (k @ n @ a) then Some (butlast c) else None)\<rparr>"

lemma demo_crypto_ok: "crypto_ok demo_crypto"
  by (auto simp: crypto_ok_def sign_ok_def dh_ok_def aead_ok_def hash_ok_def demo_crypto_def
      demo_sign_def SIGNATURE_LEN_def add.commute)

end
