(* ===== verification/Mailbox.thy ===== *)
theory Mailbox
  imports Signing "HOL-Library.AList" "HOL-Library.Char_ord" "HOL-Library.List_Lexorder"
    "HOL-Library.Product_Lexorder"
begin

text \<open>
  Encrypted store-and-forward delivery (\<^verbatim>\<open>src/src/mailbox.rs\<close>): envelopes of the two
  formats with sealing, opening and validation, signed acknowledgements, and the store
  with its retention, replay evidence and sync pages.

  A \<^verbatim>\<open>HashMap\<close> that the code iterates over is an association list with distinct keys;
  its order stands for the iteration order, and the sync results are shown not to depend
  on it.  Every reading of the clock and every random value is an argument of the
  operation that draws it, in the order in which the code draws them.
\<close>

section \<open>Keys and envelopes\<close>

definition MAILBOX_DOMAIN :: string where
  "MAILBOX_DOMAIN = ''boru/mailbox''"

definition ENVELOPE_VERSION_V1 :: u32 where
  "ENVELOPE_VERSION_V1 = 1"

definition ENVELOPE_VERSION_V2 :: u32 where
  "ENVELOPE_VERSION_V2 = 2"

definition MAX_FUTURE_SKEW_MS :: u64 where
  "MAX_FUTURE_SKEW_MS = 60000"

definition DEFAULT_MAILBOX_TTL :: duration where
  "DEFAULT_MAILBOX_TTL = 7 * 24 * 60 * 60 * 1000"

definition MAX_SYNC_ENVELOPES :: nat where
  "MAX_SYNC_ENVELOPES = 64"

definition MAX_SYNC_RESPONSE_BYTES :: nat where
  "MAX_SYNC_RESPONSE_BYTES = 512 * 1024"

definition MAX_SYNC_LOOKBACK :: duration where
  "MAX_SYNC_LOOKBACK = DEFAULT_MAILBOX_TTL"

definition usize_max :: nat where
  "usize_max = 2 ^ 64 - 1"

record mailbox_public_key =
  mpk_identity :: public_key
  mpk_encryption :: bytes

record mailbox_identity =
  mi_identity :: public_key
  mi_secret :: bytes

record envelope_v1 =
  v1_from :: public_key
  v1_recipient :: mailbox_public_key
  v1_ephemeral :: bytes
  v1_nonce :: bytes
  v1_ciphertext :: bytes
  v1_created_at :: u64
  v1_signature :: signature

record envelope_v2 =
  v2_version :: u32
  v2_from :: public_key
  v2_recipient :: mailbox_public_key
  v2_ephemeral :: bytes
  v2_nonce :: bytes
  v2_ciphertext :: bytes
  v2_created_at :: u64
  v2_signature :: signature

datatype mailbox_envelope = V1 envelope_v1 | V2 envelope_v2

record mailbox_ack =
  ack_version :: u32
  ack_message_id :: string
  ack_original_sender :: public_key
  ack_recipient :: public_key
  acknowledged_at_ms :: u64
  ack_status :: "string option"
  ack_signature :: signature

record mailbox_store =
  mb_schema_version :: u32
  mb_recipient :: "public_key option"
  mb_entries :: "(string \<times> mailbox_envelope) list"
  mb_dedup :: "(string \<times> u64 \<times> bytes) list"
  mb_data_dir :: string
  mb_ttl :: duration

text \<open>The \<^verbatim>\<open>postcard\<close> and \<^verbatim>\<open>serde_json\<close> codecs of the types above.\<close>

record mailbox_codec =
  enc_v1_signing :: "public_key \<times> mailbox_public_key \<times> bytes \<times> bytes \<times> bytes \<Rightarrow> bytes"
  enc_v2_context :: "string \<times> u32 \<times> public_key \<times> mailbox_public_key \<times> bytes \<times> bytes \<times> u64 \<Rightarrow> bytes"
  enc_v2_signing ::
    "string \<times> u32 \<times> public_key \<times> mailbox_public_key \<times> bytes \<times> bytes \<times> u64 \<times> bytes \<Rightarrow> bytes"
  enc_ack_signing ::
    "string \<times> u16 \<times> (string \<times> public_key \<times> public_key \<times> u64 \<times> string option) \<Rightarrow> bytes"
  enc_ack_legacy ::
    "u32 \<times> string \<times> public_key \<times> public_key \<times> u64 \<times> string option \<Rightarrow> bytes"
  enc_envelope :: "mailbox_envelope \<Rightarrow> string + bytes"
  dec_envelope :: "bytes \<Rightarrow> string + mailbox_envelope"
  dec_v1 :: "bytes \<Rightarrow> string + envelope_v1"
  parse_store :: "string \<Rightarrow> string + mailbox_store"

text \<open>One constructor per error message of the source.\<close>

datatype mailbox_error =
    BadSignature
  | UnsupportedEnvelope u32
  | OtherRecipient
  | AuthenticationFailed
  | SenderNotAuthorized
  | ExpiredOrFuture
  | DecodeLegacy string
  | NonceUnavailable string
  | EncryptPayload
  | UnsupportedAck u32
  | AckSigner
  | AckNotAccepted
  | AckSignature
  | AckUnsuccessful
  | AckOriginalSender
  | RecipientMismatch
  | RecipientNotConfigured
  | DuplicateMessage
  | ConflictingEnvelope string
  | ReadMailbox string
  | ParseMailbox string
  | UnsupportedSchema u32

datatype incoming_acceptance = Inserted | Duplicate

definition from_secret :: "crypto \<Rightarrow> secret_key \<Rightarrow> mailbox_identity" where
  "from_secret C sk = \<lparr>mi_identity = sk_public C sk, mi_secret = sk\<rparr>"

definition mailbox_public :: "crypto \<Rightarrow> mailbox_identity \<Rightarrow> mailbox_public_key" where
  "mailbox_public C i = \<lparr>mpk_identity = mi_identity i, mpk_encryption = x_public C (mi_secret i)\<rparr>"

definition signing_bytes_v1 :: "mailbox_codec \<Rightarrow> envelope_v1 \<Rightarrow> bytes" where
  "signing_bytes_v1 K e =
     enc_v1_signing K (v1_from e, v1_recipient e, v1_ephemeral e, v1_nonce e, v1_ciphertext e)"

definition context_bytes :: "mailbox_codec \<Rightarrow> envelope_v2 \<Rightarrow> bytes" where
  "context_bytes K e =
     enc_v2_context K (MAILBOX_DOMAIN, v2_version e, v2_from e, v2_recipient e, v2_ephemeral e,
       v2_nonce e, v2_created_at e)"

definition signing_bytes_v2 :: "mailbox_codec \<Rightarrow> envelope_v2 \<Rightarrow> bytes" where
  "signing_bytes_v2 K e =
     enc_v2_signing K (MAILBOX_DOMAIN, v2_version e, v2_from e, v2_recipient e, v2_ephemeral e,
       v2_nonce e, v2_created_at e, v2_ciphertext e)"

fun envelope_version :: "mailbox_envelope \<Rightarrow> u32" where
  "envelope_version (V1 e) = ENVELOPE_VERSION_V1"
| "envelope_version (V2 e) = v2_version e"

fun env_from :: "mailbox_envelope \<Rightarrow> public_key" where
  "env_from (V1 e) = v1_from e"
| "env_from (V2 e) = v2_from e"

fun env_recipient :: "mailbox_envelope \<Rightarrow> mailbox_public_key" where
  "env_recipient (V1 e) = v1_recipient e"
| "env_recipient (V2 e) = v2_recipient e"

fun env_ephemeral :: "mailbox_envelope \<Rightarrow> bytes" where
  "env_ephemeral (V1 e) = v1_ephemeral e"
| "env_ephemeral (V2 e) = v2_ephemeral e"

fun env_nonce :: "mailbox_envelope \<Rightarrow> bytes" where
  "env_nonce (V1 e) = v1_nonce e"
| "env_nonce (V2 e) = v2_nonce e"

fun env_ciphertext :: "mailbox_envelope \<Rightarrow> bytes" where
  "env_ciphertext (V1 e) = v1_ciphertext e"
| "env_ciphertext (V2 e) = v2_ciphertext e"

fun env_created_at :: "mailbox_envelope \<Rightarrow> u64" where
  "env_created_at (V1 e) = v1_created_at e"
| "env_created_at (V2 e) = v2_created_at e"

fun env_signature :: "mailbox_envelope \<Rightarrow> signature" where
  "env_signature (V1 e) = v1_signature e"
| "env_signature (V2 e) = v2_signature e"

fun message_id :: "crypto \<Rightarrow> mailbox_codec \<Rightarrow> mailbox_envelope \<Rightarrow> string" where
  "message_id C K (V1 e) = to_hex C (blake3 C (signing_bytes_v1 K e))"
| "message_id C K (V2 e) = to_hex C (blake3 C (signing_bytes_v2 K e))"

section \<open>Sealing, opening and validating\<close>

definition derive_key_v1 :: "crypto \<Rightarrow> bytes \<Rightarrow> bytes" where
  "derive_key_v1 C shared = blake3 C (ascii ''iroh-gossip-chat/mailbox/v1'' @ shared)"

definition derive_key_v2 :: "crypto \<Rightarrow> bytes \<Rightarrow> bytes" where
  "derive_key_v2 C shared = blake3 C (ascii ''boru/mailbox/v2'' @ shared)"

fun verify_signature ::
  "crypto \<Rightarrow> mailbox_codec \<Rightarrow> mailbox_envelope \<Rightarrow> (mailbox_error, unit) outcome" where
  "verify_signature C K (V1 e) =
     ensure (pk_verify C (v1_from e) (signing_bytes_v1 K e) (v1_signature e)) BadSignature"
| "verify_signature C K (V2 e) =
     (if v2_version e \<noteq> ENVELOPE_VERSION_V2 then Err (UnsupportedEnvelope (v2_version e))
      else ensure (pk_verify C (v2_from e) (signing_bytes_v2 K e) (v2_signature e)) BadSignature)"

fun decrypt ::
  "crypto \<Rightarrow> mailbox_codec \<Rightarrow> mailbox_envelope \<Rightarrow> mailbox_identity \<Rightarrow> (mailbox_error, bytes) outcome" where
  "decrypt C K (V1 e) i =
     (case aes_decrypt C (derive_key_v1 C (diffie_hellman C (mi_secret i) (v1_ephemeral e)))
        (v1_nonce e) (v1_ciphertext e) [] of
        None \<Rightarrow> Err AuthenticationFailed
      | Some p \<Rightarrow> Ok p)"
| "decrypt C K (V2 e) i =
     (case aes_decrypt C (derive_key_v2 C (diffie_hellman C (mi_secret i) (v2_ephemeral e)))
        (v2_nonce e) (v2_ciphertext e) (context_bytes K e) of
        None \<Rightarrow> Err AuthenticationFailed
      | Some p \<Rightarrow> Ok p)"

definition open_with ::
  "crypto \<Rightarrow> mailbox_codec \<Rightarrow> mailbox_envelope \<Rightarrow> mailbox_identity \<Rightarrow> (mailbox_error, bytes) outcome" where
  "open_with C K env i =
     and_then (verify_signature C K env) (\<lambda>_.
     and_then (ensure (env_recipient env = mailbox_public C i) OtherRecipient) (\<lambda>_.
     decrypt C K env i))"

definition envelope_open ::
  "crypto \<Rightarrow> mailbox_codec \<Rightarrow> mailbox_envelope \<Rightarrow> secret_key \<Rightarrow> (mailbox_error, bytes) outcome" where
  "envelope_open C K env sk = open_with C K env (from_secret C sk)"

definition ttl_ms :: "duration \<Rightarrow> u64" where
  "ttl_ms d = of_nat d"

definition validate_for ::
  "crypto \<Rightarrow> mailbox_codec \<Rightarrow> mailbox_envelope \<Rightarrow> mailbox_identity \<Rightarrow> public_key list \<Rightarrow> duration \<Rightarrow>
   u64 \<Rightarrow> (mailbox_error, bytes) outcome" where
  "validate_for C K env i allowed_senders ttl now =
     and_then (verify_signature C K env) (\<lambda>_.
     and_then (ensure (env_from env \<in> set allowed_senders) SenderNotAuthorized) (\<lambda>_.
     and_then (ensure (env_recipient env = mailbox_public C i) OtherRecipient) (\<lambda>_.
     and_then (ensure (\<not> (env_created_at env > saturating_add now MAX_FUTURE_SKEW_MS
                        \<or> saturating_sub now (env_created_at env) > ttl_ms ttl)) ExpiredOrFuture) (\<lambda>_.
     decrypt C K env i))))"

definition envelope_decode ::
  "crypto \<Rightarrow> mailbox_codec \<Rightarrow> bytes \<Rightarrow> (mailbox_error, mailbox_envelope) outcome" where
  "envelope_decode C K b =
     (case dec_envelope K b of
        Inr env \<Rightarrow>
          if is_ok (verify_signature C K env) then Ok env
          else and_then (map_err DecodeLegacy (dec_v1 K b)) (\<lambda>e. Ok (V1 e))
      | Inl _ \<Rightarrow> and_then (map_err DecodeLegacy (dec_v1 K b)) (\<lambda>e. Ok (V1 e)))"

definition seal_at ::
  "crypto \<Rightarrow> mailbox_codec \<Rightarrow> bytes \<Rightarrow> string + bytes \<Rightarrow> secret_key \<Rightarrow> mailbox_public_key \<Rightarrow> bytes \<Rightarrow>
   u64 \<Rightarrow> (mailbox_error, mailbox_envelope) outcome" where
  "seal_at C K ephemeral_secret random_nonce sender recipient payload created_at =
     (let shared = diffie_hellman C ephemeral_secret (mpk_encryption recipient) in
      and_then (map_err NonceUnavailable random_nonce) (\<lambda>nonce.
      let envelope = \<lparr>v2_version = ENVELOPE_VERSION_V2, v2_from = sk_public C sender,
            v2_recipient = recipient, v2_ephemeral = x_public C ephemeral_secret, v2_nonce = nonce,
            v2_ciphertext = [], v2_created_at = created_at,
            v2_signature = replicate SIGNATURE_LEN 0\<rparr>
      in case aes_encrypt C (derive_key_v2 C shared) nonce payload (context_bytes K envelope) of
           None \<Rightarrow> Err EncryptPayload
         | Some ciphertext \<Rightarrow>
             (let e = envelope\<lparr>v2_ciphertext := ciphertext\<rparr>
              in Ok (V2 (e\<lparr>v2_signature := sk_sign C sender (signing_bytes_v2 K e)\<rparr>)))))"

definition seal_for ::
  "crypto \<Rightarrow> mailbox_codec \<Rightarrow> bytes \<Rightarrow> string + bytes \<Rightarrow> u64 \<Rightarrow> secret_key \<Rightarrow> mailbox_public_key \<Rightarrow>
   bytes \<Rightarrow> (mailbox_error, mailbox_envelope) outcome" where
  "seal_for C K ephemeral_secret random_nonce now sender recipient payload =
     seal_at C K ephemeral_secret random_nonce sender recipient payload now"

definition identity_seal ::
  "crypto \<Rightarrow> mailbox_codec \<Rightarrow> bytes \<Rightarrow> string + bytes \<Rightarrow> u64 \<Rightarrow> mailbox_identity \<Rightarrow> secret_key \<Rightarrow>
   bytes \<Rightarrow> (mailbox_error, mailbox_envelope) outcome" where
  "identity_seal C K ephemeral_secret random_nonce now i sender payload =
     seal_for C K ephemeral_secret random_nonce now sender (mailbox_public C i) payload"

section \<open>Acknowledgements\<close>

definition ACKNOWLEDGEMENT_VERSION :: u32 where
  "ACKNOWLEDGEMENT_VERSION = 1"

definition MAILBOX_ACK_PROTOCOL :: string where
  "MAILBOX_ACK_PROTOCOL = ''boru/mailbox-ack''"

definition is_success :: "mailbox_ack \<Rightarrow> bool" where
  "is_success ack \<longleftrightarrow> ack_status ack = Some ''accepted''"

definition ack_signing_bytes :: "mailbox_codec \<Rightarrow> mailbox_ack \<Rightarrow> bytes" where
  "ack_signing_bytes K ack =
     canonical_signed_bytes (enc_ack_signing K) MAILBOX_ACK_PROTOCOL (ucast (ack_version ack))
       (ack_message_id ack, ack_original_sender ack, ack_recipient ack, acknowledged_at_ms ack,
        ack_status ack)"

definition ack_legacy_signing_bytes :: "mailbox_codec \<Rightarrow> mailbox_ack \<Rightarrow> bytes" where
  "ack_legacy_signing_bytes K ack =
     enc_ack_legacy K (ack_version ack, ack_message_id ack, ack_original_sender ack,
       ack_recipient ack, acknowledged_at_ms ack, ack_status ack)"

definition ack_sign_at ::
  "crypto \<Rightarrow> mailbox_codec \<Rightarrow> secret_key \<Rightarrow> string \<Rightarrow> public_key \<Rightarrow> u64 \<Rightarrow> string option \<Rightarrow> mailbox_ack" where
  "ack_sign_at C K recipient mid original_sender at status =
     (let ack = \<lparr>ack_version = ACKNOWLEDGEMENT_VERSION, ack_message_id = mid,
            ack_original_sender = original_sender, ack_recipient = sk_public C recipient,
            acknowledged_at_ms = at, ack_status = status,
            ack_signature = replicate SIGNATURE_LEN 0\<rparr>
      in ack\<lparr>ack_signature := sk_sign C recipient (ack_signing_bytes K ack)\<rparr>)"

definition ack_sign ::
  "crypto \<Rightarrow> mailbox_codec \<Rightarrow> u64 \<Rightarrow> secret_key \<Rightarrow> string \<Rightarrow> public_key \<Rightarrow> mailbox_ack" where
  "ack_sign C K now recipient mid original_sender =
     ack_sign_at C K recipient mid original_sender now (Some ''accepted'')"

definition ack_verify ::
  "crypto \<Rightarrow> mailbox_codec \<Rightarrow> mailbox_ack \<Rightarrow> public_key \<Rightarrow> (mailbox_error, unit) outcome" where
  "ack_verify C K ack expected =
     and_then (ensure (ack_version ack = ACKNOWLEDGEMENT_VERSION) (UnsupportedAck (ack_version ack))) (\<lambda>_.
     and_then (ensure (ack_recipient ack = expected) AckSigner) (\<lambda>_.
     and_then (ensure (ack_status ack = Some ''accepted'') AckNotAccepted) (\<lambda>_.
     ensure (verify_canonical_or_legacy C (ack_recipient ack) (ack_signature ack)
       (ack_signing_bytes K ack) (ack_legacy_signing_bytes K ack)) AckSignature)))"

section \<open>The store\<close>

definition SCHEMA_VERSION :: u32 where
  "SCHEMA_VERSION = 1"

definition empty_at :: "string \<Rightarrow> mailbox_store" where
  "empty_at dir = \<lparr>mb_schema_version = SCHEMA_VERSION, mb_recipient = None, mb_entries = [],
     mb_dedup = [], mb_data_dir = dir, mb_ttl = DEFAULT_MAILBOX_TTL\<rparr>"

definition for_recipient :: "string \<Rightarrow> public_key \<Rightarrow> mailbox_store" where
  "for_recipient dir recipient = (empty_at dir)\<lparr>mb_recipient := Some recipient\<rparr>"

definition with_ttl :: "string \<Rightarrow> duration \<Rightarrow> mailbox_store" where
  "with_ttl dir ttl = (empty_at dir)\<lparr>mb_ttl := ttl\<rparr>"

text \<open>The file is absent (\<open>None\<close>), unreadable (\<open>Inl\<close>) or has a content (\<open>Inr\<close>).\<close>

definition mb_load ::
  "mailbox_codec \<Rightarrow> (string + string) option \<Rightarrow> string \<Rightarrow> (mailbox_error, mailbox_store option) outcome" where
  "mb_load K file dir =
     (case file of
        None \<Rightarrow> Ok None
      | Some content \<Rightarrow>
          and_then (map_err ReadMailbox content) (\<lambda>text.
          and_then (map_err ParseMailbox (parse_store K text)) (\<lambda>s.
          if mb_schema_version s \<noteq> SCHEMA_VERSION then Err (UnsupportedSchema (mb_schema_version s))
          else Ok (Some (s\<lparr>mb_data_dir := dir, mb_ttl := DEFAULT_MAILBOX_TTL\<rparr>)))))"

definition mb_expire :: "u64 \<Rightarrow> mailbox_store \<Rightarrow> mailbox_store" where
  "mb_expire now s =
     (let cutoff = saturating_sub now (ttl_ms (mb_ttl s))
      in s\<lparr>mb_entries := filter (\<lambda>(_, e). env_created_at e > cutoff) (mb_entries s),
           mb_dedup := filter (\<lambda>(_, created_at, _). created_at > cutoff) (mb_dedup s)\<rparr>)"

definition envelope_fingerprint ::
  "crypto \<Rightarrow> mailbox_codec \<Rightarrow> mailbox_envelope \<Rightarrow> (mailbox_error, bytes) outcome" where
  "envelope_fingerprint C K env = and_then (expect_ok (enc_envelope K env)) (\<lambda>b. Ok (blake3 C b))"

definition enqueue_outgoing ::
  "crypto \<Rightarrow> mailbox_codec \<Rightarrow> mailbox_envelope \<Rightarrow> mailbox_store \<Rightarrow>
   (mailbox_error, string) outcome \<times> mailbox_store" where
  "enqueue_outgoing C K env s =
     (let id = message_id C K env
      in if map_of (mb_entries s) id \<noteq> None then (Err DuplicateMessage, s)
         else (Ok id, s\<lparr>mb_entries := AList.update id env (mb_entries s)\<rparr>))"

definition bind_recipient :: "public_key \<Rightarrow> mailbox_store \<Rightarrow> mailbox_store" where
  "bind_recipient who s = s\<lparr>mb_recipient := Some who\<rparr>"

definition enqueue ::
  "crypto \<Rightarrow> mailbox_codec \<Rightarrow> mailbox_envelope \<Rightarrow> public_key list \<Rightarrow> mailbox_store \<Rightarrow>
   (mailbox_error, string) outcome \<times> mailbox_store" where
  "enqueue C K env allowed_senders s =
     (case verify_signature C K env of
        Err e \<Rightarrow> (Err e, s)
      | Panic \<Rightarrow> (Panic, s)
      | Ok _ \<Rightarrow>
          if env_from env \<notin> set allowed_senders then (Err SenderNotAuthorized, s)
          else (case mb_recipient s of
                  Some r \<Rightarrow>
                    if mpk_identity (env_recipient env) \<noteq> r then (Err RecipientMismatch, s)
                    else enqueue_outgoing C K env s
                | None \<Rightarrow>
                    enqueue_outgoing C K env (bind_recipient (mpk_identity (env_recipient env)) s)))"

definition replay_order :: "crypto \<Rightarrow> mailbox_codec \<Rightarrow> mailbox_envelope \<Rightarrow> u64 \<times> string" where
  "replay_order C K e = (env_created_at e, message_id C K e)"

definition pending ::
  "crypto \<Rightarrow> mailbox_codec \<Rightarrow> u64 \<Rightarrow> mailbox_store \<Rightarrow> mailbox_envelope list \<times> mailbox_store" where
  "pending C K now s =
     (let s1 = mb_expire now s in (sort_key (replay_order C K) (map snd (mb_entries s1)), s1))"

definition acknowledge ::
  "crypto \<Rightarrow> mailbox_codec \<Rightarrow> mailbox_ack \<Rightarrow> mailbox_store \<Rightarrow>
   (mailbox_error, bool) outcome \<times> mailbox_store" where
  "acknowledge C K ack s =
     (case mb_recipient s of
        None \<Rightarrow> (Err RecipientNotConfigured, s)
      | Some recipient \<Rightarrow>
          (case ack_verify C K ack recipient of
             Err e \<Rightarrow> (Err e, s)
           | Panic \<Rightarrow> (Panic, s)
           | Ok _ \<Rightarrow> (Ok (map_of (mb_entries s) (ack_message_id ack) \<noteq> None),
                     s\<lparr>mb_entries := AList.delete (ack_message_id ack) (mb_entries s)\<rparr>)))"

definition acknowledge_outgoing ::
  "crypto \<Rightarrow> mailbox_codec \<Rightarrow> mailbox_ack \<Rightarrow> mailbox_store \<Rightarrow>
   (mailbox_error, bool) outcome \<times> mailbox_store" where
  "acknowledge_outgoing C K ack s =
     (case map_of (mb_entries s) (ack_message_id ack) of
        None \<Rightarrow> (Ok False, s)
      | Some env \<Rightarrow>
          if \<not> is_success ack then (Err AckUnsuccessful, s)
          else (case ack_verify C K ack (mpk_identity (env_recipient env)) of
                  Err e \<Rightarrow> (Err e, s)
                | Panic \<Rightarrow> (Panic, s)
                | Ok _ \<Rightarrow>
                    if ack_original_sender ack \<noteq> env_from env then (Err AckOriginalSender, s)
                    else (Ok True,
                          s\<lparr>mb_entries := AList.delete (ack_message_id ack) (mb_entries s)\<rparr>)))"

definition same_envelope :: "mailbox_envelope \<Rightarrow> mailbox_envelope \<Rightarrow> bool" where
  "same_envelope existing env \<longleftrightarrow>
     env_from existing = env_from env \<and> env_recipient existing = env_recipient env
   \<and> env_ephemeral existing = env_ephemeral env \<and> env_nonce existing = env_nonce env
   \<and> env_ciphertext existing = env_ciphertext env \<and> env_created_at existing = env_created_at env
   \<and> env_signature existing = env_signature env"

definition accept_incoming_with_status ::
  "crypto \<Rightarrow> mailbox_codec \<Rightarrow> u64 \<Rightarrow> u64 \<Rightarrow> mailbox_identity \<Rightarrow> mailbox_envelope \<Rightarrow> public_key list \<Rightarrow>
   mailbox_store \<Rightarrow> (mailbox_error, string \<times> bytes \<times> incoming_acceptance) outcome \<times> mailbox_store" where
  "accept_incoming_with_status C K now now' i env allowed_senders s =
     (case validate_for C K env i allowed_senders (mb_ttl s) now of
        Err e \<Rightarrow> (Err e, s)
      | Panic \<Rightarrow> (Panic, s)
      | Ok payload \<Rightarrow>
     (let id = message_id C K env in
     (case envelope_fingerprint C K env of
        Err e \<Rightarrow> (Err e, s)
      | Panic \<Rightarrow> (Panic, s)
      | Ok fingerprint \<Rightarrow>
     (case map_of (mb_entries s) id of
        Some existing \<Rightarrow>
          if \<not> same_envelope existing env then (Err (ConflictingEnvelope id), s)
          else (Ok (id, payload, Duplicate), s)
      | None \<Rightarrow>
     (case map_of (mb_dedup s) id of
        Some (_, stored_fingerprint) \<Rightarrow>
          if stored_fingerprint \<noteq> fingerprint then (Err (ConflictingEnvelope id), s)
          else (Ok (id, payload, Duplicate), s)
      | None \<Rightarrow>
     (case enqueue C K env allowed_senders s of
        (Err e, s1) \<Rightarrow> (Err e, s1)
      | (Panic, s1) \<Rightarrow> (Panic, s1)
      | (Ok _, s1) \<Rightarrow>
          (Ok (id, payload, Inserted),
           s1\<lparr>mb_dedup := AList.update id (now', fingerprint) (mb_dedup s1)\<rparr>)))))))"

definition accept_incoming ::
  "crypto \<Rightarrow> mailbox_codec \<Rightarrow> u64 \<Rightarrow> u64 \<Rightarrow> mailbox_identity \<Rightarrow> mailbox_envelope \<Rightarrow> public_key list \<Rightarrow>
   mailbox_store \<Rightarrow> (mailbox_error, string \<times> bytes) outcome \<times> mailbox_store" where
  "accept_incoming C K now now' i env allowed_senders s =
     (case accept_incoming_with_status C K now now' i env allowed_senders s of
        (r, s1) \<Rightarrow> (and_then r (\<lambda>(id, payload, _). Ok (id, payload)), s1))"

definition encoded_size :: "mailbox_codec \<Rightarrow> mailbox_envelope \<Rightarrow> nat" where
  "encoded_size K env = (case enc_envelope K env of Inl _ \<Rightarrow> usize_max | Inr b \<Rightarrow> length b)"

text \<open>The loop over the sorted entries, with the page built so far and its encoded size.\<close>

fun fill_page ::
  "mailbox_codec \<Rightarrow> mailbox_envelope list \<Rightarrow> nat \<Rightarrow> mailbox_envelope list \<Rightarrow> mailbox_envelope list" where
  "fill_page K page encoded [] = page"
| "fill_page K page encoded (entry # entries) =
     (if length page \<ge> MAX_SYNC_ENVELOPES then page
      else if min usize_max (encoded + encoded_size K entry) > MAX_SYNC_RESPONSE_BYTES then page
      else fill_page K (page @ [entry]) (encoded + encoded_size K entry) entries)"

definition eligible ::
  "crypto \<Rightarrow> mailbox_codec \<Rightarrow> u64 \<Rightarrow> public_key \<Rightarrow> u64 \<Rightarrow> mailbox_store \<Rightarrow> mailbox_envelope list" where
  "eligible C K now who since_ms s =
     (let floor = saturating_sub now (ttl_ms MAX_SYNC_LOOKBACK);
          since = max since_ms floor
      in sort_key (replay_order C K)
           (filter (\<lambda>e. mpk_identity (env_recipient e) = who \<and> env_created_at e \<ge> since)
             (map snd (mb_entries s))))"

definition pending_for_recipient_since ::
  "crypto \<Rightarrow> mailbox_codec \<Rightarrow> u64 \<Rightarrow> u64 \<Rightarrow> public_key \<Rightarrow> u64 \<Rightarrow> mailbox_store \<Rightarrow>
   mailbox_envelope list \<times> mailbox_store" where
  "pending_for_recipient_since C K now now' who since_ms s =
     (let s1 = mb_expire now s in (fill_page K [] 0 (eligible C K now' who since_ms s1), s1))"

definition pending_for_recipient ::
  "crypto \<Rightarrow> mailbox_codec \<Rightarrow> u64 \<Rightarrow> u64 \<Rightarrow> public_key \<Rightarrow> mailbox_store \<Rightarrow>
   mailbox_envelope list \<times> mailbox_store" where
  "pending_for_recipient C K now now' who s = pending_for_recipient_since C K now now' who 0 s"

definition mb_len :: "u64 \<Rightarrow> mailbox_store \<Rightarrow> nat \<times> mailbox_store" where
  "mb_len now s = (let s1 = mb_expire now s in (length (mb_entries s1), s1))"

section \<open>Histories of a store\<close>

text \<open>The calls that change a store, and what an acceptance returned.\<close>

datatype mb_op =
    Enqueue mailbox_envelope "public_key list"
  | EnqueueOutgoing mailbox_envelope
  | Pending u64
  | Acknowledge mailbox_ack
  | AcknowledgeOutgoing mailbox_ack
  | AcceptIncoming u64 u64 mailbox_identity mailbox_envelope "public_key list"
  | PendingSince u64 u64 public_key u64
  | Len u64

type_synonym mb_out = "(mailbox_error, string \<times> bytes \<times> incoming_acceptance) outcome option"

fun mb_step :: "crypto \<Rightarrow> mailbox_codec \<Rightarrow> mb_op \<Rightarrow> mailbox_store \<Rightarrow> mb_out \<times> mailbox_store" where
  "mb_step C K (Enqueue env allowed) s = (None, snd (enqueue C K env allowed s))"
| "mb_step C K (EnqueueOutgoing env) s = (None, snd (enqueue_outgoing C K env s))"
| "mb_step C K (Pending now) s = (None, snd (pending C K now s))"
| "mb_step C K (Acknowledge ack) s = (None, snd (acknowledge C K ack s))"
| "mb_step C K (AcknowledgeOutgoing ack) s = (None, snd (acknowledge_outgoing C K ack s))"
| "mb_step C K (AcceptIncoming now now' i env allowed) s =
     map_prod Some id (accept_incoming_with_status C K now now' i env allowed s)"
| "mb_step C K (PendingSince now now' who since) s =
     (None, snd (pending_for_recipient_since C K now now' who since s))"
| "mb_step C K (Len now) s = (None, snd (mb_len now s))"

fun mb_run :: "crypto \<Rightarrow> mailbox_codec \<Rightarrow> mb_op list \<Rightarrow> mailbox_store \<Rightarrow> mb_out list \<times> mailbox_store" where
  "mb_run C K [] s = ([], s)"
| "mb_run C K (x # xs) s =
     (case mb_step C K x s of (r, s1) \<Rightarrow> (case mb_run C K xs s1 of (rs, s2) \<Rightarrow> (r # rs, s2)))"

end
