(* ===== verification/Mailbox_Inv.thy ===== *)
theory Mailbox_Inv
  imports Mailbox
begin

text \<open>
  What the mailbox promises: sealed payloads come out again, entries are kept under their
  own identifier and leave the store only by expiry or a verified acknowledgement, an
  accepted envelope is not inserted a second time while its replay evidence lasts, and a
  sync page is a bounded prefix of the replay order.
\<close>

section \<open>Association lists\<close>

lemma map_of_filter_value:
  "distinct (map fst xs) \<Longrightarrow>
   map_of (filter (\<lambda>(k, v). P v) xs) k =
     (case map_of xs k of None \<Rightarrow> None | Some v \<Rightarrow> if P v then Some v else None)"
proof (induction xs)
  case (Cons x xs)
  obtain a v where x: "x = (a, v)" by (cases x)
  have "a = k \<Longrightarrow> map_of xs k = None"
    using Cons.prems x by (simp add: map_of_eq_None_iff)
  with Cons x show ?case by (auto split: option.splits)
qed simp

lemma distinct_keys_filter: "distinct (map fst xs) \<Longrightarrow> distinct (map fst (filter P xs))"
  by (rule distinct_map_filter)

lemma map_of_delete: "map_of (AList.delete k xs) k' = (if k' = k then None else map_of xs k')"
  by (simp add: AList.delete_conv')

lemma map_of_update: "map_of (AList.update k v xs) k' = (if k' = k then Some v else map_of xs k')"
  by (simp add: AList.update_conv')

lemmas alist_simps = map_of_delete map_of_update map_of_filter_value distinct_keys_filter
  AList.distinct_delete AList.distinct_update

section \<open>Well-formed stores\<close>

definition mb_wf :: "crypto \<Rightarrow> mailbox_codec \<Rightarrow> mailbox_store \<Rightarrow> bool" where
  "mb_wf C K s \<longleftrightarrow> distinct (map fst (mb_entries s)) \<and> distinct (map fst (mb_dedup s))
     \<and> (\<forall>i e. map_of (mb_entries s) i = Some e \<longrightarrow> i = message_id C K e)"

lemma mb_wf_empty [simp]: "mb_wf C K (empty_at dir)"
  by (simp add: mb_wf_def empty_at_def)

lemma mb_wf_recipient [simp]: "mb_wf C K (bind_recipient r s) = mb_wf C K s"
  by (simp add: mb_wf_def bind_recipient_def)

lemma mb_wf_expire [wf_intros]: "mb_wf C K s \<Longrightarrow> mb_wf C K (mb_expire now s)"
  unfolding mb_wf_def mb_expire_def Let_def
  by (auto simp: alist_simps split: option.splits if_splits)

lemma mb_wf_delete [wf_intros]:
  "mb_wf C K s \<Longrightarrow> mb_wf C K (s\<lparr>mb_entries := AList.delete i (mb_entries s)\<rparr>)"
  by (auto simp: mb_wf_def alist_simps split: if_splits)

lemma mb_wf_enqueue_outgoing [wf_intros]:
  "mb_wf C K s \<Longrightarrow> mb_wf C K (snd (enqueue_outgoing C K env s))"
  by (auto simp: mb_wf_def enqueue_outgoing_def Let_def alist_simps
      simp del: map_of_eq_Some_iff split: if_splits)

lemma enqueue_cases:
  "snd (enqueue C K env allowed s) = s
   \<or> (\<exists>r. snd (enqueue C K env allowed s) = snd (enqueue_outgoing C K env (bind_recipient r s)))
   \<or> snd (enqueue C K env allowed s) = snd (enqueue_outgoing C K env s)"
  by (auto simp: enqueue_def split: outcome.splits option.splits)

lemma mb_wf_enqueue [wf_intros]: "mb_wf C K s \<Longrightarrow> mb_wf C K (snd (enqueue C K env allowed s))"
  using enqueue_cases [of C K env allowed s] mb_wf_enqueue_outgoing mb_wf_recipient by metis

lemma mb_wf_dedup [wf_intros]:
  "mb_wf C K s \<Longrightarrow> mb_wf C K (s\<lparr>mb_dedup := AList.update i x (mb_dedup s)\<rparr>)"
  by (simp add: mb_wf_def AList.distinct_update)

text \<open>An acceptance either leaves the store alone, or runs \<open>enqueue\<close> and notes its evidence.\<close>

lemma accept_cases:
  obtains (same) r where "accept_incoming_with_status C K now now' i env allowed s = (r, s)"
      "\<And>m p. r \<noteq> Ok (m, p, Inserted)"
  | (failed) r s1 where "accept_incoming_with_status C K now now' i env allowed s = (r, s1)"
      "s1 = snd (enqueue C K env allowed s)" "\<And>m p. r \<noteq> Ok (m, p, Inserted)"
  | (inserted) p fp s1 where
      "validate_for C K env i allowed (mb_ttl s) now = Ok p"
      "envelope_fingerprint C K env = Ok fp"
      "map_of (mb_entries s) (message_id C K env) = None"
      "map_of (mb_dedup s) (message_id C K env) = None"
      "enqueue C K env allowed s = (Ok (message_id C K env), s1)"
      "accept_incoming_with_status C K now now' i env allowed s =
        (Ok (message_id C K env, p, Inserted),
         s1\<lparr>mb_dedup := AList.update (message_id C K env) (now', fp) (mb_dedup s1)\<rparr>)"
proof -
  have e: "\<And>m s1. enqueue C K env allowed s = (Ok m, s1) \<Longrightarrow> m = message_id C K env"
    by (auto simp: enqueue_def enqueue_outgoing_def Let_def split: outcome.splits option.splits if_splits)
  note d = accept_incoming_with_status_def Let_def
  show ?thesis
  proof (cases "validate_for C K env i allowed (mb_ttl s) now")
    case v: (Ok p)
    show ?thesis
    proof (cases "envelope_fingerprint C K env")
      case f: (Ok fp)
      show ?thesis
      proof (cases "map_of (mb_entries s) (message_id C K env)")
        case n: None
        show ?thesis
        proof (cases "map_of (mb_dedup s) (message_id C K env)")
          case m: None
          obtain r s1 where q: "enqueue C K env allowed s = (r, s1)" by fastforce
          show ?thesis
          proof (cases r)
            case (Ok x)
            with e q have "r = Ok (message_id C K env)" by simp
            with v f n m q show ?thesis by (intro inserted) (simp_all add: d)
          next
            case (Err x)
            with v f n m q show ?thesis by (intro failed [of "Err x" s1]) (simp_all add: d)
          next
            case Panic
            with v f n m q show ?thesis by (intro failed [of Panic s1]) (simp_all add: d)
          qed
        next
          case (Some x)
          obtain t f' where "x = (t, f')" by fastforce
          with Some v f n show ?thesis
            by (intro same [of "if f' \<noteq> fp then Err (ConflictingEnvelope (message_id C K env))
                  else Ok (message_id C K env, p, Duplicate)"]) (simp_all add: d)
        qed
      next
        case (Some x)
        with v f show ?thesis
          by (intro same [of "if \<not> same_envelope x env then Err (ConflictingEnvelope (message_id C K env))
                else Ok (message_id C K env, p, Duplicate)"]) (simp_all add: d)
      qed
    next
      case (Err x)
      with v show ?thesis by (intro same [of "Err x"]) (simp_all add: d)
    next
      case Panic
      with v show ?thesis by (intro same [of Panic]) (simp_all add: d)
    qed
  next
    case (Err x)
    then show ?thesis by (intro same [of "Err x"]) (simp_all add: d)
  next
    case Panic
    then show ?thesis by (intro same [of Panic]) (simp_all add: d)
  qed
qed

lemma mb_wf_accept [wf_intros]:
  assumes "mb_wf C K s"
  shows "mb_wf C K (snd (accept_incoming_with_status C K now now' i env allowed s))"
proof (cases rule: accept_cases [of C K now now' i env allowed s])
  case (inserted p fp s1)
  have "mb_wf C K s1" using mb_wf_enqueue [OF assms, of env allowed] inserted(5) by simp
  then show ?thesis using inserted(6) by (simp add: mb_wf_dedup)
qed (use assms in \<open>auto intro: wf_intros\<close>)

lemma mb_wf_acknowledge [wf_intros]: "mb_wf C K s \<Longrightarrow> mb_wf C K (snd (acknowledge C K ack s))"
  by (auto simp: acknowledge_def intro: wf_intros split: option.splits outcome.splits)

lemma mb_wf_acknowledge_outgoing [wf_intros]:
  "mb_wf C K s \<Longrightarrow> mb_wf C K (snd (acknowledge_outgoing C K ack s))"
  by (auto simp: acknowledge_outgoing_def intro: wf_intros split: option.splits outcome.splits)

lemma mb_wf_step: "mb_wf C K s \<Longrightarrow> mb_wf C K (snd (mb_step C K x s))"
  by (cases x) (simp_all add: wf_intros pending_def pending_for_recipient_since_def mb_len_def Let_def)

lemma mb_run_Cons:
  "mb_run C K (x # xs) s =
     (fst (mb_step C K x s) # fst (mb_run C K xs (snd (mb_step C K x s))),
      snd (mb_run C K xs (snd (mb_step C K x s))))"
  by (simp split: prod.split)

declare mb_run.simps(2) [simp del] mb_run_Cons [simp]

lemma mb_wf_run: "mb_wf C K s \<Longrightarrow> mb_wf C K (snd (mb_run C K xs s))"
proof (induction xs arbitrary: s)
  case (Cons x xs)
  from Cons.IH [OF mb_wf_step [OF Cons.prems, of x]] show ?case by simp
qed simp

section \<open>Sealing and opening\<close>

lemma sealed_envelope:
  assumes "seal_at C K eph rn sender recipient payload t = Ok env"
  obtains e nonce where "env = V2 e" "v2_version e = ENVELOPE_VERSION_V2"
    "v2_from e = sk_public C sender" "v2_recipient e = recipient" "v2_created_at e = t"
    "v2_ephemeral e = x_public C eph" "v2_nonce e = nonce"
    "aes_encrypt C (derive_key_v2 C (diffie_hellman C eph (mpk_encryption recipient))) nonce payload
      (context_bytes K e) = Some (v2_ciphertext e)"
    "v2_signature e = sk_sign C sender (signing_bytes_v2 K e)"
proof -
  from assms obtain e where "env = V2 e"
    by (auto simp: seal_at_def Let_def split: option.splits)
  with assms show ?thesis
    by (intro that [of e "v2_nonce e"])
       (auto simp: seal_at_def Let_def context_bytes_def signing_bytes_v2_def split: option.splits)
qed

lemma sealed_decrypts:
  assumes ok: "crypto_ok C"
    and seal: "seal_at C K eph rn sender (mailbox_public C i) payload t = Ok env"
  shows "verify_signature C K env = Ok ()" and "decrypt C K env i = Ok payload"
    and "env_from env = sk_public C sender" and "env_recipient env = mailbox_public C i"
    and "env_created_at env = t"
proof -
  from seal obtain e nonce where e: "env = V2 e" "v2_version e = ENVELOPE_VERSION_V2"
    "v2_from e = sk_public C sender" "v2_recipient e = mailbox_public C i" "v2_created_at e = t"
    "v2_ephemeral e = x_public C eph" "v2_nonce e = nonce"
    "aes_encrypt C (derive_key_v2 C (diffie_hellman C eph (x_public C (mi_secret i)))) nonce payload
      (context_bytes K e) = Some (v2_ciphertext e)"
    "v2_signature e = sk_sign C sender (signing_bytes_v2 K e)"
    by (rule sealed_envelope) (simp add: mailbox_public_def)
  have "diffie_hellman C (mi_secret i) (x_public C eph) = diffie_hellman C eph (x_public C (mi_secret i))"
    using crypto_okD(2) [OF ok] by (auto simp: dh_ok_def)
  then show "decrypt C K env i = Ok payload"
    using e aead_roundtrip [OF crypto_okD(3) [OF ok] e(8)] by simp
  show "verify_signature C K env = Ok ()"
    using e crypto_okD(1) [OF ok] by (simp add: ensure_def sign_ok_def)
qed (use seal in \<open>auto elim: sealed_envelope\<close>)

section \<open>Order and pages\<close>

lemma sort_key_strict:
  assumes "distinct (map f xs)"
  shows "sorted_wrt (\<lambda>a b. f a < f b) (sort_key f xs)"
proof -
  have "distinct (map f (sort_key f xs))"
    using assms by (metis mset_eq_imp_distinct_iff mset_map mset_sort)
  then have "sorted_wrt (<) (map f (sort_key f xs))"
    by (simp add: strict_sorted_iff)
  then show ?thesis by (simp add: sorted_wrt_map)
qed

lemma entries_distinct_order:
  assumes "mb_wf C K s"
  shows "distinct (map (replay_order C K) (map snd (mb_entries s)))"
proof -
  have "\<forall>x \<in> set (mb_entries s). message_id C K (snd x) = fst x"
    using assms by (auto simp: mb_wf_def)
  then have eq: "map snd (map (replay_order C K) (map snd (mb_entries s))) = map fst (mb_entries s)"
    by (simp add: replay_order_def)
  have "distinct (map snd (map (replay_order C K) (map snd (mb_entries s))))"
    unfolding eq using assms by (simp add: mb_wf_def)
  then show ?thesis by (simp only: distinct_map)
qed

lemma fill_page_prefix:
  assumes "length page \<le> MAX_SYNC_ENVELOPES" "n = sum_list (map (encoded_size K) page)"
    "n \<le> MAX_SYNC_RESPONSE_BYTES"
  shows "\<exists>taken rest. entries = taken @ rest \<and> fill_page K page n entries = page @ taken
     \<and> length (page @ taken) \<le> MAX_SYNC_ENVELOPES
     \<and> sum_list (map (encoded_size K) (page @ taken)) \<le> MAX_SYNC_RESPONSE_BYTES
     \<and> (rest = [] \<or> length (page @ taken) = MAX_SYNC_ENVELOPES
        \<or> sum_list (map (encoded_size K) (page @ taken)) + encoded_size K (hd rest)
            > MAX_SYNC_RESPONSE_BYTES)"
  using assms
proof (induction entries arbitrary: page n)
  case Nil
  then show ?case by simp
next
  case (Cons x xs)
  let ?m = "n + encoded_size K x"
  have big: "min usize_max k > MAX_SYNC_RESPONSE_BYTES \<longleftrightarrow> k > MAX_SYNC_RESPONSE_BYTES" for k
    by (simp add: usize_max_def MAX_SYNC_RESPONSE_BYTES_def)
  show ?case
  proof (cases "length page \<ge> MAX_SYNC_ENVELOPES \<or> ?m > MAX_SYNC_RESPONSE_BYTES")
    case True
    with Cons.prems have "fill_page K page n (x # xs) = page"
      by (auto simp: big simp del: min_less_iff_conj)
    with True Cons.prems show ?thesis by (intro exI [of _ "[]"] exI [of _ "x # xs"]) auto
  next
    case False
    then have f: "fill_page K page n (x # xs) = fill_page K (page @ [x]) ?m xs"
      by (simp add: big del: min_less_iff_conj)
    from False Cons.prems Cons.IH [of "page @ [x]" ?m] obtain taken rest where
      "xs = taken @ rest" "fill_page K (page @ [x]) ?m xs = (page @ [x]) @ taken"
      "length ((page @ [x]) @ taken) \<le> MAX_SYNC_ENVELOPES"
      "sum_list (map (encoded_size K) ((page @ [x]) @ taken)) \<le> MAX_SYNC_RESPONSE_BYTES"
      "rest = [] \<or> length ((page @ [x]) @ taken) = MAX_SYNC_ENVELOPES
        \<or> sum_list (map (encoded_size K) ((page @ [x]) @ taken)) + encoded_size K (hd rest)
            > MAX_SYNC_RESPONSE_BYTES" by auto
    then show ?thesis unfolding f by (intro exI [of _ "x # taken"] exI [of _ rest]) auto
  qed
qed

end
