(* ===== verification/Mailbox_Delivery.thy ===== *)
theory Mailbox_Delivery
  imports Mailbox_Inv
begin

text \<open>
  The properties of the mailbox: the round trip of a sealed payload, the ways in which an
  entry leaves the store, the life of the replay evidence, and the sync pages.
\<close>

section \<open>An instance of the codecs\<close>

definition demo_codec :: mailbox_codec where
  "demo_codec =
     \<lparr>enc_v1_signing = (\<lambda>(f, r, e, n, c). f @ mpk_identity r @ e @ n @ c),
      enc_v2_context = (\<lambda>(d, v, f, r, e, n, t). ascii d @ f @ mpk_identity r @ e @ n @ [ucast t]),
      enc_v2_signing = (\<lambda>(d, v, f, r, e, n, t, c). ascii d @ f @ mpk_identity r @ e @ n @ [ucast t] @ c),
      enc_ack_signing = (\<lambda>(d, v, m, f, r, t, st). ascii d @ ascii m @ f @ r @ [ucast t]),
      enc_ack_legacy = (\<lambda>(v, m, f, r, t, st). ascii m @ f @ r @ [ucast t]),
      enc_envelope = (\<lambda>e. Inr (env_ciphertext e)),
      dec_envelope = (\<lambda>b. Inl ''truncated''), dec_v1 = (\<lambda>b. Inl ''truncated''),
      parse_store = (\<lambda>t. Inl ''no JSON'')\<rparr>"

text \<open>Alice (key 1) seals for Bob (key 2), one minute ahead of Bob's clock.\<close>

definition demo_bob :: mailbox_identity where
  "demo_bob = from_secret demo_crypto [2]"

definition demo_sealed :: "(mailbox_error, mailbox_envelope) outcome" where
  "demo_sealed = seal_at demo_crypto demo_codec [7] (Inr [3]) [1] (mailbox_public demo_crypto demo_bob)
     [42] 61000"

definition demo_letter :: mailbox_envelope where
  "demo_letter = the_ok demo_sealed"

lemma demo_sealed: "demo_sealed = Ok demo_letter"
  by (simp add: demo_letter_def demo_sealed_def seal_at_def demo_crypto_def Let_def)

lemma demo_letter_valid:
  "validate_for demo_crypto demo_codec demo_letter demo_bob [[1]] DEFAULT_MAILBOX_TTL now = Ok [42]"
  if "now = 1000 \<or> now = 604801000"
  using sealed_decrypts [OF demo_crypto_ok demo_sealed [unfolded demo_sealed_def]] that
  by (auto simp: validate_for_def demo_crypto_def saturating_add_def saturating_sub_def
      MAX_FUTURE_SKEW_MS_def ttl_ms_def DEFAULT_MAILBOX_TTL_def)

section \<open>Sealed payloads\<close>

text \<open>
  C18. What is sealed for a recipient can be opened with the recipient's secret key and is
  accepted by the recipient's validation as long as the sender is allowed and the clock is
  within the retention period and the permitted skew; both return the payload that was
  sealed.
\<close>

theorem sealed_payload_opens:
  assumes "crypto_ok C"
    and "seal_at C K ephemeral_secret nonce sender (mailbox_public C (from_secret C r)) payload t = Ok env"
  shows "envelope_open C K env r = Ok payload
     \<and> (sk_public C sender \<in> set allowed \<longrightarrow> t \<le> saturating_add now MAX_FUTURE_SKEW_MS
          \<longrightarrow> saturating_sub now t \<le> ttl_ms ttl
          \<longrightarrow> validate_for C K env (from_secret C r) allowed ttl now = Ok payload)"
  using sealed_decrypts [OF assms]
  by (auto simp: envelope_open_def open_with_def validate_for_def)

theorem sealed_payload_opens_witness:
  "envelope_open demo_crypto demo_codec demo_letter [2] = Ok [42]
   \<and> validate_for demo_crypto demo_codec demo_letter (from_secret demo_crypto [2]) [[1]]
       DEFAULT_MAILBOX_TTL 1000 = Ok [42]"
  using sealed_payload_opens [OF demo_crypto_ok, of demo_codec "[7]" "Inr [3]" "[1]" "[2]" "[42]" 61000
      demo_letter "[[1]]" 1000 DEFAULT_MAILBOX_TTL] demo_sealed
  by (simp add: demo_sealed_def demo_bob_def demo_crypto_def saturating_add_def saturating_sub_def
      MAX_FUTURE_SKEW_MS_def ttl_ms_def DEFAULT_MAILBOX_TTL_def)

section \<open>How entries leave the store\<close>

fun expiry_clocks :: "mb_op \<Rightarrow> u64 list" where
  "expiry_clocks (Pending now) = [now]"
| "expiry_clocks (PendingSince now now' who since) = [now]"
| "expiry_clocks (Len now) = [now]"
| "expiry_clocks _ = []"

lemma enqueue_outgoing_entries:
  "map_of (mb_entries s) i = Some e \<Longrightarrow>
   map_of (mb_entries (snd (enqueue_outgoing C K env s))) i = Some e"
  by (auto simp: enqueue_outgoing_def Let_def map_of_update)

lemma enqueue_entries:
  "map_of (mb_entries s) i = Some e \<Longrightarrow>
   map_of (mb_entries (snd (enqueue C K env allowed s))) i = Some e"
  using enqueue_cases [of C K env allowed s] enqueue_outgoing_entries
  by (metis bind_recipient_def mailbox_store.select_convs(3) mailbox_store.update_convs(2)
      mailbox_store.cases)

lemma accept_entries:
  assumes "map_of (mb_entries s) i = Some e"
  shows "map_of (mb_entries (snd (accept_incoming_with_status C K now now' j env allowed s))) i = Some e"
proof (cases rule: accept_cases [of C K now now' j env allowed s])
  case (inserted p fp s1)
  with enqueue_entries [OF assms, of C K env allowed] show ?thesis by simp
qed (use assms enqueue_entries in auto)

lemma expire_entries:
  "mb_wf C K s \<Longrightarrow> map_of (mb_entries s) i = Some e \<Longrightarrow>
   map_of (mb_entries (mb_expire now s)) i =
     (if env_created_at e \<le> saturating_sub now (ttl_ms (mb_ttl s)) then None else Some e)"
  by (auto simp: mb_expire_def Let_def mb_wf_def map_of_filter_value simp del: map_of_eq_Some_iff)

text \<open>
  C28. An entry leaves a mailbox in two ways only: an operation that applies the retention
  period finds it older than that, or an acknowledgement for its identifier has verified,
  against the key of the mailbox's recipient for an incoming store and against the key of
  the envelope's recipient, with the right original sender, for an outgoing one.
\<close>

theorem entry_leaves_by_expiry_or_ack:
  assumes "mb_wf C K s" and "map_of (mb_entries s) i = Some e"
    and "map_of (mb_entries (snd (mb_step C K x s))) i \<noteq> Some e"
  shows "(\<exists>now \<in> set (expiry_clocks x). env_created_at e \<le> saturating_sub now (ttl_ms (mb_ttl s)))
     \<or> (\<exists>ack r. x = Acknowledge ack \<and> ack_message_id ack = i \<and> mb_recipient s = Some r
          \<and> ack_verify C K ack r = Ok ())
     \<or> (\<exists>ack. x = AcknowledgeOutgoing ack \<and> ack_message_id ack = i
          \<and> ack_verify C K ack (mpk_identity (env_recipient e)) = Ok ()
          \<and> ack_original_sender ack = env_from e)"
proof (cases x)
  case (Acknowledge ack)
  with assms(2,3) show ?thesis
    by (auto simp: acknowledge_def map_of_delete split: option.splits outcome.splits if_splits)
next
  case (AcknowledgeOutgoing ack)
  with assms(2,3) show ?thesis
    by (auto simp: acknowledge_outgoing_def map_of_delete split: option.splits outcome.splits if_splits)
qed (use assms in \<open>auto simp: pending_def pending_for_recipient_since_def mb_len_def Let_def
      expire_entries enqueue_entries enqueue_outgoing_entries accept_entries split: if_splits\<close>)

definition demo_box :: mailbox_store where
  "demo_box = (for_recipient ''data'' [2])\<lparr>mb_entries := [(message_id demo_crypto demo_codec demo_letter, demo_letter)]\<rparr>"

definition demo_ack :: mailbox_ack where
  "demo_ack = ack_sign demo_crypto demo_codec 2000 [2] (message_id demo_crypto demo_codec demo_letter) [1]"

lemma demo_ack_verifies: "ack_verify demo_crypto demo_codec demo_ack [2] = Ok ()"
  using crypto_okD(1) [OF demo_crypto_ok] verify_own_canonical [of demo_crypto "[2]"]
  by (auto simp: demo_ack_def ack_sign_def ack_sign_at_def ack_verify_def Let_def ensure_def
      ack_signing_bytes_def demo_crypto_def)

lemma demo_box_wf: "mb_wf demo_crypto demo_codec demo_box"
  by (simp add: mb_wf_def demo_box_def for_recipient_def empty_at_def)

theorem entry_leaves_by_expiry_or_ack_witness:
  "ack_verify demo_crypto demo_codec demo_ack [2] = Ok ()
   \<and> mb_entries (snd (mb_step demo_crypto demo_codec (Acknowledge demo_ack) demo_box)) = []
   \<and> ((\<exists>now \<in> set (expiry_clocks (Acknowledge demo_ack)).
          env_created_at demo_letter \<le> saturating_sub now (ttl_ms (mb_ttl demo_box)))
     \<or> (\<exists>ack r. Acknowledge demo_ack = Acknowledge ack
          \<and> ack_message_id ack = message_id demo_crypto demo_codec demo_letter
          \<and> mb_recipient demo_box = Some r \<and> ack_verify demo_crypto demo_codec ack r = Ok ())
     \<or> (\<exists>ack. Acknowledge demo_ack = AcknowledgeOutgoing ack
          \<and> ack_message_id ack = message_id demo_crypto demo_codec demo_letter
          \<and> ack_verify demo_crypto demo_codec ack (mpk_identity (env_recipient demo_letter)) = Ok ()
          \<and> ack_original_sender ack = env_from demo_letter))"
proof -
  have e: "mb_entries (snd (mb_step demo_crypto demo_codec (Acknowledge demo_ack) demo_box)) = []"
    using demo_ack_verifies
    by (simp add: acknowledge_def demo_box_def for_recipient_def empty_at_def demo_ack_def ack_sign_def
        ack_sign_at_def Let_def)
  show ?thesis
    by (intro conjI demo_ack_verifies e entry_leaves_by_expiry_or_ack demo_box_wf)
       (simp add: demo_box_def, simp only: e, simp)
qed

section \<open>The life of the replay evidence\<close>

lemma enqueue_keeps:
  "mb_dedup (snd (enqueue C K env allowed s)) = mb_dedup s
   \<and> mb_ttl (snd (enqueue C K env allowed s)) = mb_ttl s"
  by (simp add: enqueue_def enqueue_outgoing_def bind_recipient_def Let_def
      split: outcome.split option.split)

lemma expire_keeps_evidence:
  assumes "mb_wf C K s" "map_of (mb_dedup s) i = Some (t, fp)" "0 < unat t"
    and "unat now < unat t + mb_ttl s" "mb_ttl s < 2 ^ 64"
  shows "map_of (mb_dedup (mb_expire now s)) i = Some (t, fp)"
proof -
  have "unat (saturating_sub now (ttl_ms (mb_ttl s))) < unat t"
    using assms(3-5) by (simp add: unat_saturating_sub ttl_ms_def unat_of_nat)
  then show ?thesis
    using assms(1,2)
    by (simp add: mb_expire_def Let_def mb_wf_def map_of_filter_value word_less_nat_alt
        split: prod.split del: map_of_eq_Some_iff)
qed

lemma accept_keeps_evidence:
  assumes "map_of (mb_dedup s) i = Some (t, fp)"
  shows "map_of (mb_dedup (snd (accept_incoming_with_status C K now now' j env allowed s))) i = Some (t, fp)
     \<and> mb_ttl (snd (accept_incoming_with_status C K now now' j env allowed s)) = mb_ttl s
     \<and> (\<forall>p. fst (accept_incoming_with_status C K now now' j env allowed s) \<noteq> Ok (i, p, Inserted))"
proof (cases rule: accept_cases [of C K now now' j env allowed s])
  case (inserted p f s1)
  with assms enqueue_keeps [of C K env allowed s] show ?thesis by (auto simp: map_of_update)
qed (use assms enqueue_keeps [of C K env allowed s] in auto)

lemma step_keeps_evidence:
  assumes "mb_wf C K s" "map_of (mb_dedup s) i = Some (t, fp)" "0 < unat t" "mb_ttl s < 2 ^ 64"
    and "list_all (\<lambda>now. unat now < unat t + mb_ttl s) (expiry_clocks x)"
  shows "map_of (mb_dedup (snd (mb_step C K x s))) i = Some (t, fp)
     \<and> mb_ttl (snd (mb_step C K x s)) = mb_ttl s
     \<and> (\<forall>p. fst (mb_step C K x s) \<noteq> Some (Ok (i, p, Inserted)))"
proof -
  have ttl: "mb_ttl (mb_expire now s) = mb_ttl s" for now
    by (simp add: mb_expire_def Let_def)
  note ev = expire_keeps_evidence [OF assms(1-3)]
  show ?thesis
  proof (cases x)
    case (EnqueueOutgoing env)
    with assms show ?thesis by (simp add: enqueue_outgoing_def Let_def)
  next
    case (Acknowledge ack)
    with assms show ?thesis by (simp add: acknowledge_def split: option.split outcome.split)
  next
    case (AcknowledgeOutgoing ack)
    with assms show ?thesis by (simp add: acknowledge_outgoing_def split: option.split outcome.split)
  qed (use assms(2,4,5) ev ttl in \<open>auto simp: pending_def pending_for_recipient_since_def mb_len_def
        Let_def enqueue_keeps accept_keeps_evidence\<close>)
qed

lemma run_keeps_evidence:
  assumes "mb_wf C K s" "map_of (mb_dedup s) i = Some (t, fp)" "0 < unat t" "mb_ttl s < 2 ^ 64"
    and "list_all (\<lambda>x. list_all (\<lambda>now. unat now < unat t + mb_ttl s) (expiry_clocks x)) xs"
  shows "Some (Ok (i, p, Inserted)) \<notin> set (fst (mb_run C K xs s))"
  using assms
proof (induction xs arbitrary: s)
  case (Cons x xs)
  have x: "list_all (\<lambda>now. unat now < unat t + mb_ttl s) (expiry_clocks x)"
    using Cons.prems(5) by simp
  note st = step_keeps_evidence [OF Cons.prems(1-4) x]
  have "Some (Ok (i, p, Inserted)) \<notin> set (fst (mb_run C K xs (snd (mb_step C K x s))))"
    using Cons.IH [OF mb_wf_step [OF Cons.prems(1), of x], of ] st Cons.prems(3-5) by simp
  moreover have "fst (mb_step C K x s) \<noteq> Some (Ok (i, p, Inserted))" using st by blast
  ultimately show ?case by (auto dest: sym)
qed simp

lemma accept_inserted:
  assumes "accept_incoming_with_status C K now now' i env allowed s = (Ok (m, p, Inserted), s1)"
  shows "m = message_id C K env" and "mb_ttl s1 = mb_ttl s"
    and "\<exists>fp. map_of (mb_dedup s1) m = Some (now', fp)"
    and "map_of (mb_entries s1) m = Some env"
    and "mb_recipient s1 = Some (mi_identity i)"
proof -
  have "m = message_id C K env \<and> mb_ttl s1 = mb_ttl s \<and> (\<exists>fp. map_of (mb_dedup s1) m = Some (now', fp))
     \<and> map_of (mb_entries s1) m = Some env \<and> mb_recipient s1 = Some (mi_identity i)"
  proof (cases rule: accept_cases [of C K now now' i env allowed s])
    case (inserted p' fp s2)
    have "env_recipient env = mailbox_public C i" using inserted(1)
      by (auto simp: validate_for_def split: if_splits)
    then have "map_of (mb_entries s2) (message_id C K env) = Some env \<and> mb_recipient s2 = Some (mi_identity i)"
      using inserted(5)
      by (auto simp: enqueue_def enqueue_outgoing_def Let_def bind_recipient_def mailbox_public_def
          map_of_update split: outcome.splits option.splits if_splits)
    with inserted(5,6) assms enqueue_keeps [of C K env allowed s] show ?thesis
      by (auto simp: map_of_update)
  qed (use assms in auto)
  then show "m = message_id C K env" "mb_ttl s1 = mb_ttl s" "\<exists>fp. map_of (mb_dedup s1) m = Some (now', fp)"
    "map_of (mb_entries s1) m = Some env" "mb_recipient s1 = Some (mi_identity i)" by blast+
qed

text \<open>
  C16. An envelope that was newly accepted is not inserted a second time, whatever happens to
  the mailbox afterwards (acknowledgement and removal included), as long as no operation
  reads a clock that is a whole retention period past the acceptance.
\<close>

theorem accepted_once_while_evidence_lasts:
  assumes "mb_wf C K s"
    and "accept_incoming_with_status C K now now' i env allowed s = (Ok (m, p, Inserted), s1)"
    and "0 < unat now'" and "mb_ttl s < 2 ^ 64"
    and "list_all (\<lambda>x. list_all (\<lambda>c. unat c < unat now' + mb_ttl s) (expiry_clocks x)) xs"
  shows "m = message_id C K env \<and> Some (Ok (m, q, Inserted)) \<notin> set (fst (mb_run C K xs s1))"
proof -
  from accept_inserted [OF assms(2)] obtain fp where
    "m = message_id C K env" "mb_ttl s1 = mb_ttl s" "map_of (mb_dedup s1) m = Some (now', fp)" by auto
  moreover have "mb_wf C K s1" using mb_wf_accept [OF assms(1)] assms(2) by (metis snd_conv)
  ultimately show ?thesis using run_keeps_evidence assms(3-5) by auto
qed

lemma demo_letter_from: "env_from demo_letter = [1]" "env_recipient demo_letter = mailbox_public demo_crypto demo_bob"
  using sealed_decrypts [OF demo_crypto_ok demo_sealed [unfolded demo_sealed_def]]
  by (simp_all add: demo_crypto_def)

lemma demo_letter_signed: "verify_signature demo_crypto demo_codec demo_letter = Ok ()"
  using sealed_decrypts [OF demo_crypto_ok demo_sealed [unfolded demo_sealed_def]] by simp

definition demo_accepted :: mailbox_store where
  "demo_accepted =
     snd (accept_incoming_with_status demo_crypto demo_codec 1000 1000 demo_bob demo_letter [[1]]
       (for_recipient ''data'' [2]))"

lemma demo_accept:
  "accept_incoming_with_status demo_crypto demo_codec 1000 1000 demo_bob demo_letter [[1]]
     (for_recipient ''data'' [2])
   = (Ok (message_id demo_crypto demo_codec demo_letter, [42], Inserted), demo_accepted)"
  using demo_letter_valid [of 1000] demo_letter_signed
  by (simp add: demo_accepted_def accept_incoming_with_status_def envelope_fingerprint_def Let_def
      for_recipient_def empty_at_def enqueue_def enqueue_outgoing_def demo_letter_from
      mailbox_public_def demo_bob_def from_secret_def demo_codec_def demo_crypto_def)

lemma for_recipient_wf [simp]: "mb_wf C K (for_recipient dir r)"
  by (simp add: mb_wf_def for_recipient_def empty_at_def)

theorem accepted_once_while_evidence_lasts_witness:
  "Some (Ok (message_id demo_crypto demo_codec demo_letter, [42], Inserted)) \<notin>
     set (fst (mb_run demo_crypto demo_codec
       [Acknowledge demo_ack, Pending 604800999,
        AcceptIncoming 604801000 604801000 demo_bob demo_letter [[1]]] demo_accepted))"
  using accepted_once_while_evidence_lasts [OF for_recipient_wf demo_accept, of
      "[Acknowledge demo_ack, Pending 604800999,
        AcceptIncoming 604801000 604801000 demo_bob demo_letter [[1]]]" "[42]"]
  by (simp add: for_recipient_def empty_at_def DEFAULT_MAILBOX_TTL_def del: mb_run_Cons)

lemma expired_evidence_gone:
  assumes "mb_wf C K s" "map_of (mb_dedup s) i = Some (t, fp)"
    and "unat t + mb_ttl s \<le> unat now" "mb_ttl s < 2 ^ 64"
  shows "map_of (mb_dedup (mb_expire now s)) i = None"
proof -
  have "unat t \<le> unat (saturating_sub now (ttl_ms (mb_ttl s)))"
    using assms(3,4) by (simp add: unat_saturating_sub ttl_ms_def unat_of_nat)
  then show ?thesis
    using assms(1,2)
    by (simp add: mb_expire_def Let_def mb_wf_def map_of_filter_value word_less_nat_alt
        split: prod.split del: map_of_eq_Some_iff)
qed

lemma accept_fresh:
  assumes "validate_for C K env i allowed (mb_ttl s) now = Ok p"
    and "envelope_fingerprint C K env = Ok fp"
    and "map_of (mb_entries s) (message_id C K env) = None"
    and "map_of (mb_dedup s) (message_id C K env) = None"
    and "mb_recipient s = Some (mi_identity i)"
  shows "fst (accept_incoming_with_status C K now now' i env allowed s)
     = Ok (message_id C K env, p, Inserted)"
proof -
  have "verify_signature C K env = Ok () \<and> env_from env \<in> set allowed
     \<and> mpk_identity (env_recipient env) = mi_identity i"
    using assms(1) by (auto simp: validate_for_def mailbox_public_def split: if_splits)
  with assms show ?thesis
    by (simp add: accept_incoming_with_status_def Let_def enqueue_def enqueue_outgoing_def)
qed

text \<open>
  C38. The replay evidence ends before the envelope does.  It is dated with the acceptance,
  so it is dropped one retention period later, while the envelope itself stays valid until
  one retention period after its own creation time, which may lie up to a minute in the
  future.  A retry that still validates in that window recreates the message although it
  was acknowledged.
\<close>

theorem late_retry_recreated:
  assumes "mb_wf C K s"
    and "accept_incoming_with_status C K now now' i env allowed s = (Ok (m, p, Inserted), s1)"
    and "ack_message_id ack = m" and "ack_verify C K ack (mi_identity i) = Ok ()"
    and "mb_ttl s < 2 ^ 64" and "unat now' + mb_ttl s \<le> unat late"
    and "validate_for C K env i allowed (mb_ttl s) later = Ok q"
  shows "fst (mb_run C K [Acknowledge ack, Pending late, AcceptIncoming later later i env allowed] s1)
     = [None, None, Some (Ok (m, q, Inserted))]"
proof -
  note a = accept_inserted [OF assms(2)]
  from a(3) obtain fp where d: "map_of (mb_dedup s1) m = Some (now', fp)" by blast
  obtain f where f: "envelope_fingerprint C K env = Ok f"
    by (cases rule: accept_cases [of C K now now' i env allowed s]) (use assms(2) in auto)
  define s2 where "s2 = s1\<lparr>mb_entries := AList.delete m (mb_entries s1)\<rparr>"
  have wf: "mb_wf C K s1" using mb_wf_accept [OF assms(1)] assms(2) by (metis snd_conv)
  then have wf2: "mb_wf C K s2" unfolding s2_def by (rule mb_wf_delete)
  have s2: "snd (acknowledge C K ack s1) = s2"
    using a(5) assms(3,4) by (simp add: acknowledge_def s2_def)
  have n: "map_of (mb_entries (mb_expire late s2)) m = None"
    using wf2 by (simp add: mb_expire_def Let_def s2_def mb_wf_def map_of_filter_value map_of_delete)
  have e: "map_of (mb_dedup (mb_expire late s2)) m = None"
    by (rule expired_evidence_gone [OF wf2]) (use d a(2) assms(5,6) in \<open>simp_all add: s2_def\<close>)
  have "mb_ttl (mb_expire late s2) = mb_ttl s" "mb_recipient (mb_expire late s2) = Some (mi_identity i)"
    using a(2,5) by (simp_all add: mb_expire_def s2_def Let_def)
  with accept_fresh [OF _ f, of i allowed "mb_expire late s2" later q later] assms(7) n e a(1)
  show ?thesis by (simp add: s2 pending_def Let_def)
qed

theorem late_retry_recreated_witness:
  "fst (mb_run demo_crypto demo_codec
     [Acknowledge demo_ack, Pending 604801000,
      AcceptIncoming 604801000 604801000 demo_bob demo_letter [[1]]] demo_accepted)
   = [None, None, Some (Ok (message_id demo_crypto demo_codec demo_letter, [42], Inserted))]"
proof (rule late_retry_recreated [OF for_recipient_wf demo_accept])
  show "ack_verify demo_crypto demo_codec demo_ack (mi_identity demo_bob) = Ok ()"
    using demo_ack_verifies by (simp add: demo_bob_def from_secret_def demo_crypto_def)
  show "validate_for demo_crypto demo_codec demo_letter demo_bob [[1]]
     (mb_ttl (for_recipient ''data'' [2])) 604801000 = Ok [42]"
    using demo_letter_valid [of 604801000] by (simp add: for_recipient_def empty_at_def)
qed (simp_all add: demo_ack_def ack_sign_def ack_sign_at_def Let_def for_recipient_def empty_at_def
      DEFAULT_MAILBOX_TTL_def)

section \<open>What a reconnecting peer is sent\<close>

lemma set_values: "mb_wf C K s \<Longrightarrow> e \<in> snd ` set (mb_entries s) \<longleftrightarrow> (\<exists>i. map_of (mb_entries s) i = Some e)"
  by (force simp: mb_wf_def)

lemma expire_values:
  assumes "mb_wf C K s"
  shows "snd ` set (mb_entries (mb_expire now s))
     = {e. (\<exists>i. map_of (mb_entries s) i = Some e)
         \<and> saturating_sub now (ttl_ms (mb_ttl s)) < env_created_at e}"
proof -
  have "snd ` set (mb_entries (mb_expire now s))
     = {e \<in> snd ` set (mb_entries s). saturating_sub now (ttl_ms (mb_ttl s)) < env_created_at e}"
    by (force simp: mb_expire_def Let_def)
  with set_values [OF assms] show ?thesis by auto
qed

text \<open>
  Whatever was done to a mailbox since it was created, every entry is stored under its own
  message identifier, and \<^verbatim>\<open>pending\<close> lists each entry within the retention period exactly
  once, in strictly increasing order of creation time and identifier; the iteration order
  of the hash map has no influence on it.
\<close>

theorem pending_lists_retained:
  assumes "(replies, s) = mb_run C K xs (empty_at dir)"
  shows "(\<forall>i e. map_of (mb_entries s) i = Some e \<longrightarrow> i = message_id C K e)
     \<and> sorted_wrt (\<lambda>a b. replay_order C K a < replay_order C K b) (fst (pending C K now s))
     \<and> set (fst (pending C K now s))
         = {e. map_of (mb_entries s) (message_id C K e) = Some e
             \<and> saturating_sub now (ttl_ms (mb_ttl s)) < env_created_at e}"
proof -
  have wf: "mb_wf C K s" using mb_wf_run [OF mb_wf_empty, of C K xs dir] assms by (metis snd_conv)
  then have ids: "\<And>i e. map_of (mb_entries s) i = Some e \<Longrightarrow> i = message_id C K e"
    by (simp add: mb_wf_def del: map_of_eq_Some_iff)
  have "sorted_wrt (\<lambda>a b. replay_order C K a < replay_order C K b) (fst (pending C K now s))"
    using sort_key_strict [OF entries_distinct_order [OF mb_wf_expire [OF wf, of now]]]
    by (simp add: pending_def Let_def)
  moreover have "set (fst (pending C K now s))
     = {e. map_of (mb_entries s) (message_id C K e) = Some e
         \<and> saturating_sub now (ttl_ms (mb_ttl s)) < env_created_at e}"
    using expire_values [OF wf, of now] ids by (auto simp: pending_def Let_def)
  ultimately show ?thesis using ids by blast
qed

definition page_weight :: "mailbox_codec \<Rightarrow> mailbox_envelope list \<Rightarrow> nat" where
  "page_weight K es = sum_list (map (encoded_size K) es)"

text \<open>
  C27. A sync page for a peer is a prefix of the list of its retained entries since the cursor
  and within the lookback, in strict replay order.  It has at most 64 entries of at most
  512 KiB together, and it stops early only if the next entry does not fit.  In particular
  an oversized entry at the front leaves the page empty, and the entries behind it
  unreachable, until it expires.
\<close>

theorem sync_page:
  assumes "mb_wf C K s"
    and page_def: "page = fst (pending_for_recipient_since C K now now' who since s)"
    and queue_def: "queue = eligible C K now' who since (mb_expire now s)"
  shows "sorted_wrt (\<lambda>a b. replay_order C K a < replay_order C K b) queue
     \<and> set queue = {e. (\<exists>i. map_of (mb_entries s) i = Some e) \<and> mpk_identity (env_recipient e) = who
         \<and> saturating_sub now (ttl_ms (mb_ttl s)) < env_created_at e
         \<and> max since (saturating_sub now' (ttl_ms MAX_SYNC_LOOKBACK)) \<le> env_created_at e}
     \<and> length page \<le> MAX_SYNC_ENVELOPES \<and> page_weight K page \<le> MAX_SYNC_RESPONSE_BYTES
     \<and> (\<exists>rest. queue = page @ rest
         \<and> (rest = [] \<or> length page = MAX_SYNC_ENVELOPES
            \<or> page_weight K page + encoded_size K (hd rest) > MAX_SYNC_RESPONSE_BYTES))
     \<and> (queue \<noteq> [] \<longrightarrow> encoded_size K (hd queue) > MAX_SYNC_RESPONSE_BYTES \<longrightarrow> page = [])"
proof -
  let ?P = "\<lambda>e. mpk_identity (env_recipient e) = who
     \<and> env_created_at e \<ge> max since (saturating_sub now' (ttl_ms MAX_SYNC_LOOKBACK))"
  let ?vs = "map snd (mb_entries (mb_expire now s))"
  have q: "queue = sort_key (replay_order C K) (filter ?P ?vs)"
    by (simp add: queue_def eligible_def Let_def)
  have sorted: "sorted_wrt (\<lambda>a b. replay_order C K a < replay_order C K b) queue"
    unfolding q
    by (intro sort_key_strict distinct_map_filter entries_distinct_order mb_wf_expire assms(1))
  have elems: "set queue = {e. (\<exists>i. map_of (mb_entries s) i = Some e) \<and> mpk_identity (env_recipient e) = who
         \<and> saturating_sub now (ttl_ms (mb_ttl s)) < env_created_at e
         \<and> max since (saturating_sub now' (ttl_ms MAX_SYNC_LOOKBACK)) \<le> env_created_at e}"
    using expire_values [OF assms(1), of now] unfolding q by auto
  have p: "page = fill_page K [] 0 queue"
    by (simp add: page_def queue_def pending_for_recipient_since_def Let_def)
  have "\<exists>rest. queue = page @ rest \<and> length page \<le> MAX_SYNC_ENVELOPES \<and> page_weight K page \<le> MAX_SYNC_RESPONSE_BYTES
     \<and> (rest = [] \<or> length page = MAX_SYNC_ENVELOPES
        \<or> page_weight K page + encoded_size K (hd rest) > MAX_SYNC_RESPONSE_BYTES)"
    using fill_page_prefix [of "[]" 0 K queue] unfolding p page_weight_def by auto
  moreover have "encoded_size K (hd queue) \<le> MAX_SYNC_RESPONSE_BYTES" if "page \<noteq> []"
  proof -
    from calculation that have "encoded_size K (hd queue) \<le> page_weight K page"
      by (cases page) (auto simp: page_weight_def)
    with calculation show ?thesis by auto
  qed
  ultimately show ?thesis using sorted elems by (auto simp: not_less)
qed

theorem sync_page_witness:
  "fst (pending_for_recipient_since demo_crypto demo_codec 62000 62000 [2] 0 demo_box) = [demo_letter]
   \<and> page_weight demo_codec [demo_letter] \<le> MAX_SYNC_RESPONSE_BYTES"
proof -
  have c: "env_created_at demo_letter = 61000"
    using sealed_decrypts [OF demo_crypto_ok demo_sealed [unfolded demo_sealed_def]] by simp
  have q: "eligible demo_crypto demo_codec 62000 [2] 0 (mb_expire 62000 demo_box) = [demo_letter]"
    by (simp add: eligible_def mb_expire_def demo_box_def for_recipient_def empty_at_def c
        demo_letter_from mailbox_public_def demo_bob_def from_secret_def demo_crypto_def Let_def
        saturating_sub_def ttl_ms_def DEFAULT_MAILBOX_TTL_def MAX_SYNC_LOOKBACK_def)
  have l: "encoded_size demo_codec demo_letter = 2"
    by (simp add: encoded_size_def demo_codec_def demo_letter_def demo_sealed_def seal_at_def
        demo_crypto_def Let_def)
  show ?thesis
    using sync_page [OF demo_box_wf refl refl, where now = 62000 and now' = 62000 and who = "[2]" and since = 0]
    unfolding q
    by (auto simp: append_eq_Cons_conv MAX_SYNC_ENVELOPES_def MAX_SYNC_RESPONSE_BYTES_def
        page_weight_def l Cons_eq_append_conv)
qed

theorem pending_lists_retained_witness:
  "sorted_wrt (\<lambda>a b. replay_order demo_crypto demo_codec a < replay_order demo_crypto demo_codec b)
     (fst (pending demo_crypto demo_codec 62000
       (snd (mb_run demo_crypto demo_codec [EnqueueOutgoing demo_letter] (empty_at ''data'')))))"
  using pending_lists_retained [of _ _ demo_crypto demo_codec "[EnqueueOutgoing demo_letter]" "''data''",
      OF surjective_pairing [symmetric]] by blast

end
