(* ===== verification/Group_Replay.thy ===== *)
theory Group_Replay
  imports Signing
begin

text \<open>
  The durable store of replay markers (\<^verbatim>\<open>src/src/group_replay.rs\<close>).  A connection is the
  content of the table \<^verbatim>\<open>group_event_replay\<close>, in the order of the row numbers, the state
  of its lock, and the failures SQLite has in store for the coming statements: each
  statement takes the head of \<open>conn_faults\<close>, and an empty list means that nothing fails any
  more.  The statements themselves are the ones of the source; which rows an unordered
  \<^verbatim>\<open>SELECT .. LIMIT\<close> picks is SQLite's choice and therefore a parameter.  Epochs go into the
  table by \<^verbatim>\<open>as i64\<close>, that is \<open>sint\<close>, and come back by \<^verbatim>\<open>as u64\<close>.
\<close>

type_synonym group_topic = bytes
type_synonym event_id = bytes

definition REPLAY_PRUNE_BATCH :: nat where
  "REPLAY_PRUNE_BATCH = 500"

record replay_row =
  row_group :: group_topic
  row_epoch :: int
  row_event :: event_id
  row_seen_at :: int

record connection =
  conn_rows :: "replay_row list"
  conn_poisoned :: "string option"
  conn_faults :: "string option list"

datatype record_outcome = Recorded | AlreadySeen

datatype replay_store_error = Db string | Lock string

record sqlite =
  select_limit :: "nat \<Rightarrow> replay_row list \<Rightarrow> replay_row list"

definition sqlite_ok :: "sqlite \<Rightarrow> bool" where
  "sqlite_ok Q \<longleftrightarrow>
     (\<forall>n rows. distinct rows \<longrightarrow> distinct (select_limit Q n rows)
        \<and> set (select_limit Q n rows) \<subseteq> set rows
        \<and> length (select_limit Q n rows) = min n (length rows))"

section \<open>Operations\<close>

definition lock_conn :: "connection \<Rightarrow> (replay_store_error, unit) outcome" where
  "lock_conn c = (case conn_poisoned c of None \<Rightarrow> Ok () | Some e \<Rightarrow> Err (Lock e))"

text \<open>Whether the next statement succeeds.\<close>

fun next_fault :: "string option list \<Rightarrow> (replay_store_error, unit) outcome" where
  "next_fault (Some e # fs) = Err (Db e)"
| "next_fault _ = Ok ()"

definition statement :: "connection \<Rightarrow> (replay_store_error, unit) outcome \<times> connection" where
  "statement c = (next_fault (conn_faults c), c\<lparr>conn_faults := tl (conn_faults c)\<rparr>)"

definition replay_open :: "connection \<Rightarrow> (replay_store_error, unit) outcome \<times> connection" where
  "replay_open c =
     (case lock_conn c of
        Ok _ \<Rightarrow> statement c
      | r \<Rightarrow> (r, c))"

definition has_marker :: "group_topic \<Rightarrow> event_id \<Rightarrow> connection \<Rightarrow> bool" where
  "has_marker g i c \<longleftrightarrow> list_ex (\<lambda>r. row_group r = g \<and> row_event r = i) (conn_rows c)"

definition replay_contains ::
  "group_topic \<Rightarrow> event_id \<Rightarrow> connection \<Rightarrow> (replay_store_error, bool) outcome \<times> connection" where
  "replay_contains g i c =
     (case lock_conn c of
        Ok _ \<Rightarrow>
          (case statement c of
             (Ok _, c1) \<Rightarrow>
               (case statement c1 of
                  (Ok _, c2) \<Rightarrow> (Ok (has_marker g i c2), c2)
                | (Err e, c2) \<Rightarrow> (Err e, c2)
                | (Panic, c2) \<Rightarrow> (Panic, c2))
           | (Err e, c1) \<Rightarrow> (Err e, c1)
           | (Panic, c1) \<Rightarrow> (Panic, c1))
      | Err e \<Rightarrow> (Err e, c)
      | Panic \<Rightarrow> (Panic, c))"

definition insert_or_ignore :: "replay_row \<Rightarrow> connection \<Rightarrow> nat \<times> connection" where
  "insert_or_ignore r c =
     (if has_marker (row_group r) (row_event r) c then (0, c)
      else (1, c\<lparr>conn_rows := conn_rows c @ [r]\<rparr>))"

definition replay_record ::
  "group_topic \<Rightarrow> u64 \<Rightarrow> event_id \<Rightarrow> u64 \<Rightarrow> connection \<Rightarrow>
   (replay_store_error, record_outcome) outcome \<times> connection" where
  "replay_record g epoch i seen_at c =
     (case lock_conn c of
        Ok _ \<Rightarrow>
          (case statement c of
             (Ok _, c1) \<Rightarrow>
               (case insert_or_ignore \<lparr>row_group = g, row_epoch = sint epoch, row_event = i,
                       row_seen_at = sint seen_at\<rparr> c1 of
                  (inserted, c2) \<Rightarrow> (Ok (if inserted = 1 then Recorded else AlreadySeen), c2))
           | (Err e, c1) \<Rightarrow> (Err e, c1)
           | (Panic, c1) \<Rightarrow> (Panic, c1))
      | Err e \<Rightarrow> (Err e, c)
      | Panic \<Rightarrow> (Panic, c))"

definition expired_row :: "group_topic \<Rightarrow> int \<Rightarrow> replay_row \<Rightarrow> bool" where
  "expired_row g m r \<longleftrightarrow> row_group r = g \<and> row_epoch r < m"

definition delete_batch :: "sqlite \<Rightarrow> group_topic \<Rightarrow> int \<Rightarrow> connection \<Rightarrow> nat \<times> connection" where
  "delete_batch Q g m c =
     (let chosen = select_limit Q REPLAY_PRUNE_BATCH (filter (expired_row g m) (conn_rows c));
          rows = filter (\<lambda>r. \<not> (expired_row g m r \<and> r \<in> set chosen)) (conn_rows c)
      in (length (conn_rows c) - length rows, c\<lparr>conn_rows := rows\<rparr>))"

lemma statement_rows [simp]:
  "conn_rows (snd (statement c)) = conn_rows c"
  "conn_poisoned (snd (statement c)) = conn_poisoned c"
  "fst (statement c) \<noteq> Panic"
  by (simp_all add: statement_def) (cases "conn_faults c" rule: next_fault.cases; simp)

function prune_loop ::
  "sqlite \<Rightarrow> group_topic \<Rightarrow> int \<Rightarrow> nat \<Rightarrow> connection \<Rightarrow> (replay_store_error, nat) outcome \<times> connection" where
  "prune_loop Q g m acc c =
     (case statement c of
        (Ok _, c1) \<Rightarrow>
          (case delete_batch Q g m c1 of
             (deleted, c2) \<Rightarrow>
               if deleted < REPLAY_PRUNE_BATCH then (Ok (acc + deleted), c2)
               else prune_loop Q g m (acc + deleted) c2)
      | (Err e, c1) \<Rightarrow> (Err e, c1)
      | (Panic, c1) \<Rightarrow> (Panic, c1))"
  by pat_completeness auto

termination
  by (relation "measure (\<lambda>(Q, g, m, acc, c). length (conn_rows c))")
     (auto simp: statement_def delete_batch_def Let_def REPLAY_PRUNE_BATCH_def)

declare prune_loop.simps [simp del]

definition prune_older_than ::
  "sqlite \<Rightarrow> group_topic \<Rightarrow> u64 \<Rightarrow> connection \<Rightarrow> (replay_store_error, nat) outcome \<times> connection" where
  "prune_older_than Q g min_epoch c =
     (case lock_conn c of
        Ok _ \<Rightarrow> prune_loop Q g (sint min_epoch) 0 c
      | Err e \<Rightarrow> (Err e, c)
      | Panic \<Rightarrow> (Panic, c))"

definition replay_count ::
  "group_topic \<Rightarrow> connection \<Rightarrow> (replay_store_error, nat) outcome \<times> connection" where
  "replay_count g c =
     (case lock_conn c of
        Ok _ \<Rightarrow>
          (case statement c of
             (Ok _, c1) \<Rightarrow> (Ok (length (filter (\<lambda>r. row_group r = g) (conn_rows c1))), c1)
           | (Err e, c1) \<Rightarrow> (Err e, c1)
           | (Panic, c1) \<Rightarrow> (Panic, c1))
      | Err e \<Rightarrow> (Err e, c)
      | Panic \<Rightarrow> (Panic, c))"

fun max_of :: "int list \<Rightarrow> int option" where
  "max_of [] = None"
| "max_of (x # xs) = Some (fold max xs x)"

definition replay_max_epoch ::
  "group_topic \<Rightarrow> connection \<Rightarrow> (replay_store_error, u64 option) outcome \<times> connection" where
  "replay_max_epoch g c =
     (case lock_conn c of
        Ok _ \<Rightarrow>
          (case statement c of
             (Ok _, c1) \<Rightarrow>
               (Ok (map_option word_of_int
                  (max_of (map row_epoch (filter (\<lambda>r. row_group r = g) (conn_rows c1))))), c1)
           | (Err e, c1) \<Rightarrow> (Err e, c1)
           | (Panic, c1) \<Rightarrow> (Panic, c1))
      | Err e \<Rightarrow> (Err e, c)
      | Panic \<Rightarrow> (Panic, c))"

section \<open>The table\<close>

definition row_keys :: "connection \<Rightarrow> (group_topic \<times> event_id) list" where
  "row_keys c = map (\<lambda>r. (row_group r, row_event r)) (conn_rows c)"

definition conn_wf :: "connection \<Rightarrow> bool" where
  "conn_wf c \<longleftrightarrow> distinct (row_keys c)"

lemma has_marker_iff: "has_marker g i c \<longleftrightarrow> (g, i) \<in> set (row_keys c)"
  by (auto simp: has_marker_def row_keys_def list_ex_iff)

lemma conn_wf_distinct: "conn_wf c \<Longrightarrow> distinct (conn_rows c)"
  by (simp add: conn_wf_def row_keys_def distinct_map)

text \<open>What a batch does: it removes rows that are expired, as many as the batch allows.\<close>

lemma delete_batch_rows:
  assumes "sqlite_ok Q" "conn_wf c" "delete_batch Q g m c = (n, c')"
  shows "n + length (conn_rows c') = length (conn_rows c)"
    and "filter (\<lambda>r. \<not> expired_row g m r) (conn_rows c') = filter (\<lambda>r. \<not> expired_row g m r) (conn_rows c)"
    and "set (conn_rows c') \<subseteq> set (conn_rows c)"
    and "conn_wf c'"
    and "n < REPLAY_PRUNE_BATCH \<Longrightarrow> conn_rows c' = filter (\<lambda>r. \<not> expired_row g m r) (conn_rows c)"
proof -
  let ?exp = "filter (expired_row g m) (conn_rows c)"
  let ?ch = "select_limit Q REPLAY_PRUNE_BATCH ?exp"
  have d: "distinct (conn_rows c)" using assms(2) by (rule conn_wf_distinct)
  then have ch: "distinct ?ch" "set ?ch \<subseteq> set ?exp" "length ?ch = min REPLAY_PRUNE_BATCH (length ?exp)"
    using assms(1) unfolding sqlite_ok_def by (metis distinct_filter)+
  have rows: "conn_rows c' = filter (\<lambda>r. r \<notin> set ?ch) (conn_rows c)"
    using assms(3) ch(2) by (auto simp: delete_batch_def Let_def intro!: filter_cong)
  have "length (filter (\<lambda>r. r \<in> set ?ch) (conn_rows c)) = length ?ch"
  proof -
    have "set (filter (\<lambda>r. r \<in> set ?ch) (conn_rows c)) = set ?ch" using ch(2) by auto
    then show ?thesis using d ch(1) by (metis distinct_card distinct_filter)
  qed
  then have n: "n = length ?ch"
    using assms(3) sum_length_filter_compl [of "\<lambda>r. r \<in> set ?ch" "conn_rows c"] rows
    by (auto simp: delete_batch_def Let_def)
  show "n + length (conn_rows c') = length (conn_rows c)"
    using n sum_length_filter_compl [of "\<lambda>r. r \<in> set ?ch" "conn_rows c"] rows
      \<open>length (filter (\<lambda>r. r \<in> set ?ch) (conn_rows c)) = length ?ch\<close> by simp
  show "filter (\<lambda>r. \<not> expired_row g m r) (conn_rows c') = filter (\<lambda>r. \<not> expired_row g m r) (conn_rows c)"
    using ch(2) unfolding rows filter_filter by (intro filter_cong) auto
  show "set (conn_rows c') \<subseteq> set (conn_rows c)" unfolding rows by auto
  show "conn_wf c'"
    using assms(2) unfolding conn_wf_def row_keys_def rows by (rule distinct_map_filter)
  show "conn_rows c' = filter (\<lambda>r. \<not> expired_row g m r) (conn_rows c)" if "n < REPLAY_PRUNE_BATCH"
  proof -
    have "card (set ?ch) = card (set ?exp)"
      using that n ch(3) distinct_card [OF ch(1)] distinct_card [OF distinct_filter [OF d]] by simp
    then have "set ?ch = set ?exp" using ch(2) by (simp add: card_subset_eq)
    then show ?thesis unfolding rows by (intro filter_cong) auto
  qed
qed

lemma statement_wf [simp]: "conn_wf (snd (statement c)) = conn_wf c"
  by (simp add: conn_wf_def row_keys_def)

text \<open>
  The loop, from any intermediate count: whatever fails on the way, no row outside the
  pruned range is touched, and if nothing fails the range is empty at the end.
\<close>

definition pruned :: "group_topic \<Rightarrow> int \<Rightarrow> connection \<Rightarrow> connection \<Rightarrow> bool" where
  "pruned g m c c' \<longleftrightarrow> conn_wf c' \<and> set (conn_rows c') \<subseteq> set (conn_rows c)
     \<and> filter (\<lambda>r. \<not> expired_row g m r) (conn_rows c') = filter (\<lambda>r. \<not> expired_row g m r) (conn_rows c)"

lemma prune_loop_pruned:
  assumes "sqlite_ok Q" "conn_wf c" "prune_loop Q g m acc c = (r, c')"
  shows "pruned g m c c'
     \<and> (\<forall>n. r = Ok n \<longrightarrow> conn_rows c' = filter (\<lambda>r. \<not> expired_row g m r) (conn_rows c)
          \<and> n + length (conn_rows c') = acc + length (conn_rows c))
     \<and> (conn_faults c = [] \<longrightarrow> is_ok r)"
  using assms
proof (induction Q g m acc c arbitrary: r c' rule: prune_loop.induct)
  case (1 Q g m acc c)
  obtain o1 c1 where st: "statement c = (o1, c1)" by fastforce
  have c1: "conn_rows c1 = conn_rows c" "conn_wf c1"
    using statement_rows(1) [of c] statement_wf [of c] st 1(3) by auto
  have f1: "conn_faults c = [] \<Longrightarrow> o1 = Ok () \<and> conn_faults c1 = []"
    using st by (auto simp: statement_def)
  show ?case
  proof (cases o1)
    case (Ok u)
    obtain n c2 where b: "delete_batch Q g m c1 = (n, c2)" by fastforce
    note D = delete_batch_rows [OF 1(2) c1(2) b]
    have f2: "conn_faults c2 = conn_faults c1" using b by (auto simp: delete_batch_def Let_def)
    show ?thesis
    proof (cases "n < REPLAY_PRUNE_BATCH")
      case True
      with 1(4) st Ok b have "r = outcome.Ok (acc + n)" "c' = c2" by (auto simp: prune_loop.simps)
      with D D(5) [OF True] c1 show ?thesis by (auto simp: pruned_def)
    next
      case False
      with 1(4) st Ok b have l: "prune_loop Q g m (acc + n) c2 = (r, c')"
        by (subst (asm) prune_loop.simps) simp
      from 1(1) [OF st [symmetric] Ok b [symmetric] False 1(2) D(4) l] D c1 f1 f2
      show ?thesis by (auto simp: pruned_def)
    qed
  next
    case (Err e)
    with 1(4) st f1 c1 show ?thesis by (auto simp: prune_loop.simps pruned_def)
  next
    case Panic
    then show ?thesis using st statement_rows(3) [of c] by simp
  qed
qed

section \<open>What the operations guarantee\<close>

lemma next_fault_not_Panic [simp]: "next_fault fs \<noteq> Panic"
  by (cases fs rule: next_fault.cases) simp_all

lemma contains_answer:
  assumes "replay_contains g i c = (r, c')"
  shows "conn_rows c' = conn_rows c" and "r \<noteq> Panic" and "r = Ok b \<Longrightarrow> b = has_marker g i c"
  using assms
  by (simp_all add: replay_contains_def lock_conn_def statement_def has_marker_def
      split: outcome.splits option.splits) auto

lemma record_answer:
  assumes "replay_record g epoch i seen_at c = (r, c')"
  shows "r = Ok Recorded \<Longrightarrow> \<not> has_marker g i c
       \<and> conn_rows c' = conn_rows c @ [\<lparr>row_group = g, row_epoch = sint epoch, row_event = i,
            row_seen_at = sint seen_at\<rparr>]"
    and "r \<noteq> Ok Recorded \<Longrightarrow> conn_rows c' = conn_rows c"
    and "r = Ok AlreadySeen \<Longrightarrow> has_marker g i c"
    and "r \<noteq> Panic"
  using assms
  by (auto simp: replay_record_def lock_conn_def statement_def has_marker_def insert_or_ignore_def
      split: outcome.splits option.splits if_splits)

lemma record_wf:
  assumes "conn_wf c" "replay_record g epoch i seen_at c = (r, c')"
  shows "conn_wf c'"
proof (cases "r = Ok Recorded")
  case True
  with record_answer(1) [OF assms(2)] assms(1) show ?thesis
    by (auto simp: conn_wf_def row_keys_def has_marker_iff)
next
  case False
  with record_answer(2) [OF assms(2)] assms(1) show ?thesis by (simp add: conn_wf_def row_keys_def)
qed

lemma prune_older_than_pruned:
  assumes "sqlite_ok Q" "conn_wf c"
  shows "pruned g (sint min_epoch) c (snd (prune_older_than Q g min_epoch c))"
proof -
  obtain r c' where p: "prune_loop Q g (sint min_epoch) 0 c = (r, c')" by fastforce
  show ?thesis
    using prune_loop_pruned [OF assms p] assms(2) p
    by (auto simp: prune_older_than_def lock_conn_def pruned_def split: option.splits)
qed

definition demo_sqlite :: sqlite where
  "demo_sqlite = \<lparr>select_limit = take\<rparr>"

lemma demo_sqlite_ok: "sqlite_ok demo_sqlite"
  by (auto simp: sqlite_ok_def demo_sqlite_def dest: in_set_takeD)

definition demo_conn :: connection where
  "demo_conn = \<lparr>conn_rows = [\<lparr>row_group = [1], row_epoch = 0, row_event = [7], row_seen_at = 100\<rparr>],
     conn_poisoned = None, conn_faults = []\<rparr>"

text \<open>
  Pruning in batches does what one unbounded delete would do: if no statement fails, it
  returns with all rows of the group whose stored epoch is below the bound deleted, every
  other row kept in place, and the number of deleted rows as its result.  If a statement
  fails on the way, no row outside that range is lost.
\<close>

theorem prune_in_batches:
  assumes "sqlite_ok Q" and "conn_wf c"
    and "prune_older_than Q g min_epoch c = (r, c')"
  shows "(conn_poisoned c = None \<longrightarrow> conn_faults c = [] \<longrightarrow>
          conn_rows c' = filter (\<lambda>row. \<not> (row_group row = g \<and> row_epoch row < sint min_epoch)) (conn_rows c)
          \<and> r = Ok (length (filter (\<lambda>row. row_group row = g \<and> row_epoch row < sint min_epoch) (conn_rows c))))
     \<and> set (conn_rows c') \<subseteq> set (conn_rows c)
     \<and> (\<forall>row \<in> set (conn_rows c). \<not> (row_group row = g \<and> row_epoch row < sint min_epoch)
          \<longrightarrow> row \<in> set (conn_rows c'))"
proof -
  have p: "pruned g (sint min_epoch) c c'"
    using prune_older_than_pruned [OF assms(1,2), of g min_epoch] assms(3) by simp
  have "\<forall>row \<in> set (conn_rows c). \<not> expired_row g (sint min_epoch) row \<longrightarrow> row \<in> set (conn_rows c')"
  proof (intro ballI impI)
    fix row assume "row \<in> set (conn_rows c)" "\<not> expired_row g (sint min_epoch) row"
    then have "row \<in> set (filter (\<lambda>r. \<not> expired_row g (sint min_epoch) r) (conn_rows c))" by simp
    then have "row \<in> set (filter (\<lambda>r. \<not> expired_row g (sint min_epoch) r) (conn_rows c'))"
      using p by (simp add: pruned_def del: set_filter)
    then show "row \<in> set (conn_rows c')" by simp
  qed
  moreover have "conn_rows c' = filter (\<lambda>r. \<not> expired_row g (sint min_epoch) r) (conn_rows c)
     \<and> r = Ok (length (filter (expired_row g (sint min_epoch)) (conn_rows c)))"
    if "conn_poisoned c = None" "conn_faults c = []"
  proof -
    have l: "prune_loop Q g (sint min_epoch) 0 c = (r, c')"
      using that assms(3) by (simp add: prune_older_than_def lock_conn_def)
    from prune_loop_pruned [OF assms(1,2) l] that(2) obtain n where
      "r = Ok n" "conn_rows c' = filter (\<lambda>r. \<not> expired_row g (sint min_epoch) r) (conn_rows c)"
      "n + length (conn_rows c') = length (conn_rows c)" by (auto simp: is_ok_iff)
    with sum_length_filter_compl [of "expired_row g (sint min_epoch)" "conn_rows c"] show ?thesis by simp
  qed
  ultimately show ?thesis using p by (auto simp: pruned_def expired_row_def [abs_def])
qed

theorem prune_in_batches_witness:
  "conn_rows (snd (prune_older_than demo_sqlite [1] 3 demo_conn)) = []
   \<and> fst (prune_older_than demo_sqlite [1] 3 demo_conn) = Ok 1"
  using prune_in_batches [OF demo_sqlite_ok _ surjective_pairing, of demo_conn "[1]" 3]
  by (simp add: demo_conn_def conn_wf_def row_keys_def)

end
