(* ===== verification/Group_Events.thy ===== *)
theory Group_Events
  imports Group_Replay "HOL-Library.AList" "HOL-Library.List_Lexorder" "HOL-Library.Product_Lexorder"
begin

text \<open>
  Signed group-control events and the membership state they are validated against
  (\<^verbatim>\<open>src/src/group_events.rs\<close>).  A group state holds a handle of a replay store; several
  states may share a connection, so the connections live in a heap that the operations
  take and return.  The clock readings, the random nonce and SQLite's choices are
  arguments, the codecs are a record of functions.  \<open>overflow_checks\<close> says whether the build
  checks integer arithmetic.
\<close>

section \<open>Events\<close>

definition GROUP_EVENT_VERSION :: u8 where
  "GROUP_EVENT_VERSION = 2"

definition MAX_GROUP_EVENT_PAYLOAD :: nat where
  "MAX_GROUP_EVENT_PAYLOAD = 16 * 1024"

definition MAX_GROUP_EVENT_CLOCK_SKEW_SECS :: u64 where
  "MAX_GROUP_EVENT_CLOCK_SKEW_SECS = 24 * 60 * 60"

definition REPLAY_WINDOW_PRIOR_EPOCHS :: u64 where
  "REPLAY_WINDOW_PRIOR_EPOCHS = 2"

definition REPLAY_MEMORY_CACHE_MAX :: nat where
  "REPLAY_MEMORY_CACHE_MAX = 4096"

definition EVENT_ID_LEN :: nat where
  "EVENT_ID_LEN = 16"

definition EVENT_ID_DOMAIN :: bytes where
  "EVENT_ID_DOMAIN = ascii ''boru.group-event.id''"

definition GROUP_EVENT_PROTOCOL :: string where
  "GROUP_EVENT_PROTOCOL = ''boru/group-event''"

datatype role = Owner | Member

datatype group_event_payload =
    PMemberInvited public_key
  | PMemberJoined public_key
  | PMemberLeft public_key
  | PMemberRemoved public_key
  | PMetadataChanged "string option" "string option"
  | PEpochChanged u64

record group_event_envelope =
  ge_version :: u8
  ge_group :: group_topic
  ge_event_id :: event_id
  ge_nonce :: bytes
  ge_epoch :: u64
  ge_actor :: public_key
  ge_timestamp :: u64
  ge_payload :: group_event_payload
  ge_signature :: signature

datatype group_event =
    MemberInvited (envelope: group_event_envelope)
  | MemberJoined (envelope: group_event_envelope)
  | MemberLeft (envelope: group_event_envelope)
  | MemberRemoved (envelope: group_event_envelope)
  | MetadataChanged (envelope: group_event_envelope)
  | EpochChanged (envelope: group_event_envelope)

datatype group_validation_error =
    Decode string
  | UnsupportedVersion u8
  | InvalidSignature
  | WrongGroup
  | WrongEpoch u64 u64
  | NotMember
  | PermissionDenied
  | Replay
  | EventIdMismatch
  | NonceGeneration
  | ReplayStoreFailed replay_store_error
  | TimestampOutOfRange
  | PayloadTooLarge nat
  | PayloadMismatch

record group_codec =
  enc_payload :: "group_event_payload \<Rightarrow> string + bytes"
  enc_signed ::
    "string \<times> u16 \<times> (group_topic \<times> event_id \<times> bytes \<times> u64 \<times> public_key \<times> u64 \<times> group_event_payload)
     \<Rightarrow> string + bytes"
  enc_unsigned_legacy ::
    "u8 \<times> group_topic \<times> event_id \<times> bytes \<times> u64 \<times> public_key \<times> u64 \<times> group_event_payload \<Rightarrow> string + bytes"
  enc_identity ::
    "u8 \<times> public_key \<times> group_topic \<times> u64 \<times> u64 \<times> bytes \<times> group_event_payload \<Rightarrow> string + bytes"
  enc_event :: "group_event \<Rightarrow> string + bytes"
  dec_event :: "bytes \<Rightarrow> string + group_event"

fun from_payload :: "group_event_envelope \<Rightarrow> group_event_payload \<Rightarrow> group_event" where
  "from_payload e (PMemberInvited m) = MemberInvited e"
| "from_payload e (PMemberJoined m) = MemberJoined e"
| "from_payload e (PMemberLeft m) = MemberLeft e"
| "from_payload e (PMemberRemoved m) = MemberRemoved e"
| "from_payload e (PMetadataChanged n d) = MetadataChanged e"
| "from_payload e (PEpochChanged n) = EpochChanged e"

definition unsigned_bytes ::
  "group_codec \<Rightarrow> group_event_envelope \<Rightarrow> (group_validation_error, bytes) outcome" where
  "unsigned_bytes K e =
     map_err Decode (canonical_signed_bytes (enc_signed K) GROUP_EVENT_PROTOCOL (ucast (ge_version e))
       (ge_group e, ge_event_id e, ge_nonce e, ge_epoch e, ge_actor e, ge_timestamp e, ge_payload e))"

definition legacy_unsigned_bytes ::
  "group_codec \<Rightarrow> group_event_envelope \<Rightarrow> (group_validation_error, bytes) outcome" where
  "legacy_unsigned_bytes K e =
     map_err Decode (enc_unsigned_legacy K (ge_version e, ge_group e, ge_event_id e, ge_nonce e,
       ge_epoch e, ge_actor e, ge_timestamp e, ge_payload e))"

definition make_event_id ::
  "crypto \<Rightarrow> group_codec \<Rightarrow> group_event_envelope \<Rightarrow> (group_validation_error, event_id) outcome" where
  "make_event_id C K e =
     and_then (map_err Decode (enc_identity K (ge_version e, ge_actor e, ge_group e, ge_epoch e,
       ge_timestamp e, ge_nonce e, ge_payload e)))
       (\<lambda>body. Ok (take EVENT_ID_LEN (blake3 C (EVENT_ID_DOMAIN @ body))))"

text \<open>
  The envelope is assembled before its identifier and its signature are known, with both
  fields empty; neither preimage reads a field that is still missing.
\<close>

definition sign_with_nonce ::
  "crypto \<Rightarrow> group_codec \<Rightarrow> secret_key \<Rightarrow> group_topic \<Rightarrow> u64 \<Rightarrow> u64 \<Rightarrow> bytes \<Rightarrow> group_event_payload \<Rightarrow>
   (group_validation_error, group_event) outcome" where
  "sign_with_nonce C K secret gid epoch timestamp nonce payload =
     (let blank = \<lparr>ge_version = GROUP_EVENT_VERSION, ge_group = gid, ge_event_id = [],
            ge_nonce = nonce, ge_epoch = epoch, ge_actor = sk_public C secret,
            ge_timestamp = timestamp, ge_payload = payload, ge_signature = []\<rparr> in
      and_then (make_event_id C K blank) (\<lambda>event_id.
      let named = blank\<lparr>ge_event_id := event_id\<rparr> in
      and_then (unsigned_bytes K named) (\<lambda>unsigned.
      Ok (from_payload (named\<lparr>ge_signature := sk_sign C secret unsigned\<rparr>) payload))))"

definition sign_at ::
  "crypto \<Rightarrow> group_codec \<Rightarrow> bytes option \<Rightarrow> secret_key \<Rightarrow> group_topic \<Rightarrow> u64 \<Rightarrow> u64 \<Rightarrow>
   group_event_payload \<Rightarrow> (group_validation_error, group_event) outcome" where
  "sign_at C K random secret gid epoch timestamp payload =
     (case random of
        None \<Rightarrow> Err NonceGeneration
      | Some nonce \<Rightarrow> sign_with_nonce C K secret gid epoch timestamp nonce payload)"

definition sign_event ::
  "crypto \<Rightarrow> group_codec \<Rightarrow> u64 \<Rightarrow> bytes option \<Rightarrow> secret_key \<Rightarrow> group_topic \<Rightarrow> u64 \<Rightarrow>
   group_event_payload \<Rightarrow> (group_validation_error, group_event) outcome" where
  "sign_event C K now random secret gid epoch payload = sign_at C K random secret gid epoch now payload"

definition event_decode :: "group_codec \<Rightarrow> bytes \<Rightarrow> (group_validation_error, group_event) outcome" where
  "event_decode K b = map_err Decode (dec_event K b)"

definition event_encode :: "group_codec \<Rightarrow> group_event \<Rightarrow> (group_validation_error, bytes) outcome" where
  "event_encode K ev = map_err Decode (enc_event K ev)"

section \<open>State\<close>

record group_state =
  gs_group :: group_topic
  gs_owner :: public_key
  gs_epoch :: u64
  gs_members :: "public_key \<rightharpoonup> role"
  gs_invited :: "public_key set"
  gs_seen :: "(event_id \<times> u64) list"
  gs_replay_store :: "nat option"

type_synonym heap = "nat \<Rightarrow> connection"

definition gs_new :: "group_topic \<Rightarrow> public_key \<Rightarrow> group_state" where
  "gs_new g owner = \<lparr>gs_group = g, gs_owner = owner, gs_epoch = 0, gs_members = [owner \<mapsto> Owner],
     gs_invited = {}, gs_seen = [], gs_replay_store = None\<rparr>"

definition attach_replay_store :: "nat \<Rightarrow> group_state \<Rightarrow> group_state" where
  "attach_replay_store store st = st\<lparr>gs_replay_store := Some store\<rparr>"

definition with_replay_store :: "group_topic \<Rightarrow> public_key \<Rightarrow> nat \<Rightarrow> group_state" where
  "with_replay_store g owner store = (gs_new g owner)\<lparr>gs_replay_store := Some store\<rparr>"

definition prune_replay :: "sqlite \<Rightarrow> group_state \<Rightarrow> heap \<Rightarrow> group_state \<times> heap" where
  "prune_replay Q st h =
     (let min_epoch = saturating_sub (gs_epoch st) REPLAY_WINDOW_PRIOR_EPOCHS;
          st1 = st\<lparr>gs_seen := filter (\<lambda>(_, epoch). epoch \<ge> min_epoch) (gs_seen st)\<rparr>
      in case gs_replay_store st of
           None \<Rightarrow> (st1, h)
         | Some store \<Rightarrow> (st1, h(store := snd (prune_older_than Q (gs_group st) min_epoch (h store)))))"

definition cap_seen_cache :: "group_state \<Rightarrow> group_state" where
  "cap_seen_cache st =
     (if length (gs_seen st) \<le> REPLAY_MEMORY_CACHE_MAX then st
      else let by_epoch = sort (map (\<lambda>(i, e). (e, i)) (gs_seen st));
               excess = length (gs_seen st) - REPLAY_MEMORY_CACHE_MAX
           in st\<lparr>gs_seen := fold (\<lambda>(_, i) seen. AList.delete i seen) (take excess by_epoch) (gs_seen st)\<rparr>)"

section \<open>Validation\<close>

fun variant_matches :: "group_event \<Rightarrow> group_event_payload \<Rightarrow> bool" where
  "variant_matches (MemberInvited _) (PMemberInvited _) = True"
| "variant_matches (MemberJoined _) (PMemberJoined _) = True"
| "variant_matches (MemberLeft _) (PMemberLeft _) = True"
| "variant_matches (MemberRemoved _) (PMemberRemoved _) = True"
| "variant_matches (MetadataChanged _) (PMetadataChanged _ _) = True"
| "variant_matches (EpochChanged _) (PEpochChanged _) = True"
| "variant_matches _ _ = False"

definition abs_diff :: "u64 \<Rightarrow> u64 \<Rightarrow> u64" where
  "abs_diff a b = (if a < b then b - a else a - b)"

text \<open>\<^verbatim>\<open>expected: state.epoch + 1\<close> overflows at the last epoch.\<close>

fun epoch_advances ::
  "bool \<Rightarrow> group_event_payload \<Rightarrow> u64 \<Rightarrow> (group_validation_error, unit) outcome" where
  "epoch_advances overflow_checks (PEpochChanged epoch) current =
     (if epoch \<le> current then
        if overflow_checks \<and> current = - 1 then Panic else Err (WrongEpoch (current + 1) epoch)
      else Ok ())"
| "epoch_advances overflow_checks _ current = Ok ()"

definition verify_header ::
  "bool \<Rightarrow> group_event \<Rightarrow> group_state \<Rightarrow> (group_validation_error, unit) outcome" where
  "verify_header overflow_checks ev st =
     (let e = envelope ev in
      and_then (ensure (ge_version e = GROUP_EVENT_VERSION) (UnsupportedVersion (ge_version e))) (\<lambda>_.
      and_then (ensure (ge_group e = gs_group st) WrongGroup) (\<lambda>_.
      and_then (ensure (ge_epoch e = gs_epoch st) (WrongEpoch (gs_epoch st) (ge_epoch e))) (\<lambda>_.
      and_then (ensure (variant_matches ev (ge_payload e)) PayloadMismatch) (\<lambda>_.
      epoch_advances overflow_checks (ge_payload e) (gs_epoch st))))))"

definition verify_contents ::
  "crypto \<Rightarrow> group_codec \<Rightarrow> u64 \<Rightarrow> group_event_envelope \<Rightarrow> (group_validation_error, unit) outcome" where
  "verify_contents C K now e =
     and_then (map_err Decode (enc_payload K (ge_payload e))) (\<lambda>encoded.
     and_then (ensure (length encoded \<le> MAX_GROUP_EVENT_PAYLOAD) (PayloadTooLarge (length encoded))) (\<lambda>_.
     and_then (ensure (abs_diff now (ge_timestamp e) \<le> MAX_GROUP_EVENT_CLOCK_SKEW_SECS)
       TimestampOutOfRange) (\<lambda>_.
     and_then (unsigned_bytes K e) (\<lambda>unsigned.
     and_then (legacy_unsigned_bytes K e) (\<lambda>legacy.
     and_then (ensure (verify_canonical_or_legacy C (ge_actor e) (ge_signature e) unsigned legacy)
       InvalidSignature) (\<lambda>_.
     and_then (make_event_id C K e) (\<lambda>expected_id.
     ensure (expected_id = ge_event_id e) EventIdMismatch)))))))"

definition check_replay ::
  "group_event_envelope \<Rightarrow> group_state \<Rightarrow> heap \<Rightarrow> (group_validation_error, unit) outcome \<times> heap" where
  "check_replay e st h =
     (if map_of (gs_seen st) (ge_event_id e) \<noteq> None then (Err Replay, h)
      else case gs_replay_store st of
             None \<Rightarrow> (Ok (), h)
           | Some store \<Rightarrow>
               (case replay_contains (gs_group st) (ge_event_id e) (h store) of
                  (Err x, c) \<Rightarrow> (Err (ReplayStoreFailed x), h(store := c))
                | (Panic, c) \<Rightarrow> (Panic, h(store := c))
                | (Ok persisted, c) \<Rightarrow>
                    (if persisted then Err Replay else Ok (), h(store := c))))"

definition actor_role :: "group_event_envelope \<Rightarrow> group_state \<Rightarrow> (group_validation_error, role) outcome" where
  "actor_role e st =
     (if ge_actor e = gs_owner st then Ok Owner
      else if gs_members st (ge_actor e) \<noteq> None then Ok Member
      else if ge_payload e = PMemberJoined (ge_actor e) \<and> ge_actor e \<in> gs_invited st then Ok Member
      else Err NotMember)"

fun allowed :: "group_event_payload \<Rightarrow> role \<Rightarrow> public_key \<Rightarrow> group_state \<Rightarrow> bool" where
  "allowed (PMemberLeft member) r actor st \<longleftrightarrow> r = Member \<and> member = actor"
| "allowed (PMemberJoined member) r actor st \<longleftrightarrow> member = actor \<and> member \<in> gs_invited st"
| "allowed _ r actor st \<longleftrightarrow> r = Owner"

definition event_verify ::
  "crypto \<Rightarrow> group_codec \<Rightarrow> bool \<Rightarrow> u64 \<Rightarrow> group_event \<Rightarrow> group_state \<Rightarrow> heap \<Rightarrow>
   (group_validation_error, role) outcome \<times> heap" where
  "event_verify C K overflow_checks now ev st h =
     (let e = envelope ev in
      case and_then (verify_header overflow_checks ev st) (\<lambda>_. verify_contents C K now e) of
        Err x \<Rightarrow> (Err x, h)
      | Panic \<Rightarrow> (Panic, h)
      | Ok _ \<Rightarrow>
          (case check_replay e st h of
             (fresh, h1) \<Rightarrow>
               (and_then fresh (\<lambda>_.
                and_then (actor_role e st) (\<lambda>r.
                and_then (ensure (allowed (ge_payload e) r (ge_actor e) st) PermissionDenied) (\<lambda>_.
                Ok r))), h1)))"

section \<open>Application\<close>

definition record_marker ::
  "u64 \<Rightarrow> group_event_envelope \<Rightarrow> group_state \<Rightarrow> heap \<Rightarrow> (group_validation_error, unit) outcome \<times> heap" where
  "record_marker now e st h =
     (case gs_replay_store st of
        None \<Rightarrow> (Ok (), h)
      | Some store \<Rightarrow>
          (case replay_record (gs_group st) (ge_epoch e) (ge_event_id e) now (h store) of
             (Err x, c) \<Rightarrow> (Err (ReplayStoreFailed x), h(store := c))
           | (Panic, c) \<Rightarrow> (Panic, h(store := c))
           | (Ok Recorded, c) \<Rightarrow> (Ok (), h(store := c))
           | (Ok AlreadySeen, c) \<Rightarrow> (Err Replay, h(store := c))))"

fun apply_payload :: "group_event_payload \<Rightarrow> group_state \<Rightarrow> group_state" where
  "apply_payload (PMemberInvited member) st = st\<lparr>gs_invited := insert member (gs_invited st)\<rparr>"
| "apply_payload (PMemberJoined member) st =
     st\<lparr>gs_invited := gs_invited st - {member}, gs_members := (gs_members st)(member \<mapsto> Member)\<rparr>"
| "apply_payload (PMemberLeft member) st = st\<lparr>gs_members := (gs_members st)(member := None)\<rparr>"
| "apply_payload (PMemberRemoved member) st = st\<lparr>gs_members := (gs_members st)(member := None)\<rparr>"
| "apply_payload (PMetadataChanged name description) st = st"
| "apply_payload (PEpochChanged epoch) st = st\<lparr>gs_epoch := epoch\<rparr>"

fun is_epoch_change :: "group_event_payload \<Rightarrow> bool" where
  "is_epoch_change (PEpochChanged epoch) = True"
| "is_epoch_change _ = False"

definition note_seen :: "group_event_envelope \<Rightarrow> group_state \<Rightarrow> group_state" where
  "note_seen e st = cap_seen_cache (st\<lparr>gs_seen := AList.update (ge_event_id e) (ge_epoch e) (gs_seen st)\<rparr>)"

definition apply_to ::
  "crypto \<Rightarrow> group_codec \<Rightarrow> sqlite \<Rightarrow> bool \<Rightarrow> u64 \<Rightarrow> u64 \<Rightarrow> group_event \<Rightarrow> group_state \<Rightarrow> heap \<Rightarrow>
   (group_validation_error, unit) outcome \<times> group_state \<times> heap" where
  "apply_to C K Q overflow_checks now now' ev st h =
     (case event_verify C K overflow_checks now ev st h of
        (Err x, h1) \<Rightarrow> (Err x, st, h1)
      | (Panic, h1) \<Rightarrow> (Panic, st, h1)
      | (Ok _, h1) \<Rightarrow>
          (let e = envelope ev in
           case record_marker now' e st h1 of
             (Err x, h2) \<Rightarrow> (Err x, st, h2)
           | (Panic, h2) \<Rightarrow> (Panic, st, h2)
           | (Ok _, h2) \<Rightarrow>
               (let st1 = note_seen e (apply_payload (ge_payload e) st)
                in (Ok (), if is_epoch_change (ge_payload e) then prune_replay Q st1 h2 else (st1, h2)))))"

end
