(* ===== verification/Group_Events_Inv.thy ===== *)
theory Group_Events_Inv
  imports Group_Events
begin

text \<open>
  The lemmas on group events: what an accepted and a rejected event leave behind in the
  state and in the replay stores, the bound of the in-memory cache, and the machine of
  several groups that share their connections.
\<close>

section \<open>Accepted and rejected events\<close>

definition same_rows :: "heap \<Rightarrow> heap \<Rightarrow> bool" where
  "same_rows h h' \<longleftrightarrow> (\<forall>c. conn_rows (h' c) = conn_rows (h c))"

lemma same_rows_refl [simp]: "same_rows h h"
  by (simp add: same_rows_def)

lemma same_rows_trans: "same_rows h h1 \<Longrightarrow> same_rows h1 h2 \<Longrightarrow> same_rows h h2"
  by (simp add: same_rows_def)

lemma same_rows_wf: "same_rows h h' \<Longrightarrow> conn_wf (h' c) = conn_wf (h c)"
  by (simp add: same_rows_def conn_wf_def row_keys_def)

lemma same_rows_marker: "same_rows h h' \<Longrightarrow> has_marker g i (h' c) = has_marker g i (h c)"
  by (simp add: same_rows_def has_marker_def)

lemma check_replay_rows:
  assumes "check_replay e st h = (r, h1)"
  shows "same_rows h h1"
    and "r = Ok () \<Longrightarrow> map_of (gs_seen st) (ge_event_id e) = None"
    and "r = Ok () \<Longrightarrow> gs_replay_store st = Some s \<Longrightarrow> \<not> has_marker (gs_group st) (ge_event_id e) (h s)"
proof -
  let ?con = "\<lambda>s. replay_contains (gs_group st) (ge_event_id e) (h s)"
  define x c where "x s = fst (?con s)" and "c s = snd (?con s)" for s
  then have c: "?con s = (x s, c s)" for s by simp
  show "same_rows h h1"
    using assms contains_answer(1) [OF c]
    by (auto simp: check_replay_def same_rows_def c split: if_splits option.splits outcome.splits)
  show "map_of (gs_seen st) (ge_event_id e) = None" if "r = Ok ()"
    using assms that by (auto simp: check_replay_def split: if_splits)
  show "\<not> has_marker (gs_group st) (ge_event_id e) (h s)" if "r = Ok ()" "gs_replay_store st = Some s"
    using assms that contains_answer(3) [OF c, of s]
    by (auto simp: check_replay_def c split: if_splits outcome.splits)
qed

lemma event_verify_rows: "event_verify C K oc now ev st h = (r, h1) \<Longrightarrow> same_rows h h1"
  using check_replay_rows(1) [of "envelope ev" st h]
  by (auto simp: event_verify_def Let_def split: outcome.splits prod.splits)

lemma event_verify_ok:
  assumes "event_verify C K oc now ev st h = (Ok r, h1)"
  shows "verify_header oc ev st = Ok ()" and "verify_contents C K now (envelope ev) = Ok ()"
    and "actor_role (envelope ev) st = Ok r"
    and "allowed (ge_payload (envelope ev)) r (ge_actor (envelope ev)) st"
    and "gs_replay_store st = Some s \<Longrightarrow> \<not> has_marker (gs_group st) (ge_event_id (envelope ev)) (h s)"
  using assms check_replay_rows(3) [of "envelope ev" st h]
  by (auto simp: event_verify_def Let_def split: outcome.splits prod.splits if_splits)

definition marker_row :: "u64 \<Rightarrow> group_event_envelope \<Rightarrow> group_state \<Rightarrow> replay_row" where
  "marker_row now e st = \<lparr>row_group = gs_group st, row_epoch = sint (ge_epoch e),
     row_event = ge_event_id e, row_seen_at = sint now\<rparr>"

lemma record_marker_rows:
  assumes "record_marker now e st h = (r, h1)"
  shows "r \<noteq> Ok () \<Longrightarrow> same_rows h h1"
    and "r = Ok () \<Longrightarrow> gs_replay_store st = None \<Longrightarrow> h1 = h"
    and "r = Ok () \<Longrightarrow> gs_replay_store st = Some s \<Longrightarrow>
       \<not> has_marker (gs_group st) (ge_event_id e) (h s)
       \<and> conn_rows (h1 s) = conn_rows (h s) @ [marker_row now e st] \<and> (\<forall>c. c \<noteq> s \<longrightarrow> h1 c = h c)"
    and "(\<And>c. conn_wf (h c)) \<Longrightarrow> conn_wf (h1 k)"
proof -
  let ?rec = "\<lambda>s. replay_record (gs_group st) (ge_epoch e) (ge_event_id e) now (h s)"
  define x c where "x s = fst (?rec s)" and "c s = snd (?rec s)" for s
  then have p: "?rec s = (x s, c s)" for s by simp
  note q = record_answer [OF p]
  show "r \<noteq> Ok () \<Longrightarrow> same_rows h h1"
    using assms q(2) [of "the (gs_replay_store st)"]
    by (auto simp: record_marker_def p same_rows_def split: option.splits outcome.splits record_outcome.splits)
  show "r = Ok () \<Longrightarrow> gs_replay_store st = None \<Longrightarrow> h1 = h"
    using assms by (simp add: record_marker_def)
  show "r = Ok () \<Longrightarrow> gs_replay_store st = Some s \<Longrightarrow>
       \<not> has_marker (gs_group st) (ge_event_id e) (h s)
       \<and> conn_rows (h1 s) = conn_rows (h s) @ [marker_row now e st] \<and> (\<forall>c. c \<noteq> s \<longrightarrow> h1 c = h c)"
    using assms q(1) [of s]
    by (auto simp: record_marker_def p marker_row_def split: outcome.splits record_outcome.splits)
  show "(\<And>c. conn_wf (h c)) \<Longrightarrow> conn_wf (h1 k)"
    using assms record_wf [OF _ p]
    by (auto simp: record_marker_def p split: option.splits outcome.splits record_outcome.splits)
qed

text \<open>An accepted event went through every check, and its effect is known.\<close>

lemma apply_to_ok:
  assumes "apply_to C K Q oc now now' ev st h = (Ok (), st', h')"
  obtains r h1 h2 where "event_verify C K oc now ev st h = (Ok r, h1)"
    "record_marker now' (envelope ev) st h1 = (Ok (), h2)"
    "(st', h') = (let st1 = note_seen (envelope ev) (apply_payload (ge_payload (envelope ev)) st)
       in if is_epoch_change (ge_payload (envelope ev)) then prune_replay Q st1 h2 else (st1, h2))"
  using assms by (auto simp: apply_to_def Let_def split: outcome.splits prod.splits)

lemma apply_to_rejected:
  assumes "apply_to C K Q oc now now' ev st h = (r, st', h')" "r \<noteq> Ok ()"
  shows "st' = st" and "same_rows h h'"
proof -
  obtain v h1 where v: "event_verify C K oc now ev st h = (v, h1)" by fastforce
  obtain m h2 where m: "record_marker now' (envelope ev) st h1 = (m, h2)" by fastforce
  have "st' = st \<and> (h' = h1 \<or> (h' = h2 \<and> m \<noteq> Ok ()))"
    using assms v m by (auto simp: apply_to_def Let_def split: outcome.splits)
  with event_verify_rows [OF v] record_marker_rows(1) [OF m]
  show "st' = st" "same_rows h h'" by (auto intro: same_rows_trans)
qed

lemma cap_seen_cache_fields [simp]:
  "gs_group (cap_seen_cache st) = gs_group st" "gs_owner (cap_seen_cache st) = gs_owner st"
  "gs_epoch (cap_seen_cache st) = gs_epoch st" "gs_members (cap_seen_cache st) = gs_members st"
  "gs_invited (cap_seen_cache st) = gs_invited st"
  "gs_replay_store (cap_seen_cache st) = gs_replay_store st"
  by (simp_all add: cap_seen_cache_def Let_def)

lemma note_seen_fields [simp]:
  "gs_group (note_seen e st) = gs_group st" "gs_owner (note_seen e st) = gs_owner st"
  "gs_epoch (note_seen e st) = gs_epoch st" "gs_members (note_seen e st) = gs_members st"
  "gs_invited (note_seen e st) = gs_invited st" "gs_replay_store (note_seen e st) = gs_replay_store st"
  by (simp_all add: note_seen_def)

lemma prune_replay_fields [simp]:
  "gs_group (fst (prune_replay Q st h)) = gs_group st" "gs_owner (fst (prune_replay Q st h)) = gs_owner st"
  "gs_epoch (fst (prune_replay Q st h)) = gs_epoch st"
  "gs_members (fst (prune_replay Q st h)) = gs_members st"
  "gs_invited (fst (prune_replay Q st h)) = gs_invited st"
  "gs_replay_store (fst (prune_replay Q st h)) = gs_replay_store st"
  by (simp_all add: prune_replay_def Let_def split: option.split)

lemma apply_payload_fields [simp]:
  "gs_group (apply_payload p st) = gs_group st" "gs_owner (apply_payload p st) = gs_owner st"
  "gs_replay_store (apply_payload p st) = gs_replay_store st"
  "gs_seen (apply_payload p st) = gs_seen st"
  by (cases p; simp)+

text \<open>Apart from the cache, an accepted event changes exactly what its payload says.\<close>

lemma apply_to_state:
  assumes "apply_to C K Q oc now now' ev st h = (Ok (), st', h')"
  shows "gs_group st' = gs_group st" "gs_owner st' = gs_owner st"
    "gs_replay_store st' = gs_replay_store st"
    "gs_epoch st' = gs_epoch (apply_payload (ge_payload (envelope ev)) st)"
    "gs_members st' = gs_members (apply_payload (ge_payload (envelope ev)) st)"
    "gs_invited st' = gs_invited (apply_payload (ge_payload (envelope ev)) st)"
proof -
  let ?st1 = "note_seen (envelope ev) (apply_payload (ge_payload (envelope ev)) st)"
  from assms obtain h2 where "st' = ?st1 \<or> st' = fst (prune_replay Q ?st1 h2)"
    by (elim apply_to_ok) (metis fst_conv)
  then show "gs_group st' = gs_group st" "gs_owner st' = gs_owner st"
    "gs_replay_store st' = gs_replay_store st"
    "gs_epoch st' = gs_epoch (apply_payload (ge_payload (envelope ev)) st)"
    "gs_members st' = gs_members (apply_payload (ge_payload (envelope ev)) st)"
    "gs_invited st' = gs_invited (apply_payload (ge_payload (envelope ev)) st)"
    by auto
qed

lemma verify_header_ok:
  assumes "verify_header oc ev st = Ok ()"
  shows "ge_version (envelope ev) = GROUP_EVENT_VERSION" "ge_group (envelope ev) = gs_group st"
    "ge_epoch (envelope ev) = gs_epoch st" "variant_matches ev (ge_payload (envelope ev))"
    "ge_payload (envelope ev) = PEpochChanged n \<Longrightarrow> gs_epoch st < n"
  using assms by (auto simp: verify_header_def Let_def split: if_splits)

lemma epoch_monotone:
  assumes "apply_to C K Q oc now now' ev st h = (r, st', h')"
  shows "gs_epoch st \<le> gs_epoch st'"
proof (cases "r = Ok ()")
  case True
  with assms have a: "apply_to C K Q oc now now' ev st h = (Ok (), st', h')" by simp
  from a obtain v h1 where v: "event_verify C K oc now ev st h = (Ok v, h1)" by (rule apply_to_ok)
  show ?thesis
    using apply_to_state(4) [OF a] verify_header_ok(5) [OF event_verify_ok(1) [OF v]]
    by (cases "ge_payload (envelope ev)") auto
next
  case False
  with apply_to_rejected(1) [OF assms] show ?thesis by simp
qed

section \<open>The in-memory cache\<close>

lemma fold_delete_keys:
  "fold (\<lambda>(_, i) seen. AList.delete i seen) ps xs = filter (\<lambda>(i, _). i \<notin> snd ` set ps) xs"
proof (induction ps arbitrary: xs)
  case (Cons p ps)
  obtain e i where p: "p = (e, i)" by (cases p)
  show ?case
    unfolding p fold_simps prod.case Cons.IH
    by (auto simp: AList.delete_eq intro!: filter_cong)
qed auto

lemma length_filter_keys:
  assumes "distinct (map fst xs)" "I \<subseteq> fst ` set xs"
  shows "length (filter (\<lambda>(i, _). i \<notin> I) xs) + card I = length xs"
proof -
  let ?in = "filter (\<lambda>x. fst x \<in> I) xs"
  have "length ?in = card (set (map fst ?in))"
    using distinct_card [OF distinct_map_filter [OF assms(1), of "\<lambda>x. fst x \<in> I"]] by simp
  also have "set (map fst ?in) = I" using assms(2) by force
  finally show ?thesis
    using sum_length_filter_compl [of "\<lambda>x. fst x \<in> I" xs] by (simp add: case_prod_unfold)
qed

lemma cap_seen_cache_bound:
  assumes "distinct (map fst (gs_seen st))"
  shows "length (gs_seen (cap_seen_cache st)) \<le> REPLAY_MEMORY_CACHE_MAX"
    and "distinct (map fst (gs_seen (cap_seen_cache st)))"
    and "set (gs_seen (cap_seen_cache st)) \<subseteq> set (gs_seen st)"
    and "(i, e) \<in> set (gs_seen st) \<Longrightarrow> (i, e) \<notin> set (gs_seen (cap_seen_cache st)) \<Longrightarrow>
      (i', e') \<in> set (gs_seen (cap_seen_cache st)) \<Longrightarrow> (e, i) < (e', i')"
proof -
  let ?swap = "\<lambda>(i, e). (e, i)"
  let ?xs = "gs_seen st"
  let ?by = "sort (map ?swap ?xs)"
  let ?k = "length ?xs - REPLAY_MEMORY_CACHE_MAX"
  let ?I = "snd ` set (take ?k ?by)"
  have seen: "gs_seen (cap_seen_cache st) = filter (\<lambda>(i, _). i \<notin> ?I) ?xs"
    by (auto simp: cap_seen_cache_def Let_def fold_delete_keys)
  have "mset (map snd ?by) = mset (map fst ?xs)"
    by (simp add: multiset.map_comp comp_def case_prod_unfold)
  then have db: "distinct (map snd ?by)" using assms by (metis mset_eq_imp_distinct_iff)
  have db': "distinct (map snd (take ?k ?by))" using distinct_take [OF db, of ?k] by (simp add: take_map)
  have sub: "?I \<subseteq> fst ` set ?xs"
    by (auto dest!: in_set_takeD) force
  have "card ?I = ?k"
    using distinct_card [OF db'] by simp
  with length_filter_keys [OF assms sub] show "length (gs_seen (cap_seen_cache st)) \<le> REPLAY_MEMORY_CACHE_MAX"
    unfolding seen by linarith
  show "distinct (map fst (gs_seen (cap_seen_cache st)))"
    unfolding seen by (rule distinct_map_filter [OF assms])
  show "set (gs_seen (cap_seen_cache st)) \<subseteq> set ?xs" unfolding seen by auto
  assume out: "(i, e) \<in> set ?xs" "(i, e) \<notin> set (gs_seen (cap_seen_cache st))"
    and kept: "(i', e') \<in> set (gs_seen (cap_seen_cache st))"
  from out have "i \<in> ?I" unfolding seen by auto
  then obtain e2 where e2: "(e2, i) \<in> set (take ?k ?by)" by force
  then have "(i, e2) \<in> set ?xs" by (auto dest!: in_set_takeD)
  with out(1) assms have "e2 = e" by (metis eq_key_imp_eq_value)
  with e2 have a: "(e, i) \<in> set (take ?k ?by)" by simp
  from kept have "(e', i') \<in> set ?by" "(e', i') \<notin> set (take ?k ?by)" unfolding seen by force+
  then have b: "(e', i') \<in> set (drop ?k ?by)"
    by (metis Un_iff append_take_drop_id set_append)
  have "sorted (take ?k ?by @ drop ?k ?by)" by simp
  with a b have "(e, i) \<le> (e', i')" unfolding sorted_append by blast
  moreover have "(e, i) \<noteq> (e', i')" using a \<open>(e', i') \<notin> set (take ?k ?by)\<close> by auto
  ultimately show "(e, i) < (e', i')" by order
qed

section \<open>The stores after an event\<close>

definition heap_wf :: "heap \<Rightarrow> bool" where
  "heap_wf h \<longleftrightarrow> (\<forall>c. conn_wf (h c))"

definition window_start :: "u64 \<Rightarrow> u64" where
  "window_start epoch = saturating_sub epoch REPLAY_WINDOW_PRIOR_EPOCHS"

text \<open>The rows a group state may delete: those of its group that are older than its window.\<close>

definition outside_window :: "group_state \<Rightarrow> replay_row \<Rightarrow> bool" where
  "outside_window st = expired_row (gs_group st) (sint (window_start (gs_epoch st)))"

definition keeps_rows :: "group_state \<Rightarrow> heap \<Rightarrow> heap \<Rightarrow> bool" where
  "keeps_rows st h h' \<longleftrightarrow>
     (\<forall>c. \<forall>row \<in> set (conn_rows (h c)). \<not> outside_window st row \<longrightarrow> row \<in> set (conn_rows (h' c)))"

lemma prune_replay_heap:
  assumes "sqlite_ok Q" "heap_wf h"
  shows "heap_wf (snd (prune_replay Q st h))" and "keeps_rows st h (snd (prune_replay Q st h))"
proof -
  let ?m = "window_start (gs_epoch st)"
  have p: "pruned (gs_group st) (sint ?m) (h s) (snd (prune_older_than Q (gs_group st) ?m (h s)))" for s
    using prune_older_than_pruned assms by (simp add: heap_wf_def)
  then show "heap_wf (snd (prune_replay Q st h))"
    using assms(2)
    by (auto simp: prune_replay_def Let_def heap_wf_def pruned_def window_start_def split: option.split)
  have "row \<in> set (conn_rows (snd (prune_older_than Q (gs_group st) ?m (h s))))"
    if "row \<in> set (conn_rows (h s))" "\<not> outside_window st row" for row s
  proof -
    from that have "row \<in> set (filter (\<lambda>r. \<not> expired_row (gs_group st) (sint ?m) r) (conn_rows (h s)))"
      by (simp add: outside_window_def)
    then show ?thesis using p [of s] unfolding pruned_def by (metis filter_is_subset subsetD)
  qed
  then show "keeps_rows st h (snd (prune_replay Q st h))"
    by (auto simp: prune_replay_def Let_def keeps_rows_def window_start_def split: option.split)
qed

lemma outside_window_cong:
  "gs_group st = gs_group st' \<Longrightarrow> gs_epoch st = gs_epoch st' \<Longrightarrow> outside_window st = outside_window st'"
  by (simp add: outside_window_def)

lemma apply_to_heap:
  assumes "apply_to C K Q oc now now' ev st h = (r, st', h')" "sqlite_ok Q" "heap_wf h"
  shows "heap_wf h'" and "keeps_rows st' h h'"
    and "r = Ok () \<Longrightarrow> gs_replay_store st = Some s \<Longrightarrow>
      \<not> has_marker (gs_group st) (ge_event_id (envelope ev)) (h s)
      \<and> (\<not> outside_window st' (marker_row now' (envelope ev) st) \<longrightarrow>
            marker_row now' (envelope ev) st \<in> set (conn_rows (h' s)))"
proof -
  let ?goal = "heap_wf h' \<and> keeps_rows st' h h' \<and> (r = Ok () \<longrightarrow> (\<forall>s. gs_replay_store st = Some s \<longrightarrow>
      \<not> has_marker (gs_group st) (ge_event_id (envelope ev)) (h s)
      \<and> (\<not> outside_window st' (marker_row now' (envelope ev) st) \<longrightarrow>
            marker_row now' (envelope ev) st \<in> set (conn_rows (h' s)))))"
  have ?goal
  proof (cases "r = Ok ()")
    case False
    with apply_to_rejected(2) [OF assms(1)] assms(3) show ?thesis
      by (simp add: heap_wf_def keeps_rows_def same_rows_wf) (simp add: same_rows_def)
  next
    case True
    with assms(1) have a: "apply_to C K Q oc now now' ev st h = (Ok (), st', h')" by simp
    define st1 where "st1 = note_seen (envelope ev) (apply_payload (ge_payload (envelope ev)) st)"
    from a obtain v h1 h2 where v: "event_verify C K oc now ev st h = (Ok v, h1)"
      and m: "record_marker now' (envelope ev) st h1 = (Ok (), h2)"
      and e: "(st', h') = (if is_epoch_change (ge_payload (envelope ev)) then prune_replay Q st1 h2
        else (st1, h2))" unfolding st1_def by (rule apply_to_ok) (simp add: Let_def)
    have sr: "same_rows h h1" by (rule event_verify_rows [OF v])
    have wf2: "heap_wf h2"
      using record_marker_rows(4) [OF m] assms(3) sr by (simp add: heap_wf_def same_rows_wf)
    have sub: "set (conn_rows (h c)) \<subseteq> set (conn_rows (h2 c))" for c
      using record_marker_rows(2,3) [OF m] sr
      by (cases "gs_replay_store st"; cases "Some c = gs_replay_store st") (auto simp: same_rows_def)
    from e have e2: "(st' = st1 \<and> h' = h2)
       \<or> (st' = fst (prune_replay Q st1 h2) \<and> h' = snd (prune_replay Q st1 h2))"
      by (simp add: prod_eq_iff split: if_splits)
    have w: "outside_window st1 = outside_window st'"
      by (rule outside_window_cong) (use e2 in auto)
    have k2: "heap_wf h'" "keeps_rows st' h2 h'"
      using e2 wf2 prune_replay_heap [OF assms(2) wf2, of st1] w
      by (auto simp: keeps_rows_def)
    show ?thesis
      using k2 sub record_marker_rows(3) [OF m] event_verify_ok(5) [OF v]
      by (fastforce simp: keeps_rows_def)
  qed
  then show "heap_wf h'" "keeps_rows st' h h'"
    "r = Ok () \<Longrightarrow> gs_replay_store st = Some s \<Longrightarrow>
      \<not> has_marker (gs_group st) (ge_event_id (envelope ev)) (h s)
      \<and> (\<not> outside_window st' (marker_row now' (envelope ev) st) \<longrightarrow>
            marker_row now' (envelope ev) st \<in> set (conn_rows (h' s)))" by blast+
qed

section \<open>Events that are accepted\<close>

lemma from_payload_envelope [simp]:
  "envelope (from_payload e p) = e" "variant_matches (from_payload e p) p"
  by (cases p; simp)+

lemma signed_event:
  assumes "sign_with_nonce C K sk g epoch ts nonce payload = Ok ev"
  obtains e unsigned where "ev = from_payload e payload" "ge_version e = GROUP_EVENT_VERSION"
    "ge_group e = g" "ge_epoch e = epoch" "ge_actor e = sk_public C sk" "ge_timestamp e = ts"
    "ge_payload e = payload" "make_event_id C K e = Ok (ge_event_id e)"
    "unsigned_bytes K e = Ok unsigned" "ge_signature e = sk_sign C sk unsigned"
proof -
  let ?blank = "\<lparr>ge_version = GROUP_EVENT_VERSION, ge_group = g, ge_event_id = [],
            ge_nonce = nonce, ge_epoch = epoch, ge_actor = sk_public C sk,
            ge_timestamp = ts, ge_payload = payload, ge_signature = []\<rparr>"
  from assms obtain i u where "make_event_id C K ?blank = Ok i"
    "unsigned_bytes K (?blank\<lparr>ge_event_id := i\<rparr>) = Ok u"
    "ev = from_payload (?blank\<lparr>ge_event_id := i, ge_signature := sk_sign C sk u\<rparr>) payload"
    by (auto simp: sign_with_nonce_def Let_def)
  then show ?thesis
    by (intro that [of "?blank\<lparr>ge_event_id := i, ge_signature := sk_sign C sk u\<rparr>" u])
       (simp_all add: make_event_id_def unsigned_bytes_def)
qed

lemma signed_contents:
  assumes "sign_ok C" "sign_with_nonce C K sk g epoch ts nonce payload = Ok ev"
    and "enc_payload K payload = Inr pb" "length pb \<le> MAX_GROUP_EVENT_PAYLOAD"
    and "legacy_unsigned_bytes K (envelope ev) = Ok legacy"
    and "abs_diff now ts \<le> MAX_GROUP_EVENT_CLOCK_SKEW_SECS"
  shows "verify_contents C K now (envelope ev) = Ok ()"
proof -
  from assms(2) obtain e unsigned where e: "ev = from_payload e payload" "ge_version e = GROUP_EVENT_VERSION"
    "ge_group e = g" "ge_epoch e = epoch" "ge_actor e = sk_public C sk" "ge_timestamp e = ts"
    "ge_payload e = payload" "make_event_id C K e = Ok (ge_event_id e)"
    "unsigned_bytes K e = Ok unsigned" "ge_signature e = sk_sign C sk unsigned" by (rule signed_event)
  then show ?thesis using assms by (simp add: verify_contents_def ensure_def)
qed

text \<open>A connection that answers: not poisoned and with no failure ahead.\<close>

definition healthy :: "connection \<Rightarrow> bool" where
  "healthy c \<longleftrightarrow> conn_poisoned c = None \<and> conn_faults c = []"

lemma healthy_statement: "healthy c \<Longrightarrow> statement c = (Ok (), c)"
  by (cases c) (simp add: healthy_def statement_def)

lemma healthy_lock: "healthy c \<Longrightarrow> lock_conn c = Ok ()"
  by (simp add: healthy_def lock_conn_def)

lemma healthy_contains: "healthy c \<Longrightarrow> replay_contains g i c = (Ok (has_marker g i c), c)"
  by (simp add: replay_contains_def healthy_lock healthy_statement)

lemma healthy_record:
  "healthy c \<Longrightarrow> \<not> has_marker g i c \<Longrightarrow> replay_record g epoch i now c =
     (Ok Recorded, c\<lparr>conn_rows := conn_rows c @ [\<lparr>row_group = g, row_epoch = sint epoch, row_event = i,
        row_seen_at = sint now\<rparr>]\<rparr>)"
  by (simp add: replay_record_def healthy_lock healthy_statement insert_or_ignore_def)

lemma healthy_prune:
  assumes "sqlite_ok Q" "conn_wf c" "healthy c"
  shows "conn_rows (snd (prune_older_than Q g m c)) = filter (\<lambda>r. \<not> expired_row g (sint m) r) (conn_rows c)"
    and "healthy (snd (prune_older_than Q g m c))"
proof -
  obtain r c' where p: "prune_loop Q g (sint m) 0 c = (r, c')" by fastforce
  have f: "conn_faults c = [] \<Longrightarrow> conn_poisoned c = None \<Longrightarrow>
      conn_faults (snd (prune_loop Q g k n c)) = [] \<and> conn_poisoned (snd (prune_loop Q g k n c)) = None"
    for Q g k n c
  proof (induction Q g k n c rule: prune_loop.induct)
    case (1 Q g m acc c)
    then show ?case
      by (subst (1 2) prune_loop.simps) (auto simp: statement_def delete_batch_def Let_def)
  qed
  from prune_loop_pruned [OF assms(1,2) p] assms(3) have
    "conn_rows c' = filter (\<lambda>r. \<not> expired_row g (sint m) r) (conn_rows c)"
    by (auto simp: healthy_def is_ok_iff)
  then show "conn_rows (snd (prune_older_than Q g m c)) = filter (\<lambda>r. \<not> expired_row g (sint m) r) (conn_rows c)"
    using p assms(3) by (simp add: prune_older_than_def lock_conn_def healthy_def)
  show "healthy (snd (prune_older_than Q g m c))"
    using f [of c Q g "sint m" 0] assms(3) by (simp add: prune_older_than_def lock_conn_def healthy_def)
qed

lemma apply_accepts:
  assumes "verify_header oc ev st = Ok ()" "verify_contents C K now (envelope ev) = Ok ()"
    and "map_of (gs_seen st) (ge_event_id (envelope ev)) = None"
    and "gs_replay_store st = Some s" "healthy (h s)"
    and "\<not> has_marker (gs_group st) (ge_event_id (envelope ev)) (h s)"
    and "actor_role (envelope ev) st = Ok r"
    and "allowed (ge_payload (envelope ev)) r (ge_actor (envelope ev)) st"
  shows "fst (apply_to C K Q oc now now' ev st h) = Ok ()"
  using assms
  by (simp add: apply_to_def event_verify_def check_replay_def record_marker_def healthy_contains
      healthy_record Let_def)

end
