(* ===== verification/Group_Membership.thy ===== *)
theory Group_Membership
  imports Group_Events_Inv
begin

text \<open>
  The properties of group events over whole histories.  A world holds the states of
  several groups and the connections of their replay stores, which they may share; its
  steps apply an event to one group or prune its markers, and emit the identity of every
  accepted event.
\<close>

section \<open>Worlds of groups\<close>

record group_world =
  gw_states :: "group_state list"
  gw_heap :: heap

datatype group_op = ApplyEvent nat group_event u64 u64 | PruneReplay nat

type_synonym accepted = "group_topic \<times> event_id \<times> u64"

definition event_key :: "group_event \<Rightarrow> accepted" where
  "event_key ev = (ge_group (envelope ev), ge_event_id (envelope ev), ge_epoch (envelope ev))"

fun gw_step ::
  "crypto \<Rightarrow> group_codec \<Rightarrow> sqlite \<Rightarrow> bool \<Rightarrow> group_world \<Rightarrow> group_op \<Rightarrow> (group_world \<times> accepted list) option" where
  "gw_step C K Q oc w (ApplyEvent j ev now now') =
     Some (if j < length (gw_states w) then
             (case apply_to C K Q oc now now' ev (gw_states w ! j) (gw_heap w) of
                (r, st, h) \<Rightarrow>
                  (\<lparr>gw_states = (gw_states w)[j := st], gw_heap = h\<rparr>,
                   if r = Ok () then [event_key ev] else []))
           else (w, []))"
| "gw_step C K Q oc w (PruneReplay j) =
     Some (if j < length (gw_states w) then
             (case prune_replay Q (gw_states w ! j) (gw_heap w) of
                (st, h) \<Rightarrow> (\<lparr>gw_states = (gw_states w)[j := st], gw_heap = h\<rparr>, []))
           else (w, []))"

definition gw_inv :: "group_world \<Rightarrow> bool" where
  "gw_inv w \<longleftrightarrow> heap_wf (gw_heap w) \<and> distinct (map gs_group (gw_states w))
     \<and> list_all (\<lambda>st. gs_replay_store st \<noteq> None) (gw_states w)"

definition store_of :: "group_world \<Rightarrow> nat \<Rightarrow> connection" where
  "store_of w j = gw_heap w (the (gs_replay_store (gw_states w ! j)))"

definition epoch_of :: "group_world \<Rightarrow> nat \<Rightarrow> u64" where
  "epoch_of w j = gs_epoch (gw_states w ! j)"

definition group_of :: "group_world \<Rightarrow> nat \<Rightarrow> group_topic" where
  "group_of w j = gs_group (gw_states w ! j)"

definition marked :: "group_topic \<Rightarrow> event_id \<Rightarrow> u64 \<Rightarrow> connection \<Rightarrow> bool" where
  "marked g i e c \<longleftrightarrow> (\<exists>row \<in> set (conn_rows c). row_group row = g \<and> row_event row = i \<and> row_epoch row = sint e)"

definition storable :: "u64 \<Rightarrow> bool" where
  "storable e \<longleftrightarrow> unat e < 2 ^ 63"

lemma marked_has_marker: "marked g i e c \<Longrightarrow> has_marker g i c"
  by (auto simp: marked_def has_marker_def list_ex_iff)

lemma unat_window_start: "unat (window_start e) = unat e - 2"
  by (simp add: window_start_def unat_saturating_sub REPLAY_WINDOW_PRIOR_EPOCHS_def)

lemma window_start_mono: "e \<le> e' \<Longrightarrow> window_start e \<le> window_start e'"
  by (simp add: word_le_nat_alt unat_window_start)

lemma storable_mono: "e \<le> e' \<Longrightarrow> storable e' \<Longrightarrow> storable e"
  by (auto simp: storable_def word_le_nat_alt)

text \<open>The marker of an event within the window is not among the rows a prune deletes.\<close>

lemma in_window_kept:
  assumes "storable e" "storable (gs_epoch st)" "window_start (gs_epoch st) \<le> e" "row_epoch row = sint e"
  shows "\<not> outside_window st row"
proof -
  have "storable (window_start (gs_epoch st))"
    using assms(2) by (simp add: storable_def unat_window_start)
  then have "sint (window_start (gs_epoch st)) \<le> sint e"
    using assms(1,3) by (simp add: storable_def sint_small word_le_def)
  with assms(4) show ?thesis by (simp add: outside_window_def expired_row_def)
qed

section \<open>What a stretch of a history does\<close>

text \<open>
  \<open>gw_frame\<close>: groups and stores stay, epochs do not decrease.  \<open>gw_keeps\<close>: markers within
  the window of the final epoch stay.  \<open>gw_fresh\<close>: an accepted event belongs to an epoch the
  group was in during the stretch, had no marker at the beginning if it belongs to the first
  of them, and has one at the end if it is still within the window.
\<close>

definition gw_frame :: "group_world \<Rightarrow> group_world \<Rightarrow> bool" where
  "gw_frame w w' \<longleftrightarrow> map gs_group (gw_states w') = map gs_group (gw_states w)
     \<and> map gs_replay_store (gw_states w') = map gs_replay_store (gw_states w)
     \<and> (\<forall>j < length (gw_states w). epoch_of w j \<le> epoch_of w' j)"

definition gw_keeps :: "group_world \<Rightarrow> group_world \<Rightarrow> bool" where
  "gw_keeps w w' \<longleftrightarrow> (\<forall>j < length (gw_states w). \<forall>i e.
     storable e \<longrightarrow> storable (epoch_of w' j) \<longrightarrow> window_start (epoch_of w' j) \<le> e
       \<longrightarrow> marked (group_of w j) i e (store_of w j) \<longrightarrow> marked (group_of w j) i e (store_of w' j))"

definition gw_fresh :: "group_world \<Rightarrow> group_world \<Rightarrow> accepted \<Rightarrow> bool" where
  "gw_fresh w w' = (\<lambda>(g, i, e). \<exists>j < length (gw_states w). group_of w j = g
     \<and> epoch_of w j \<le> e \<and> e \<le> epoch_of w' j
     \<and> (e = epoch_of w j \<longrightarrow> storable e \<longrightarrow> \<not> marked g i e (store_of w j))
     \<and> (storable (epoch_of w' j) \<longrightarrow> window_start (epoch_of w' j) \<le> e \<longrightarrow> marked g i e (store_of w' j)))"

definition gw_rel :: "group_world \<Rightarrow> accepted list \<Rightarrow> group_world \<Rightarrow> bool" where
  "gw_rel w out w' \<longleftrightarrow> gw_frame w w' \<and> gw_keeps w w' \<and> list_all (gw_fresh w w') out
     \<and> (gw_inv w \<longrightarrow> gw_inv w')
     \<and> (gw_inv w \<longrightarrow> (\<forall>j < length (gw_states w). storable (epoch_of w' j)) \<longrightarrow> distinct out)"

lemma gw_frame_length: "gw_frame w w' \<Longrightarrow> length (gw_states w') = length (gw_states w)"
  unfolding gw_frame_def by (metis length_map)

lemma gw_frame_at:
  assumes "gw_frame w w'" "j < length (gw_states w)"
  shows "group_of w' j = group_of w j"
    and "gs_replay_store (gw_states w' ! j) = gs_replay_store (gw_states w ! j)"
    and "epoch_of w j \<le> epoch_of w' j"
proof -
  have "length (gw_states w') = length (gw_states w)" using assms(1) by (rule gw_frame_length)
  with assms show "group_of w' j = group_of w j"
    unfolding gw_frame_def group_of_def by (metis nth_map)
  show "gs_replay_store (gw_states w' ! j) = gs_replay_store (gw_states w ! j)"
    using assms \<open>length (gw_states w') = _\<close> unfolding gw_frame_def by (metis nth_map)
  show "epoch_of w j \<le> epoch_of w' j" using assms by (simp add: gw_frame_def)
qed

lemma gw_inv_groups:
  "gw_inv w \<Longrightarrow> j < length (gw_states w) \<Longrightarrow> k < length (gw_states w) \<Longrightarrow> group_of w j = group_of w k \<Longrightarrow> j = k"
  unfolding gw_inv_def group_of_def by (metis length_map nth_eq_iff_index_eq nth_map)

lemma gw_rel_refl: "gw_rel w [] w"
  by (simp add: gw_rel_def gw_frame_def gw_keeps_def)

lemma gw_keeps_trans:
  assumes "gw_frame w w1" "gw_keeps w w1" "gw_frame w1 w2" "gw_keeps w1 w2"
  shows "gw_keeps w w2"
  unfolding gw_keeps_def
proof (intro allI impI)
  fix j i e
  assume j: "j < length (gw_states w)" and e: "storable e" "storable (epoch_of w2 j)"
    "window_start (epoch_of w2 j) \<le> e" "marked (group_of w j) i e (store_of w j)"
  have j1: "j < length (gw_states w1)" using j gw_frame_length [OF assms(1)] by simp
  have le: "epoch_of w1 j \<le> epoch_of w2 j" using gw_frame_at(3) [OF assms(3) j1] .
  have "storable (epoch_of w1 j)" "window_start (epoch_of w1 j) \<le> e"
    using storable_mono [OF le e(2)] window_start_mono [OF le] e(3) by auto
  then have "marked (group_of w j) i e (store_of w1 j)" using assms(2) j e by (simp add: gw_keeps_def)
  then show "marked (group_of w j) i e (store_of w2 j)"
    using assms(4) j1 e gw_frame_at(1) [OF assms(1) j] unfolding gw_keeps_def by metis
qed

lemma gw_fresh_trans:
  assumes "gw_frame w w1" "gw_keeps w w1" "gw_frame w1 w2" "gw_keeps w1 w2"
  shows "gw_fresh w w1 x \<Longrightarrow> gw_fresh w w2 x" and "gw_fresh w1 w2 x \<Longrightarrow> gw_fresh w w2 x"
proof -
  obtain g i e where x: "x = (g, i, e)" by (cases x)
  have len: "length (gw_states w1) = length (gw_states w)" by (rule gw_frame_length [OF assms(1)])
  note f1 = gw_frame_at [OF assms(1)] and f2 = gw_frame_at [OF assms(3), unfolded len]
  show "gw_fresh w w2 x" if "gw_fresh w w1 x"
  proof -
    from that x obtain j where j: "j < length (gw_states w)" "group_of w j = g" "epoch_of w j \<le> e"
      "e \<le> epoch_of w1 j" "e = epoch_of w j \<longrightarrow> storable e \<longrightarrow> \<not> marked g i e (store_of w j)"
      "storable (epoch_of w1 j) \<longrightarrow> window_start (epoch_of w1 j) \<le> e \<longrightarrow> marked g i e (store_of w1 j)"
      by (auto simp: gw_fresh_def)
    have le: "epoch_of w1 j \<le> epoch_of w2 j" by (rule f2(3) [OF j(1)])
    have "marked g i e (store_of w2 j)" if "storable (epoch_of w2 j)" "window_start (epoch_of w2 j) \<le> e"
    proof -
      have s1: "storable (epoch_of w1 j)" by (rule storable_mono [OF le that(1)])
      moreover have "window_start (epoch_of w1 j) \<le> e" using window_start_mono [OF le] that(2) by order
      ultimately have "marked g i e (store_of w1 j)" using j(6) by simp
      moreover have "storable e" by (rule storable_mono [OF j(4) s1])
      ultimately show ?thesis
        using assms(4) that j(1,2) f1(1) [OF j(1)] len unfolding gw_keeps_def by metis
    qed
    with j le show ?thesis unfolding x gw_fresh_def by (auto intro!: exI [of _ j])
  qed
  show "gw_fresh w w2 x" if "gw_fresh w1 w2 x"
  proof -
    from that x obtain j where j: "j < length (gw_states w)" "group_of w1 j = g" "epoch_of w1 j \<le> e"
      "e \<le> epoch_of w2 j" "e = epoch_of w1 j \<longrightarrow> storable e \<longrightarrow> \<not> marked g i e (store_of w1 j)"
      "storable (epoch_of w2 j) \<longrightarrow> window_start (epoch_of w2 j) \<le> e \<longrightarrow> marked g i e (store_of w2 j)"
      by (auto simp: gw_fresh_def len)
    have le: "epoch_of w j \<le> epoch_of w1 j" by (rule f1(3) [OF j(1)])
    have "\<not> marked g i e (store_of w j)" if "e = epoch_of w j" "storable e"
    proof
      assume m: "marked g i e (store_of w j)"
      have e1: "epoch_of w1 j = e" using le j(3) that(1) by order
      moreover have "window_start e \<le> e" by (simp add: word_le_nat_alt unat_window_start)
      ultimately have "marked g i e (store_of w1 j)"
        using assms(2) j(1,2) m that(2) f1(1) [OF j(1)] unfolding gw_keeps_def by metis
      with j(5) e1 that(2) show False by simp
    qed
    with j le f1(1) [OF j(1)] show ?thesis unfolding x gw_fresh_def by (auto intro!: exI [of _ j])
  qed
qed

lemma gw_rel_trans:
  assumes r1: "gw_rel w o1 w1" and r2: "gw_rel w1 o2 w2"
  shows "gw_rel w (o1 @ o2) w2"
proof -
  have f: "gw_frame w w1" "gw_keeps w w1" "gw_frame w1 w2" "gw_keeps w1 w2"
    using r1 r2 by (simp_all add: gw_rel_def)
  have len: "length (gw_states w1) = length (gw_states w)" by (rule gw_frame_length [OF f(1)])
  have frame: "gw_frame w w2"
    unfolding gw_frame_def
  proof (intro conjI allI impI)
    show "epoch_of w j \<le> epoch_of w2 j" if "j < length (gw_states w)" for j
      using gw_frame_at(3) [OF f(1) that] gw_frame_at(3) [OF f(3), of j] that len by simp
  qed (use f in \<open>simp_all add: gw_frame_def\<close>)
  have fresh: "list_all (gw_fresh w w2) (o1 @ o2)"
    using r1 r2 gw_fresh_trans [OF f] by (auto simp: gw_rel_def list_all_iff)
  have "distinct (o1 @ o2)" if inv: "gw_inv w" and st: "\<forall>j < length (gw_states w). storable (epoch_of w2 j)"
  proof -
    have inv1: "gw_inv w1" using r1 inv by (simp add: gw_rel_def)
    have le: "epoch_of w1 j \<le> epoch_of w2 j" if "j < length (gw_states w)" for j
      using gw_frame_at(3) [OF f(3)] that len by simp
    then have st1: "storable (epoch_of w1 j)" if "j < length (gw_states w)" for j
      using storable_mono st that by blast
    have d: "distinct o1" "distinct o2"
      using r1 r2 inv inv1 st st1 len by (simp_all add: gw_rel_def)
    have "x \<notin> set o2" if "x \<in> set o1" for x
    proof
      assume "x \<in> set o2"
      with that r1 r2 have "gw_fresh w w1 x" "gw_fresh w1 w2 x" by (auto simp: gw_rel_def list_all_iff)
      moreover obtain g i e where x: "x = (g, i, e)" by (cases x)
      ultimately obtain j k where j: "j < length (gw_states w)" "group_of w j = g" "e \<le> epoch_of w1 j"
          "storable (epoch_of w1 j) \<longrightarrow> window_start (epoch_of w1 j) \<le> e \<longrightarrow> marked g i e (store_of w1 j)"
        and k: "k < length (gw_states w)" "group_of w1 k = g" "epoch_of w1 k \<le> e"
          "e = epoch_of w1 k \<longrightarrow> storable e \<longrightarrow> \<not> marked g i e (store_of w1 k)"
        by (auto simp: gw_fresh_def len)
      have "j = k" using gw_inv_groups [OF inv1, of j k] j k gw_frame_at(1) [OF f(1) j(1)] len by simp
      with j(3) k(3) have e: "epoch_of w1 j = e" by simp
      have "window_start e \<le> e" by (simp add: word_le_nat_alt unat_window_start)
      with j k e st1 [OF j(1)] \<open>j = k\<close> show False by simp
    qed
    with d show ?thesis by auto
  qed
  with frame fresh gw_keeps_trans [OF f] r1 r2 show ?thesis by (auto simp: gw_rel_def)
qed

text \<open>A step that replaces one state and keeps the rows of the window.\<close>

lemma gw_update:
  assumes inv: "gw_inv w" and j: "j < length (gw_states w)"
    and st: "gs_group st = gs_group (gw_states w ! j)"
      "gs_replay_store st = gs_replay_store (gw_states w ! j)" "gs_epoch (gw_states w ! j) \<le> gs_epoch st"
    and h: "heap_wf h" "keeps_rows st (gw_heap w) h"
    and w': "w' = \<lparr>gw_states = (gw_states w)[j := st], gw_heap = h\<rparr>"
  shows "gw_frame w w'" and "gw_keeps w w'" and "gw_inv w'"
proof -
  have groups: "map gs_group (gw_states w') = map gs_group (gw_states w)"
    and stores: "map gs_replay_store (gw_states w') = map gs_replay_store (gw_states w)"
    using j st by (simp_all add: w' map_update list_update_same_conv)
  show frame: "gw_frame w w'"
    unfolding gw_frame_def using groups stores st(3) j by (auto simp: w' epoch_of_def nth_list_update)
  show "gw_inv w'"
    using inv groups j st h(1) unfolding gw_inv_def
    by (auto simp: w' list_all_length nth_list_update)
  show "gw_keeps w w'"
    unfolding gw_keeps_def
  proof (intro allI impI)
    fix k i e
    assume k: "k < length (gw_states w)" and e: "storable e" "storable (epoch_of w' k)"
      "window_start (epoch_of w' k) \<le> e" "marked (group_of w k) i e (store_of w k)"
    from e(4) obtain row where row: "row \<in> set (conn_rows (store_of w k))" "row_group row = group_of w k"
      "row_event row = i" "row_epoch row = sint e" by (auto simp: marked_def)
    have "\<not> outside_window st row"
    proof (cases "k = j")
      case True
      then show ?thesis using in_window_kept [OF e(1) _ _ row(4)] e(2,3) j by (simp add: w' epoch_of_def)
    next
      case False
      then have "row_group row \<noteq> gs_group st"
        using gw_inv_groups [OF inv k j] row(2) st(1) by (auto simp: group_of_def)
      then show ?thesis by (simp add: outside_window_def expired_row_def)
    qed
    then have "row \<in> set (conn_rows (h (the (gs_replay_store (gw_states w ! k)))))"
      using h(2) row(1) by (simp add: keeps_rows_def store_of_def)
    moreover have "store_of w' k = h (the (gs_replay_store (gw_states w ! k)))"
      using st(2) j by (simp add: store_of_def w' nth_list_update)
    ultimately show "marked (group_of w k) i e (store_of w' k)" using row by (auto simp: marked_def)
  qed
qed

lemma gw_step_rel:
  assumes Q: "sqlite_ok Q" and inv: "gw_inv w" and step: "gw_step C K Q oc w x = Some (w', out)"
  shows "gw_rel w out w'"
proof (cases x)
  case (PruneReplay j)
  show ?thesis
  proof (cases "j < length (gw_states w)")
    case True
    let ?p = "prune_replay Q (gw_states w ! j) (gw_heap w)"
    have hw: "heap_wf (gw_heap w)" using inv by (simp add: gw_inv_def)
    have "keeps_rows (fst ?p) (gw_heap w) (snd ?p)"
      using prune_replay_heap(2) [OF Q hw, of "gw_states w ! j"]
      by (simp add: keeps_rows_def outside_window_def)
    moreover have "w' = \<lparr>gw_states = (gw_states w)[j := fst ?p], gw_heap = snd ?p\<rparr>" "out = []"
      using step True PruneReplay by (auto simp: case_prod_unfold)
    ultimately show ?thesis
      using gw_update [OF inv True, of "fst ?p" "snd ?p" w'] prune_replay_heap(1) [OF Q hw]
      by (simp add: gw_rel_def)
  qed (use step PruneReplay gw_rel_refl in auto)
next
  case (ApplyEvent j ev now now')
  show ?thesis
  proof (cases "j < length (gw_states w)")
    case True
    let ?st = "gw_states w ! j"
    obtain r st h where a: "apply_to C K Q oc now now' ev ?st (gw_heap w) = (r, st, h)"
      by (metis surj_pair)
    have w': "w' = \<lparr>gw_states = (gw_states w)[j := st], gw_heap = h\<rparr>"
      and out: "out = (if r = Ok () then [event_key ev] else [])"
      using step True ApplyEvent a by auto
    have hw: "heap_wf (gw_heap w)" using inv by (simp add: gw_inv_def)
    have same: "gs_group st = gs_group ?st" "gs_replay_store st = gs_replay_store ?st"
      using apply_to_state [of C K Q oc now now' ev ?st "gw_heap w" st h] apply_to_rejected(1) [OF a] a
      by (cases "r = Ok ()"; simp)+
    note H = apply_to_heap [OF a Q hw]
    note U = gw_update [OF inv True same epoch_monotone [OF a] H(1,2) w']
    have "gw_fresh w w' (event_key ev)" if ok: "r = Ok ()"
    proof -
      from a ok obtain v h1 where v: "event_verify C K oc now ev ?st (gw_heap w) = (Ok v, h1)"
        using apply_to_ok by metis
      note hd = verify_header_ok [OF event_verify_ok(1) [OF v]]
      obtain s where s: "gs_replay_store ?st = Some s" using inv True by (auto simp: gw_inv_def list_all_length)
      have st: "store_of w j = gw_heap w s" "store_of w' j = h s"
        using s same(2) True by (simp_all add: store_of_def w')
      have ep: "epoch_of w' j = gs_epoch st" using True by (simp add: epoch_of_def w')
      have "marked (gs_group ?st) (ge_event_id (envelope ev)) (gs_epoch ?st) (h s)"
        if "storable (gs_epoch st)" "window_start (gs_epoch st) \<le> gs_epoch ?st"
      proof -
        have "storable (gs_epoch ?st)" using epoch_monotone [OF a] that(1) by (rule storable_mono)
        then have "\<not> outside_window st (marker_row now' (envelope ev) ?st)"
          using in_window_kept [OF _ that] hd(3) by (simp add: marker_row_def)
        with H(3) [OF ok s] show ?thesis
          using hd(3) unfolding marked_def by (intro bexI [of _ "marker_row now' (envelope ev) ?st"])
            (simp_all add: marker_row_def)
      qed
      with H(3) [OF ok s] True hd epoch_monotone [OF a] st ep show ?thesis
        unfolding gw_fresh_def event_key_def
        by (auto simp: group_of_def epoch_of_def dest: marked_has_marker intro!: exI [of _ j])
    qed
    with U inv out show ?thesis by (simp add: gw_rel_def)
  qed (use step ApplyEvent gw_rel_refl in auto)
qed

interpretation gwm: tracked_machine "gw_step C K Q oc" "\<lambda>w. sqlite_ok Q \<and> gw_inv w" "\<lambda>x. True" gw_rel
  for C K Q oc
proof unfold_locales
  fix w x assume w: "sqlite_ok Q \<and> gw_inv w"
  have "gw_step C K Q oc w x \<noteq> None" by (cases x) simp_all
  then obtain w' out where s: "gw_step C K Q oc w x = Some (w', out)" by auto
  with gw_step_rel [of Q w C K oc x w' out] w
  show "\<exists>w' out. gw_step C K Q oc w x = Some (w', out) \<and> sqlite_ok Q \<and> gw_inv w'"
    by (auto simp: gw_rel_def)
next
  show "gw_rel w out w'" if "sqlite_ok Q \<and> gw_inv w" "gw_step C K Q oc w x = Some (w', out)"
    for w x w' out using gw_step_rel that by blast
qed (auto intro: gw_rel_refl gw_rel_trans)

section \<open>An instance\<close>

fun payload_bytes :: "group_event_payload \<Rightarrow> bytes" where
  "payload_bytes (PMemberInvited m) = 0 # m"
| "payload_bytes (PMemberJoined m) = 1 # m"
| "payload_bytes (PMemberLeft m) = 2 # m"
| "payload_bytes (PMemberRemoved m) = 3 # m"
| "payload_bytes (PMetadataChanged n d) = [4]"
| "payload_bytes (PEpochChanged n) = [5, ucast n]"

definition demo_group_codec :: group_codec where
  "demo_group_codec =
     \<lparr>enc_payload = (\<lambda>p. Inr (payload_bytes p)),
      enc_signed = (\<lambda>(d, v, g, i, n, e, a, t, p). Inr (g @ i @ n @ [ucast e] @ a @ payload_bytes p)),
      enc_unsigned_legacy = (\<lambda>(v, g, i, n, e, a, t, p). Inr (g @ i @ n @ a @ payload_bytes p)),
      enc_identity = (\<lambda>(v, a, g, e, t, n, p). Inr (a @ g @ [ucast e] @ n @ payload_bytes p)),
      enc_event = (\<lambda>ev. Inr (payload_bytes (ge_payload (envelope ev)))),
      dec_event = (\<lambda>b. Inl ''truncated'')\<rparr>"

text \<open>Group 9 of owner 1, its replay store on connection 0; the owner invites peer 2.\<close>

definition demo_sign_event :: "u64 \<Rightarrow> secret_key \<Rightarrow> u8 \<Rightarrow> group_event_payload \<Rightarrow> group_event" where
  "demo_sign_event epoch sk nonce p =
     the_ok (sign_with_nonce demo_crypto demo_group_codec sk [9] epoch 100 [nonce] p)"

definition demo_heap :: heap where
  "demo_heap = (\<lambda>c. \<lparr>conn_rows = [], conn_poisoned = None, conn_faults = []\<rparr>)"

definition demo_group :: group_state where
  "demo_group = with_replay_store [9] [1] 0"

definition demo_invite :: group_event where
  "demo_invite = demo_sign_event 0 [1] 1 (PMemberInvited [2])"

definition demo_rotate :: group_event where
  "demo_rotate = demo_sign_event 0 [1] 2 (PEpochChanged 3)"

definition demo_world :: group_world where
  "demo_world = \<lparr>gw_states = [demo_group], gw_heap = demo_heap\<rparr>"

lemma demo_signed:
  "sign_with_nonce demo_crypto demo_group_codec sk [9] epoch 100 [nonce] p
     = Ok (demo_sign_event epoch sk nonce p)"
  by (simp add: demo_sign_event_def sign_with_nonce_def Let_def make_event_id_def unsigned_bytes_def
      canonical_signed_bytes_def demo_group_codec_def)

lemma demo_event_fields:
  "ge_version (envelope (demo_sign_event epoch sk nonce p)) = GROUP_EVENT_VERSION"
  "ge_group (envelope (demo_sign_event epoch sk nonce p)) = [9]"
  "ge_epoch (envelope (demo_sign_event epoch sk nonce p)) = epoch"
  "ge_actor (envelope (demo_sign_event epoch sk nonce p)) = sk"
  "ge_payload (envelope (demo_sign_event epoch sk nonce p)) = p"
  "ge_event_id (envelope (demo_sign_event epoch sk nonce p))
     = take EVENT_ID_LEN (blake3 demo_crypto
         (EVENT_ID_DOMAIN @ sk @ [9, ucast epoch, nonce] @ payload_bytes p))"
  "variant_matches (demo_sign_event epoch sk nonce p) p"
  by (simp_all add: demo_sign_event_def sign_with_nonce_def Let_def make_event_id_def unsigned_bytes_def
      canonical_signed_bytes_def demo_group_codec_def) (simp_all add: demo_crypto_def)

lemma demo_contents:
  assumes "abs_diff now 100 \<le> MAX_GROUP_EVENT_CLOCK_SKEW_SECS" "length (payload_bytes p) \<le> MAX_GROUP_EVENT_PAYLOAD"
  shows "verify_contents demo_crypto demo_group_codec now (envelope (demo_sign_event epoch sk nonce p)) = Ok ()"
  by (rule signed_contents [OF crypto_okD(1) [OF demo_crypto_ok] demo_signed])
     (use assms in \<open>simp_all add: demo_group_codec_def legacy_unsigned_bytes_def\<close>)

lemma demo_header:
  "gs_group st = [9] \<Longrightarrow> gs_epoch st = epoch \<Longrightarrow> epoch_advances oc p epoch = Ok () \<Longrightarrow>
   verify_header oc (demo_sign_event epoch sk nonce p) st = Ok ()"
  by (simp add: verify_header_def Let_def demo_event_fields)

lemma demo_invite_accepted:
  "fst (apply_to demo_crypto demo_group_codec Q oc 100 now' demo_invite demo_group demo_heap) = Ok ()"
proof (rule apply_accepts)
  show "verify_header oc demo_invite demo_group = Ok ()"
    unfolding demo_invite_def by (rule demo_header) (simp_all add: demo_group_def with_replay_store_def gs_new_def)
  show "verify_contents demo_crypto demo_group_codec 100 (envelope demo_invite) = Ok ()"
    unfolding demo_invite_def
    by (rule demo_contents) (simp_all add: abs_diff_def MAX_GROUP_EVENT_PAYLOAD_def)
  show "actor_role (envelope demo_invite) demo_group = Ok Owner"
    by (simp add: actor_role_def demo_invite_def demo_event_fields demo_group_def with_replay_store_def gs_new_def)
qed (simp_all add: demo_group_def demo_heap_def with_replay_store_def gs_new_def healthy_def has_marker_def
      demo_invite_def demo_event_fields)

lemma demo_world_inv: "sqlite_ok demo_sqlite \<and> gw_inv demo_world"
  by (simp add: demo_sqlite_ok gw_inv_def demo_world_def heap_wf_def demo_heap_def conn_wf_def row_keys_def
      demo_group_def with_replay_store_def)

section \<open>No event is accepted twice\<close>

text \<open>
  C4. While a node keeps its group states in memory, no event is accepted twice: whatever
  sequence of events, valid or not, is offered to its groups, each of which has one state
  with a replay store, and however the states share the stores.  Every accepted event of
  the current and the two preceding epochs of its group has a marker in the store.
  Failures of SQLite in between do not matter.  The epochs have to stay below \<open>2 ^ 63\<close>, the
  sign bit of the stored integer, at the end of the run; one signed event of an owner can
  exceed it.  The run has no restart: a state that is rebuilt starts at the first epoch and
  accepts an event again whose marker was pruned.
\<close>

theorem event_accepted_once:
  assumes "sqlite_ok Q" and "gw_inv w"
    and "run_machine (gw_step C K Q oc) w xs = Some (w', out)"
    and "list_all (\<lambda>st. unat (gs_epoch st) < 2 ^ 63) (gw_states w')"
  shows "distinct out
     \<and> (\<forall>(g, i, e) \<in> set out. \<exists>st \<in> set (gw_states w'). gs_group st = g
          \<and> (unat (gs_epoch st) \<le> unat e + 2
               \<longrightarrow> has_marker g i (gw_heap w' (the (gs_replay_store st)))))"
proof -
  have "list_all (\<lambda>x. True) xs" by (simp add: list_all_iff)
  with gwm.run_rel [OF conjI [OF assms(1,2)] _ assms(3)] have rel: "gw_rel w out w'" by blast
  then have frame: "gw_frame w w'" by (simp add: gw_rel_def)
  note len = gw_frame_length [OF frame]
  have st: "\<forall>j < length (gw_states w). storable (epoch_of w' j)"
    using assms(4) by (simp add: list_all_length len storable_def epoch_of_def)
  have "\<exists>st \<in> set (gw_states w'). gs_group st = g
      \<and> (unat (gs_epoch st) \<le> unat e + 2 \<longrightarrow> has_marker g i (gw_heap w' (the (gs_replay_store st))))"
    if "(g, i, e) \<in> set out" for g i e
  proof -
    from that rel have "gw_fresh w w' (g, i, e)" by (auto simp: gw_rel_def list_all_iff)
    then obtain j where j: "j < length (gw_states w)" "group_of w j = g"
      "storable (epoch_of w' j) \<longrightarrow> window_start (epoch_of w' j) \<le> e \<longrightarrow> marked g i e (store_of w' j)"
      by (auto simp: gw_fresh_def)
    show ?thesis
      using j st gw_frame_at(1) [OF frame j(1)] len
      by (intro bexI [of _ "gw_states w' ! j"])
         (auto simp: group_of_def epoch_of_def store_of_def word_le_nat_alt unat_window_start marked_has_marker)
  qed
  with rel assms(2) st show ?thesis by (auto simp: gw_rel_def)
qed

lemma invite_keeps_epoch:
  "ge_payload (envelope ev) = PMemberInvited m \<Longrightarrow> apply_to C K Q oc now now' ev st h = (r, st', h') \<Longrightarrow>
   gs_epoch st' = gs_epoch st"
  using apply_to_state(4) [of C K Q oc now now' ev st h st' h'] apply_to_rejected(1) [of C K Q oc now now' ev st h r st' h']
  by (cases "r = Ok ()") auto

theorem event_accepted_once_witness:
  "\<exists>w'. run_machine (gw_step demo_crypto demo_group_codec demo_sqlite True) demo_world
     [ApplyEvent 0 demo_invite 100 100, ApplyEvent 0 demo_invite 200 200] = Some (w', [event_key demo_invite])"
proof -
  let ?app = "apply_to demo_crypto demo_group_codec demo_sqlite True"
  have p: "ge_payload (envelope demo_invite) = PMemberInvited [2]" by (simp add: demo_invite_def demo_event_fields)
  obtain st h where a: "?app 100 100 demo_invite demo_group demo_heap = (Ok (), st, h)"
    using demo_invite_accepted [of demo_sqlite True 100] by (metis prod.collapse)
  obtain r st' h' where b: "?app 200 200 demo_invite st h = (r, st', h')" by (metis surj_pair)
  have e: "gs_epoch st' = 0"
    using invite_keeps_epoch [OF p a] invite_keeps_epoch [OF p b]
    by (simp add: demo_group_def with_replay_store_def gs_new_def)
  let ?w = "\<lparr>gw_states = [st'], gw_heap = h'\<rparr>"
  have run: "run_machine (gw_step demo_crypto demo_group_codec demo_sqlite True) demo_world
     [ApplyEvent 0 demo_invite 100 100, ApplyEvent 0 demo_invite 200 200]
     = Some (?w, event_key demo_invite # (if r = Ok () then [event_key demo_invite] else []))"
    using a b by (simp add: demo_world_def)
  have "r \<noteq> Ok ()"
    using event_accepted_once [OF _ _ run] demo_world_inv e by auto
  with run show ?thesis by auto
qed

end
