(* ===== verification/Group_Authority.thy ===== *)
theory Group_Authority
  imports Group_Membership
begin

text \<open>
  The properties of single events: who may change the membership, what a rejected event
  leaves alone, that signed events are accepted, and the boundary cases of the last epoch,
  of a pending invitation and of a restart.
\<close>

section \<open>Rejected events\<close>

text \<open>An accepted event was looked up in the store and recorded there, without an error.\<close>

lemma store_answered:
  assumes "apply_to C K Q oc now now' ev st h = (Ok (), st', h')" and "gs_replay_store st = Some s"
  obtains c c' where "replay_contains (gs_group st) (ge_event_id (envelope ev)) (h s) = (Ok False, c)"
    and "replay_record (gs_group st) (ge_epoch (envelope ev)) (ge_event_id (envelope ev)) now' c = (Ok Recorded, c')"
proof -
  let ?e = "envelope ev"
  obtain x c where c: "replay_contains (gs_group st) (ge_event_id ?e) (h s) = (x, c)" by fastforce
  obtain z c' where c': "replay_record (gs_group st) (ge_epoch ?e) (ge_event_id ?e) now' c = (z, c')" by fastforce
  obtain q h1 where v: "event_verify C K oc now ev st h = (Ok q, h1)" using assms(1) by (rule apply_to_ok)
  then have x: "x = Ok False" and h1: "h1 s = c"
    using assms(2) c by (auto simp: event_verify_def check_replay_def Let_def split: outcome.splits if_splits)
  have "z = Ok Recorded"
    using assms v c' h1
    by (cases z) (auto simp: apply_to_def record_marker_def Let_def split: outcome.splits record_outcome.splits)
  with c c' x show ?thesis by (intro that) simp_all
qed

text \<open>The lookup takes two statements and the insertion one.\<close>

lemma answered_statements:
  assumes "replay_contains g i c = (Ok b, c1)" and "replay_record g epoch i seen_at c1 = (Ok x, c2)"
  shows "conn_poisoned c = None" and "Some e \<notin> set (take 3 (conn_faults c))"
proof -
  have skip: "Some e \<in> set (take n (tl fs))" if "next_fault fs = Ok ()" "Some e \<in> set (take (Suc n) fs)" for fs n
    using that by (cases fs rule: next_fault.cases) auto
  have statements: "next_fault (conn_faults c) = Ok ()" "next_fault (tl (conn_faults c)) = Ok ()"
      "next_fault (tl (tl (conn_faults c))) = Ok ()" "conn_poisoned c = None"
    using assms
    by (auto simp: replay_contains_def replay_record_def statement_def lock_conn_def split: outcome.splits option.splits)
  then show "conn_poisoned c = None" by blast
  show "Some e \<notin> set (take 3 (conn_faults c))"
    using skip [OF statements(1)] skip [OF statements(2)] skip [OF statements(3)] unfolding numeral_3_eq_3 by fastforce
qed

text \<open>
  C24. An event that is rejected, for whatever reason, or on which the validation panics, leaves
  the membership state and every row of every replay store as they were; and a store that
  cannot be consulted or written, because its lock is poisoned or because SQLite fails on one
  of the two statements of the lookup or on the insertion, leads to a rejection.
\<close>

theorem event_rejected_unchanged:
  assumes "apply_to C K Q oc now now' ev st h = (r, st', h')"
  shows "(r \<noteq> Ok () \<longrightarrow> st' = st \<and> (\<forall>c. conn_rows (h' c) = conn_rows (h c)))
     \<and> (\<forall>s e. gs_replay_store st = Some s \<longrightarrow>
          conn_poisoned (h s) = Some e \<or> Some e \<in> set (take 3 (conn_faults (h s))) \<longrightarrow> r \<noteq> Ok ())"
proof (intro conjI allI impI)
  assume "r \<noteq> Ok ()"
  with apply_to_rejected [OF assms] show "st' = st" "\<And>c. conn_rows (h' c) = conn_rows (h c)"
    by (auto simp: same_rows_def)
next
  fix s e
  assume s: "gs_replay_store st = Some s" and fails: "conn_poisoned (h s) = Some e \<or> Some e \<in> set (take 3 (conn_faults (h s)))"
  show "r \<noteq> Ok ()"
  proof
    assume "r = Ok ()"
    with store_answered [OF _ s] assms answered_statements fails show False by (metis option.distinct(1))
  qed
qed

definition demo_faulty_heap :: heap where
  "demo_faulty_heap = demo_heap(0 := (demo_heap 0)\<lparr>conn_faults := [None, Some ''disk I/O error'']\<rparr>)"

theorem event_rejected_unchanged_witness:
  "fst (apply_to demo_crypto demo_group_codec demo_sqlite True 100 100 demo_invite demo_group demo_heap) = Ok ()
   \<and> (\<exists>r h'. apply_to demo_crypto demo_group_codec demo_sqlite True 100 100 demo_invite demo_group demo_faulty_heap
          = (r, demo_group, h')
        \<and> r \<noteq> Ok () \<and> conn_rows (h' 0) = [])"
proof -
  obtain r st' h' where a: "apply_to demo_crypto demo_group_codec demo_sqlite True 100 100 demo_invite demo_group demo_faulty_heap
      = (r, st', h')" by (metis surj_pair)
  have "gs_replay_store demo_group = Some 0" "Some ''disk I/O error'' \<in> set (take 3 (conn_faults (demo_faulty_heap 0)))"
    "conn_rows (demo_faulty_heap 0) = []"
    by (simp_all add: demo_group_def with_replay_store_def demo_faulty_heap_def demo_heap_def)
  with event_rejected_unchanged [OF a] a demo_invite_accepted show ?thesis by auto
qed

section \<open>Who may change the membership\<close>

text \<open>The events of a list that a state accepts one after the other.\<close>

fun apply_events ::
  "crypto \<Rightarrow> group_codec \<Rightarrow> sqlite \<Rightarrow> bool \<Rightarrow> (group_event \<times> u64 \<times> u64) list \<Rightarrow> group_state \<Rightarrow> heap \<Rightarrow>
   group_event list \<times> group_state \<times> heap" where
  "apply_events C K Q oc [] st h = ([], st, h)"
| "apply_events C K Q oc ((ev, now, now') # xs) st h =
     (case apply_to C K Q oc now now' ev st h of
        (r, st1, h1) \<Rightarrow>
          (case apply_events C K Q oc xs st1 h1 of
             (log, st2, h2) \<Rightarrow> (if r = Ok () then ev # log else log, st2, h2)))"

definition issued_by :: "public_key \<Rightarrow> group_event_payload \<Rightarrow> group_event \<Rightarrow> bool" where
  "issued_by actor p ev \<longleftrightarrow> ge_actor (envelope ev) = actor \<and> ge_payload (envelope ev) = p"

definition authentic :: "crypto \<Rightarrow> group_codec \<Rightarrow> group_event \<Rightarrow> bool" where
  "authentic C K ev \<longleftrightarrow> (\<exists>now. verify_contents C K now (envelope ev) = Ok ())"

definition departs :: "public_key \<Rightarrow> group_event \<Rightarrow> bool" where
  "departs m ev \<longleftrightarrow> ge_payload (envelope ev) = PMemberLeft m \<or> ge_payload (envelope ev) = PMemberRemoved m"

text \<open>An invitation of the owner, later a join of the invited peer, and no departure since.\<close>

definition admitted_by_log :: "public_key \<Rightarrow> public_key \<Rightarrow> group_event list \<Rightarrow> bool" where
  "admitted_by_log owner m log \<longleftrightarrow> (\<exists>before join after. log = before @ join # after
     \<and> list_ex (issued_by owner (PMemberInvited m)) before \<and> issued_by m (PMemberJoined m) join
     \<and> list_all (\<lambda>ev. \<not> departs m ev) after)"

definition log_inv :: "crypto \<Rightarrow> group_codec \<Rightarrow> group_event list \<Rightarrow> group_state \<Rightarrow> bool" where
  "log_inv C K log st \<longleftrightarrow> list_all (authentic C K) log
     \<and> (\<forall>m \<in> gs_invited st. list_ex (issued_by (gs_owner st) (PMemberInvited m)) log)
     \<and> (\<forall>m. m \<noteq> gs_owner st \<longrightarrow> gs_members st m \<noteq> None \<longrightarrow> admitted_by_log (gs_owner st) m log)"

lemma admitted_snoc:
  "admitted_by_log owner m log \<Longrightarrow> \<not> departs m ev \<Longrightarrow> admitted_by_log owner m (log @ [ev])"
  unfolding admitted_by_log_def by fastforce

lemma admitted_join:
  "list_ex (issued_by owner (PMemberInvited m)) log \<Longrightarrow> issued_by m (PMemberJoined m) ev \<Longrightarrow>
   admitted_by_log owner m (log @ [ev])"
  unfolding admitted_by_log_def by (rule exI [of _ log], rule exI [of _ ev], rule exI [of _ "[]"]) simp

lemma log_inv_step:
  assumes inv: "log_inv C K log st" and a: "apply_to C K Q oc now now' ev st h = (Ok (), st', h')"
  shows "log_inv C K (log @ [ev]) st'"
proof -
  let ?e = "envelope ev"
  from a obtain r h1 where v: "event_verify C K oc now ev st h = (Ok r, h1)" by (rule apply_to_ok)
  note ok = event_verify_ok [OF v]
  note st = apply_to_state [OF a]
  have auth: "list_all (authentic C K) (log @ [ev])"
    using inv ok(2) by (auto simp: log_inv_def authentic_def)
  have owner: "ge_actor ?e = gs_owner st" if "r = Owner"
    using ok(3) that by (auto simp: actor_role_def split: if_splits)
  have inv1: "\<forall>m \<in> gs_invited st. list_ex (issued_by (gs_owner st) (PMemberInvited m)) (log @ [ev])"
    and inv2: "\<And>m. m \<noteq> gs_owner st \<Longrightarrow> gs_members st m \<noteq> None \<Longrightarrow> \<not> departs m ev \<Longrightarrow>
      admitted_by_log (gs_owner st) m (log @ [ev])"
    using inv admitted_snoc by (auto simp: log_inv_def)
  show ?thesis
  proof (cases "ge_payload ?e")
    case (PMemberInvited m)
    with owner ok(4) have "issued_by (gs_owner st) (PMemberInvited m) ev" by (simp add: issued_by_def)
    with auth inv1 inv2 st PMemberInvited show ?thesis by (auto simp: log_inv_def departs_def)
  next
    case (PMemberJoined m)
    with ok(4) have m: "issued_by m (PMemberJoined m) ev" "m \<in> gs_invited st" by (auto simp: issued_by_def)
    with inv have "admitted_by_log (gs_owner st) m (log @ [ev])" by (simp add: log_inv_def admitted_join)
    with auth inv1 inv2 st PMemberJoined show ?thesis by (auto simp: log_inv_def departs_def)
  next
    case (PMemberLeft m)
    with auth inv1 inv2 st show ?thesis by (auto simp: log_inv_def departs_def)
  next
    case (PMemberRemoved m)
    with auth inv1 inv2 st show ?thesis by (auto simp: log_inv_def departs_def)
  qed (use auth inv1 inv2 st in \<open>auto simp: log_inv_def departs_def\<close>)
qed

lemma log_inv_run:
  "log_inv C K pre st \<Longrightarrow> apply_events C K Q oc xs st h = (log, st', h') \<Longrightarrow>
   log_inv C K (pre @ log) st' \<and> gs_owner st' = gs_owner st"
proof (induction xs arbitrary: pre st h log)
  case (Cons x xs)
  obtain ev now now' where x: "x = (ev, now, now')" by (cases x)
  obtain r st1 h1 where a: "apply_to C K Q oc now now' ev st h = (r, st1, h1)" by (metis surj_pair)
  obtain log1 where l: "apply_events C K Q oc xs st1 h1 = (log1, st', h')"
    "log = (if r = Ok () then ev # log1 else log1)"
    using Cons.prems(2) by (auto simp: x a split: prod.splits)
  show ?case
  proof (cases "r = Ok ()")
    case True
    with a have a': "apply_to C K Q oc now now' ev st h = (Ok (), st1, h1)" by simp
    with Cons.IH [OF log_inv_step [OF Cons.prems(1) a'] l(1)] l(2) True apply_to_state(2) [OF a']
    show ?thesis by simp
  next
    case False
    with Cons.IH [OF _ l(1)] l(2) Cons.prems(1) apply_to_rejected(1) [OF a] show ?thesis by simp
  qed
qed simp

text \<open>
  C8. Nobody is in a group who was not let in: after any sequence of events offered to a new
  group, with or without a replay store, every member apart from the owner has been invited
  by an accepted event of the owner, has afterwards joined by an accepted event of its own,
  and has neither left nor been removed since.  Every accepted event carried a signature
  that verified under the key of its actor.
\<close>

theorem members_were_invited:
  assumes "apply_events C K Q oc xs (gs_new g owner) h = (log, st, h')"
    and "m \<noteq> owner" and "gs_members st m \<noteq> None"
  shows "admitted_by_log owner m log
     \<and> (\<forall>ev \<in> set log. \<exists>unsigned legacy. unsigned_bytes K (envelope ev) = Ok unsigned
          \<and> legacy_unsigned_bytes K (envelope ev) = Ok legacy
          \<and> verify_canonical_or_legacy C (ge_actor (envelope ev)) (ge_signature (envelope ev)) unsigned legacy)"
proof -
  have "log_inv C K [] (gs_new g owner)" by (simp add: log_inv_def gs_new_def)
  from log_inv_run [OF this assms(1)] have "log_inv C K log st" "gs_owner st = owner"
    by (simp_all add: gs_new_def)
  with assms(2,3) show ?thesis
    by (auto simp: log_inv_def list_all_iff authentic_def verify_contents_def split: if_splits)
qed

definition demo_join :: group_event where
  "demo_join = demo_sign_event 0 [2] 3 (PMemberJoined [2])"

text \<open>The same two events on a group without a replay store.\<close>

lemma apply_accepts_in_memory:
  assumes "verify_header oc ev st = Ok ()" "verify_contents C K now (envelope ev) = Ok ()"
    and "map_of (gs_seen st) (ge_event_id (envelope ev)) = None" and "gs_replay_store st = None"
    and "actor_role (envelope ev) st = Ok r"
    and "allowed (ge_payload (envelope ev)) r (ge_actor (envelope ev)) st"
    and "\<not> is_epoch_change (ge_payload (envelope ev))"
  shows "apply_to C K Q oc now now' ev st h
     = (Ok (), note_seen (envelope ev) (apply_payload (ge_payload (envelope ev)) st), h)"
  using assms by (simp add: apply_to_def event_verify_def check_replay_def record_marker_def Let_def)

lemma demo_small: "abs_diff 100 100 \<le> MAX_GROUP_EVENT_CLOCK_SKEW_SECS"
  "length (payload_bytes (PMemberInvited [2])) \<le> MAX_GROUP_EVENT_PAYLOAD"
  "length (payload_bytes (PMemberJoined [2])) \<le> MAX_GROUP_EVENT_PAYLOAD"
  by (simp_all add: abs_diff_def MAX_GROUP_EVENT_CLOCK_SKEW_SECS_def MAX_GROUP_EVENT_PAYLOAD_def)

lemma demo_ids_differ: "ge_event_id (envelope demo_join) \<noteq> ge_event_id (envelope demo_invite)"
  by (simp add: demo_join_def demo_invite_def demo_event_fields EVENT_ID_LEN_def demo_crypto_def)

definition demo_invited :: group_state where
  "demo_invited = (gs_new [9] [1])\<lparr>gs_invited := {[2]}, gs_seen := [(ge_event_id (envelope demo_invite), 0)]\<rparr>"

lemma demo_invited_step:
  "apply_to demo_crypto demo_group_codec Q oc 100 100 demo_invite (gs_new [9] [1]) h = (Ok (), demo_invited, h)"
proof -
  have "apply_to demo_crypto demo_group_codec Q oc 100 100 demo_invite (gs_new [9] [1]) h
     = (Ok (), note_seen (envelope demo_invite) (apply_payload (ge_payload (envelope demo_invite)) (gs_new [9] [1])), h)"
    unfolding demo_invite_def
    by (rule apply_accepts_in_memory)
       (use demo_small demo_contents demo_header in
        \<open>simp_all add: gs_new_def actor_role_def demo_event_fields\<close>)
  then show ?thesis
    by (simp add: demo_invited_def note_seen_def cap_seen_cache_def REPLAY_MEMORY_CACHE_MAX_def gs_new_def)
       (simp add: demo_invite_def demo_event_fields)
qed

lemma demo_joined_step:
  "\<exists>st. apply_to demo_crypto demo_group_codec Q oc 100 100 demo_join demo_invited h = (Ok (), st, h)
     \<and> gs_members st [2] = Some Member"
proof -
  have "apply_to demo_crypto demo_group_codec Q oc 100 100 demo_join demo_invited h
     = (Ok (), note_seen (envelope demo_join) (apply_payload (ge_payload (envelope demo_join)) demo_invited), h)"
  proof (rule apply_accepts_in_memory)
    show "actor_role (envelope demo_join) demo_invited = Ok Member"
      by (simp add: actor_role_def demo_invited_def gs_new_def demo_join_def demo_event_fields)
  qed (use demo_small demo_contents demo_header demo_ids_differ in
        \<open>simp_all add: demo_invited_def gs_new_def demo_join_def demo_event_fields\<close>)
  then show ?thesis by (simp add: demo_join_def demo_event_fields)
qed

theorem members_were_invited_witness:
  "\<exists>st h. apply_events demo_crypto demo_group_codec demo_sqlite True
       [(demo_invite, 100, 100), (demo_join, 100, 100)] (gs_new [9] [1]) demo_heap
       = ([demo_invite, demo_join], st, h)
     \<and> gs_members st [2] = Some Member \<and> admitted_by_log [1] [2] [demo_invite, demo_join]"
proof -
  obtain st where st: "apply_to demo_crypto demo_group_codec demo_sqlite True 100 100 demo_join demo_invited
      demo_heap = (Ok (), st, demo_heap)" "gs_members st [2] = Some Member"
    using demo_joined_step by blast
  have run: "apply_events demo_crypto demo_group_codec demo_sqlite True
       [(demo_invite, 100, 100), (demo_join, 100, 100)] (gs_new [9] [1]) demo_heap
       = ([demo_invite, demo_join], st, demo_heap)"
    using demo_invited_step st by simp
  from members_were_invited [OF run, of "[2]"] st(2) run show ?thesis by simp
qed

end
