(* ===== verification/Group_Boundaries.thy ===== *)
theory Group_Boundaries
  imports Group_Authority
begin

text \<open>
  Signed events are accepted, the replay cache stays bounded, and three boundary cases of
  the validation: the last epoch, an invitation that outlives a removal, and a restart on
  a store that has been pruned.
\<close>

section \<open>Round trip\<close>

text \<open>What \<^verbatim>\<open>postcard\<close> encodes it decodes again.\<close>

definition codec_ok :: "group_codec \<Rightarrow> bool" where
  "codec_ok K \<longleftrightarrow> (\<forall>ev b. enc_event K ev = Inr b \<longrightarrow> dec_event K b = Inr ev)"

text \<open>
  C35. An event signed by a node, encoded, sent and decoded is the same event, and the
  receiver's validation accepts it if it is for the receiver's group and epoch, within the
  permitted clock skew and payload size, not known as a replay, and if its signer has the
  authority for it.
\<close>

theorem signed_event_accepted:
  assumes "crypto_ok C" and "codec_ok K"
    and "sign_with_nonce C K sk (gs_group st) (gs_epoch st) ts nonce payload = Ok ev"
    and "event_encode K ev = Ok b"
    and "enc_payload K payload = Inr pb" and "length pb \<le> MAX_GROUP_EVENT_PAYLOAD"
    and "legacy_unsigned_bytes K (envelope ev) = Ok legacy"
    and "abs_diff now ts \<le> MAX_GROUP_EVENT_CLOCK_SKEW_SECS"
    and "epoch_advances oc payload (gs_epoch st) = Ok ()"
    and "check_replay (envelope ev) st h = (Ok (), h1)"
    and "actor_role (envelope ev) st = Ok r" and "allowed payload r (sk_public C sk) st"
  shows "event_decode K b = Ok ev \<and> event_verify C K oc now ev st h = (Ok r, h1)"
proof -
  from assms(3) obtain e unsigned where e: "ev = from_payload e payload" "ge_version e = GROUP_EVENT_VERSION"
    "ge_group e = gs_group st" "ge_epoch e = gs_epoch st" "ge_actor e = sk_public C sk" "ge_timestamp e = ts"
    "ge_payload e = payload" "make_event_id C K e = Ok (ge_event_id e)"
    "unsigned_bytes K e = Ok unsigned" "ge_signature e = sk_sign C sk unsigned" by (rule signed_event)
  have "verify_contents C K now (envelope ev) = Ok ()"
    by (rule signed_contents [OF crypto_okD(1) [OF assms(1)] assms(3,5-8)])
  moreover have "verify_header oc ev st = Ok ()"
    using e assms(9) by (simp add: verify_header_def Let_def)
  moreover have "event_decode K b = Ok ev"
    using assms(2,4) by (simp add: codec_ok_def event_decode_def event_encode_def)
  ultimately show ?thesis using assms(10-12) e by (simp add: event_verify_def Let_def)
qed

definition demo_wire_codec :: group_codec where
  "demo_wire_codec = demo_group_codec\<lparr>
     enc_event := (\<lambda>ev. if ev = demo_invite then Inr [1] else Inl ''unsupported''),
     dec_event := (\<lambda>b. if b = [1] then Inr demo_invite else Inl ''truncated'')\<rparr>"

theorem signed_event_accepted_witness:
  "event_decode demo_wire_codec [1] = Ok demo_invite
   \<and> event_verify demo_crypto demo_wire_codec True 100 demo_invite (gs_new [9] [1]) demo_heap
       = (Ok Owner, demo_heap)"
proof (rule signed_event_accepted [OF demo_crypto_ok])
  show "codec_ok demo_wire_codec" by (simp add: codec_ok_def demo_wire_codec_def)
  show "sign_with_nonce demo_crypto demo_wire_codec [1] (gs_group (gs_new [9] [1])) (gs_epoch (gs_new [9] [1]))
      100 [1] (PMemberInvited [2]) = Ok demo_invite"
    using demo_signed [of "[1]" 0 1 "PMemberInvited [2]"]
    by (simp add: demo_invite_def gs_new_def sign_with_nonce_def make_event_id_def unsigned_bytes_def
        demo_wire_codec_def Let_def)
  show "event_encode demo_wire_codec demo_invite = Ok [1]"
    by (simp add: event_encode_def demo_wire_codec_def)
  show "enc_payload demo_wire_codec (PMemberInvited [2]) = Inr [0, 2]"
    by (simp add: demo_wire_codec_def demo_group_codec_def)
  show "legacy_unsigned_bytes demo_wire_codec (envelope demo_invite)
      = Ok (the_ok (legacy_unsigned_bytes demo_wire_codec (envelope demo_invite)))"
    by (simp add: legacy_unsigned_bytes_def demo_wire_codec_def demo_group_codec_def)
  show "actor_role (envelope demo_invite) (gs_new [9] [1]) = Ok Owner"
    by (simp add: actor_role_def demo_invite_def demo_event_fields gs_new_def)
  show "check_replay (envelope demo_invite) (gs_new [9] [1]) demo_heap = (Ok (), demo_heap)"
    by (simp add: check_replay_def gs_new_def)
qed (simp_all add: MAX_GROUP_EVENT_PAYLOAD_def abs_diff_def MAX_GROUP_EVENT_CLOCK_SKEW_SECS_def)

section \<open>The replay cache\<close>

lemma update_absent: "map_of xs k = None \<Longrightarrow> AList.update k v xs = xs @ [(k, v)]"
  by (induction xs) (auto split: if_splits)

text \<open>
  C37. The in-memory replay cache never holds more than 4096 entries, one per event identifier,
  and an entry leaves it only if its epoch is outside the replay window or if it is smaller,
  by epoch and identifier, than every entry that stays.
\<close>

theorem replay_cache_bounded:
  assumes "distinct (map fst (gs_seen st))" and "length (gs_seen st) \<le> REPLAY_MEMORY_CACHE_MAX"
    and "apply_to C K Q oc now now' ev st h = (r, st', h')"
  shows "length (gs_seen st') \<le> REPLAY_MEMORY_CACHE_MAX \<and> distinct (map fst (gs_seen st'))
     \<and> (\<forall>(i, e) \<in> set (gs_seen st) - set (gs_seen st'). unat e + 2 < unat (gs_epoch st')
          \<or> (\<forall>(i', e') \<in> set (gs_seen st'). (e, i) < (e', i')))"
proof (cases "r = Ok ()")
  case False
  with apply_to_rejected(1) [OF assms(3)] assms(1,2) show ?thesis by simp
next
  case True
  let ?e = "envelope ev"
  define st1 where "st1 = (apply_payload (ge_payload ?e) st)\<lparr>gs_seen :=
     AList.update (ge_event_id ?e) (ge_epoch ?e) (gs_seen st)\<rparr>"
  have a: "apply_to C K Q oc now now' ev st h = (Ok (), st', h')" using assms(3) True by simp
  then obtain v h1 h2 where v: "event_verify C K oc now ev st h = (Ok v, h1)"
    and e: "(st', h') = (let st1 = note_seen ?e (apply_payload (ge_payload ?e) st)
       in if is_epoch_change (ge_payload ?e) then prune_replay Q st1 h2 else (st1, h2))"
    by (rule apply_to_ok)
  have "map_of (gs_seen st) (ge_event_id ?e) = None"
    using v by (auto simp: event_verify_def check_replay_def Let_def split: outcome.splits prod.splits if_splits)
  then have seen1: "gs_seen st1 = gs_seen st @ [(ge_event_id ?e, ge_epoch ?e)]"
    by (simp add: st1_def update_absent)
  have d1: "distinct (map fst (gs_seen st1))"
    using assms(1) by (simp add: st1_def AList.distinct_update)
  have n: "note_seen ?e (apply_payload (ge_payload ?e) st) = cap_seen_cache st1"
    by (simp add: note_seen_def st1_def)
  note cap = cap_seen_cache_bound [OF d1]
  have "gs_seen st' = gs_seen (cap_seen_cache st1)
     \<or> gs_seen st' = filter (\<lambda>(_, x). x \<ge> window_start (gs_epoch st')) (gs_seen (cap_seen_cache st1))"
    using e unfolding n
    by (auto simp: Let_def prune_replay_def window_start_def split: if_splits option.splits)
  then show ?thesis
  proof
    assume s: "gs_seen st' = gs_seen (cap_seen_cache st1)"
    show ?thesis using cap(1,2) cap(4) seen1 unfolding s by auto
  next
    assume s: "gs_seen st' = filter (\<lambda>(_, x). x \<ge> window_start (gs_epoch st')) (gs_seen (cap_seen_cache st1))"
    have "unat x + 2 < unat (gs_epoch st')" if "\<not> window_start (gs_epoch st') \<le> x" for x
      using that by (simp add: word_le_nat_alt unat_window_start)
    then show ?thesis
      using cap(1,2) cap(4) seen1 distinct_map_filter [OF cap(2)]
        order_trans [OF length_filter_le cap(1)] unfolding s by fastforce
  qed
qed

theorem replay_cache_bounded_witness:
  "\<exists>st h. apply_to demo_crypto demo_group_codec demo_sqlite True 100 100 demo_invite (gs_new [9] [1]) demo_heap
       = (Ok (), st, h) \<and> length (gs_seen st) \<le> REPLAY_MEMORY_CACHE_MAX"
  using replay_cache_bounded [OF _ _ demo_invited_step [of demo_sqlite True demo_heap]] demo_invited_step
  by (auto simp: gs_new_def)

section \<open>The last epoch\<close>

text \<open>
  C40. In the last epoch an epoch change panics a build with overflow checks before anything
  about it has been authenticated: neither the signature nor the actor of the event enter
  the hypotheses.  A build without overflow checks answers that epoch 0 was expected.
\<close>

theorem last_epoch_panics:
  assumes "gs_epoch st = - 1" and "ev = EpochChanged e"
    and "ge_version e = GROUP_EVENT_VERSION" and "ge_group e = gs_group st"
    and "ge_epoch e = - 1" and "ge_payload e = PEpochChanged n"
  shows "apply_to C K Q True now now' ev st h = (Panic, st, h)
     \<and> apply_to C K Q False now now' ev st h = (Err (WrongEpoch 0 n), st, h)"
  using assms by (simp add: apply_to_def event_verify_def verify_header_def Let_def)

theorem last_epoch_panics_witness:
  "apply_to demo_crypto demo_group_codec demo_sqlite True 0 0
     (EpochChanged \<lparr>ge_version = 2, ge_group = [9], ge_event_id = [], ge_nonce = [], ge_epoch = - 1,
        ge_actor = [66], ge_timestamp = 0, ge_payload = PEpochChanged 1, ge_signature = []\<rparr>)
     (demo_group\<lparr>gs_epoch := - 1\<rparr>) demo_heap
   = (Panic, demo_group\<lparr>gs_epoch := - 1\<rparr>, demo_heap)"
  using last_epoch_panics [of "demo_group\<lparr>gs_epoch := - 1\<rparr>" _
      "\<lparr>ge_version = 2, ge_group = [9], ge_event_id = [], ge_nonce = [], ge_epoch = - 1,
        ge_actor = [66], ge_timestamp = 0, ge_payload = PEpochChanged 1, ge_signature = []\<rparr>" 1
      demo_crypto demo_group_codec demo_sqlite 0 0 demo_heap, OF _ refl]
  by (simp add: demo_group_def with_replay_store_def gs_new_def GROUP_EVENT_VERSION_def)

section \<open>An invitation outlives a removal\<close>

text \<open>
  Removing a peer does not withdraw its invitation: a peer that had been invited and was
  removed before it joined can still join, without a new invitation, as soon as its own
  join event is fresh and correctly signed.
\<close>

theorem removal_keeps_invitation:
  assumes "apply_to C K Q oc now1 now2 removal st h = (Ok (), st', h')"
    and "ge_payload (envelope removal) = PMemberRemoved m"
    and "m \<in> gs_invited st" and "m \<noteq> gs_owner st"
    and "ge_payload (envelope join) = PMemberJoined m" and "ge_actor (envelope join) = m"
    and "verify_header oc join st' = Ok ()" and "verify_contents C K now3 (envelope join) = Ok ()"
    and "check_replay (envelope join) st' h' = (Ok (), h1)"
    and "record_marker now4 (envelope join) st' h1 = (Ok (), h2)"
  shows "gs_members st' m = None
     \<and> (\<exists>st'' h''. apply_to C K Q oc now3 now4 join st' h' = (Ok (), st'', h'')
          \<and> gs_members st'' m = Some Member)"
proof -
  have st: "gs_members st' m = None" "m \<in> gs_invited st'" "gs_owner st' = gs_owner st"
    using apply_to_state [OF assms(1)] assms(2,3) by simp_all
  have "actor_role (envelope join) st' = Ok Member"
    using st assms(4-6) by (simp add: actor_role_def)
  then have "event_verify C K oc now3 join st' h' = (Ok Member, h1)"
    using st assms(5-9) by (simp add: event_verify_def Let_def)
  then have "apply_to C K Q oc now3 now4 join st' h'
     = (Ok (), note_seen (envelope join) (apply_payload (PMemberJoined m) st'), h2)"
    using assms(5,10) by (simp add: apply_to_def Let_def)
  with st(1) show ?thesis by simp
qed

definition demo_removal :: group_event where
  "demo_removal = demo_sign_event 0 [1] 4 (PMemberRemoved [2])"

theorem removal_keeps_invitation_witness:
  "\<exists>st st'. apply_to demo_crypto demo_group_codec demo_sqlite True 100 100 demo_removal demo_invited demo_heap
       = (Ok (), st, demo_heap)
     \<and> gs_members st [2] = None
     \<and> fst (apply_to demo_crypto demo_group_codec demo_sqlite True 100 100 demo_join st demo_heap) = Ok ()
     \<and> fst (snd (apply_to demo_crypto demo_group_codec demo_sqlite True 100 100 demo_join st demo_heap)) = st'
     \<and> gs_members st' [2] = Some Member"
proof -
  define st where "st = note_seen (envelope demo_removal) (apply_payload (PMemberRemoved [2]) demo_invited)"
  have ids: "ge_event_id (envelope demo_removal) \<noteq> ge_event_id (envelope demo_invite)"
    "ge_event_id (envelope demo_join) \<noteq> ge_event_id (envelope demo_removal)"
    "ge_event_id (envelope demo_join) \<noteq> ge_event_id (envelope demo_invite)"
    by (simp_all add: demo_join_def demo_invite_def demo_removal_def demo_event_fields EVENT_ID_LEN_def
        demo_crypto_def)
  have small: "length (payload_bytes (PMemberRemoved [2])) \<le> MAX_GROUP_EVENT_PAYLOAD"
    by (simp add: MAX_GROUP_EVENT_PAYLOAD_def)
  have a: "apply_to demo_crypto demo_group_codec demo_sqlite True 100 100 demo_removal demo_invited demo_heap
      = (Ok (), note_seen (envelope demo_removal) (apply_payload (ge_payload (envelope demo_removal)) demo_invited),
         demo_heap)"
  proof (rule apply_accepts_in_memory)
    show "actor_role (envelope demo_removal) demo_invited = Ok Owner"
      by (simp add: actor_role_def demo_invited_def gs_new_def demo_removal_def demo_event_fields)
  qed (use demo_small(1) small demo_contents demo_header ids in
        \<open>simp_all add: demo_invited_def gs_new_def demo_removal_def demo_event_fields\<close>)
  then have a: "apply_to demo_crypto demo_group_codec demo_sqlite True 100 100 demo_removal demo_invited demo_heap
      = (Ok (), st, demo_heap)" by (simp add: st_def demo_removal_def demo_event_fields)
  have seen: "map_of (gs_seen st) (ge_event_id (envelope demo_join)) = None"
    using ids by (simp add: st_def note_seen_def cap_seen_cache_def demo_invited_def REPLAY_MEMORY_CACHE_MAX_def)
  have "gs_members st [2] = None
     \<and> (\<exists>st'' h''. apply_to demo_crypto demo_group_codec demo_sqlite True 100 100 demo_join st demo_heap
          = (Ok (), st'', h'') \<and> gs_members st'' [2] = Some Member)"
  proof (rule removal_keeps_invitation [OF a])
    show "verify_header True demo_join st = Ok ()"
      unfolding demo_join_def
      by (rule demo_header) (simp_all add: st_def demo_invited_def gs_new_def)
    show "verify_contents demo_crypto demo_group_codec 100 (envelope demo_join) = Ok ()"
      unfolding demo_join_def using demo_contents demo_small by blast
    show "check_replay (envelope demo_join) st demo_heap = (Ok (), demo_heap)"
      using seen by (simp add: check_replay_def st_def demo_invited_def gs_new_def)
    show "record_marker 100 (envelope demo_join) st demo_heap = (Ok (), demo_heap)"
      by (simp add: record_marker_def st_def demo_invited_def gs_new_def)
  qed (simp_all add: demo_removal_def demo_join_def demo_event_fields demo_invited_def gs_new_def)
  with a show ?thesis by auto
qed

section \<open>A restart on a pruned store\<close>

lemma apply_healthy:
  assumes a: "apply_to C K Q oc now now' ev st h = (Ok (), st', h')" and Q: "sqlite_ok Q"
    and wf: "heap_wf h" and s: "gs_replay_store st = Some s" "healthy (h s)"
  shows "healthy (h' s)"
    and "conn_rows (h' s) = (if is_epoch_change (ge_payload (envelope ev))
       then filter (\<lambda>r. \<not> outside_window st' r) (conn_rows (h s) @ [marker_row now' (envelope ev) st])
       else conn_rows (h s) @ [marker_row now' (envelope ev) st])"
proof -
  let ?e = "envelope ev"
  define st1 where "st1 = note_seen ?e (apply_payload (ge_payload ?e) st)"
  from a obtain v h1 h2 where v: "event_verify C K oc now ev st h = (Ok v, h1)"
    and m: "record_marker now' ?e st h1 = (Ok (), h2)"
    and e: "(st', h') = (if is_epoch_change (ge_payload ?e) then prune_replay Q st1 h2 else (st1, h2))"
    unfolding st1_def by (rule apply_to_ok) (simp add: Let_def)
  have h1: "h1 = h"
    using v s by (auto simp: event_verify_def check_replay_def healthy_contains Let_def
        split: outcome.splits if_splits)
  note nm = event_verify_ok(5) [OF v s(1)]
  have h2: "h2 = h(s := (h s)\<lparr>conn_rows := conn_rows (h s) @ [marker_row now' ?e st]\<rparr>)"
    using m nm s unfolding h1 by (simp add: record_marker_def healthy_record marker_row_def)
  have healthy2: "healthy (h2 s)" using s(2) by (simp add: h2 healthy_def)
  have "conn_wf (h2 s)"
    using wf nm by (auto simp: h2 heap_wf_def conn_wf_def row_keys_def has_marker_iff marker_row_def)
  note P = healthy_prune [OF Q this healthy2, of "gs_group st" "window_start (gs_epoch st1)"]
  have "healthy (h' s) \<and> conn_rows (h' s) = (if is_epoch_change (ge_payload ?e)
       then filter (\<lambda>r. \<not> outside_window st' r) (conn_rows (h2 s)) else conn_rows (h2 s))"
  proof (cases "is_epoch_change (ge_payload ?e)")
    case True
    with e have "st' = fst (prune_replay Q st1 h2)" "h' = snd (prune_replay Q st1 h2)"
      by (simp_all add: prod_eq_iff)
    with P True s(1) show ?thesis
      by (auto simp: prune_replay_def st1_def Let_def outside_window_def window_start_def)
  next
    case False
    with e healthy2 show ?thesis by simp
  qed
  then show "healthy (h' s)" "conn_rows (h' s) = (if is_epoch_change (ge_payload (envelope ev))
       then filter (\<lambda>r. \<not> outside_window st' r) (conn_rows (h s) @ [marker_row now' (envelope ev) st])
       else conn_rows (h s) @ [marker_row now' (envelope ev) st])"
    by (simp_all add: h2)
qed

text \<open>
  C39. Replay protection does not survive a restart for events older than the window.  A group
  that accepted an event in its first epoch and then moved three or more epochs ahead has
  deleted the event's marker; a state rebuilt on the same store by \<^verbatim>\<open>with_replay_store\<close>
  starts in the first epoch again and accepts the very same event a second time.
\<close>

theorem restart_reopens_first_epoch:
  assumes "sqlite_ok Q" and "heap_wf h" and "healthy (h s)"
    and "apply_to C K Q oc now1 now1' ev (with_replay_store g owner s) h = (Ok (), st1, h1)"
    and "\<not> is_epoch_change (ge_payload (envelope ev))"
    and "apply_to C K Q oc now2 now2' rotation st1 h1 = (Ok (), st2, h2)"
    and "ge_payload (envelope rotation) = PEpochChanged n" and "3 \<le> unat n" and "unat n < 2 ^ 63"
    and "verify_contents C K now3 (envelope ev) = Ok ()"
  shows "fst (apply_to C K Q oc now3 now3' ev (with_replay_store g owner s) h2) = Ok ()"
proof -
  let ?st0 = "with_replay_store g owner s"
  have s0: "gs_replay_store ?st0 = Some s" "gs_group ?st0 = g" "gs_epoch ?st0 = 0" "gs_seen ?st0 = []"
    by (simp_all add: with_replay_store_def gs_new_def)
  from assms(4) obtain r k where v: "event_verify C K oc now1 ev ?st0 h = (Ok r, k)" by (rule apply_to_ok)
  note ok = event_verify_ok [OF v]
  note st1 = apply_to_state [OF assms(4)]
  note A = apply_healthy [OF assms(4,1,2) s0(1) assms(3)]
  have wf1: "heap_wf h1" by (rule apply_to_heap(1) [OF assms(4,1,2)])
  have s1: "gs_replay_store st1 = Some s" "gs_group st1 = g" using st1 s0 by simp_all
  note B = apply_healthy [OF assms(6,1) wf1 s1(1) A(1)]
  from assms(6) obtain r2 k2 where "event_verify C K oc now2 rotation st1 h1 = (Ok r2, k2)" by (rule apply_to_ok)
  then have fresh2: "\<not> has_marker g (ge_event_id (envelope rotation)) (h1 s)"
    using event_verify_ok(5) s1 by metis
  let ?row = "marker_row now1' (envelope ev) ?st0"
  have ep: "gs_epoch st2 = n" using apply_to_state(4) [OF assms(6)] assms(7) by simp
  have gr: "gs_group st2 = g" using apply_to_state(1) [OF assms(6)] s1 by simp
  have rows1: "conn_rows (h1 s) = conn_rows (h s) @ [?row]" using A(2) assms(5) by simp
  have ws: "unat (window_start n) = unat n - 2" by (rule unat_window_start)
  have "sint (window_start n) = int (unat (window_start n))"
    by (rule sint_small) (use assms(9) ws in linarith)
  moreover have "row_epoch ?row = 0"
    using verify_header_ok(3) [OF ok(1)] s0(3) by (simp add: marker_row_def)
  moreover have "0 < int (unat (window_start n))" using ws assms(8) by linarith
  ultimately have "row_epoch ?row < sint (window_start n)" by (simp only:)
  moreover have "row_group ?row = g" using s0(2) by (simp add: marker_row_def)
  ultimately have gone: "outside_window st2 ?row" using gr ep by (simp add: outside_window_def expired_row_def)
  have other: "ge_event_id (envelope rotation) \<noteq> ge_event_id (envelope ev)"
    using fresh2 rows1 s0(2) by (auto simp: has_marker_def marker_row_def)
  have "\<not> has_marker g (ge_event_id (envelope ev)) (h2 s)"
    using ok(5) [OF s0(1)] gone other B(2) assms(7) rows1 s0(2)
    by (auto simp: has_marker_def list_ex_iff marker_row_def s1(2))
  then show ?thesis
    using ok(1,3,4) assms(10) s0 B(1) by (intro apply_accepts [where r = r and s = s]) simp_all
qed

lemma demo_rotate_accepted:
  assumes "apply_to demo_crypto demo_group_codec demo_sqlite True 100 100 demo_invite demo_group demo_heap
     = (Ok (), st, h)"
  shows "fst (apply_to demo_crypto demo_group_codec demo_sqlite True 100 100 demo_rotate st h) = Ok ()"
proof -
  have wf: "heap_wf demo_heap" and he: "healthy (demo_heap 0)" and store: "gs_replay_store demo_group = Some 0"
    by (simp_all add: heap_wf_def demo_heap_def conn_wf_def row_keys_def healthy_def demo_group_def
        with_replay_store_def)
  note A = apply_healthy [OF assms demo_sqlite_ok wf store he]
  note st = apply_to_state [OF assms]
  have fields: "gs_group st = [9]" "gs_epoch st = 0" "gs_owner st = [1]" "gs_replay_store st = Some 0"
    using st by (simp_all add: demo_group_def with_replay_store_def gs_new_def demo_invite_def demo_event_fields)
  have ids: "ge_event_id (envelope demo_rotate) \<noteq> ge_event_id (envelope demo_invite)"
    by (simp add: demo_invite_def demo_rotate_def demo_event_fields EVENT_ID_LEN_def demo_crypto_def)
  have seen: "gs_seen st = [(ge_event_id (envelope demo_invite), 0)]"
    using assms unfolding apply_to_def
    by (auto simp: Let_def demo_invite_def demo_event_fields note_seen_def cap_seen_cache_def
        REPLAY_MEMORY_CACHE_MAX_def demo_group_def with_replay_store_def gs_new_def
        split: outcome.splits prod.splits)
  show ?thesis
  proof (rule apply_accepts)
    show "verify_header True demo_rotate st = Ok ()"
      unfolding demo_rotate_def by (rule demo_header) (simp_all add: fields)
    show "verify_contents demo_crypto demo_group_codec 100 (envelope demo_rotate) = Ok ()"
      unfolding demo_rotate_def
      by (rule demo_contents) (simp_all add: abs_diff_def MAX_GROUP_EVENT_PAYLOAD_def)
    show "actor_role (envelope demo_rotate) st = Ok Owner"
      by (simp add: actor_role_def demo_rotate_def demo_event_fields fields)
    show "\<not> has_marker (gs_group st) (ge_event_id (envelope demo_rotate)) (h 0)"
      using A(2) ids by (simp add: has_marker_def marker_row_def demo_heap_def demo_invite_def demo_event_fields)
  qed (use ids seen A(1) in \<open>simp_all add: fields demo_rotate_def demo_event_fields\<close>)
qed

theorem restart_reopens_first_epoch_witness:
  "\<exists>st1 h1 st2 h2.
     apply_to demo_crypto demo_group_codec demo_sqlite True 100 100 demo_invite demo_group demo_heap = (Ok (), st1, h1)
   \<and> apply_to demo_crypto demo_group_codec demo_sqlite True 100 100 demo_rotate st1 h1 = (Ok (), st2, h2)
   \<and> fst (apply_to demo_crypto demo_group_codec demo_sqlite True 100 100 demo_invite demo_group h2) = Ok ()"
proof -
  obtain st1 h1 where a: "apply_to demo_crypto demo_group_codec demo_sqlite True 100 100 demo_invite demo_group
      demo_heap = (Ok (), st1, h1)" using demo_invite_accepted [of demo_sqlite True 100] by (metis prod.collapse)
  obtain st2 h2 where b: "apply_to demo_crypto demo_group_codec demo_sqlite True 100 100 demo_rotate st1 h1
      = (Ok (), st2, h2)" using demo_rotate_accepted [OF a] by (metis prod.collapse)
  have "fst (apply_to demo_crypto demo_group_codec demo_sqlite True 100 100 demo_invite demo_group h2) = Ok ()"
    unfolding demo_group_def
  proof (rule restart_reopens_first_epoch [OF demo_sqlite_ok _ _ a [unfolded demo_group_def] _ b])
    show "verify_contents demo_crypto demo_group_codec 100 (envelope demo_invite) = Ok ()"
      unfolding demo_invite_def
      by (rule demo_contents) (simp_all add: abs_diff_def MAX_GROUP_EVENT_PAYLOAD_def)
    show "ge_payload (envelope demo_rotate) = PEpochChanged 3" by (simp add: demo_rotate_def demo_event_fields)
  qed (simp_all add: heap_wf_def demo_heap_def conn_wf_def row_keys_def healthy_def demo_invite_def
        demo_event_fields)
  with a b show ?thesis by blast
qed

end
