(* ===== verification/Group_Epoch.thy ===== *)
theory Group_Epoch
  imports Mailbox_Inv
begin

text \<open>
  Rotation of a group's epoch when a member is removed (\<^verbatim>\<open>src/src/group_epoch.rs\<close>).  The new
  credentials are sealed for every survivor through the mailbox.  Random values, the clock
  and, for each survivor, what sealing draws are arguments; \<open>iter\<close> is the iteration order of
  the hash set of members.
\<close>

definition GROUP_EPOCH_REMOVED_PROTOCOL :: string where
  "GROUP_EPOCH_REMOVED_PROTOCOL = ''boru/group-epoch-removed''"

definition GROUP_EPOCH_CHANGED_PROTOCOL :: string where
  "GROUP_EPOCH_CHANGED_PROTOCOL = ''boru/group-epoch-changed''"

definition GROUP_EPOCH_VERSION :: u16 where
  "GROUP_EPOCH_VERSION = 1"

record epoch_credentials =
  ec_group :: bytes
  ec_epoch :: u64
  ec_topic :: bytes
  ec_secret :: bytes

record member_removed_event =
  mr_group :: bytes
  mr_epoch :: u64
  mr_member :: public_key
  mr_actor :: public_key
  mr_timestamp :: u64
  mr_signature :: signature

record epoch_changed_event =
  ch_group :: bytes
  ch_old_epoch :: u64
  ch_new_epoch :: u64
  ch_actor :: public_key
  ch_timestamp :: u64
  ch_signature :: signature

record credential_delivery =
  cd_recipient :: public_key
  cd_envelope :: mailbox_envelope

record epoch_rotation =
  er_credentials :: epoch_credentials
  er_member_removed :: member_removed_event
  er_epoch_changed :: epoch_changed_event
  er_deliveries :: "credential_delivery list"

datatype epoch_rotation_error =
    NotOwner
  | NotGroupMember
  | MissingRecipient public_key
  | Encode string
  | EncryptionFailed
  | DecryptionFailed
  | DecodeCredentials string
  | NotRecipient

record epoch_rotation_state =
  rs_current :: epoch_credentials
  rs_owner :: public_key
  rs_members :: "public_key set"

record epoch_codec =
  enc_removed :: "string \<times> u16 \<times> (bytes \<times> u64 \<times> public_key \<times> public_key \<times> u64) \<Rightarrow> bytes"
  enc_removed_legacy :: "bytes \<times> u64 \<times> public_key \<times> public_key \<times> u64 \<Rightarrow> bytes"
  enc_changed :: "string \<times> u16 \<times> (bytes \<times> u64 \<times> u64 \<times> public_key \<times> u64) \<Rightarrow> bytes"
  enc_changed_legacy :: "bytes \<times> u64 \<times> u64 \<times> public_key \<times> u64 \<Rightarrow> bytes"
  enc_credentials :: "epoch_credentials \<Rightarrow> string + bytes"
  dec_credentials :: "bytes \<Rightarrow> string + epoch_credentials"

section \<open>Credentials and events\<close>

definition from_parts :: "bytes \<Rightarrow> u64 \<Rightarrow> bytes \<Rightarrow> bytes \<Rightarrow> epoch_credentials" where
  "from_parts g epoch topic secret =
     \<lparr>ec_group = g, ec_epoch = epoch, ec_topic = topic, ec_secret = secret\<rparr>"

fun generate :: "bytes option \<Rightarrow> bytes option \<Rightarrow> bytes \<Rightarrow> u64 \<Rightarrow> ('e, epoch_credentials) outcome" where
  "generate (Some topic) (Some secret) g epoch = Ok (from_parts g epoch topic secret)"
| "generate _ _ g epoch = Panic"

definition removed_signing_bytes :: "epoch_codec \<Rightarrow> member_removed_event \<Rightarrow> bytes" where
  "removed_signing_bytes E ev =
     canonical_signed_bytes (enc_removed E) GROUP_EPOCH_REMOVED_PROTOCOL GROUP_EPOCH_VERSION
       (mr_group ev, mr_epoch ev, mr_member ev, mr_actor ev, mr_timestamp ev)"

definition removed_legacy_bytes :: "epoch_codec \<Rightarrow> member_removed_event \<Rightarrow> bytes" where
  "removed_legacy_bytes E ev =
     enc_removed_legacy E (mr_group ev, mr_epoch ev, mr_member ev, mr_actor ev, mr_timestamp ev)"

definition removed_verify :: "crypto \<Rightarrow> epoch_codec \<Rightarrow> member_removed_event \<Rightarrow> public_key \<Rightarrow> bool" where
  "removed_verify C E ev owner \<longleftrightarrow>
     (if mr_actor ev \<noteq> owner then False
      else verify_canonical_or_legacy C owner (mr_signature ev) (removed_signing_bytes E ev)
             (removed_legacy_bytes E ev))"

definition changed_signing_bytes :: "epoch_codec \<Rightarrow> epoch_changed_event \<Rightarrow> bytes" where
  "changed_signing_bytes E ev =
     canonical_signed_bytes (enc_changed E) GROUP_EPOCH_CHANGED_PROTOCOL GROUP_EPOCH_VERSION
       (ch_group ev, ch_old_epoch ev, ch_new_epoch ev, ch_actor ev, ch_timestamp ev)"

definition changed_legacy_bytes :: "epoch_codec \<Rightarrow> epoch_changed_event \<Rightarrow> bytes" where
  "changed_legacy_bytes E ev =
     enc_changed_legacy E (ch_group ev, ch_old_epoch ev, ch_new_epoch ev, ch_actor ev, ch_timestamp ev)"

definition changed_verify :: "crypto \<Rightarrow> epoch_codec \<Rightarrow> epoch_changed_event \<Rightarrow> public_key \<Rightarrow> bool" where
  "changed_verify C E ev owner \<longleftrightarrow>
     (if ch_actor ev \<noteq> owner then False
      else verify_canonical_or_legacy C owner (ch_signature ev) (changed_signing_bytes E ev)
             (changed_legacy_bytes E ev))"

definition sign_removed ::
  "crypto \<Rightarrow> epoch_codec \<Rightarrow> secret_key \<Rightarrow> bytes \<Rightarrow> u64 \<Rightarrow> public_key \<Rightarrow> u64 \<Rightarrow> member_removed_event" where
  "sign_removed C E key g epoch member timestamp =
     (let event = \<lparr>mr_group = g, mr_epoch = epoch, mr_member = member, mr_actor = sk_public C key,
            mr_timestamp = timestamp, mr_signature = replicate SIGNATURE_LEN 0\<rparr>
      in event\<lparr>mr_signature := sk_sign C key (removed_signing_bytes E event)\<rparr>)"

definition sign_epoch ::
  "crypto \<Rightarrow> epoch_codec \<Rightarrow> secret_key \<Rightarrow> bytes \<Rightarrow> u64 \<Rightarrow> u64 \<Rightarrow> u64 \<Rightarrow> epoch_changed_event" where
  "sign_epoch C E key g old_epoch new_epoch timestamp =
     (let event = \<lparr>ch_group = g, ch_old_epoch = old_epoch, ch_new_epoch = new_epoch,
            ch_actor = sk_public C key, ch_timestamp = timestamp,
            ch_signature = replicate SIGNATURE_LEN 0\<rparr>
      in event\<lparr>ch_signature := sk_sign C key (changed_signing_bytes E event)\<rparr>)"

fun replace_err :: "'e \<Rightarrow> ('x, 'a) outcome \<Rightarrow> ('e, 'a) outcome" where
  "replace_err e (Ok a) = Ok a"
| "replace_err e (Err x) = Err e"
| "replace_err e Panic = Panic"

definition delivery_open ::
  "crypto \<Rightarrow> mailbox_codec \<Rightarrow> epoch_codec \<Rightarrow> credential_delivery \<Rightarrow> mailbox_identity \<Rightarrow>
   (epoch_rotation_error, epoch_credentials) outcome" where
  "delivery_open C K E d i =
     and_then (replace_err DecryptionFailed (open_with C K (cd_envelope d) i)) (\<lambda>b.
     map_err DecodeCredentials (dec_credentials E b))"

definition open_for ::
  "crypto \<Rightarrow> mailbox_codec \<Rightarrow> epoch_codec \<Rightarrow> epoch_rotation \<Rightarrow> mailbox_identity \<Rightarrow>
   (epoch_rotation_error, epoch_credentials) outcome" where
  "open_for C K E rot i =
     (case find (\<lambda>d. cd_recipient d = mpk_identity (mailbox_public C i)) (er_deliveries rot) of
        None \<Rightarrow> Err NotRecipient
      | Some d \<Rightarrow> delivery_open C K E d i)"

section \<open>The rotation\<close>

definition rs_new :: "epoch_credentials \<Rightarrow> public_key \<Rightarrow> epoch_rotation_state" where
  "rs_new current owner = \<lparr>rs_current = current, rs_owner = owner, rs_members = {owner}\<rparr>"

definition add_member :: "public_key \<Rightarrow> epoch_rotation_state \<Rightarrow> epoch_rotation_state" where
  "add_member m st = st\<lparr>rs_members := insert m (rs_members st)\<rparr>"

definition survivors ::
  "(public_key set \<Rightarrow> public_key list) \<Rightarrow> public_key \<Rightarrow> epoch_rotation_state \<Rightarrow> public_key list" where
  "survivors iter removed st = filter (\<lambda>p. p \<noteq> removed \<and> p \<noteq> rs_owner st) (iter (rs_members st))"

fun check_recipients ::
  "(public_key \<rightharpoonup> mailbox_public_key) \<Rightarrow> public_key list \<Rightarrow> (epoch_rotation_error, unit) outcome" where
  "check_recipients keys [] = Ok ()"
| "check_recipients keys (m # ms) =
     (if keys m = None then Err (MissingRecipient m) else check_recipients keys ms)"

text \<open>What sealing draws for one survivor: the ephemeral secret, the nonce and the clock.\<close>

type_synonym draws = "public_key \<Rightarrow> bytes \<times> (string + bytes) \<times> u64"

fun seal_all ::
  "crypto \<Rightarrow> mailbox_codec \<Rightarrow> draws \<Rightarrow> secret_key \<Rightarrow> (public_key \<rightharpoonup> mailbox_public_key) \<Rightarrow> bytes \<Rightarrow>
   public_key list \<Rightarrow> (epoch_rotation_error, credential_delivery list) outcome" where
  "seal_all C K D owner_key keys payload [] = Ok []"
| "seal_all C K D owner_key keys payload (m # ms) =
     (case keys m of
        None \<Rightarrow> Panic
      | Some key \<Rightarrow>
          (case D m of
             (ephemeral, nonce, now) \<Rightarrow>
               and_then (replace_err EncryptionFailed
                 (seal_for C K ephemeral nonce now owner_key key payload)) (\<lambda>envelope.
               and_then (seal_all C K D owner_key keys payload ms) (\<lambda>ds.
               Ok (\<lparr>cd_recipient = m, cd_envelope = envelope\<rparr> # ds)))))"

definition checked_next :: "u64 \<Rightarrow> (epoch_rotation_error, u64) outcome" where
  "checked_next epoch = (if epoch = - 1 then Err (Encode ''epoch overflow'') else Ok (epoch + 1))"

definition build_rotation ::
  "crypto \<Rightarrow> mailbox_codec \<Rightarrow> epoch_codec \<Rightarrow> draws \<Rightarrow> bytes option \<Rightarrow> bytes option \<Rightarrow> u64 \<Rightarrow>
   (public_key set \<Rightarrow> public_key list) \<Rightarrow> secret_key \<Rightarrow> public_key \<Rightarrow> (public_key \<rightharpoonup> mailbox_public_key) \<Rightarrow>
   epoch_rotation_state \<Rightarrow> (epoch_rotation_error, epoch_rotation) outcome" where
  "build_rotation C K E D topic secret now iter owner_key removed keys st =
     and_then (ensure (sk_public C owner_key = rs_owner st) NotOwner) (\<lambda>_.
     and_then (ensure (\<not> (removed \<notin> rs_members st \<or> removed = rs_owner st)) NotGroupMember) (\<lambda>_.
     let ms = survivors iter removed st in
     and_then (check_recipients keys ms) (\<lambda>_.
     let old_group = ec_group (rs_current st); old_epoch = ec_epoch (rs_current st) in
     and_then (checked_next old_epoch) (\<lambda>new_epoch.
     and_then (generate topic secret old_group new_epoch) (\<lambda>next.
     let removal = sign_removed C E owner_key old_group old_epoch removed now;
         change = sign_epoch C E owner_key old_group old_epoch (ec_epoch next) now in
     and_then (map_err Encode (enc_credentials E next)) (\<lambda>payload.
     and_then (seal_all C K D owner_key keys payload ms) (\<lambda>deliveries.
     Ok \<lparr>er_credentials = next, er_member_removed = removal, er_epoch_changed = change,
         er_deliveries = deliveries\<rparr>)))))))"

definition rotate_after_removal ::
  "crypto \<Rightarrow> mailbox_codec \<Rightarrow> epoch_codec \<Rightarrow> draws \<Rightarrow> bytes option \<Rightarrow> bytes option \<Rightarrow> u64 \<Rightarrow>
   (public_key set \<Rightarrow> public_key list) \<Rightarrow> secret_key \<Rightarrow> public_key \<Rightarrow> (public_key \<rightharpoonup> mailbox_public_key) \<Rightarrow>
   epoch_rotation_state \<Rightarrow> (epoch_rotation_error, epoch_rotation) outcome \<times> epoch_rotation_state" where
  "rotate_after_removal C K E D topic secret now iter owner_key removed keys st =
     (case build_rotation C K E D topic secret now iter owner_key removed keys st of
        Ok rot \<Rightarrow> (Ok rot, st\<lparr>rs_members := rs_members st - {removed}, rs_current := er_credentials rot\<rparr>)
      | Err e \<Rightarrow> (Err e, st)
      | Panic \<Rightarrow> (Panic, st))"

end
