(* ===== verification/Group_Epoch_Inv.thy ===== *)
theory Group_Epoch_Inv
  imports Group_Epoch Mailbox_Delivery
begin

text \<open>
  What an epoch rotation guarantees: the removed member is gone and every survivor, and
  only a survivor, is sent the new credentials; the two control events verify; and a
  rotation that fails has changed nothing.
\<close>

lemma sign_removed_verifies: "sign_ok C \<Longrightarrow> removed_verify C E (sign_removed C E key g e m t) (sk_public C key)"
  by (simp add: removed_verify_def sign_removed_def Let_def removed_signing_bytes_def)

lemma sign_epoch_verifies: "sign_ok C \<Longrightarrow> changed_verify C E (sign_epoch C E key g e e' t) (sk_public C key)"
  by (simp add: changed_verify_def sign_epoch_def Let_def changed_signing_bytes_def)

lemma replace_err_Ok [simp]: "replace_err e r = Ok a \<longleftrightarrow> r = Ok a"
  by (cases r) auto

lemma check_recipients_Ok: "check_recipients keys ms = Ok () \<longleftrightarrow> (\<forall>m \<in> set ms. keys m \<noteq> None)"
  by (induction ms) auto

lemma check_recipients_missing:
  "(\<exists>m \<in> set ms. keys m = None) \<Longrightarrow> \<exists>m \<in> set ms. keys m = None \<and> check_recipients keys ms = Err (MissingRecipient m)"
  by (induction ms) auto

lemma seal_all_recipients:
  "seal_all C K D key keys payload ms = Ok ds \<Longrightarrow> map cd_recipient ds = ms
   \<and> (\<forall>d \<in> set ds. \<exists>rk ephemeral nonce now. keys (cd_recipient d) = Some rk
        \<and> seal_at C K ephemeral nonce key rk payload now = Ok (cd_envelope d))"
proof (induction ms arbitrary: ds)
  case (Cons m ms)
  from Cons.prems obtain rk ephemeral nonce now env ds' where
    "keys m = Some rk" "seal_at C K ephemeral nonce key rk payload now = Ok env"
    "seal_all C K D key keys payload ms = Ok ds'" "ds = \<lparr>cd_recipient = m, cd_envelope = env\<rparr> # ds'"
    by (auto simp: seal_for_def split: option.splits prod.splits)
  with Cons.IH [of ds'] show ?case by auto
qed simp

lemma build_rotation_Ok:
  assumes "build_rotation C K E D topic secret now iter key removed keys st = Ok rot"
  obtains payload where "sk_public C key = rs_owner st" "removed \<in> rs_members st" "removed \<noteq> rs_owner st"
    "ec_epoch (rs_current st) \<noteq> - 1"
    "ec_group (er_credentials rot) = ec_group (rs_current st)"
    "ec_epoch (er_credentials rot) = ec_epoch (rs_current st) + 1"
    "Some (ec_topic (er_credentials rot)) = topic" "Some (ec_secret (er_credentials rot)) = secret"
    "er_member_removed rot
       = sign_removed C E key (ec_group (rs_current st)) (ec_epoch (rs_current st)) removed now"
    "er_epoch_changed rot = sign_epoch C E key (ec_group (rs_current st)) (ec_epoch (rs_current st))
       (ec_epoch (rs_current st) + 1) now"
    "enc_credentials E (er_credentials rot) = Inr payload"
    "seal_all C K D key keys payload (survivors iter removed st) = Ok (er_deliveries rot)"
proof -
  have g: "generate topic secret g e = (Ok c :: (epoch_rotation_error, _) outcome) \<longleftrightarrow>
      (\<exists>t s. topic = Some t \<and> secret = Some s \<and> c = from_parts g e t s)" for g e c
    by (cases topic; cases secret) auto
  from assms show ?thesis
    by (auto simp: build_rotation_def Let_def g checked_next_def from_parts_def split: if_splits intro!: that)
qed

lemma survivors_set:
  assumes "order_ok iter" "finite (rs_members st)"
  shows "set (survivors iter removed st) = rs_members st - {removed, rs_owner st}"
    and "distinct (survivors iter removed st)"
  using assms by (auto simp: survivors_def order_ok_def)


text \<open>The owner 1 removes peer 3 from a group with the members 1, 2 and 3.\<close>

definition demo_next :: epoch_credentials where
  "demo_next = from_parts [9] 1 [8] [7]"

definition demo_epoch_codec :: epoch_codec where
  "demo_epoch_codec =
     \<lparr>enc_removed = (\<lambda>(p, v, g, e, m, a, t). g @ m @ a), enc_removed_legacy = (\<lambda>(g, e, m, a, t). g @ m),
      enc_changed = (\<lambda>(p, v, g, e, e', a, t). g @ a), enc_changed_legacy = (\<lambda>(g, e, e', a, t). g),
      enc_credentials = (\<lambda>c. if c = demo_next then Inr [42] else Inl ''unsupported''),
      dec_credentials = (\<lambda>b. if b = [42] then Inr demo_next else Inl ''truncated'')\<rparr>"

definition demo_rotation_state :: epoch_rotation_state where
  "demo_rotation_state = add_member [3] (add_member [2] (rs_new (from_parts [9] 0 [6] [5]) [1]))"

definition demo_keys :: "public_key \<rightharpoonup> mailbox_public_key" where
  "demo_keys = [[2] \<mapsto> mailbox_public demo_crypto demo_bob]"

definition demo_draws :: draws where
  "demo_draws = (\<lambda>m. ([7], Inr [3], 61000))"

definition demo_rotation :: "(epoch_rotation_error, epoch_rotation) outcome \<times> epoch_rotation_state" where
  "demo_rotation = rotate_after_removal demo_crypto demo_codec demo_epoch_codec demo_draws (Some [8]) (Some [7]) 0
     sorted_list_of_set [1] [3] demo_keys demo_rotation_state"

lemma demo_order: "order_ok (sorted_list_of_set :: public_key set \<Rightarrow> public_key list)"
  by (simp add: order_ok_def)

lemma demo_members: "rs_members demo_rotation_state = {[1], [2], [3]}" "rs_owner demo_rotation_state = [1]"
  "rs_current demo_rotation_state = from_parts [9] 0 [6] [5]"
  by (auto simp: demo_rotation_state_def add_member_def rs_new_def)

lemma singleton_list:
  assumes "set xs = {a}" "distinct xs"
  shows "xs = [a]"
proof (cases xs)
  case (Cons x ys)
  with assms have "x = a" "a \<notin> set ys" "set ys \<subseteq> {a}" by auto
  then have "set ys = {}" by (metis subset_singletonD insertI1)
  with Cons \<open>x = a\<close> show ?thesis by simp
qed (use assms in simp)

lemma demo_finite: "finite (rs_members demo_rotation_state)"
  by (simp add: demo_members)

lemma demo_survivors: "survivors sorted_list_of_set [3] demo_rotation_state = [[2]]"
proof (rule singleton_list)
  show "set (survivors sorted_list_of_set [3] demo_rotation_state) = {[2]}"
    using survivors_set(1) [OF demo_order demo_finite, of "[3]"] by (simp add: demo_members insert_Diff_if)
  show "distinct (survivors sorted_list_of_set [3] demo_rotation_state)"
    by (rule survivors_set(2) [OF demo_order demo_finite])
qed

lemma demo_rotation_ok: "\<exists>rot st'. demo_rotation = (Ok rot, st') \<and> er_credentials rot = demo_next"
  using demo_sealed
  by (simp add: demo_rotation_def rotate_after_removal_def build_rotation_def Let_def demo_survivors demo_members
      demo_keys_def demo_draws_def from_parts_def checked_next_def demo_epoch_codec_def demo_next_def seal_for_def
      demo_sealed_def ensure_def) (simp add: demo_crypto_def)


section \<open>Failed rotations\<close>

lemma rotate_result:
  "fst (rotate_after_removal C K E D topic secret now iter key removed keys st)
     = build_rotation C K E D topic secret now iter key removed keys st"
  "\<not> is_ok (fst (rotate_after_removal C K E D topic secret now iter key removed keys st)) \<Longrightarrow>
   snd (rotate_after_removal C K E D topic secret now iter key removed keys st) = st"
  by (cases "build_rotation C K E D topic secret now iter key removed keys st";
      simp add: rotate_after_removal_def)+



section \<open>Survivors open their delivery\<close>

definition epoch_codec_ok :: "epoch_codec \<Rightarrow> bool" where
  "epoch_codec_ok E \<longleftrightarrow> (\<forall>c b. enc_credentials E c = Inr b \<longrightarrow> dec_credentials E b = Inr c)"

lemma find_unique:
  assumes "distinct (map f xs)" "x \<in> set xs"
  shows "find (\<lambda>y. f y = f x) xs = Some x"
  using assms by (induction xs) auto

text \<open>
  C21. A survivor whose mailbox key was given to the rotation opens its delivery with its own
  secret key and obtains exactly the credentials the owner's state switched to; the removed
  peer finds no delivery, even if a key for it was supplied.
\<close>

theorem survivor_obtains_credentials:
  assumes "crypto_ok C" and "epoch_codec_ok E" and "order_ok iter" and "finite (rs_members st)"
    and "rotate_after_removal C K E D topic secret now iter key removed keys st = (Ok rot, st')"
    and "sk_public C sk \<in> rs_members st - {removed, rs_owner st}"
    and "keys (sk_public C sk) = Some (mailbox_public C (from_secret C sk))"
    and "sk_public C sk' = removed"
  shows "open_for C K E rot (from_secret C sk) = Ok (rs_current st')
     \<and> open_for C K E rot (from_secret C sk') = Err NotRecipient"
proof -
  from assms(5) have b: "build_rotation C K E D topic secret now iter key removed keys st = Ok rot"
    and st': "rs_current st' = er_credentials rot"
    by (auto simp: rotate_after_removal_def split: outcome.splits)
  from b obtain payload where enc: "enc_credentials E (er_credentials rot) = Inr payload"
    and seal: "seal_all C K D key keys payload (survivors iter removed st) = Ok (er_deliveries rot)"
    by (rule build_rotation_Ok)
  note ds = seal_all_recipients [OF seal]
  note S = survivors_set [OF assms(3,4), of removed]
  have "sk_public C sk \<in> set (map cd_recipient (er_deliveries rot))" using ds S(1) assms(6) by simp
  then obtain d where d: "d \<in> set (er_deliveries rot)" "cd_recipient d = sk_public C sk" by auto
  have "distinct (map cd_recipient (er_deliveries rot))" using ds S(2) by simp
  from find_unique [OF this d(1)] d(2)
  have f: "find (\<lambda>x. cd_recipient x = sk_public C sk) (er_deliveries rot) = Some d" by simp
  from ds d assms(7) obtain ephemeral nonce t where
    "seal_at C K ephemeral nonce key (mailbox_public C (from_secret C sk)) payload t = Ok (cd_envelope d)"
    by fastforce
  note O = sealed_decrypts [OF assms(1) this]
  have "dec_credentials E payload = Inr (er_credentials rot)" using enc assms(2) by (simp add: epoch_codec_ok_def)
  with O have "delivery_open C K E d (from_secret C sk) = Ok (rs_current st')"
    by (simp add: delivery_open_def open_with_def st')
  moreover have "removed \<notin> set (map cd_recipient (er_deliveries rot))" using ds S(1) by simp
  then have "find (\<lambda>x. cd_recipient x = removed) (er_deliveries rot) = None"
    by (auto simp: find_None_iff)
  ultimately show ?thesis
    using f assms(8) by (simp add: open_for_def mailbox_public_def from_secret_def)
qed

theorem survivor_obtains_credentials_witness:
  "\<exists>rot st'. demo_rotation = (Ok rot, st')
     \<and> open_for demo_crypto demo_codec demo_epoch_codec rot (from_secret demo_crypto [2]) = Ok (rs_current st')
     \<and> open_for demo_crypto demo_codec demo_epoch_codec rot (from_secret demo_crypto [3]) = Err NotRecipient"
proof -
  obtain rot st' where r: "demo_rotation = (Ok rot, st')" using demo_rotation_ok by blast
  have e: "epoch_codec_ok demo_epoch_codec" by (simp add: epoch_codec_ok_def demo_epoch_codec_def)
  show ?thesis
    using survivor_obtains_credentials [OF demo_crypto_ok e demo_order demo_finite r [unfolded demo_rotation_def],
        of "[2]" "[3]"] r
    by (intro exI [of _ rot] exI [of _ st'])
       (simp add: demo_members demo_keys_def demo_bob_def, simp add: demo_crypto_def)
qed

end
