(* ===== verification/Group_Crypto.thy ===== *)
theory Group_Crypto
  imports Prelude
begin

text \<open>
  The cryptographic layer below group encryption
  (\<^verbatim>\<open>src/patched/p2panda-encryption/src/crypto/\<close>).  The primitives of the crates
  (\<^verbatim>\<open>rand_chacha\<close>, \<^verbatim>\<open>hkdf\<close>, \<^verbatim>\<open>chacha20poly1305\<close>, \<^verbatim>\<open>x25519-dalek\<close>, \<^verbatim>\<open>hpke-rs\<close>) are the record
  \<open>prims\<close> of functions, and the wrappers of the sources are definitions over it.
  Randomness is a state: \<open>'r\<close> is the state of the environment, that is of the \<^verbatim>\<open>Rng\<close> behind
  its mutex, of the random source inside \<^verbatim>\<open>hpke-rs\<close> and of the system clock.  The
  signatures of \<^verbatim>\<open>xeddsa.rs\<close> are computed over the scalars and points of \<^verbatim>\<open>curve25519-dalek\<close>,
  whose operations are functions of \<open>prims\<close> as well: a scalar is an integer below the order of
  the base point, and a point is an opaque string of bytes.

  A computation that draws randomness has type \<open>('w, 'e, 'a) eff\<close>: it takes the part of
  the world that survives an error, and returns a result with the world after it.
\<close>

section \<open>Computations with effects\<close>

type_synonym ('w, 'e, 'a) eff = "'w \<Rightarrow> ('e, 'a) outcome \<times> 'w"

definition ret :: "'a \<Rightarrow> ('w, 'e, 'a) eff" where
  "ret a w = (Ok a, w)"

definition raise :: "'e \<Rightarrow> ('w, 'e, 'a) eff" where
  "raise e w = (Err e, w)"

definition pure :: "('e, 'a) outcome \<Rightarrow> ('w, 'e, 'a) eff" where
  "pure r w = (r, w)"

definition bindE :: "('w, 'e, 'a) eff \<Rightarrow> ('a \<Rightarrow> ('w, 'e, 'b) eff) \<Rightarrow> ('w, 'e, 'b) eff" where
  "bindE m f w =
     (case m w of
        (Ok a, w1) \<Rightarrow> f a w1
      | (Err e, w1) \<Rightarrow> (Err e, w1)
      | (Panic, w1) \<Rightarrow> (Panic, w1))"

fun rename :: "('x \<Rightarrow> 'e) \<Rightarrow> ('x, 'a) outcome \<Rightarrow> ('e, 'a) outcome" where
  "rename h (Ok a) = Ok a"
| "rename h (Err x) = Err (h x)"
| "rename h Panic = Panic"

definition renameE :: "('x \<Rightarrow> 'e) \<Rightarrow> ('w, 'x, 'a) eff \<Rightarrow> ('w, 'e, 'a) eff" where
  "renameE h m w = (case m w of (r, w1) \<Rightarrow> (rename h r, w1))"

definition guard :: "bool \<Rightarrow> 'e \<Rightarrow> ('w, 'e, unit) eff" where
  "guard b e = pure (ensure b e)"

definition ok_or :: "'e \<Rightarrow> 'a option \<Rightarrow> ('e, 'a) outcome" where
  "ok_or e m = (case m of None \<Rightarrow> Err e | Some a \<Rightarrow> Ok a)"

fun foldE :: "('a \<Rightarrow> 's \<Rightarrow> ('w, 'e, 's) eff) \<Rightarrow> 'a list \<Rightarrow> 's \<Rightarrow> ('w, 'e, 's) eff" where
  "foldE f [] s = ret s"
| "foldE f (x # xs) s = bindE (f x s) (foldE f xs)"

lemma bindE_eq_Ok [simp]:
  "bindE m f w = (Ok b, w2) \<longleftrightarrow> (\<exists>a w1. m w = (Ok a, w1) \<and> f a w1 = (Ok b, w2))"
  by (auto simp: bindE_def split: prod.splits outcome.splits)

lemma rename_eq_Ok [simp]: "rename h r = Ok a \<longleftrightarrow> r = Ok a"
  by (cases r) auto

lemma renameE_eq_Ok [simp]: "renameE h m w = (Ok a, w1) \<longleftrightarrow> m w = (Ok a, w1)"
  by (auto simp: renameE_def split: prod.splits)

lemma ret_eq_Ok [simp]: "ret a w = (Ok b, w1) \<longleftrightarrow> a = b \<and> w1 = w"
  by (auto simp: ret_def)

lemma pure_eq_Ok [simp]: "pure r w = (Ok b, w1) \<longleftrightarrow> r = Ok b \<and> w1 = w"
  by (auto simp: pure_def)

lemma raise_eq_Ok [simp]: "raise e w \<noteq> (Ok b, w1)"
  by (simp add: raise_def)

lemma ok_or_eq_Ok [simp]: "ok_or e m = Ok a \<longleftrightarrow> m = Some a"
  by (cases m) (auto simp: ok_or_def)

lemma guard_eq_Ok [simp]: "guard b e w = (Ok u, w1) \<longleftrightarrow> b \<and> w1 = w"
  by (auto simp: guard_def)

section \<open>Primitives\<close>

datatype rng_error = LockPoisoned | NotEnoughRandomness

datatype xeddsa_error = XInvalidArgument | XVerificationFailed | XRng rng_error

record 'r prims =
  p_draw :: "'r \<Rightarrow> nat \<Rightarrow> (rng_error + bytes) \<times> 'r"
  p_hkdf :: "bytes option \<Rightarrow> bytes \<Rightarrow> bytes \<Rightarrow> nat \<Rightarrow> bytes option"
  p_seal :: "bytes \<Rightarrow> bytes \<Rightarrow> bytes \<Rightarrow> bytes \<Rightarrow> bytes option"
  p_open :: "bytes \<Rightarrow> bytes \<Rightarrow> bytes \<Rightarrow> bytes \<Rightarrow> bytes option"
  p_clamp :: "bytes \<Rightarrow> bytes"
  p_x_public :: "bytes \<Rightarrow> bytes"
  p_x_shared :: "bytes \<Rightarrow> bytes \<Rightarrow> bytes"
  p_hpke_seal :: "'r \<Rightarrow> bytes \<Rightarrow> bytes \<Rightarrow> bytes \<Rightarrow> bytes \<Rightarrow> (string + bytes \<times> bytes) \<times> 'r"
  p_hpke_open :: "bytes \<Rightarrow> bytes \<Rightarrow> bytes \<Rightarrow> bytes \<Rightarrow> bytes \<Rightarrow> string + bytes"
  p_sha512 :: "bytes \<Rightarrow> bytes"
  p_order :: int
  p_scalar :: "bytes \<Rightarrow> int"
  p_scalar_wide :: "bytes \<Rightarrow> int"
  p_scalar_bytes :: "int \<Rightarrow> bytes"
  p_basepoint_mul :: "int \<Rightarrow> bytes"
  p_point_neg :: "bytes \<Rightarrow> bytes"
  p_double_mul :: "int \<Rightarrow> bytes \<Rightarrow> int \<Rightarrow> bytes"
  p_compress :: "bytes \<Rightarrow> bytes"
  p_to_edwards :: "bytes \<Rightarrow> u8 \<Rightarrow> bytes option"
  p_now :: "'r \<Rightarrow> u64 option \<times> 'r"

text \<open>HKDF-SHA256 expands to at most 255 blocks of 32 bytes.\<close>

definition hkdf_ok :: "'r prims \<Rightarrow> bool" where
  "hkdf_ok P \<longleftrightarrow>
     (\<forall>salt ikm info n. n \<le> 255 * 32 \<longrightarrow>
        (\<exists>okm. p_hkdf P salt ikm info n = Some okm \<and> length okm = n))"

text \<open>What ChaCha20Poly1305 encrypted decrypts under the same key, nonce and associated data.\<close>

definition cipher_ok :: "'r prims \<Rightarrow> bool" where
  "cipher_ok P \<longleftrightarrow> (\<forall>k n a m c. p_seal P k n a m = Some c \<longrightarrow> p_open P k n a c = Some m)"

definition exchange_ok :: "'r prims \<Rightarrow> bool" where
  "exchange_ok P \<longleftrightarrow>
     (\<forall>a b. p_x_shared P a (p_x_public P b) = p_x_shared P b (p_x_public P a))"

text \<open>What was sealed to a public key opens with its secret key.\<close>

definition hpke_ok :: "'r prims \<Rightarrow> bool" where
  "hpke_ok P \<longleftrightarrow>
     (\<forall>r r' sk info aad m kem c.
        p_hpke_seal P r (p_x_public P sk) info aad m = (Inr (kem, c), r') \<longrightarrow>
        p_hpke_open P kem sk info aad c = Inr m)"

definition draw_ok :: "'r prims \<Rightarrow> bool" where
  "draw_ok P \<longleftrightarrow> (\<forall>r n b r'. p_draw P r n = (Inr b, r') \<longrightarrow> length b = n)"

definition prims_ok :: "'r prims \<Rightarrow> bool" where
  "prims_ok P \<longleftrightarrow> hkdf_ok P \<and> cipher_ok P \<and> exchange_ok P \<and> hpke_ok P \<and> draw_ok P"

lemma prims_okD:
  assumes "prims_ok P"
  shows "hkdf_ok P" "cipher_ok P" "exchange_ok P" "hpke_ok P" "draw_ok P"
  using assms by (simp_all add: prims_ok_def)

section \<open>The wrappers of the sources\<close>

datatype hkdf_error = InvalidArguments

definition hkdf :: "'r prims \<Rightarrow> nat \<Rightarrow> bytes \<Rightarrow> bytes \<Rightarrow> bytes option \<Rightarrow> (hkdf_error, bytes) outcome" where
  "hkdf P n salt ikm info =
     (let salt' = (if salt = [] then None else Some salt)
      in ok_or InvalidArguments (p_hkdf P salt' ikm (case info of None \<Rightarrow> [] | Some i \<Rightarrow> i) n))"

datatype aead_error = AeadEncrypt | AeadDecrypt

definition aead_encrypt :: "'r prims \<Rightarrow> bytes \<Rightarrow> bytes \<Rightarrow> bytes \<Rightarrow> bytes option \<Rightarrow> (aead_error, bytes) outcome" where
  "aead_encrypt P key plaintext nonce aad =
     ok_or AeadEncrypt (p_seal P key nonce (case aad of None \<Rightarrow> [] | Some a \<Rightarrow> a) plaintext)"

definition aead_decrypt :: "'r prims \<Rightarrow> bytes \<Rightarrow> bytes \<Rightarrow> bytes \<Rightarrow> bytes option \<Rightarrow> (aead_error, bytes) outcome" where
  "aead_decrypt P key ciphertext nonce aad =
     ok_or AeadDecrypt (p_open P key nonce (case aad of None \<Rightarrow> [] | Some a \<Rightarrow> a) ciphertext)"

definition random_array :: "'r prims \<Rightarrow> nat \<Rightarrow> ('r, rng_error, bytes) eff" where
  "random_array P n r = (case p_draw P r n of (Inl e, r1) \<Rightarrow> (Err e, r1) | (Inr b, r1) \<Rightarrow> (Ok b, r1))"

definition secret_from_bytes :: "'r prims \<Rightarrow> bytes \<Rightarrow> bytes" where
  "secret_from_bytes P b = p_clamp P b"

definition secret_from_rng :: "'r prims \<Rightarrow> ('r, rng_error, bytes) eff" where
  "secret_from_rng P = bindE (random_array P 32) (\<lambda>b. ret (secret_from_bytes P b))"

text \<open>\<^verbatim>\<open>verifying_key\<close> and \<^verbatim>\<open>calculate_agreement\<close> return \<^verbatim>\<open>Ok\<close> on every path.\<close>

definition verifying_key :: "'r prims \<Rightarrow> bytes \<Rightarrow> bytes" where
  "verifying_key P sk = p_x_public P sk"

definition calculate_agreement :: "'r prims \<Rightarrow> bytes \<Rightarrow> bytes \<Rightarrow> bytes" where
  "calculate_agreement P sk pk = p_x_shared P sk pk"

datatype hpke_error = HpkeEncryption string | HpkeDecryption string

record hpke_ciphertext =
  hc_kem_output :: bytes
  hc_ciphertext :: bytes

definition hpke_seal ::
  "'r prims \<Rightarrow> bytes \<Rightarrow> bytes option \<Rightarrow> bytes option \<Rightarrow> bytes \<Rightarrow> ('r, hpke_error, hpke_ciphertext) eff" where
  "hpke_seal P pk info aad plaintext r =
     (case p_hpke_seal P r pk (case info of None \<Rightarrow> [] | Some i \<Rightarrow> i)
             (case aad of None \<Rightarrow> [] | Some a \<Rightarrow> a) plaintext of
        (Inl e, r1) \<Rightarrow> (Err (HpkeEncryption e), r1)
      | (Inr (kem, c), r1) \<Rightarrow> (Ok \<lparr>hc_kem_output = kem, hc_ciphertext = c\<rparr>, r1))"

definition hpke_open ::
  "'r prims \<Rightarrow> hpke_ciphertext \<Rightarrow> bytes \<Rightarrow> bytes option \<Rightarrow> bytes option \<Rightarrow> (hpke_error, bytes) outcome" where
  "hpke_open P input sk info aad =
     map_err HpkeDecryption
       (p_hpke_open P (hc_kem_output input) sk (case info of None \<Rightarrow> [] | Some i \<Rightarrow> i)
          (case aad of None \<Rightarrow> [] | Some a \<Rightarrow> a) (hc_ciphertext input))"

lemma hkdf_total:
  assumes "hkdf_ok P" and "n \<le> 255 * 32"
  obtains okm where "hkdf P n salt ikm info = Ok okm" and "length okm = n"
  using assms unfolding hkdf_ok_def hkdf_def Let_def ok_or_def
  by (metis option.simps(5))

lemma aead_roundtrip_group:
  "cipher_ok P \<Longrightarrow> aead_encrypt P k m n a = Ok c \<Longrightarrow> aead_decrypt P k c n a = Ok m"
  by (simp add: aead_encrypt_def aead_decrypt_def cipher_ok_def)

lemma agreement_symmetric:
  "exchange_ok P \<Longrightarrow>
   calculate_agreement P a (verifying_key P b) = calculate_agreement P b (verifying_key P a)"
  by (simp add: calculate_agreement_def verifying_key_def exchange_ok_def)

lemma hpke_roundtrip:
  "hpke_ok P \<Longrightarrow> hpke_seal P (verifying_key P sk) info aad m r = (Ok c, r') \<Longrightarrow>
   hpke_open P c sk info aad = Ok m"
  by (auto simp: hpke_seal_def hpke_open_def hpke_ok_def verifying_key_def split: prod.splits sum.splits)

lemma random_array_length:
  "draw_ok P \<Longrightarrow> random_array P n r = (Ok b, r') \<Longrightarrow> length b = n"
  by (auto simp: random_array_def draw_ok_def split: prod.splits sum.splits)

section \<open>Signatures\<close>

definition HASH_1_PREFIX :: bytes where
  "HASH_1_PREFIX = 0xFE # replicate 31 0xFF"

definition sha2_512 :: "'r prims \<Rightarrow> bytes list \<Rightarrow> bytes" where
  "sha2_512 P messages = p_sha512 P (concat messages)"

text \<open>The point with a cleared sign and its scalar.\<close>

definition calculate_key_pair :: "'r prims \<Rightarrow> bytes \<Rightarrow> bytes \<times> int" where
  "calculate_key_pair P sk =
     (let k = p_scalar P sk;
          cap_e = p_compress P (p_basepoint_mul P k);
          sign_bit = drop_bit 7 (cap_e ! 31)
      in (cap_e[31 := and (cap_e ! 31) 0x7F], if sign_bit = 1 then (- k) mod p_order P else k))"

definition xeddsa_signature :: "'r prims \<Rightarrow> bytes \<Rightarrow> bytes \<Rightarrow> bytes \<Rightarrow> bytes" where
  "xeddsa_signature P data sk z =
     (let (cap_a, a) = calculate_key_pair P sk;
          r = p_scalar_wide P (sha2_512 P [HASH_1_PREFIX, p_scalar_bytes P a, data, z]);
          cap_r = p_compress P (p_basepoint_mul P r);
          h = p_scalar_wide P (sha2_512 P [cap_r, cap_a, data]);
          s = (r + h * a) mod p_order P
      in cap_r @ p_scalar_bytes P s)"

definition xeddsa_sign :: "'r prims \<Rightarrow> bytes \<Rightarrow> bytes \<Rightarrow> ('r, xeddsa_error, bytes) eff" where
  "xeddsa_sign P data sk =
     bindE (renameE XRng (random_array P 64)) (\<lambda>z. ret (xeddsa_signature P data sk z))"

definition xeddsa_verify :: "'r prims \<Rightarrow> bytes \<Rightarrow> bytes \<Rightarrow> bytes \<Rightarrow> (xeddsa_error, unit) outcome" where
  "xeddsa_verify P data pk sig =
     (let cap_r = take 32 sig;
          s0 = drop 32 sig;
          s = s0[31 := and (s0 ! 31) 0x7F]
      in if and (s ! 31) 0xE0 \<noteq> 0 then Err XInvalidArgument
         else case p_to_edwards P pk 0 of
                None \<Rightarrow> Err XInvalidArgument
              | Some a \<Rightarrow>
                  let h = p_scalar_wide P (sha2_512 P [cap_r, p_compress P a, data]);
                      cap_r_check = p_compress P (p_double_mul P h (p_point_neg P a) (p_scalar P s))
                  in if cap_r_check = cap_r then Ok () else Err XVerificationFailed)"

text \<open>
  The documented behaviour of the curve.  Scalars are reduced, and their encoding has 32 bytes
  and is below \<open>2 ^ 253\<close>.  The double multiplication is that of the group.  The Montgomery form of
  the public key of a clamped secret key converts back to the point without a sign.
\<close>

definition scalar_ok :: "'r prims \<Rightarrow> int \<Rightarrow> bool" where
  "scalar_ok P s \<longleftrightarrow> 0 \<le> s \<and> s < p_order P"

definition curve_ok :: "'r prims \<Rightarrow> bool" where
  "curve_ok P \<longleftrightarrow>
     0 < p_order P \<and> (\<forall>b. scalar_ok P (p_scalar P b)) \<and> (\<forall>b. scalar_ok P (p_scalar_wide P b))
     \<and> (\<forall>s. scalar_ok P s \<longrightarrow>
          length (p_scalar_bytes P s) = 32 \<and> p_scalar_bytes P s ! 31 < 32 \<and> p_scalar P (p_scalar_bytes P s) = s)
     \<and> (\<forall>s. scalar_ok P s \<longrightarrow> length (p_compress P (p_basepoint_mul P s)) = 32)
     \<and> (\<forall>h a s. scalar_ok P h \<longrightarrow> scalar_ok P a \<longrightarrow> scalar_ok P s \<longrightarrow>
          p_double_mul P h (p_point_neg P (p_basepoint_mul P a)) s = p_basepoint_mul P ((s - h * a) mod p_order P))
     \<and> (\<forall>b. let sk = p_clamp P b; (cap_a, a) = calculate_key_pair P sk
            in p_to_edwards P (p_x_public P sk) 0 = Some (p_basepoint_mul P a) \<and> p_compress P (p_basepoint_mul P a) = cap_a)"

lemma key_pair_scalar: "curve_ok P \<Longrightarrow> calculate_key_pair P sk = (cap_a, a) \<Longrightarrow> scalar_ok P a"
  by (auto simp: calculate_key_pair_def Let_def curve_ok_def scalar_ok_def split: if_splits)

lemma small_byte:
  assumes "b < (32 :: u8)"
  shows "and b 0x7F = b" and "and b 0xE0 = 0"
proof -
  have "\<forall>n \<in> set [0..<32]. and (of_nat n :: u8) 0x7F = of_nat n \<and> and (of_nat n :: u8) 0xE0 = 0" by code_simp
  moreover have "unat b \<in> set [0..<32]" using assms by (simp add: word_less_nat_alt)
  ultimately have "and (of_nat (unat b)) 0x7F = (of_nat (unat b) :: u8) \<and> and (of_nat (unat b) :: u8) 0xE0 = 0" by (rule bspec)
  then show "and b 0x7F = b" "and b 0xE0 = 0" by simp_all
qed

text \<open>A signature verifies under the public key of the signer.\<close>

lemma xeddsa_verifies:
  assumes "curve_ok P"
  shows "xeddsa_verify P data (verifying_key P (secret_from_bytes P b)) (xeddsa_signature P data (secret_from_bytes P b) z) = Ok ()"
proof -
  obtain cap_a a where key: "calculate_key_pair P (p_clamp P b) = (cap_a, a)" by fastforce
  let ?r = "p_scalar_wide P (sha2_512 P [HASH_1_PREFIX, p_scalar_bytes P a, data, z])"
  let ?R = "p_compress P (p_basepoint_mul P ?r)"
  let ?h = "p_scalar_wide P (sha2_512 P [?R, cap_a, data])"
  let ?s = "(?r + ?h * a) mod p_order P"
  have order: "0 < p_order P" and scalars: "scalar_ok P ?r" "scalar_ok P ?h" "scalar_ok P ?s"
    using assms by (simp_all add: curve_ok_def scalar_ok_def)
  have point: "p_to_edwards P (p_x_public P (p_clamp P b)) 0 = Some (p_basepoint_mul P a)" "p_compress P (p_basepoint_mul P a) = cap_a"
    using assms key by (auto simp: curve_ok_def Let_def dest: spec [of _ b])
  have enc: "length (p_scalar_bytes P ?s) = 32" "p_scalar_bytes P ?s ! 31 < 32" "p_scalar P (p_scalar_bytes P ?s) = ?s" "length ?R = 32"
    using assms scalars by (simp_all add: curve_ok_def)
  have "(?s - ?h * a) mod p_order P = ?r"
    using scalars(1) by (simp add: mod_diff_left_eq scalar_ok_def)
  moreover have "p_double_mul P ?h (p_point_neg P (p_basepoint_mul P a)) ?s = p_basepoint_mul P ((?s - ?h * a) mod p_order P)"
    using assms scalars key_pair_scalar [OF assms key] by (simp add: curve_ok_def)
  ultimately show ?thesis
    using enc point small_byte [OF enc(2)] key
    by (simp add: xeddsa_verify_def xeddsa_signature_def verifying_key_def secret_from_bytes_def Let_def)
qed

section \<open>An instance\<close>

text \<open>
  A toy instance that keeps the promises, for evaluating the model.  The random state is
  a counter; a key is its own public key; sealing appends a tag byte; the curve is the
  additive group of the bytes, and a key stands for its first byte.
\<close>

definition first_byte :: "bytes \<Rightarrow> int" where
  "first_byte b = (case b of [] \<Rightarrow> 0 | x # _ \<Rightarrow> uint x)"

definition demo_prims :: "nat prims" where
  "demo_prims =
     \<lparr>p_draw = (\<lambda>r n. (Inr (replicate n (of_nat r)), r + 1)),
      p_hkdf = (\<lambda>salt ikm info n.
        if n \<le> 255 * 32
        then Some (take n (map (\<lambda>b. b + (case salt of None \<Rightarrow> 0 | Some s \<Rightarrow> sum_list s)) ikm
                           @ info @ replicate n 0))
        else None),
      p_seal = (\<lambda>k n a m. Some (m @ [sum_list (k @ n @ a)])),
      p_open = (\<lambda>k n a c.
        if c \<noteq> [] \<and> last c = sum_list (k @ n @ a) then Some (butlast c) else None),
      p_clamp = (\<lambda>b. b),
      p_x_public = (\<lambda>sk. sk),
      p_x_shared = (\<lambda>a b. [sum_list a + sum_list b]),
      p_hpke_seal = (\<lambda>r pk info aad m. (Inr (pk, m @ [sum_list (info @ aad)]), r + 1)),
      p_hpke_open = (\<lambda>kem sk info aad c.
        if kem = sk \<and> c \<noteq> [] \<and> last c = sum_list (info @ aad) then Inr (butlast c) else Inl ''open''),
      p_sha512 = (\<lambda>b. sum_list b # replicate 63 0),
      p_order = 256,
      p_scalar = first_byte, p_scalar_wide = first_byte,
      p_scalar_bytes = (\<lambda>s. of_int s # replicate 31 0),
      p_basepoint_mul = (\<lambda>s. [of_int s]),
      p_point_neg = map uminus,
      p_double_mul = (\<lambda>h p s. [of_int (h * first_byte p + s)]),
      p_compress = (\<lambda>p. p @ replicate 31 0),
      p_to_edwards = (\<lambda>u _. Some [of_int (first_byte u)]),
      p_now = (\<lambda>r. (Some 1000, r))\<rparr>"

lemma demo_prims_ok: "prims_ok demo_prims"
  by (auto simp: prims_ok_def hkdf_ok_def cipher_ok_def exchange_ok_def hpke_ok_def draw_ok_def
      demo_prims_def add.commute)

lemma demo_prims_sel:
  "p_draw demo_prims r n = (Inr (replicate n (of_nat r)), r + 1)"
  "p_hkdf demo_prims salt ikm info 32 = Some (take 32 (map (\<lambda>b. b + (case salt of None \<Rightarrow> 0 | Some s \<Rightarrow> sum_list s)) ikm @ info @ replicate 32 0))"
  "p_hkdf demo_prims salt ikm info 12 = Some (take 12 (map (\<lambda>b. b + (case salt of None \<Rightarrow> 0 | Some s \<Rightarrow> sum_list s)) ikm @ info @ replicate 12 0))"
  "p_seal demo_prims k nonce a m = Some (m @ [sum_list (k @ nonce @ a)])"
  "p_clamp demo_prims b = b" "p_x_public demo_prims b = b" "p_now demo_prims r = (Some 1000, r)"
  by (simp_all add: demo_prims_def)

lemma of_int_mod_byte: "(of_int (x mod 256) :: u8) = of_int x"
  using word_of_int_eq_iff [where 'a = 8, of "x mod 256" x] by (simp add: take_bit_eq_mod)

lemma first_byte_range: "0 \<le> first_byte b" "first_byte b < 256"
  using uint_lt2p [of "hd b"] by (auto simp: first_byte_def split: list.split)

lemma demo_curve_ok: "curve_ok demo_prims"
proof -
  have "uint (of_int s :: u8) = s" if "0 \<le> s" "s < 256" for s
    using that uint_word_of_int [where 'a = 8, of s] by simp
  moreover have "(replicate 31 (0 :: u8))[30 := 0] = replicate 31 0" by (simp add: list_update_same_conv)
  moreover have "first_byte (x # xs) = uint x" for x xs by (simp add: first_byte_def)
  ultimately show ?thesis
    by (simp add: curve_ok_def scalar_ok_def demo_prims_def first_byte_range calculate_key_pair_def of_int_mod_byte Let_def)
qed

end
