(* ===== verification/Key_Bundles.thy ===== *)
theory Key_Bundles
  imports Group_Crypto
begin

text \<open>
  Pre-keys and their lifetimes (\<^verbatim>\<open>src/patched/p2panda-encryption/src/key_bundle/\<close>), the key
  manager of the local peer (\<^verbatim>\<open>src/src/group_encryption/manager.rs\<close>) and the SQLite registry
  of the bundles of other peers (\<^verbatim>\<open>registry.rs\<close> beside it).

  The registry's tables are values: \<^verbatim>\<open>identity_registry\<close> is a map, \<^verbatim>\<open>prekey_registry\<close> the list
  of its rows in the order of their \<^verbatim>\<open>rowid\<close>, to which rows are only ever appended.  Every
  statement takes one entry of a script of database failures.  The \<^verbatim>\<open>postcard\<close> codec of a
  bundle and the iteration order of a hash map are parameters.
\<close>

section \<open>Lifetimes and bundles\<close>

datatype lifetime_error = InvalidLifetime | SystemTimeError

record lifetime =
  lt_not_before :: u64
  lt_not_after :: u64

definition DEFAULT_LIFETIME_MARGIN :: u64 where
  "DEFAULT_LIFETIME_MARGIN = 60 * 60"

text \<open>
  \<open>oc\<close> is the build with overflow checks and debug assertions.  \<^verbatim>\<open>now - lifetime_margin\<close>
  underflows in the first hour of the epoch, \<^verbatim>\<open>now + t\<close> overflows for a far future.
\<close>

definition lifetime_new :: "bool \<Rightarrow> 'r prims \<Rightarrow> u64 \<Rightarrow> ('r, 'e, lifetime) eff" where
  "lifetime_new oc P t r =
     (case p_now P r of
        (None, r1) \<Rightarrow> (Panic, r1)
      | (Some now, r1) \<Rightarrow>
          if oc \<and> (now < DEFAULT_LIFETIME_MARGIN \<or> now + t < now) then (Panic, r1)
          else (Ok \<lparr>lt_not_before = now - DEFAULT_LIFETIME_MARGIN, lt_not_after = now + t\<rparr>, r1))"

definition lifetime_verify :: "'r prims \<Rightarrow> lifetime \<Rightarrow> ('r, lifetime_error, unit) eff" where
  "lifetime_verify P l r =
     (case p_now P r of
        (None, r1) \<Rightarrow> (Err SystemTimeError, r1)
      | (Some elapsed, r1) \<Rightarrow>
          (ensure (lt_not_before l < elapsed \<and> elapsed < lt_not_after l) InvalidLifetime, r1))"

record pre_key =
  pre_key_id :: bytes
  pre_lifetime :: lifetime

record key_bundle =
  kb_identity_key :: bytes
  kb_signed_prekey :: pre_key
  kb_prekey_signature :: bytes
  kb_onetime_prekey :: "(bytes \<times> u64) option"

datatype key_bundle_error = KbXEdDSA xeddsa_error | KbLifetime lifetime_error

definition bundle_verify :: "'r prims \<Rightarrow> key_bundle \<Rightarrow> ('r, key_bundle_error, unit) eff" where
  "bundle_verify P b =
     bindE (renameE KbLifetime (lifetime_verify P (pre_lifetime (kb_signed_prekey b)))) (\<lambda>_.
     pure (rename KbXEdDSA
       (xeddsa_verify P (pre_key_id (kb_signed_prekey b)) (kb_identity_key b) (kb_prekey_signature b))))"

section \<open>The key manager\<close>

datatype manager_error =
  MgRng rng_error
| MgXEdDSA xeddsa_error
| UnknownOneTimeSecret u64
| UnknownPreKeySecret bytes
| NoPreKeysAvailable
| MgInternal string

record prekey_entry =
  pe_prekey :: pre_key
  pe_signature :: bytes
  pe_secret :: bytes

definition prekey_entry_new ::
  "'r prims \<Rightarrow> bytes \<Rightarrow> lifetime \<Rightarrow> ('r, manager_error, prekey_entry) eff" where
  "prekey_entry_new P identity_secret l =
     bindE (renameE MgRng (secret_from_rng P)) (\<lambda>secret.
     let prekey = \<lparr>pre_key_id = verifying_key P secret, pre_lifetime = l\<rparr>
     in bindE (renameE MgXEdDSA (xeddsa_sign P (pre_key_id prekey) identity_secret)) (\<lambda>sig.
        ret \<lparr>pe_prekey = prekey, pe_signature = sig, pe_secret = secret\<rparr>))"

record kmg_state =
  km_identity_secret :: bytes
  km_identity_key :: bytes
  km_prekeys :: "bytes \<rightharpoonup> prekey_entry"
  km_onetime_secrets :: "u64 \<rightharpoonup> bytes \<times> bytes"
  km_onetime_next_id :: u64

definition prekey_secret :: "kmg_state \<Rightarrow> bytes \<Rightarrow> (manager_error, bytes) outcome" where
  "prekey_secret y i =
     (case km_prekeys y i of Some e \<Rightarrow> Ok (pe_secret e) | None \<Rightarrow> Err (UnknownPreKeySecret i))"

definition rotate_prekey ::
  "'r prims \<Rightarrow> lifetime \<Rightarrow> kmg_state \<Rightarrow> ('r, manager_error, kmg_state) eff" where
  "rotate_prekey P l y =
     bindE (prekey_entry_new P (km_identity_secret y) l) (\<lambda>e.
     ret (y\<lparr>km_prekeys := (km_prekeys y)(pre_key_id (pe_prekey e) \<mapsto> e)\<rparr>))"

text \<open>\<^verbatim>\<open>max_by_key\<close> returns the last of several maximal elements.\<close>

fun max_by_key :: "('a \<Rightarrow> 'k::linorder) \<Rightarrow> 'a list \<Rightarrow> 'a option" where
  "max_by_key f [] = None"
| "max_by_key f (x # xs) = Some (foldl (\<lambda>m y. if f m \<le> f y then y else m) x xs)"

definition latest_prekey :: "(bytes set \<Rightarrow> bytes list) \<Rightarrow> kmg_state \<Rightarrow> prekey_entry option" where
  "latest_prekey order y =
     max_by_key (\<lambda>e. lt_not_after (pre_lifetime (pe_prekey e)))
       (map (\<lambda>i. the (km_prekeys y i)) (order (dom (km_prekeys y))))"

definition prekey_bundle ::
  "(bytes set \<Rightarrow> bytes list) \<Rightarrow> kmg_state \<Rightarrow> (manager_error, key_bundle) outcome" where
  "prekey_bundle order y =
     and_then (ok_or NoPreKeysAvailable (latest_prekey order y)) (\<lambda>latest.
     Ok \<lparr>kb_identity_key = km_identity_key y, kb_signed_prekey = pe_prekey latest,
         kb_prekey_signature = pe_signature latest, kb_onetime_prekey = None\<rparr>)"

definition generate_onetime_bundle ::
  "bool \<Rightarrow> 'r prims \<Rightarrow> (bytes set \<Rightarrow> bytes list) \<Rightarrow> kmg_state \<Rightarrow>
   ('r, manager_error, kmg_state \<times> key_bundle) eff" where
  "generate_onetime_bundle oc P order y =
     bindE (pure (ok_or NoPreKeysAvailable (latest_prekey order y))) (\<lambda>latest.
     bindE (renameE MgRng (secret_from_rng P)) (\<lambda>secret.
     let i = km_onetime_next_id y;
         onetime_key = (verifying_key P secret, i)
     in if oc \<and> (km_onetime_secrets y i \<noteq> None \<or> i = - 1) then pure Panic
        else ret
          (y\<lparr>km_onetime_secrets := (km_onetime_secrets y)(i \<mapsto> (pre_key_id (pe_prekey latest), secret)),
             km_onetime_next_id := i + 1\<rparr>,
           \<lparr>kb_identity_key = km_identity_key y, kb_signed_prekey = pe_prekey latest,
            kb_prekey_signature = pe_signature latest, kb_onetime_prekey = Some onetime_key\<rparr>)))"

definition use_onetime_secret ::
  "kmg_state \<Rightarrow> u64 \<Rightarrow> (manager_error, kmg_state \<times> bytes option) outcome" where
  "use_onetime_secret y i =
     (case km_onetime_secrets y i of
        Some (_, secret) \<Rightarrow>
          Ok (y\<lparr>km_onetime_secrets := (km_onetime_secrets y)(i := None)\<rparr>, Some secret)
      | None \<Rightarrow> Err (UnknownOneTimeSecret i))"

definition init_with_rng :: "'r prims \<Rightarrow> ('r, manager_error, kmg_state) eff" where
  "init_with_rng P =
     bindE (renameE MgRng (secret_from_rng P)) (\<lambda>secret.
     ret \<lparr>km_identity_secret = secret, km_identity_key = verifying_key P secret,
          km_prekeys = Map.empty, km_onetime_secrets = Map.empty, km_onetime_next_id = 0\<rparr>)"

text \<open>The filter of \<^verbatim>\<open>remove_expired\<close> reads the clock once per pre-key, in iteration order.\<close>

fun expired_ids :: "'r prims \<Rightarrow> kmg_state \<Rightarrow> bytes list \<Rightarrow> 'r \<Rightarrow> bytes list \<times> 'r" where
  "expired_ids P y [] r = ([], r)"
| "expired_ids P y (i # is) r =
     (case lifetime_verify P (pre_lifetime (pe_prekey (the (km_prekeys y i)))) r of
        (v, r1) \<Rightarrow>
          (case expired_ids P y is r1 of
             (gone, r2) \<Rightarrow> (if is_ok v then gone else i # gone, r2)))"

definition remove_expired ::
  "'r prims \<Rightarrow> (bytes set \<Rightarrow> bytes list) \<Rightarrow> kmg_state \<Rightarrow> 'r \<Rightarrow> kmg_state \<times> 'r" where
  "remove_expired P order y r =
     (case expired_ids P y (order (dom (km_prekeys y))) r of
        (gone, r1) \<Rightarrow>
          let prekeys = (\<lambda>i. if i \<in> set gone then None else km_prekeys y i)
          in (y\<lparr>km_prekeys := prekeys,
                km_onetime_secrets := (\<lambda>i. case km_onetime_secrets y i of
                   None \<Rightarrow> None
                 | Some (parent, secret) \<Rightarrow>
                     if prekeys parent = None then None else Some (parent, secret))\<rparr>, r1))"

section \<open>The registry\<close>

datatype registry_error = Database | Serialization string

type_synonym prekey_row = "bytes \<times> bytes \<times> bool"

record registry =
  rg_identity :: "bytes \<rightharpoonup> bytes"
  rg_prekeys :: "prekey_row list"
  rg_faults :: "bool list"
  rg_poisoned :: bool

record bundle_codec =
  enc_bundle :: "key_bundle \<Rightarrow> string + bytes"
  dec_bundle :: "bytes \<Rightarrow> string + key_bundle"

definition bundle_codec_ok :: "bundle_codec \<Rightarrow> bool" where
  "bundle_codec_ok K \<longleftrightarrow> (\<forall>b c. enc_bundle K b = Inr c \<longrightarrow> dec_bundle K c = Inr b)"

definition lock_registry :: "(registry, registry_error, unit) eff" where
  "lock_registry g = (if rg_poisoned g then Panic else Ok (), g)"

definition statement :: "(registry, registry_error, unit) eff" where
  "statement g =
     (case rg_faults g of
        [] \<Rightarrow> (Ok (), g)
      | f # fs \<Rightarrow> (if f then Err Database else Ok (), g\<lparr>rg_faults := fs\<rparr>))"

definition insert_identity ::
  "bundle_codec \<Rightarrow> bytes \<Rightarrow> key_bundle \<Rightarrow> (registry, registry_error, unit) eff" where
  "insert_identity K peer bundle =
     bindE (pure (map_err Serialization (enc_bundle K bundle))) (\<lambda>blob.
     bindE lock_registry (\<lambda>_.
     bindE statement (\<lambda>_ g.
     (Ok (), g\<lparr>rg_identity := (rg_identity g)(peer \<mapsto> blob)\<rparr>))))"

definition insert_pre_key ::
  "bundle_codec \<Rightarrow> bytes \<Rightarrow> key_bundle \<Rightarrow> unit \<Rightarrow> (registry, registry_error, unit) eff" where
  "insert_pre_key K peer bundle _ =
     bindE (pure (map_err Serialization (enc_bundle K bundle))) (\<lambda>blob.
     bindE statement (\<lambda>_ g.
     (Ok (), g\<lparr>rg_prekeys := rg_prekeys g @ [(peer, blob, False)]\<rparr>)))"

definition insert_pre_keys ::
  "bundle_codec \<Rightarrow> bytes \<Rightarrow> key_bundle list \<Rightarrow> (registry, registry_error, unit) eff" where
  "insert_pre_keys K peer bundles =
     bindE lock_registry (\<lambda>_. foldE (insert_pre_key K peer) bundles ())"

definition identity_key ::
  "bundle_codec \<Rightarrow> bytes \<Rightarrow> (registry, registry_error, bytes option) eff" where
  "identity_key K peer =
     bindE lock_registry (\<lambda>_.
     bindE statement (\<lambda>_ g.
     case rg_identity g peer of
       None \<Rightarrow> (Ok None, g)
     | Some blob \<Rightarrow>
         (and_then (map_err Serialization (dec_bundle K blob)) (\<lambda>b. Ok (Some (kb_identity_key b))), g)))"

text \<open>The first row of the peer that is not used, as its position and its blob.\<close>

fun first_unused :: "bytes \<Rightarrow> prekey_row list \<Rightarrow> (nat \<times> bytes) option" where
  "first_unused peer [] = None"
| "first_unused peer ((p, blob, used) # rows) =
     (if p = peer \<and> \<not> used then Some (0, blob)
      else map_option (\<lambda>(i, b). (Suc i, b)) (first_unused peer rows))"

definition mark_used :: "nat \<Rightarrow> prekey_row list \<Rightarrow> prekey_row list" where
  "mark_used i rows = (if i < length rows then rows[i := (case rows ! i of (p, b, _) \<Rightarrow> (p, b, True))] else rows)"

definition reg_key_bundle ::
  "bundle_codec \<Rightarrow> bytes \<Rightarrow> (registry, registry_error, key_bundle option) eff" where
  "reg_key_bundle K peer =
     bindE lock_registry (\<lambda>_.
     bindE statement (\<lambda>_ g.
     case first_unused peer (rg_prekeys g) of
       None \<Rightarrow> (Ok None, g)
     | Some (rowid, blob) \<Rightarrow>
         bindE statement (\<lambda>_ g1.
         (and_then (map_err Serialization (dec_bundle K blob)) (\<lambda>b. Ok (Some b)),
          g1\<lparr>rg_prekeys := mark_used rowid (rg_prekeys g1)\<rparr>)) g))"

end
