(* ===== verification/Two_Party.thy ===== *)
theory Two_Party
  imports Key_Bundles
begin

text \<open>
  Key agreement between two members: X3DH
  (\<^verbatim>\<open>src/patched/p2panda-encryption/src/two_party/x3dh.rs\<close>) and two-party secure messaging
  (\<^verbatim>\<open>two_party.rs\<close>), with the key manager of boru.  The first message of a session is
  encrypted with the pre-keys of the receiver; every later one with HPKE, to a key that
  the two parties renew with every message.  The CBOR codec of the inner plaintext is a
  parameter.
\<close>

section \<open>X3DH\<close>

datatype x3dh_error =
  X3Rng rng_error
| X3Aead aead_error
| X3Hkdf hkdf_error
| X3KeyBundle key_bundle_error

record x3dh_ciphertext =
  xc_identity_key :: bytes
  xc_onetime_prekey_id :: "u64 option"
  xc_prekey_id :: bytes
  xc_ciphertext :: bytes
  xc_ephemeral_key :: bytes

definition KDF_INFO :: bytes where
  "KDF_INFO = map of_char ''p2panda''"

definition discontinuity_bytes :: bytes where
  "discontinuity_bytes = replicate 32 0xFF"

text \<open>The key, the nonce and the call of the cipher, shared by both directions.\<close>

definition x3dh_key :: "'r prims \<Rightarrow> bytes \<Rightarrow> (x3dh_error, bytes) outcome" where
  "x3dh_key P ikm = rename X3Hkdf (hkdf P 32 (replicate 32 0) ikm (Some KDF_INFO))"

definition x3dh_nonce :: "'r prims \<Rightarrow> bytes \<Rightarrow> (x3dh_error, bytes) outcome" where
  "x3dh_nonce P sk = rename X3Hkdf (hkdf P 12 [] sk None)"

definition x3dh_encrypt ::
  "'r prims \<Rightarrow> bytes \<Rightarrow> bytes \<Rightarrow> key_bundle \<Rightarrow> ('r, x3dh_error, x3dh_ciphertext) eff" where
  "x3dh_encrypt P plaintext our_identity_secret b =
     bindE (renameE X3KeyBundle (bundle_verify P b)) (\<lambda>_.
     let our_identity_key = verifying_key P our_identity_secret in
     bindE (renameE X3Rng (random_array P 32)) (\<lambda>bytes.
     let ephemeral = secret_from_bytes P bytes;
         ephemeral_key = verifying_key P ephemeral;
         spk = pre_key_id (kb_signed_prekey b);
         ikm = discontinuity_bytes
               @ calculate_agreement P our_identity_secret spk
               @ calculate_agreement P ephemeral (kb_identity_key b)
               @ calculate_agreement P ephemeral spk
               @ (case kb_onetime_prekey b of
                    None \<Rightarrow> []
                  | Some (opk, _) \<Rightarrow> calculate_agreement P ephemeral opk)
     in pure (
        and_then (x3dh_key P ikm) (\<lambda>sk.
        let ad = our_identity_key @ kb_identity_key b in
        and_then (x3dh_nonce P sk) (\<lambda>nonce.
        and_then (rename X3Aead (aead_encrypt P sk plaintext nonce (Some ad))) (\<lambda>c.
        Ok \<lparr>xc_identity_key = our_identity_key,
            xc_onetime_prekey_id = map_option snd (kb_onetime_prekey b),
            xc_prekey_id = spk, xc_ciphertext = c, xc_ephemeral_key = ephemeral_key\<rparr>))))))"

definition x3dh_decrypt ::
  "'r prims \<Rightarrow> x3dh_ciphertext \<Rightarrow> bytes \<Rightarrow> bytes \<Rightarrow> bytes option \<Rightarrow> (x3dh_error, bytes) outcome" where
  "x3dh_decrypt P c our_identity_secret our_prekey_secret our_onetime_secret =
     (let our_identity_key = verifying_key P our_identity_secret;
          ikm = discontinuity_bytes
                @ calculate_agreement P our_prekey_secret (xc_identity_key c)
                @ calculate_agreement P our_identity_secret (xc_ephemeral_key c)
                @ calculate_agreement P our_prekey_secret (xc_ephemeral_key c)
                @ (case our_onetime_secret of
                     None \<Rightarrow> []
                   | Some s \<Rightarrow> calculate_agreement P s (xc_ephemeral_key c))
      in and_then (x3dh_key P ikm) (\<lambda>sk.
         let ad = xc_identity_key c @ our_identity_key in
         and_then (x3dh_nonce P sk) (\<lambda>nonce.
         rename X3Aead (aead_decrypt P sk (xc_ciphertext c) nonce (Some ad)))))"

text \<open>The bundle is one whose secrets the key manager holds.\<close>

definition bundle_of :: "'r prims \<Rightarrow> kmg_state \<Rightarrow> key_bundle \<Rightarrow> bool" where
  "bundle_of P y b \<longleftrightarrow>
     kb_identity_key b = verifying_key P (km_identity_secret y)
     \<and> (\<exists>e. km_prekeys y (pre_key_id (kb_signed_prekey b)) = Some e
          \<and> pre_key_id (kb_signed_prekey b) = verifying_key P (pe_secret e))
     \<and> (case kb_onetime_prekey b of
          None \<Rightarrow> True
        | Some (opk, i) \<Rightarrow> \<exists>p s. km_onetime_secrets y i = Some (p, s) \<and> opk = verifying_key P s)"

definition onetime_secret_of :: "kmg_state \<Rightarrow> key_bundle \<Rightarrow> bytes option" where
  "onetime_secret_of y b =
     (case kb_onetime_prekey b of
        None \<Rightarrow> None
      | Some (_, i) \<Rightarrow> map_option snd (km_onetime_secrets y i))"

lemma x3dh_roundtrip:
  assumes "exchange_ok P" and "cipher_ok P" and "bundle_of P y b"
    and "km_prekeys y (pre_key_id (kb_signed_prekey b)) = Some e"
    and "x3dh_encrypt P m secret b r = (Ok c, r')"
  shows "x3dh_decrypt P c (km_identity_secret y) (pe_secret e) (onetime_secret_of y b) = Ok m
    \<and> xc_prekey_id c = pre_key_id (kb_signed_prekey b)
    \<and> xc_onetime_prekey_id c = map_option snd (kb_onetime_prekey b)"
proof -
  note sym = agreement_symmetric [OF assms(1)]
  have spk: "pre_key_id (kb_signed_prekey b) = verifying_key P (pe_secret e)"
    and ik: "kb_identity_key b = verifying_key P (km_identity_secret y)"
    using assms(3,4) by (auto simp: bundle_of_def)
  show ?thesis
  proof (cases "kb_onetime_prekey b")
    case None
    then show ?thesis
      using assms(5)
      by (auto simp: x3dh_encrypt_def x3dh_decrypt_def Let_def spk ik onetime_secret_of_def
          sym [of "pe_secret e"] sym [of "km_identity_secret y"]
          intro: aead_roundtrip_group [OF assms(2)])
  next
    case (Some o1)
    obtain opk i where o1: "o1 = (opk, i)" by force
    obtain p s where "km_onetime_secrets y i = Some (p, s)" and "opk = verifying_key P s"
      using assms(3) Some o1 by (auto simp: bundle_of_def)
    with Some o1 assms(5) show ?thesis
      by (auto simp: x3dh_encrypt_def x3dh_decrypt_def Let_def spk ik onetime_secret_of_def
          sym [of "pe_secret e"] sym [of "km_identity_secret y"] sym [of s]
          intro: aead_roundtrip_group [OF assms(2)])
  qed
qed

section \<open>Two-party secure messaging\<close>

datatype key_used = PreKeyUsed | ReceivedKey | OwnKey u64

datatype two_party_ciphertext = CPreKey x3dh_ciphertext | CHpke hpke_ciphertext

record two_party_message =
  tm_ciphertext :: two_party_ciphertext
  tm_key_used :: key_used

record two_party_plaintext =
  tt_plaintext :: bytes
  tt_receiver_new_secret :: bytes
  tt_sender_new_verifying_key :: bytes
  tt_sender_next_index :: u64

record plaintext_codec =
  enc_plain :: "two_party_plaintext \<Rightarrow> string + bytes"
  dec_plain :: "bytes \<Rightarrow> string + two_party_plaintext"

definition plaintext_codec_ok :: "plaintext_codec \<Rightarrow> bool" where
  "plaintext_codec_ok K \<longleftrightarrow> (\<forall>m b. enc_plain K m = Inr b \<longrightarrow> dec_plain K b = Inr m)"

datatype two_party_error =
  TwHpke hpke_error
| TwX3dh x3dh_error
| TwRng rng_error
| TwEncode string
| TwDecode string
| PreKeyReuse
| UnknownSecretUsed u64
| UnknownPreKeyUsed bytes
| InvalidCiphertextType

record two_party =
  sm_our_next_key_index :: u64
  sm_our_min_key_index :: u64
  sm_our_secret_keys :: "u64 \<rightharpoonup> bytes"
  sm_our_received_secret_key :: "bytes option"
  sm_their_next_key_used :: key_used
  sm_their_identity_key :: bytes
  sm_their_prekey_bundle :: "key_bundle option"
  sm_their_verifying_key :: "bytes option"

definition sm_init :: "key_bundle \<Rightarrow> two_party" where
  "sm_init b =
     \<lparr>sm_our_next_key_index = 1, sm_our_min_key_index = 1, sm_our_secret_keys = Map.empty,
      sm_our_received_secret_key = None, sm_their_next_key_used = PreKeyUsed,
      sm_their_identity_key = kb_identity_key b, sm_their_prekey_bundle = Some b,
      sm_their_verifying_key = None\<rparr>"

text \<open>Our new secret and their new secret; the public keys are those of the two secrets.\<close>

definition generate_keys :: "'r prims \<Rightarrow> ('r, two_party_error, bytes \<times> bytes) eff" where
  "generate_keys P =
     bindE (renameE TwRng (random_array P 32)) (\<lambda>ours.
     bindE (renameE TwRng (random_array P 32)) (\<lambda>theirs.
     ret (secret_from_bytes P ours, secret_from_bytes P theirs)))"

definition sm_encrypt ::
  "'r prims \<Rightarrow> two_party \<Rightarrow> kmg_state \<Rightarrow> bytes \<Rightarrow>
   ('r, two_party_error, two_party \<times> two_party_ciphertext) eff" where
  "sm_encrypt P y manager plaintext =
     (case sm_their_verifying_key y of
        None \<Rightarrow>
          bindE (pure (ok_or PreKeyReuse (sm_their_prekey_bundle y))) (\<lambda>b.
          bindE (renameE TwX3dh (x3dh_encrypt P plaintext (km_identity_secret manager) b)) (\<lambda>c.
          ret (y\<lparr>sm_their_prekey_bundle := None\<rparr>, CPreKey c)))
      | Some vk \<Rightarrow>
          bindE (renameE TwHpke (hpke_seal P vk None None plaintext)) (\<lambda>c.
          ret (y, CHpke c)))"

definition sm_send ::
  "bool \<Rightarrow> 'r prims \<Rightarrow> plaintext_codec \<Rightarrow> two_party \<Rightarrow> kmg_state \<Rightarrow> bytes \<Rightarrow>
   ('r, two_party_error, two_party \<times> two_party_message) eff" where
  "sm_send oc P K y manager plaintext =
     bindE (generate_keys P) (\<lambda>(our_new_secret, their_new_secret).
     let m = \<lparr>tt_plaintext = plaintext, tt_receiver_new_secret = their_new_secret,
              tt_sender_new_verifying_key = verifying_key P our_new_secret,
              tt_sender_next_index = sm_our_next_key_index y\<rparr>
     in bindE (pure (map_err TwEncode (enc_plain K m))) (\<lambda>bytes.
        bindE (sm_encrypt P y manager bytes) (\<lambda>(y1, c).
        if oc \<and> sm_our_next_key_index y1 = - 1 then pure Panic
        else ret
          (y1\<lparr>sm_our_secret_keys := (sm_our_secret_keys y1)(sm_our_next_key_index y1 \<mapsto> our_new_secret),
              sm_our_next_key_index := sm_our_next_key_index y1 + 1,
              sm_their_verifying_key := Some (verifying_key P their_new_secret),
              sm_their_next_key_used := ReceivedKey\<rparr>,
           \<lparr>tm_ciphertext = c, tm_key_used = sm_their_next_key_used y1\<rparr>))))"

definition open_prekey_message ::
  "'r prims \<Rightarrow> kmg_state \<Rightarrow> x3dh_ciphertext \<Rightarrow> (two_party_error, kmg_state \<times> bytes) outcome" where
  "open_prekey_message P manager c =
     and_then
       (case xc_onetime_prekey_id c of
          Some i \<Rightarrow> rename (\<lambda>_. PreKeyReuse) (use_onetime_secret manager i)
        | None \<Rightarrow> Ok (manager, None)) (\<lambda>(manager1, onetime_secret).
     and_then (rename (\<lambda>_. UnknownPreKeyUsed (xc_prekey_id c))
                 (prekey_secret manager1 (xc_prekey_id c))) (\<lambda>prekey.
     and_then (rename TwX3dh
                 (x3dh_decrypt P c (km_identity_secret manager1) prekey onetime_secret)) (\<lambda>plaintext.
     Ok (manager1, plaintext))))"

text \<open>The loop that forgets the own keys up to \<open>index\<close>, and \<^verbatim>\<open>our_min_key_index = index + 1\<close>.\<close>

definition forget_keys :: "u64 \<Rightarrow> two_party \<Rightarrow> two_party" where
  "forget_keys index y =
     y\<lparr>sm_our_secret_keys := (\<lambda>i. if sm_our_min_key_index y \<le> i \<and> i < index + 1 then None
                                 else sm_our_secret_keys y i),
       sm_our_min_key_index := index + 1\<rparr>"

definition sm_decrypt ::
  "bool \<Rightarrow> 'r prims \<Rightarrow> two_party \<Rightarrow> kmg_state \<Rightarrow> two_party_ciphertext \<Rightarrow> key_used \<Rightarrow>
   (two_party_error, two_party \<times> kmg_state \<times> bytes) outcome" where
  "sm_decrypt oc P y manager ciphertext key_used =
     (case key_used of
        PreKeyUsed \<Rightarrow>
          (case ciphertext of
             CHpke _ \<Rightarrow> Err InvalidCiphertextType
           | CPreKey c \<Rightarrow>
               and_then (open_prekey_message P manager c) (\<lambda>(manager1, plaintext).
               Ok (y, manager1, plaintext)))
      | ReceivedKey \<Rightarrow>
          (case ciphertext of
             CPreKey _ \<Rightarrow> Err InvalidCiphertextType
           | CHpke c \<Rightarrow>
               (case sm_our_received_secret_key y of
                  None \<Rightarrow> Err (UnknownSecretUsed 0)
                | Some secret \<Rightarrow>
                    and_then (rename TwHpke (hpke_open P c secret None None)) (\<lambda>plaintext.
                    Ok (y, manager, plaintext))))
      | OwnKey index \<Rightarrow>
          (case ciphertext of
             CPreKey _ \<Rightarrow> Err InvalidCiphertextType
           | CHpke c \<Rightarrow>
               (case sm_our_secret_keys y index of
                  None \<Rightarrow> Err (UnknownSecretUsed index)
                | Some secret \<Rightarrow>
                    and_then (rename TwHpke (hpke_open P c secret None None)) (\<lambda>plaintext.
                    if oc \<and> index = - 1 then Panic
                    else Ok (forget_keys index y, manager, plaintext)))))"

definition sm_receive ::
  "bool \<Rightarrow> 'r prims \<Rightarrow> plaintext_codec \<Rightarrow> two_party \<Rightarrow> kmg_state \<Rightarrow> two_party_message \<Rightarrow>
   (two_party_error, two_party \<times> kmg_state \<times> bytes) outcome" where
  "sm_receive oc P K y manager message =
     and_then (sm_decrypt oc P y manager (tm_ciphertext message) (tm_key_used message)) (\<lambda>(y1, manager1, bytes).
     and_then (map_err TwDecode (dec_plain K bytes)) (\<lambda>m.
     Ok (y1\<lparr>sm_their_verifying_key := Some (tt_sender_new_verifying_key m),
            sm_their_next_key_used := OwnKey (tt_sender_next_index m),
            sm_our_received_secret_key := Some (tt_receiver_new_secret m)\<rparr>,
         manager1, tt_plaintext m)))"

end
