(* ===== verification/Group_Roles.thy ===== *)
theory Group_Roles
  imports Prelude
begin

text \<open>
  Membership and roles of an encrypted group
  (\<^verbatim>\<open>src/src/group_encryption/membership.rs\<close>): the state \<^verbatim>\<open>MembershipState\<close> and the operations of
  its implementation of \<^verbatim>\<open>AckedGroupMembership\<close>, which the key agreement calls.
\<close>

type_synonym peer_id = bytes
type_synonym op_id = bytes

section \<open>State and operations\<close>

datatype member_role = Admin | Writer | Reader

fun role_can_write :: "member_role \<Rightarrow> bool" where
  "role_can_write Admin \<longleftrightarrow> True"
| "role_can_write Writer \<longleftrightarrow> True"
| "role_can_write Reader \<longleftrightarrow> False"

fun role_can_manage :: "member_role \<Rightarrow> bool" where
  "role_can_manage Admin \<longleftrightarrow> True"
| "role_can_manage _ \<longleftrightarrow> False"

datatype membership_error =
  OperationNotFound
| AlreadyMember
| NotMember
| OperationTypeMismatch
| NotAuthorized peer_id

datatype op_kind = OpAdd | OpRemove

record operation_entry =
  oe_op_id :: op_id
  oe_kind :: op_kind
  oe_peer :: peer_id

record membership_state =
  ms_owner :: peer_id
  ms_members :: "peer_id set"
  ms_roles :: "peer_id \<rightharpoonup> member_role"
  ms_operations :: "operation_entry list"
  ms_add_ops :: "op_id set"
  ms_remove_ops :: "op_id set"
  ms_acks :: "op_id \<rightharpoonup> peer_id set"

text \<open>\<^verbatim>\<open>roles.entry(p).or_insert(role)\<close>.\<close>

definition role_default :: "member_role \<Rightarrow> peer_id \<Rightarrow> (peer_id \<rightharpoonup> member_role) \<Rightarrow> (peer_id \<rightharpoonup> member_role)" where
  "role_default r p roles = (if roles p = None then roles(p \<mapsto> r) else roles)"

definition ms_new :: "peer_id \<Rightarrow> peer_id list \<Rightarrow> membership_state" where
  "ms_new owner initial_members =
     \<lparr>ms_owner = owner, ms_members = insert owner (set initial_members),
      ms_roles = fold (role_default Writer) initial_members [owner \<mapsto> Admin],
      ms_operations = [], ms_add_ops = {}, ms_remove_ops = {}, ms_acks = Map.empty\<rparr>"

definition is_member :: "membership_state \<Rightarrow> peer_id \<Rightarrow> bool" where
  "is_member y p \<longleftrightarrow> p \<in> ms_members y"

definition role_of :: "membership_state \<Rightarrow> peer_id \<Rightarrow> member_role option" where
  "role_of y p =
     (if p \<notin> ms_members y then None
      else case ms_roles y p of
             Some r \<Rightarrow> Some r
           | None \<Rightarrow> if p = ms_owner y then Some Admin else Some Writer)"

definition can_write :: "membership_state \<Rightarrow> peer_id \<Rightarrow> bool" where
  "can_write y p \<longleftrightarrow> (case role_of y p of None \<Rightarrow> False | Some r \<Rightarrow> role_can_write r)"

definition can_manage :: "membership_state \<Rightarrow> peer_id \<Rightarrow> bool" where
  "can_manage y p \<longleftrightarrow> (case role_of y p of None \<Rightarrow> False | Some r \<Rightarrow> role_can_manage r)"

definition set_role ::
  "peer_id \<Rightarrow> peer_id \<Rightarrow> member_role \<Rightarrow> membership_state \<Rightarrow>
   (membership_error, unit) outcome \<times> membership_state" where
  "set_role actor target role y =
     (if target \<notin> ms_members y then (Err NotMember, y)
      else if \<not> can_manage y actor then (Err (NotAuthorized actor), y)
      else (Ok (), y\<lparr>ms_roles := (ms_roles y)(target \<mapsto> role)\<rparr>))"

definition dgm_create :: "peer_id \<Rightarrow> peer_id list \<Rightarrow> (membership_error, membership_state) outcome" where
  "dgm_create my_id initial_members = Ok (ms_new my_id initial_members)"

text \<open>The loop over the history of the welcome state; \<open>existing\<close> is collected before it.\<close>

definition merge_operation :: "op_id set \<Rightarrow> operation_entry \<Rightarrow> membership_state \<Rightarrow> membership_state" where
  "merge_operation existing op y =
     (if oe_op_id op \<in> existing then y
      else y\<lparr>ms_operations := ms_operations y @ [op],
             ms_add_ops := (if oe_kind op = OpAdd then insert (oe_op_id op) (ms_add_ops y) else ms_add_ops y),
             ms_remove_ops := (if oe_kind op = OpRemove then insert (oe_op_id op) (ms_remove_ops y)
                               else ms_remove_ops y)\<rparr>)"

definition merge_acks :: "(op_id \<rightharpoonup> peer_id set) \<Rightarrow> (op_id \<rightharpoonup> peer_id set) \<Rightarrow> (op_id \<rightharpoonup> peer_id set)" where
  "merge_acks a b = (\<lambda>i.
     case b i of
       None \<Rightarrow> a i
     | Some t \<Rightarrow> Some ((case a i of None \<Rightarrow> {} | Some s \<Rightarrow> s) \<union> t))"

definition dgm_from_welcome ::
  "membership_state \<Rightarrow> membership_state \<Rightarrow> (membership_error, membership_state) outcome" where
  "dgm_from_welcome y w =
     (let owner = ms_owner w;
          members = ms_members y \<union> ms_members w;
          roles = (ms_roles y ++ ms_roles w)(owner \<mapsto> Admin);
          roles' = (\<lambda>p. if roles p = None \<and> p \<in> members then Some Writer else roles p);
          y1 = y\<lparr>ms_owner := owner, ms_members := members, ms_roles := roles'\<rparr>;
          existing = oe_op_id ` set (ms_operations y1);
          y2 = fold (merge_operation existing) (ms_operations w) y1
      in Ok (y2\<lparr>ms_acks := merge_acks (ms_acks y2) (ms_acks w)\<rparr>))"

definition dgm_add ::
  "membership_state \<Rightarrow> peer_id \<Rightarrow> peer_id \<Rightarrow> op_id \<Rightarrow> (membership_error, membership_state) outcome" where
  "dgm_add y adder added operation_id =
     Ok (y\<lparr>ms_operations := (if added \<in> ms_members y then ms_operations y
                             else ms_operations y
                                  @ [\<lparr>oe_op_id = operation_id, oe_kind = OpAdd, oe_peer = added\<rparr>]),
           ms_members := insert added (ms_members y),
           ms_roles := role_default Writer added (ms_roles y),
           ms_add_ops := insert operation_id (ms_add_ops y)\<rparr>)"

definition dgm_remove ::
  "membership_state \<Rightarrow> peer_id \<Rightarrow> peer_id \<Rightarrow> op_id \<Rightarrow> (membership_error, membership_state) outcome" where
  "dgm_remove y remover removed operation_id =
     (if removed \<notin> ms_members y then Err NotMember
      else Ok (y\<lparr>ms_members := ms_members y - {removed},
                 ms_roles := (ms_roles y)(removed := None),
                 ms_operations := ms_operations y
                   @ [\<lparr>oe_op_id = operation_id, oe_kind = OpRemove, oe_peer = removed\<rparr>],
                 ms_remove_ops := insert operation_id (ms_remove_ops y)\<rparr>))"

definition dgm_ack ::
  "membership_state \<Rightarrow> peer_id \<Rightarrow> op_id \<Rightarrow> (membership_error, membership_state) outcome" where
  "dgm_ack y acker operation_id =
     (if operation_id \<notin> ms_add_ops y \<and> operation_id \<notin> ms_remove_ops y then Err OperationNotFound
      else Ok (y\<lparr>ms_acks := (ms_acks y)(operation_id \<mapsto>
             insert acker (case ms_acks y operation_id of None \<Rightarrow> {} | Some s \<Rightarrow> s))\<rparr>))"

definition dgm_members_view :: "membership_state \<Rightarrow> peer_id \<Rightarrow> peer_id set" where
  "dgm_members_view y viewer = ms_members y"

definition dgm_is_add :: "membership_state \<Rightarrow> op_id \<Rightarrow> bool" where
  "dgm_is_add y i \<longleftrightarrow> i \<in> ms_add_ops y"

definition dgm_is_remove :: "membership_state \<Rightarrow> op_id \<Rightarrow> bool" where
  "dgm_is_remove y i \<longleftrightarrow> i \<in> ms_remove_ops y"

section \<open>Facts\<close>

lemma dom_role_default [simp]: "dom (role_default r p roles) = insert p (dom roles)"
  by (auto simp: role_default_def split: if_splits)

lemma dom_fold_role_default: "dom (fold (role_default r) ps roles) = dom roles \<union> set ps"
  by (induction ps arbitrary: roles) auto

lemma role_default_other: "q \<noteq> p \<Longrightarrow> role_default r p roles q = roles q"
  by (simp add: role_default_def)

lemma role_default_Some: "roles p = Some s \<Longrightarrow> role_default r q roles p = Some s"
  by (auto simp: role_default_def)

lemma fold_role_default_Some: "roles p = Some s \<Longrightarrow> fold (role_default r) ps roles p = Some s"
  by (induction ps arbitrary: roles) (auto intro: role_default_Some)

lemma merge_operations_frame:
  "ms_owner (fold (merge_operation e) ops y) = ms_owner y"
  "ms_members (fold (merge_operation e) ops y) = ms_members y"
  "ms_roles (fold (merge_operation e) ops y) = ms_roles y"
  by (induction ops arbitrary: y) (auto simp: merge_operation_def)

lemma from_welcome_members:
  "dgm_from_welcome y w = Ok y' \<Longrightarrow> ms_members y' = ms_members y \<union> ms_members w"
  by (auto simp: dgm_from_welcome_def Let_def merge_operations_frame)

end
