(* ===== verification/Dcgka.thy ===== *)
theory Dcgka
  imports Two_Party Group_Roles
begin

text \<open>
  The group key agreement of \<^verbatim>\<open>src/patched/p2panda-encryption/src/message_scheme/dcgka.rs\<close>,
  at the types boru uses it with: its membership (\<open>Group_Roles\<close>), its key manager and its
  registry (\<open>Key_Bundles\<close>).

  Members agree on an update secret per member and control message.  A seed travels to every
  recipient through two-party messaging; from it every member derives one secret per member,
  which enters that member's outer ratchet when the member acknowledges.

  What survives an error is the world: the environment of the primitives and the registry,
  whose rows are marked as used even when the operation fails later.  The state is passed by
  value and lost on an error.
\<close>

section \<open>Data\<close>

datatype control_message =
  CtlCreate "peer_id list"
| CtlAck peer_id op_id
| CtlUpdate
| CtlRemove peer_id
| CtlAdd peer_id
| CtlAddAck peer_id op_id

datatype direct_message_type = DmWelcome | DmTwoParty | DmForward

datatype direct_message_content =
  DcWelcome two_party_message membership_state
| DcTwoParty two_party_message
| DcForward two_party_message

record direct_message =
  dm_recipient :: peer_id
  dm_content :: direct_message_content

definition dm_message_type :: "direct_message \<Rightarrow> direct_message_type" where
  "dm_message_type dm =
     (case dm_content dm of DcWelcome _ _ \<Rightarrow> DmWelcome | DcTwoParty _ \<Rightarrow> DmTwoParty | DcForward _ \<Rightarrow> DmForward)"

datatype dcgka_error =
  InvalidKeySize
| MissingRatchetSecret
| MissingMemberSecret peer_id op_id
| MissingDirectMessage direct_message_type
| UnexpectedDirectMessageType direct_message_type direct_message_type
| NotOurDirectMessage peer_id peer_id
| DgmOperation membership_error
| PreKeyRegistryError registry_error
| IdentityRegistryError registry_error
| MissingPreKeys peer_id
| MissingIdentityKey peer_id
| DcRng rng_error
| DcTwoPartyError two_party_error
| DcHkdf hkdf_error

record dcgka =
  dc_my_keys :: kmg_state
  dc_my_id :: peer_id
  dc_next_seed :: "bytes option"
  dc_two_party :: "peer_id \<rightharpoonup> two_party"
  dc_member_secrets :: "peer_id \<times> op_id \<times> peer_id \<rightharpoonup> bytes"
  dc_ratchet :: "peer_id \<rightharpoonup> bytes"
  dc_dgm :: membership_state

record process_input =
  in_seq :: op_id
  in_sender :: peer_id
  in_control_message :: control_message
  in_direct_message :: "direct_message option"

record process_output =
  po_control_message :: "control_message option"
  po_direct_messages :: "direct_message list"
  po_sender_update_secret :: "bytes option"
  po_me_update_secret :: "bytes option"

definition no_output :: process_output where
  "no_output = \<lparr>po_control_message = None, po_direct_messages = [],
     po_sender_update_secret = None, po_me_update_secret = None\<rparr>"

record operation_output =
  op_control_message :: control_message
  op_direct_messages :: "direct_message list"
  op_me_update_secret :: "bytes option"

text \<open>
  What the definitions take from outside: the build, the primitives, the two codecs and the
  iteration order of a hash set of members.
\<close>

record 'r kit =
  kit_checked :: bool
  kit_prims :: "'r prims"
  kit_bundles :: bundle_codec
  kit_plain :: plaintext_codec
  kit_order :: "peer_id set \<Rightarrow> peer_id list"

record 'r world =
  w_env :: 'r
  w_registry :: registry

definition on_env :: "('r, 'e, 'a) eff \<Rightarrow> ('r world, 'e, 'a) eff" where
  "on_env m w = (case m (w_env w) of (a, r) \<Rightarrow> (a, w\<lparr>w_env := r\<rparr>))"

definition on_registry :: "(registry, 'e, 'a) eff \<Rightarrow> ('r world, 'e, 'a) eff" where
  "on_registry m w = (case m (w_registry w) of (a, g) \<Rightarrow> (a, w\<lparr>w_registry := g\<rparr>))"

section \<open>Secrets\<close>

definition RATCHET_KEY_SIZE :: nat where
  "RATCHET_KEY_SIZE = 32"

definition key_try_from_bytes :: "bytes \<Rightarrow> (dcgka_error, bytes) outcome" where
  "key_try_from_bytes b = (if length b = RATCHET_KEY_SIZE then Ok b else Err InvalidKeySize)"

definition chain_from_welcome :: bytes where
  "chain_from_welcome =
     [168, 234, 241, 118, 147, 12, 137, 47, 48, 26, 61, 243, 183, 11, 158, 143, 99, 219, 142,
      131, 41, 18, 245, 167, 132, 195, 241, 26, 89, 106, 154, 134]"

definition chain_from_add :: bytes where
  "chain_from_add =
     [58, 3, 204, 193, 45, 117, 68, 208, 41, 238, 11, 13, 169, 250, 180, 215, 22, 4, 43, 226,
      179, 34, 182, 188, 85, 49, 221, 39, 150, 98, 220, 156]"

definition dc_init :: "peer_id \<Rightarrow> kmg_state \<Rightarrow> membership_state \<Rightarrow> dcgka" where
  "dc_init my_id my_keys dgm =
     \<lparr>dc_my_keys = my_keys, dc_my_id = my_id, dc_next_seed = None, dc_two_party = Map.empty,
      dc_member_secrets = Map.empty, dc_ratchet = Map.empty, dc_dgm = dgm\<rparr>"

definition member_view :: "dcgka \<Rightarrow> peer_id \<Rightarrow> peer_id set" where
  "member_view y viewer = dgm_members_view (dc_dgm y) viewer"

definition known_identity_key :: "'r kit \<Rightarrow> peer_id \<Rightarrow> ('r world, dcgka_error, bytes) eff" where
  "known_identity_key E member =
     bindE (renameE IdentityRegistryError (on_registry (identity_key (kit_bundles E) member))) (\<lambda>k.
     pure (ok_or (MissingIdentityKey member) k))"

definition dc_hkdf :: "'r kit \<Rightarrow> string \<Rightarrow> bytes \<Rightarrow> (dcgka_error, bytes) outcome" where
  "dc_hkdf E s ikm = rename DcHkdf (hkdf (kit_prims E) RATCHET_KEY_SIZE (map of_char s) ikm None)"

definition update_ratchet ::
  "'r kit \<Rightarrow> dcgka \<Rightarrow> peer_id \<Rightarrow> bytes \<Rightarrow> ('r world, dcgka_error, dcgka \<times> bytes) eff" where
  "update_ratchet E y member member_secret =
     bindE (known_identity_key E member) (\<lambda>identity.
     let ikm = (case dc_ratchet y member of None \<Rightarrow> [] | Some k \<Rightarrow> k) @ member_secret @ identity
     in bindE (pure (dc_hkdf E ''update'' ikm)) (\<lambda>update_secret.
        bindE (pure (dc_hkdf E ''chain'' ikm)) (\<lambda>next_key.
        ret (y\<lparr>dc_ratchet := (dc_ratchet y)(member \<mapsto> next_key)\<rparr>, update_secret))))"

section \<open>Direct messages\<close>

text \<open>The session with a peer, or a new one from a bundle of the registry.\<close>

definition session_with ::
  "'r kit \<Rightarrow> dcgka \<Rightarrow> peer_id \<Rightarrow> ('r world, dcgka_error, two_party) eff" where
  "session_with E y peer =
     (case dc_two_party y peer of
        Some s \<Rightarrow> ret s
      | None \<Rightarrow>
          bindE (renameE PreKeyRegistryError (on_registry (reg_key_bundle (kit_bundles E) peer))) (\<lambda>b.
          bindE (pure (ok_or (MissingPreKeys peer) b)) (\<lambda>b'.
          ret (sm_init b'))))"

definition encrypt_to ::
  "'r kit \<Rightarrow> dcgka \<Rightarrow> peer_id \<Rightarrow> bytes \<Rightarrow> ('r world, dcgka_error, dcgka \<times> two_party_message) eff" where
  "encrypt_to E y recipient plaintext =
     bindE (session_with E y recipient) (\<lambda>s.
     bindE (renameE DcTwoPartyError
              (on_env (sm_send (kit_checked E) (kit_prims E) (kit_plain E) s (dc_my_keys y) plaintext)))
       (\<lambda>(s', m).
     ret (y\<lparr>dc_two_party := (dc_two_party y)(recipient \<mapsto> s')\<rparr>, m)))"

definition decrypt_from ::
  "'r kit \<Rightarrow> dcgka \<Rightarrow> peer_id \<Rightarrow> two_party_message \<Rightarrow> ('r world, dcgka_error, dcgka \<times> bytes) eff" where
  "decrypt_from E y sender m =
     bindE (session_with E y sender) (\<lambda>s.
     bindE (pure (rename DcTwoPartyError
              (sm_receive (kit_checked E) (kit_prims E) (kit_plain E) s (dc_my_keys y) m)))
       (\<lambda>(s', keys, plaintext).
     ret (y\<lparr>dc_my_keys := keys, dc_two_party := (dc_two_party y)(sender \<mapsto> s')\<rparr>, plaintext)))"

section \<open>Seeds\<close>

definition seed_to ::
  "'r kit \<Rightarrow> bytes \<Rightarrow> peer_id \<Rightarrow> dcgka \<times> direct_message list \<Rightarrow>
   ('r world, dcgka_error, dcgka \<times> direct_message list) eff" where
  "seed_to E seed recipient = (\<lambda>(y, dms).
     if recipient = dc_my_id y then ret (y, dms)
     else bindE (encrypt_to E y recipient seed) (\<lambda>(y1, m).
          ret (y1, dms @ [\<lparr>dm_recipient = recipient, dm_content = DcTwoParty m\<rparr>])))"

definition generate_seed ::
  "'r kit \<Rightarrow> dcgka \<Rightarrow> peer_id list \<Rightarrow> ('r world, dcgka_error, dcgka \<times> direct_message list) eff" where
  "generate_seed E y recipients =
     bindE (renameE DcRng (on_env (random_array (kit_prims E) RATCHET_KEY_SIZE))) (\<lambda>seed.
     foldE (seed_to E seed) recipients (y\<lparr>dc_next_seed := Some seed\<rparr>, []))"

definition derive_member_secret ::
  "'r kit \<Rightarrow> bytes \<Rightarrow> peer_id \<Rightarrow> ('r world, dcgka_error, bytes) eff" where
  "derive_member_secret E seed member =
     bindE (known_identity_key E member) (\<lambda>identity. pure (dc_hkdf E ''update'' (seed @ identity)))"

definition store_member_secret ::
  "'r kit \<Rightarrow> peer_id \<Rightarrow> op_id \<Rightarrow> bytes \<Rightarrow> peer_id \<Rightarrow> dcgka \<Rightarrow> ('r world, dcgka_error, dcgka) eff" where
  "store_member_secret E sender seq seed recipient y =
     bindE (derive_member_secret E seed recipient) (\<lambda>secret.
     ret (y\<lparr>dc_member_secrets := (dc_member_secrets y)((sender, seq, recipient) \<mapsto> secret)\<rparr>))"

definition process_ack ::
  "'r kit \<Rightarrow> dcgka \<Rightarrow> peer_id \<Rightarrow> peer_id \<times> op_id \<Rightarrow> direct_message option \<Rightarrow>
   ('r world, dcgka_error, dcgka \<times> process_output) eff" where
  "process_ack E y sender ack dm =
     bindE (pure (if dgm_is_add (dc_dgm y) (snd ack) \<and> dgm_is_remove (dc_dgm y) (snd ack) \<and> sender \<noteq> dc_my_id y
                  then and_then (rename DgmOperation (dgm_ack (dc_dgm y) sender (snd ack))) (\<lambda>d.
                       Ok (y\<lparr>dc_dgm := d\<rparr>))
                  else Ok y)) (\<lambda>y1.
     let key = (fst ack, snd ack, sender);
         member_secret = dc_member_secrets y1 key;
         y2 = y1\<lparr>dc_member_secrets := (dc_member_secrets y1)(key := None)\<rparr>;
         update = (\<lambda>y secret.
           bindE (update_ratchet E y sender secret) (\<lambda>(y', update_secret).
           ret (y', no_output\<lparr>po_sender_update_secret := Some update_secret\<rparr>)))
     in case (member_secret, dm) of
          (None, None) \<Rightarrow> ret (y2, no_output)
        | (Some secret, _) \<Rightarrow> update y2 secret
        | (None, Some d) \<Rightarrow>
            (case dm_content d of
               DcForward m \<Rightarrow>
                 if dm_recipient d \<noteq> dc_my_id y2 then ret (y2, no_output)
                 else bindE (decrypt_from E y2 sender m) (\<lambda>(y3, plaintext).
                      bindE (pure (key_try_from_bytes plaintext)) (\<lambda>secret.
                      update y3 secret))
             | _ \<Rightarrow> raise (UnexpectedDirectMessageType DmForward (dm_message_type d))))"

text \<open>
  The seed: our own, the one in the direct message, or none when we are not a recipient.
\<close>

definition obtain_seed ::
  "'r kit \<Rightarrow> dcgka \<Rightarrow> peer_id \<Rightarrow> peer_id list \<Rightarrow> direct_message option \<Rightarrow>
   ('r world, dcgka_error, (dcgka \<times> bytes) option) eff" where
  "obtain_seed E y sender recipients dm =
     (if sender = dc_my_id y
      then (case dc_next_seed y of
              None \<Rightarrow> pure Panic
            | Some seed \<Rightarrow> ret (Some (y\<lparr>dc_next_seed := None\<rparr>, seed)))
      else if dc_my_id y \<in> set recipients
      then (case dm of
              None \<Rightarrow> raise (MissingDirectMessage DmTwoParty)
            | Some d \<Rightarrow>
                (case dm_content d of
                   DcTwoParty m \<Rightarrow>
                     if dm_recipient d \<noteq> dc_my_id y
                     then raise (NotOurDirectMessage (dc_my_id y) (dm_recipient d))
                     else bindE (decrypt_from E y sender m) (\<lambda>(y1, plaintext).
                          bindE (pure (key_try_from_bytes plaintext)) (\<lambda>seed.
                          ret (Some (y1, seed))))
                 | _ \<Rightarrow> raise (UnexpectedDirectMessageType DmTwoParty (dm_message_type d))))
      else ret None)"

text \<open>Our member secret, forwarded to a member the sender did not know of.\<close>

definition forward_to ::
  "'r kit \<Rightarrow> peer_id \<Rightarrow> op_id \<Rightarrow> peer_id \<Rightarrow> dcgka \<times> direct_message list \<Rightarrow>
   ('r world, dcgka_error, dcgka \<times> direct_message list) eff" where
  "forward_to E sender seq member = (\<lambda>(y, dms).
     bindE (pure (ok_or (MissingMemberSecret sender seq)
              (dc_member_secrets y (sender, seq, dc_my_id y)))) (\<lambda>secret.
     bindE (encrypt_to E y member secret) (\<lambda>(y1, m).
     ret (y1, dms @ [\<lparr>dm_recipient = member, dm_content = DcForward m\<rparr>]))))"

definition process_seed ::
  "'r kit \<Rightarrow> dcgka \<Rightarrow> peer_id \<Rightarrow> op_id \<Rightarrow> direct_message option \<Rightarrow>
   ('r world, dcgka_error, dcgka \<times> process_output) eff" where
  "process_seed E y sender seq dm =
     (let recipients = filter (\<lambda>m. m \<noteq> sender) (kit_order E (member_view y sender));
          ack = CtlAck sender seq
      in bindE (obtain_seed E y sender recipients dm) (\<lambda>s.
         case s of
           None \<Rightarrow> ret (y, no_output\<lparr>po_control_message := Some ack\<rparr>)
         | Some (y1, seed) \<Rightarrow>
             bindE (foldE (store_member_secret E sender seq seed) recipients y1) (\<lambda>y2.
             bindE (derive_member_secret E seed sender) (\<lambda>sender_secret.
             bindE (update_ratchet E y2 sender sender_secret) (\<lambda>(y3, sender_update_secret).
             if sender = dc_my_id y3
             then ret (y3, no_output\<lparr>po_sender_update_secret := Some sender_update_secret\<rparr>)
             else
               let members = filter (\<lambda>m. m \<noteq> sender \<and> m \<notin> set recipients)
                               (kit_order E (member_view y3 (dc_my_id y3)))
               in bindE (foldE (forward_to E sender seq) members (y3, [])) (\<lambda>(y4, dms).
                  bindE (process_ack E y4 (dc_my_id y4) (sender, seq) None) (\<lambda>(y5, out).
                  ret (y5, \<lparr>po_control_message = Some ack, po_direct_messages = dms,
                            po_sender_update_secret = Some sender_update_secret,
                            po_me_update_secret = po_sender_update_secret out\<rparr>))))))))"

section \<open>Operations\<close>

text \<open>The fold that removes repeated members.\<close>

definition dedup_members :: "peer_id list \<Rightarrow> peer_id list" where
  "dedup_members ms = foldl (\<lambda>acc i. if i \<in> set acc then acc else acc @ [i]) [] ms"

definition dc_create ::
  "'r kit \<Rightarrow> dcgka \<Rightarrow> peer_id list \<Rightarrow> ('r world, dcgka_error, dcgka \<times> operation_output) eff" where
  "dc_create E y initial_members =
     (let ms = dedup_members initial_members;
          members = (if dc_my_id y \<in> set ms then ms else ms @ [dc_my_id y])
      in bindE (generate_seed E y members) (\<lambda>(y1, dms).
         ret (y1, \<lparr>op_control_message = CtlCreate members, op_direct_messages = dms,
                   op_me_update_secret = None\<rparr>)))"

definition process_create ::
  "'r kit \<Rightarrow> dcgka \<Rightarrow> peer_id \<Rightarrow> op_id \<Rightarrow> peer_id list \<Rightarrow> direct_message option \<Rightarrow>
   ('r world, dcgka_error, dcgka \<times> process_output) eff" where
  "process_create E y sender seq initial_members dm =
     bindE (pure (rename DgmOperation (dgm_create (dc_my_id y) initial_members))) (\<lambda>d.
     process_seed E (y\<lparr>dc_dgm := d\<rparr>) sender seq dm)"

definition dc_update :: "'r kit \<Rightarrow> dcgka \<Rightarrow> ('r world, dcgka_error, dcgka \<times> operation_output) eff" where
  "dc_update E y =
     (let recipients = filter (\<lambda>m. m \<noteq> dc_my_id y) (kit_order E (member_view y (dc_my_id y)))
      in bindE (generate_seed E y recipients) (\<lambda>(y1, dms).
         ret (y1, \<lparr>op_control_message = CtlUpdate, op_direct_messages = dms, op_me_update_secret = None\<rparr>)))"

definition process_update ::
  "'r kit \<Rightarrow> dcgka \<Rightarrow> peer_id \<Rightarrow> op_id \<Rightarrow> direct_message option \<Rightarrow>
   ('r world, dcgka_error, dcgka \<times> process_output) eff" where
  "process_update E y sender seq dm = process_seed E y sender seq dm"

definition dc_remove ::
  "'r kit \<Rightarrow> dcgka \<Rightarrow> peer_id \<Rightarrow> ('r world, dcgka_error, dcgka \<times> operation_output) eff" where
  "dc_remove E y removed =
     (let recipients = filter (\<lambda>m. m \<noteq> dc_my_id y \<and> m \<noteq> removed)
                         (kit_order E (member_view y (dc_my_id y)))
      in bindE (generate_seed E y recipients) (\<lambda>(y1, dms).
         ret (y1, \<lparr>op_control_message = CtlRemove removed, op_direct_messages = dms,
                   op_me_update_secret = None\<rparr>)))"

definition process_remove ::
  "'r kit \<Rightarrow> dcgka \<Rightarrow> peer_id \<Rightarrow> op_id \<Rightarrow> peer_id \<Rightarrow> direct_message option \<Rightarrow>
   ('r world, dcgka_error, dcgka \<times> process_output) eff" where
  "process_remove E y sender seq removed dm =
     bindE (pure (rename DgmOperation (dgm_remove (dc_dgm y) sender removed seq))) (\<lambda>d.
     process_seed E (y\<lparr>dc_dgm := d\<rparr>) sender seq dm)"

definition dc_add ::
  "'r kit \<Rightarrow> dcgka \<Rightarrow> peer_id \<Rightarrow> ('r world, dcgka_error, dcgka \<times> operation_output) eff" where
  "dc_add E y added =
     bindE (pure (ok_or MissingRatchetSecret (dc_ratchet y (dc_my_id y)))) (\<lambda>chain_secret.
     bindE (encrypt_to E y added chain_secret) (\<lambda>(y1, m).
     ret (y1, \<lparr>op_control_message = CtlAdd added,
               op_direct_messages = [\<lparr>dm_recipient = added, dm_content = DcWelcome m (dc_dgm y1)\<rparr>],
               op_me_update_secret = None\<rparr>)))"

definition process_add_ack ::
  "'r kit \<Rightarrow> dcgka \<Rightarrow> peer_id \<Rightarrow> peer_id \<times> op_id \<Rightarrow> direct_message option \<Rightarrow>
   ('r world, dcgka_error, dcgka \<times> process_output) eff" where
  "process_add_ack E y sender ack dm =
     bindE (pure (rename DgmOperation (dgm_ack (dc_dgm y) sender (snd ack)))) (\<lambda>d.
     let y1 = y\<lparr>dc_dgm := d\<rparr> in
     bindE
       (case dm of
          None \<Rightarrow> ret y1
        | Some msg \<Rightarrow>
            (case dm_content msg of
               DcForward m \<Rightarrow>
                 if dm_recipient msg \<noteq> dc_my_id y1
                 then raise (NotOurDirectMessage (dc_my_id y1) (dm_recipient msg))
                 else bindE (decrypt_from E y1 sender m) (\<lambda>(y2, plaintext).
                      bindE (pure (key_try_from_bytes plaintext)) (\<lambda>chain_secret.
                      ret (y2\<lparr>dc_ratchet := (dc_ratchet y2)(sender \<mapsto> chain_secret)\<rparr>)))
             | _ \<Rightarrow> raise (UnexpectedDirectMessageType DmForward (dm_message_type msg)))) (\<lambda>y3.
     if dc_my_id y3 \<in> member_view y3 sender
     then bindE (update_ratchet E y3 sender chain_from_add) (\<lambda>(y4, update_secret).
          ret (y4, no_output\<lparr>po_sender_update_secret := Some update_secret\<rparr>))
     else ret (y3, no_output)))"

definition process_welcome ::
  "'r kit \<Rightarrow> dcgka \<Rightarrow> peer_id \<Rightarrow> op_id \<Rightarrow> membership_state \<Rightarrow> two_party_message \<Rightarrow>
   ('r world, dcgka_error, dcgka \<times> process_output) eff" where
  "process_welcome E y sender seq history m =
     bindE (pure (rename DgmOperation (dgm_from_welcome (dc_dgm y) history))) (\<lambda>d.
     bindE (pure (rename DgmOperation (dgm_add d sender (dc_my_id y) seq))) (\<lambda>d'.
     bindE (decrypt_from E (y\<lparr>dc_dgm := d'\<rparr>) sender m) (\<lambda>(y1, plaintext).
     bindE (pure (key_try_from_bytes plaintext)) (\<lambda>chain_secret.
     bindE (update_ratchet E (y1\<lparr>dc_ratchet := (dc_ratchet y1)(sender \<mapsto> chain_secret)\<rparr>) sender
              chain_from_welcome) (\<lambda>(y2, member_secret).
     bindE (update_ratchet E
              (y2\<lparr>dc_member_secrets := (dc_member_secrets y2)((sender, seq, dc_my_id y2) \<mapsto> member_secret)\<rparr>)
              sender chain_from_add) (\<lambda>(y3, sender_update_secret).
     bindE (process_ack E y3 (dc_my_id y3) (sender, seq) None) (\<lambda>(y4, out).
     case po_sender_update_secret out of
       None \<Rightarrow> pure Panic
     | Some me \<Rightarrow>
         ret (y4, \<lparr>po_control_message = Some (CtlAck sender seq), po_direct_messages = [],
                   po_sender_update_secret = Some sender_update_secret,
                   po_me_update_secret = Some me\<rparr>))))))))"

definition process_add ::
  "'r kit \<Rightarrow> dcgka \<Rightarrow> peer_id \<Rightarrow> op_id \<Rightarrow> peer_id \<Rightarrow> direct_message option \<Rightarrow>
   ('r world, dcgka_error, dcgka \<times> process_output) eff" where
  "process_add E y sender seq added dm =
     (if added = dc_my_id y
      then (case dm of
              None \<Rightarrow> raise (MissingDirectMessage DmWelcome)
            | Some msg \<Rightarrow>
                (case dm_content msg of
                   DcWelcome m history \<Rightarrow>
                     if dm_recipient msg \<noteq> dc_my_id y
                     then raise (NotOurDirectMessage (dc_my_id y) (dm_recipient msg))
                     else process_welcome E y sender seq history m
                 | _ \<Rightarrow> raise (UnexpectedDirectMessageType DmWelcome (dm_message_type msg))))
      else
        bindE (pure (rename DgmOperation (dgm_add (dc_dgm y) sender added seq))) (\<lambda>d.
        let y1 = y\<lparr>dc_dgm := d\<rparr> in
        bindE
          (if dc_my_id y1 \<notin> member_view y1 sender then ret (y1, None)
           else
             bindE (update_ratchet E y1 sender chain_from_welcome) (\<lambda>(y2, member_secret).
             bindE (update_ratchet E
                      (y2\<lparr>dc_member_secrets := (dc_member_secrets y2)((sender, seq, added) \<mapsto> member_secret)\<rparr>)
                      sender chain_from_add) (\<lambda>(y3, update_secret).
             ret (y3, Some update_secret)))) (\<lambda>(y4, sender_update_secret).
        if sender = dc_my_id y4
        then ret (y4, no_output\<lparr>po_sender_update_secret := sender_update_secret\<rparr>)
        else
          bindE (pure (ok_or MissingRatchetSecret (dc_ratchet y4 (dc_my_id y4)))) (\<lambda>chain_secret.
          bindE (encrypt_to E y4 added chain_secret) (\<lambda>(y5, m).
          bindE (process_add_ack E y5 (dc_my_id y5) (sender, seq) None) (\<lambda>(y6, out).
          ret (y6, \<lparr>po_control_message = Some (CtlAddAck sender seq),
                    po_direct_messages = [\<lparr>dm_recipient = added, dm_content = DcForward m\<rparr>],
                    po_sender_update_secret = sender_update_secret,
                    po_me_update_secret = po_sender_update_secret out\<rparr>)))))))"

definition process_remote ::
  "'r kit \<Rightarrow> dcgka \<Rightarrow> process_input \<Rightarrow> ('r world, dcgka_error, dcgka \<times> process_output) eff" where
  "process_remote E y i =
     (if in_sender i = dc_my_id y then pure Panic
      else case in_control_message i of
             CtlCreate ms \<Rightarrow> process_create E y (in_sender i) (in_seq i) ms (in_direct_message i)
           | CtlAck s q \<Rightarrow> process_ack E y (in_sender i) (s, q) (in_direct_message i)
           | CtlUpdate \<Rightarrow> process_update E y (in_sender i) (in_seq i) (in_direct_message i)
           | CtlRemove p \<Rightarrow> process_remove E y (in_sender i) (in_seq i) p (in_direct_message i)
           | CtlAdd p \<Rightarrow> process_add E y (in_sender i) (in_seq i) p (in_direct_message i)
           | CtlAddAck s q \<Rightarrow> process_add_ack E y (in_sender i) (s, q) (in_direct_message i))"

definition process_local ::
  "'r kit \<Rightarrow> dcgka \<Rightarrow> op_id \<Rightarrow> operation_output \<Rightarrow> ('r world, dcgka_error, dcgka \<times> operation_output) eff" where
  "process_local E y seq input =
     (let me = dc_my_id y in
      bindE
        (case op_control_message input of
           CtlCreate ms \<Rightarrow> process_create E y me seq ms None
         | CtlUpdate \<Rightarrow> process_update E y me seq None
         | CtlRemove p \<Rightarrow> process_remove E y me seq p None
         | CtlAdd p \<Rightarrow> process_add E y me seq p None
         | _ \<Rightarrow> pure Panic) (\<lambda>(y1, out).
      if po_control_message out \<noteq> None \<or> po_direct_messages out \<noteq> [] then pure Panic
      else case po_sender_update_secret out of
             None \<Rightarrow> pure Panic
           | Some secret \<Rightarrow> ret (y1, input\<lparr>op_me_update_secret := Some secret\<rparr>)))"

end
