(* ===== verification/Message_Ratchet.thy ===== *)
theory Message_Ratchet
  imports Group_Crypto
begin

text \<open>
  The message ratchets of \<^verbatim>\<open>src/patched/p2panda-encryption/src/message_scheme/ratchet.rs\<close>
  and the message encryption of \<^verbatim>\<open>message.rs\<close> beside it.  The sender's ratchet derives
  one key and nonce per message; the receiver's ratchet does the same for messages that
  arrive late or out of order, within a window.

  The specification is a window over generation numbers: its head, and the generations
  behind the head whose key is still kept.  The first theorem says that the decryption
  ratchet gives exactly the answers of that window.
\<close>

section \<open>Ratchets\<close>

datatype ratchet_error =
  RatchetHkdf hkdf_error
| TooDistantInTheFuture
| TooDistantInThePast
| IndexOutOfBounds
| SecretReuse

type_synonym generation = u32
type_synonym key_material = "bytes \<times> bytes"

definition MESSAGE_KEY_SIZE :: nat where
  "MESSAGE_KEY_SIZE = 32"

definition NONCE_SIZE :: nat where
  "NONCE_SIZE = 12"

record ratchet_secret =
  rt_secret :: bytes
  rt_generation :: generation

definition ratchet_init :: "bytes \<Rightarrow> ratchet_secret" where
  "ratchet_init secret = \<lparr>rt_secret = secret, rt_generation = 0\<rparr>"

text \<open>The salts \<^verbatim>\<open>b"nonce"\<close>, \<^verbatim>\<open>b"key"\<close> and \<^verbatim>\<open>b"chain"\<close>.\<close>

definition salt :: "string \<Rightarrow> bytes" where
  "salt s = map of_char s"

text \<open>
  \<open>oc\<close> says whether the build checks overflow: \<^verbatim>\<open>y.generation += 1\<close> then panics at the last
  generation, and wraps otherwise.
\<close>

definition ratchet_forward ::
  "bool \<Rightarrow> 'r prims \<Rightarrow> ratchet_secret \<Rightarrow>
   (ratchet_error, ratchet_secret \<times> generation \<times> key_material) outcome" where
  "ratchet_forward oc P y =
     and_then (rename RatchetHkdf (hkdf P NONCE_SIZE (salt ''nonce'') (rt_secret y) None)) (\<lambda>nonce.
     and_then (rename RatchetHkdf (hkdf P MESSAGE_KEY_SIZE (salt ''key'') (rt_secret y) None)) (\<lambda>key.
     if oc \<and> rt_generation y = - 1 then Panic
     else
       and_then (rename RatchetHkdf (hkdf P MESSAGE_KEY_SIZE (salt ''chain'') (rt_secret y) None)) (\<lambda>chain.
       Ok (\<lparr>rt_secret = chain, rt_generation = rt_generation y + 1\<rparr>, rt_generation y, (key, nonce)))))"

record decryption_ratchet =
  dr_past_secrets :: "key_material option list"
  dr_head :: ratchet_secret

definition decryption_init :: "bytes \<Rightarrow> decryption_ratchet" where
  "decryption_init secret = \<lparr>dr_past_secrets = [], dr_head = ratchet_init secret\<rparr>"

text \<open>The loop that derives and keeps the keys of the generations that are jumped over.\<close>

fun ratchet_skip ::
  "bool \<Rightarrow> 'r prims \<Rightarrow> nat \<Rightarrow> decryption_ratchet \<Rightarrow> (ratchet_error, decryption_ratchet) outcome" where
  "ratchet_skip oc P 0 y = Ok y"
| "ratchet_skip oc P (Suc n) y =
     and_then (ratchet_forward oc P (dr_head y)) (\<lambda>(head, _, secrets).
     ratchet_skip oc P n
       \<lparr>dr_past_secrets = Some secrets # dr_past_secrets y, dr_head = head\<rparr>)"

text \<open>
  \<^verbatim>\<open>((generation_head - generation) as i32) - 1\<close>: the difference is reinterpreted as a signed
  number, and the subtraction overflows at its minimum.
\<close>

definition window_index :: "bool \<Rightarrow> u32 \<Rightarrow> int option" where
  "window_index oc d =
     (if sint d = - (2 ^ 31) then (if oc then None else Some (2 ^ 31 - 1)) else Some (sint d - 1))"

definition take_secret ::
  "nat \<Rightarrow> decryption_ratchet \<Rightarrow> (ratchet_error, decryption_ratchet \<times> key_material) outcome" where
  "take_secret index y =
     (if index < length (dr_past_secrets y)
      then (case dr_past_secrets y ! index of
              None \<Rightarrow> Err SecretReuse
            | Some k \<Rightarrow> Ok (y\<lparr>dr_past_secrets := (dr_past_secrets y)[index := None]\<rparr>, k))
      else Err IndexOutOfBounds)"

definition secret_for_decryption ::
  "bool \<Rightarrow> 'r prims \<Rightarrow> decryption_ratchet \<Rightarrow> generation \<Rightarrow> u32 \<Rightarrow> u32 \<Rightarrow>
   (ratchet_error, decryption_ratchet \<times> key_material) outcome" where
  "secret_for_decryption oc P y generation maximum_forward_distance ooo_tolerance =
     (let head = rt_generation (dr_head y) in
      if head < - 1 - maximum_forward_distance \<and> generation > head + maximum_forward_distance
      then Err TooDistantInTheFuture
      else if generation < head \<and> head - generation > ooo_tolerance
      then Err TooDistantInThePast
      else if generation \<ge> head
      then
        and_then (ratchet_skip oc P (unat (generation - head)) y) (\<lambda>y1.
        and_then (ratchet_forward oc P (dr_head y1)) (\<lambda>(head', _, secrets).
        Ok (\<lparr>dr_past_secrets = take (unat ooo_tolerance) (None # dr_past_secrets y1),
             dr_head = head'\<rparr>, secrets)))
      else
        case window_index oc (head - generation) of
          None \<Rightarrow> Panic
        | Some i \<Rightarrow> if i \<ge> 0 then take_secret (nat i) y else Err TooDistantInThePast)"

section \<open>Messages\<close>

definition encrypt_message :: "'r prims \<Rightarrow> bytes \<Rightarrow> key_material \<Rightarrow> (aead_error, bytes) outcome" where
  "encrypt_message P plaintext secrets =
     (case secrets of (key, nonce) \<Rightarrow> aead_encrypt P key plaintext nonce None)"

definition decrypt_message :: "'r prims \<Rightarrow> bytes \<Rightarrow> key_material \<Rightarrow> (aead_error, bytes) outcome" where
  "decrypt_message P ciphertext secrets =
     (case secrets of (key, nonce) \<Rightarrow> aead_decrypt P key ciphertext nonce None)"

lemma message_roundtrip:
  "cipher_ok P \<Longrightarrow> encrypt_message P m k = Ok c \<Longrightarrow> decrypt_message P c k = Ok m"
  by (auto simp: encrypt_message_def decrypt_message_def split: prod.splits intro: aead_roundtrip_group)

section \<open>The key of a generation\<close>

primrec chain_secret :: "'r prims \<Rightarrow> bytes \<Rightarrow> nat \<Rightarrow> bytes" where
  "chain_secret P s 0 = s"
| "chain_secret P s (Suc n) =
     the_ok (hkdf P MESSAGE_KEY_SIZE (salt ''chain'') (chain_secret P s n) None)"

definition generation_material :: "'r prims \<Rightarrow> bytes \<Rightarrow> nat \<Rightarrow> key_material" where
  "generation_material P s n =
     (the_ok (hkdf P MESSAGE_KEY_SIZE (salt ''key'') (chain_secret P s n) None),
      the_ok (hkdf P NONCE_SIZE (salt ''nonce'') (chain_secret P s n) None))"

definition ratchet_at :: "'r prims \<Rightarrow> bytes \<Rightarrow> nat \<Rightarrow> ratchet_secret" where
  "ratchet_at P s n = \<lparr>rt_secret = chain_secret P s n, rt_generation = of_nat n\<rparr>"

lemma ratchet_at_0: "ratchet_at P s 0 = ratchet_init s"
  by (simp add: ratchet_at_def ratchet_init_def)

lemma hkdf_ok_value:
  assumes "hkdf_ok P" and "n \<le> 255 * 32"
  shows "hkdf P n a b c = Ok (the_ok (hkdf P n a b c))"
  using hkdf_total [OF assms] by (metis outcome.sel)

lemma of_nat_not_max:
  assumes "n < 2 ^ 32 - 1"
  shows "(of_nat n :: u32) \<noteq> - 1"
proof
  assume "(of_nat n :: u32) = - 1"
  then have "unat (of_nat n :: u32) = unat (- 1 :: u32)" by simp
  moreover have "unat (- 1 :: u32) = 2 ^ 32 - 1"
    by (simp add: unsigned_minus_1_eq_mask mask_eq_exp_minus_1)
  moreover have "unat (of_nat n :: u32) = n" using assms by (simp add: unat_of_nat_small)
  ultimately show False using assms by simp
qed

lemma ratchet_forward_at:
  assumes "hkdf_ok P" and "n < 2 ^ 32 - 1"
  shows "ratchet_forward oc P (ratchet_at P s n) =
    Ok (ratchet_at P s (Suc n), of_nat n, generation_material P s n)"
  using of_nat_not_max [OF assms(2)]
    hkdf_ok_value [OF assms(1), of NONCE_SIZE] hkdf_ok_value [OF assms(1), of MESSAGE_KEY_SIZE]
  by (simp add: ratchet_forward_def ratchet_at_def generation_material_def
      MESSAGE_KEY_SIZE_def NONCE_SIZE_def add.commute)

section \<open>The window\<close>

text \<open>
  A head and the generations behind it whose key is kept.  A request beyond the forward
  distance or behind the tolerance is an error; one at or after the head moves the head
  and keeps the generations it jumped over as far as the tolerance allows; one behind the
  head uses up the key that was kept for it.
\<close>

type_synonym window = "nat \<times> nat set"

definition window_step :: "nat \<Rightarrow> nat \<Rightarrow> nat \<Rightarrow> window \<Rightarrow> (ratchet_error, window) outcome" where
  "window_step fwd tol g = (\<lambda>(head, kept).
     if g > head + fwd then Err TooDistantInTheFuture
     else if g + tol < head then Err TooDistantInThePast
     else if head \<le> g then Ok (Suc g, Set.filter (\<lambda>x. Suc g \<le> x + tol) (kept \<union> {head..<g}))
     else if g \<in> kept then Ok (head, kept - {g})
     else Err SecretReuse)"

definition past_of :: "'r prims \<Rightarrow> bytes \<Rightarrow> nat \<Rightarrow> window \<Rightarrow> key_material option list" where
  "past_of P s tol = (\<lambda>(head, kept).
     map (\<lambda>i. if head - 1 - i \<in> kept then Some (generation_material P s (head - 1 - i)) else None)
       [0..<min head tol])"

definition window_ok :: "nat \<Rightarrow> window \<Rightarrow> bool" where
  "window_ok tol = (\<lambda>(head, kept). head < 2 ^ 32 \<and> (\<forall>x \<in> kept. x < head \<and> head \<le> x + tol))"

definition ratchet_of :: "'r prims \<Rightarrow> bytes \<Rightarrow> nat \<Rightarrow> window \<Rightarrow> decryption_ratchet" where
  "ratchet_of P s tol w =
     \<lparr>dr_past_secrets = past_of P s tol w, dr_head = ratchet_at P s (fst w)\<rparr>"

lemma length_past_of [simp]: "length (past_of P s tol (head, kept)) = min head tol"
  by (simp add: past_of_def)

lemma nth_past_of:
  "i < min head tol \<Longrightarrow> past_of P s tol (head, kept) ! i =
     (if head - 1 - i \<in> kept then Some (generation_material P s (head - 1 - i)) else None)"
  by (simp add: past_of_def)

lemma window_ok_start: "window_ok tol (0, {})"
  by (simp add: window_ok_def)

lemma ratchet_of_start: "ratchet_of P s tol (0, {}) = decryption_init s"
  by (simp add: ratchet_of_def decryption_init_def past_of_def ratchet_at_0)

lemma window_step_ok:
  assumes "window_ok tol w" and "g < 2 ^ 32 - 1" and "window_step fwd tol g w = Ok w'"
  shows "window_ok tol w'"
  using assms by (cases w) (auto simp: window_ok_def window_step_def split: if_splits)

lemma ratchet_skip_at:
  assumes "hkdf_ok P" and "head + n < 2 ^ 32"
  shows "ratchet_skip oc P n \<lparr>dr_past_secrets = past, dr_head = ratchet_at P s head\<rparr> =
    Ok \<lparr>dr_past_secrets = rev (map (\<lambda>i. Some (generation_material P s i)) [head..<head + n]) @ past,
        dr_head = ratchet_at P s (head + n)\<rparr>"
  using assms(2)
proof (induction n arbitrary: head past)
  case (Suc n)
  then have "head < 2 ^ 32 - 1" by simp
  with Suc.IH [of "Suc head"] Suc.prems show ?case
    by (simp add: ratchet_forward_at [OF assms(1)] upt_conv_Cons del: upt_Suc)
qed simp

lemma past_of_jump:
  assumes "head \<le> g" and "\<forall>x \<in> kept. x < head"
  shows "take tol (None # rev (map (\<lambda>i. Some (generation_material P s i)) [head..<g])
             @ past_of P s tol (head, kept)) =
    past_of P s tol (Suc g, Set.filter (\<lambda>x. Suc g \<le> x + tol) (kept \<union> {head..<g}))"
  (is "?l = ?r")
proof (rule nth_equalityI)
  show "length ?l = length ?r" using assms by auto
  fix i
  assume "i < length ?l"
  then have i: "i < tol" "i < Suc g" using assms by auto
  consider "i = 0" | "0 < i" "i \<le> g - head" | "g - head < i" using assms by linarith
  then show "?l ! i = ?r ! i"
  proof cases
    case 3
    then have "i - 1 - (g - head) < min head tol" and "head - 1 - (i - 1 - (g - head)) = g - i"
      using i assms by auto
    with 3 i assms show ?thesis
      by (auto simp: nth_append nth_Cons' nth_past_of)
  qed (use i assms in \<open>auto simp: nth_append nth_Cons' rev_nth nth_past_of\<close>)
qed

lemma u32_max: "unat (- 1 :: u32) = 2 ^ 32 - 1"
  by (simp add: unsigned_minus_1_eq_mask mask_eq_exp_minus_1)

text \<open>The guards of the source on machine words, as comparisons of numbers.\<close>

lemma future_guard:
  fixes head fwd g :: u32
  shows "(head < - 1 - fwd \<and> g > head + fwd) \<longleftrightarrow> unat g > unat head + unat fwd"
proof -
  have f: "unat (- 1 - fwd) = 2 ^ 32 - 1 - unat fwd"
    by (simp add: unat_sub u32_max)
  have "unat g < 2 ^ LENGTH(32)" by (rule unsigned_less)
  then have g: "unat g \<le> 2 ^ 32 - 1" by simp
  show ?thesis
  proof (cases "unat head + unat fwd < 2 ^ 32")
    case True
    then have "unat (head + fwd) = unat head + unat fwd"
      by (simp add: unat_add_lem [symmetric])
    then show ?thesis using f g by (auto simp: word_less_nat_alt)
  next
    case False
    then show ?thesis using f g by (auto simp: word_less_nat_alt)
  qed
qed

lemma unat_diff_u32: "(b :: u32) \<le> a \<Longrightarrow> unat (a - b) = unat a - unat b"
  by (rule unat_sub)

lemma past_guard:
  fixes head tol g :: u32
  shows "(g < head \<and> head - g > tol) \<longleftrightarrow> unat g + unat tol < unat head"
  using unat_diff_u32 [of g head] by (auto simp: word_less_nat_alt word_le_nat_alt)

lemma int_not_negative_power: "int k \<noteq> - (2 ^ n)"
proof -
  have "- (2 ^ n) < (0 :: int)" by simp
  then show ?thesis by linarith
qed

lemma window_index_small:
  assumes "0 < unat d" and "unat d < 2 ^ 31"
  shows "window_index oc d = Some (int (unat d) - 1)"
proof -
  have "sint d = int (unat d)" using sint_below_sign_bit [of d] assms(2) by simp
  moreover from this have "sint d \<noteq> - (2 ^ 31)" by (metis int_not_negative_power)
  ultimately show ?thesis by (simp only: window_index_def if_False)
qed

lemma nat_pred: "nat (int k - 1) = k - 1"
  by arith

lemma int_pred: "0 < k \<Longrightarrow> 0 \<le> int k - 1"
  by simp

text \<open>One request on the ratchet is one step of the window.\<close>

lemma secret_for_decryption_step:
  assumes P: "hkdf_ok P" and tol: "unat tol < 2 ^ 31" and w: "window_ok (unat tol) w"
    and g: "unat g < 2 ^ 32 - 1"
  shows "secret_for_decryption oc P (ratchet_of P s (unat tol) w) g fwd tol =
    (case window_step (unat fwd) (unat tol) (unat g) w of
       Ok w' \<Rightarrow> Ok (ratchet_of P s (unat tol) w', generation_material P s (unat g))
     | Err e \<Rightarrow> Err e
     | Panic \<Rightarrow> Panic)"
proof -
  obtain head kept where w_eq: "w = (head, kept)" by force
  have head: "head < 2 ^ 32" and kept: "\<forall>x \<in> kept. x < head \<and> head \<le> x + unat tol"
    using w by (auto simp: w_eq window_ok_def)
  let ?h = "of_nat head :: u32"
  have h [simp]: "unat ?h = head" using head by (simp add: unat_of_nat_small)
  have gen: "rt_generation (dr_head (ratchet_of P s (unat tol) (head, kept))) = ?h"
    by (simp add: ratchet_of_def ratchet_at_def)
  consider "unat g > head + unat fwd" | "\<not> unat g > head + unat fwd" "unat g + unat tol < head"
    | "\<not> unat g > head + unat fwd" "head \<le> unat g"
    | "\<not> unat g > head + unat fwd" "\<not> unat g + unat tol < head" "unat g < head"
    by linarith
  then show ?thesis
  proof cases
    case 1
    then show ?thesis
      by (simp add: secret_for_decryption_def Let_def gen future_guard window_step_def w_eq)
  next
    case 2
    then show ?thesis
      by (simp add: secret_for_decryption_def Let_def gen future_guard past_guard window_step_def w_eq)
  next
    case 3
    have d: "unat (g - ?h) = unat g - head" using 3 by (simp add: unat_diff_u32 word_le_nat_alt)
    have skip: "ratchet_skip oc P (unat g - head) (ratchet_of P s (unat tol) (head, kept)) =
      Ok \<lparr>dr_past_secrets = rev (map (\<lambda>i. Some (generation_material P s i)) [head..<unat g])
            @ past_of P s (unat tol) (head, kept), dr_head = ratchet_at P s (unat g)\<rparr>"
      using ratchet_skip_at [OF P, of head "unat g - head"] 3 g by (simp add: ratchet_of_def)
    let ?w = "(Suc (unat g), Set.filter (\<lambda>x. Suc (unat g) \<le> x + unat tol) (kept \<union> {head..<unat g}))"
    have jump: "\<lparr>dr_past_secrets = take (unat tol)
          (None # rev (map (\<lambda>i. Some (generation_material P s i)) [head..<unat g])
             @ past_of P s (unat tol) (head, kept)), dr_head = ratchet_at P s (Suc (unat g))\<rparr> =
        ratchet_of P s (unat tol) ?w"
      using past_of_jump [of head "unat g" kept] 3 kept by (simp add: ratchet_of_def)
    have "secret_for_decryption oc P (ratchet_of P s (unat tol) (head, kept)) g fwd tol =
        Ok (ratchet_of P s (unat tol) ?w, generation_material P s (unat g))"
      using 3 g unfolding jump [symmetric]
      by (simp add: secret_for_decryption_def Let_def gen future_guard past_guard d skip
          ratchet_forward_at [OF P] word_le_nat_alt)
    moreover have "window_step (unat fwd) (unat tol) (unat g) (head, kept) = Ok ?w"
      using 3 by (simp add: window_step_def)
    ultimately show ?thesis by (simp add: w_eq)
  next
    case 4
    obtain k where k: "k = head - unat g" "0 < k" "k \<le> unat tol" "k \<le> head" using 4 by auto
    have d: "unat (?h - g) = k" using 4 k by (simp add: unat_diff_u32 word_le_nat_alt)
    have i: "window_index oc (?h - g) = Some (int k - 1)"
      using window_index_small [of "?h - g"] d k tol by simp
    have "secret_for_decryption oc P (ratchet_of P s (unat tol) (head, kept)) g fwd tol =
        take_secret (k - 1) (ratchet_of P s (unat tol) (head, kept))"
      using 4 nat_pred [of k] int_pred [OF k(2)]
      by (simp add: secret_for_decryption_def Let_def gen future_guard past_guard i word_le_nat_alt)
    moreover have "(past_of P s (unat tol) (head, kept))[k - 1 := None] =
        past_of P s (unat tol) (head, kept - {unat g})"
      using 4 k by (intro nth_equalityI) (auto simp: nth_list_update nth_past_of)
    moreover have "past_of P s (unat tol) (head, kept) ! (k - 1) =
        (if unat g \<in> kept then Some (generation_material P s (unat g)) else None)"
      using nth_past_of [of "k - 1" head "unat tol" P s kept] 4 k by simp
    moreover have "k - 1 < min head (unat tol)" using k by auto
    ultimately show ?thesis
      using 4 by (simp add: take_secret_def window_step_def w_eq ratchet_of_def)
  qed
qed

section \<open>Sequences of messages\<close>

fun take_secrets ::
  "bool \<Rightarrow> 'r prims \<Rightarrow> u32 \<Rightarrow> u32 \<Rightarrow> generation list \<Rightarrow> decryption_ratchet \<Rightarrow>
   (ratchet_error, decryption_ratchet \<times> key_material list) outcome" where
  "take_secrets oc P fwd tol [] y = Ok (y, [])"
| "take_secrets oc P fwd tol (g # gs) y =
     and_then (secret_for_decryption oc P y g fwd tol) (\<lambda>(y1, k).
     and_then (take_secrets oc P fwd tol gs y1) (\<lambda>(y2, ks). Ok (y2, k # ks)))"

fun window_run :: "nat \<Rightarrow> nat \<Rightarrow> nat list \<Rightarrow> window \<Rightarrow> (ratchet_error, window) outcome" where
  "window_run fwd tol [] w = Ok w"
| "window_run fwd tol (g # gs) w = and_then (window_step fwd tol g w) (window_run fwd tol gs)"

text \<open>The sender's side: every message takes the next key of the ratchet.\<close>

datatype send_error = SendRatchet ratchet_error | SendAead aead_error

fun encrypt_all ::
  "bool \<Rightarrow> 'r prims \<Rightarrow> bytes list \<Rightarrow> ratchet_secret \<Rightarrow>
   (send_error, ratchet_secret \<times> (generation \<times> bytes) list) outcome" where
  "encrypt_all oc P [] y = Ok (y, [])"
| "encrypt_all oc P (m # ms) y =
     and_then (rename SendRatchet (ratchet_forward oc P y)) (\<lambda>(y1, g, k).
     and_then (rename SendAead (encrypt_message P m k)) (\<lambda>c.
     and_then (encrypt_all oc P ms y1) (\<lambda>(y2, cs). Ok (y2, (g, c) # cs))))"

lemma take_secrets_window:
  assumes "hkdf_ok P" and "unat tol < 2 ^ 31" and "window_ok (unat tol) w"
    and "\<forall>g \<in> set gs. unat g < 2 ^ 32 - 1"
  shows "take_secrets oc P fwd tol gs (ratchet_of P s (unat tol) w) =
    (case window_run (unat fwd) (unat tol) (map unat gs) w of
       Ok w' \<Rightarrow> Ok (ratchet_of P s (unat tol) w', map (\<lambda>g. generation_material P s (unat g)) gs)
     | Err e \<Rightarrow> Err e
     | Panic \<Rightarrow> Panic)"
  using assms(3,4)
proof (induction gs arbitrary: w)
  case (Cons g gs)
  have step: "secret_for_decryption oc P (ratchet_of P s (unat tol) w) g fwd tol =
    (case window_step (unat fwd) (unat tol) (unat g) w of
       Ok w' \<Rightarrow> Ok (ratchet_of P s (unat tol) w', generation_material P s (unat g))
     | Err e \<Rightarrow> Err e
     | Panic \<Rightarrow> Panic)"
    using secret_for_decryption_step [OF assms(1,2) Cons.prems(1)] Cons.prems(2) by simp
  show ?case
  proof (cases "window_step (unat fwd) (unat tol) (unat g) w")
    case (Ok w1)
    have "window_ok (unat tol) w1"
      using window_step_ok [OF Cons.prems(1) _ Ok] Cons.prems(2) by simp
    with Cons.IH [of w1] Cons.prems(2) step Ok show ?thesis
      by (cases "window_run (unat fwd) (unat tol) (map unat gs) w1") simp_all
  qed (simp_all add: step)
qed simp

lemma window_run_fresh:
  assumes "window_run fwd tol gs w = Ok w'" and "\<forall>x \<in> snd w. x < fst w"
  shows "distinct gs \<and> (\<forall>g \<in> set gs. g \<in> snd w \<or> fst w \<le> g)
    \<and> (\<forall>x \<in> snd w'. x < fst w' \<and> x \<notin> set gs \<and> (x \<in> snd w \<or> fst w \<le> x))
    \<and> (\<forall>g \<in> set gs. g < fst w')
    \<and> fst w \<le> fst w'"
  using assms
proof (induction gs arbitrary: w)
  case (Cons g gs)
  obtain w1 where step: "window_step fwd tol g w = Ok w1" and run: "window_run fwd tol gs w1 = Ok w'"
    using Cons.prems(1) by auto
  obtain head kept where w: "w = (head, kept)" by force
  have w1: "\<forall>x \<in> snd w1. x < fst w1 \<and> x \<noteq> g \<and> (x \<in> kept \<or> head \<le> x)"
    "g < fst w1" "g \<notin> snd w1" "head \<le> fst w1" "g \<in> kept \<or> head \<le> g"
    using step Cons.prems(2) by (fastforce simp: w window_step_def split: if_splits)+
  with Cons.IH [OF run] show ?case by (auto simp: w)
qed auto

lemma window_run_ok:
  assumes "window_ok tol w" and "\<forall>g \<in> set gs. g < 2 ^ 32 - 1" and "window_run fwd tol gs w = Ok w'"
  shows "window_ok tol w'"
  using assms
proof (induction gs arbitrary: w)
  case (Cons g gs)
  then obtain w1 where "window_step fwd tol g w = Ok w1" and "window_run fwd tol gs w1 = Ok w'" by auto
  with Cons window_step_ok [of tol w g fwd w1] show ?case by simp
qed simp

lemma encrypt_all_total:
  assumes "hkdf_ok P" and "n + length ms < 2 ^ 32"
    and "\<forall>m \<in> set ms. \<forall>k. \<exists>c. encrypt_message P m k = Ok c"
  shows "\<exists>y cs. encrypt_all oc P ms (ratchet_at P s n) = Ok (y, cs)"
  using assms(2,3)
proof (induction ms arbitrary: n)
  case (Cons m ms)
  then have "n < 2 ^ 32 - 1" by simp
  note forward = ratchet_forward_at [OF assms(1) this]
  obtain c where "encrypt_message P m (generation_material P s n) = Ok c"
    using Cons.prems(2) by (metis list.set_intros(1))
  moreover obtain y cs where "encrypt_all oc P ms (ratchet_at P s (Suc n)) = Ok (y, cs)"
    using Cons.IH [of "Suc n"] Cons.prems by auto
  ultimately show ?case by (simp add: forward)
qed simp

lemma demo_encrypts: "\<exists>c. encrypt_message demo_prims m k = Ok c"
  by (cases k) (simp add: encrypt_message_def aead_encrypt_def demo_prims_def ok_or_def)

lemma encrypt_all_at:
  assumes "hkdf_ok P" and "n + length ms < 2 ^ 32"
    and "encrypt_all oc P ms (ratchet_at P s n) = Ok (y, cs)"
  shows "length cs = length ms
    \<and> (\<forall>i < length ms. fst (cs ! i) = of_nat (n + i)
         \<and> encrypt_message P (ms ! i) (generation_material P s (n + i)) = Ok (snd (cs ! i)))"
  using assms(2,3)
proof (induction ms arbitrary: n cs)
  case (Cons m ms)
  have "n < 2 ^ 32 - 1" using Cons.prems(1) by simp
  note forward = ratchet_forward_at [OF assms(1) this]
  obtain c cs' where c: "encrypt_message P m (generation_material P s n) = Ok c"
    and rest: "encrypt_all oc P ms (ratchet_at P s (Suc n)) = Ok (y, cs')" and cs: "cs = (of_nat n, c) # cs'"
    using Cons.prems(2) by (auto simp: forward)
  show ?case
    using Cons.IH [OF _ rest] Cons.prems(1) c by (auto simp: cs nth_Cons split: nat.splits)
qed simp

section \<open>Properties\<close>

text \<open>
  C11. Whatever sequence of generations is asked of a decryption ratchet, in whatever
  order, its answers are those of the window: the same errors at the same request, and
  otherwise the key material of exactly the generations asked for, with the state that
  keeps the keys of the generations in the window and no others.
\<close>

theorem decryption_window:
  assumes "hkdf_ok P" and "unat tol < 2 ^ 31" and "\<forall>g \<in> set gs. unat g < 2 ^ 32 - 1"
  shows "take_secrets oc P fwd tol gs (decryption_init s) =
    (case window_run (unat fwd) (unat tol) (map unat gs) (0, {}) of
       Ok w \<Rightarrow> Ok (ratchet_of P s (unat tol) w, map (\<lambda>g. generation_material P s (unat g)) gs)
     | Err e \<Rightarrow> Err e
     | Panic \<Rightarrow> Panic)"
  using take_secrets_window [OF assms(1,2) window_ok_start assms(3)]
  by (simp only: ratchet_of_start)

theorem decryption_window_witness:
  "take_secrets True demo_prims 3 3 [0, 4, 3, 2, 2] (decryption_init (replicate 32 7)) = Err SecretReuse
   \<and> take_secrets True demo_prims 3 3 [0, 4, 3, 2] (decryption_init (replicate 32 7)) =
        Ok (ratchet_of demo_prims (replicate 32 7) 3 (5, {}),
            map (generation_material demo_prims (replicate 32 7)) [0, 4, 3, 2])"
proof -
  have "window_run 3 3 [0, 4, 3, 2, 2] (0, {}) = Err SecretReuse"
    and "window_run 3 3 [0, 4, 3, 2] (0, {}) = Ok (5, {})"
    by code_simp+
  then show ?thesis
    using decryption_window [of demo_prims 3 "[0, 4, 3, 2, 2]" True 3 "replicate 32 7"]
      decryption_window [of demo_prims 3 "[0, 4, 3, 2]" True 3 "replicate 32 7"]
      prims_okD(1) [OF demo_prims_ok]
    by (simp del: take_secrets.simps window_run.simps)
qed

text \<open>
  C25. No generation is decrypted twice, and the ratchet forgets what it used: when a
  sequence of requests succeeds its generations are distinct, and every key the ratchet
  still keeps belongs to a generation that was not asked for, lies before the head and
  within the tolerance behind it.
\<close>

theorem generation_used_once:
  assumes "hkdf_ok P" and "unat tol < 2 ^ 31" and "\<forall>g \<in> set gs. unat g < 2 ^ 32 - 1"
    and run: "take_secrets oc P fwd tol gs (decryption_init s) = Ok (y, ks)"
  shows "distinct gs
    \<and> (\<forall>k. Some k \<in> set (dr_past_secrets y) \<longrightarrow>
         (\<exists>g. k = generation_material P s g \<and> g \<notin> unat ` set gs
            \<and> g < unat (rt_generation (dr_head y)) \<and> unat (rt_generation (dr_head y)) \<le> g + unat tol))"
proof -
  let ?run = "window_run (unat fwd) (unat tol) (map unat gs) (0, {})"
  have sim: "take_secrets oc P fwd tol gs (decryption_init s) =
    (case ?run of
       Ok w \<Rightarrow> Ok (ratchet_of P s (unat tol) w, map (\<lambda>g. generation_material P s (unat g)) gs)
     | Err e \<Rightarrow> Err e
     | Panic \<Rightarrow> Panic)"
    using take_secrets_window [OF assms(1,2) window_ok_start assms(3)] by (simp only: ratchet_of_start)
  obtain head kept where w: "?run = Ok (head, kept)" and y: "y = ratchet_of P s (unat tol) (head, kept)"
    using run sim by (cases ?run) auto
  have fresh: "distinct (map unat gs)" "\<forall>x \<in> kept. x < head \<and> x \<notin> unat ` set gs"
    using window_run_fresh [OF w] by auto
  have ok: "window_ok (unat tol) (head, kept)"
    using window_run_ok [OF window_ok_start _ w] assms(3) by simp
  then have "unat (rt_generation (dr_head y)) = head"
    by (simp add: y ratchet_of_def ratchet_at_def window_ok_def unat_of_nat_small)
  moreover have "\<exists>g \<in> kept. k = generation_material P s g" if "Some k \<in> set (dr_past_secrets y)" for k
    using that by (auto simp: y ratchet_of_def past_of_def split: if_splits)
  ultimately show ?thesis
    using fresh ok by (fastforce simp: window_ok_def distinct_map)
qed

theorem generation_used_once_witness:
  "\<exists>y. take_secrets True demo_prims 3 3 [0, 4, 3] (decryption_init (replicate 32 7)) =
       Ok (y, map (generation_material demo_prims (replicate 32 7)) [0, 4, 3])
     \<and> distinct [0, 4, 3 :: u32]
     \<and> (\<forall>k. Some k \<in> set (dr_past_secrets y) \<longrightarrow>
          (\<exists>g. k = generation_material demo_prims (replicate 32 7) g \<and> g \<notin> {0, 4, 3}))"
proof -
  have "window_run 3 3 [0, 4, 3] (0, {}) = Ok (5, {2})" by code_simp
  then have run: "take_secrets True demo_prims 3 3 [0, 4, 3] (decryption_init (replicate 32 7)) =
      Ok (ratchet_of demo_prims (replicate 32 7) 3 (5, {2}),
          map (generation_material demo_prims (replicate 32 7)) [0, 4, 3])"
    using take_secrets_window [OF prims_okD(1) [OF demo_prims_ok] _ window_ok_start,
        of 3 "[0, 4, 3]" True 3 "replicate 32 7"]
    by (simp add: ratchet_of_start del: take_secrets.simps window_run.simps)
  from generation_used_once [OF prims_okD(1) [OF demo_prims_ok] _ _ run] run show ?thesis
    by (auto simp del: take_secrets.simps)
qed

text \<open>
  C26. What the sender encrypts the receiver decrypts, in any order the window accepts:
  the sender's n-th message carries generation n, and the key the receiver takes for that
  generation opens the message.
\<close>

theorem ratchet_messages_open:
  assumes "prims_ok P" and "length ms < 2 ^ 32" and "unat tol < 2 ^ 31"
    and "\<forall>g \<in> set gs. unat g < length ms"
    and sent: "encrypt_all oc P ms (ratchet_init s) = Ok (y, cs)"
    and taken: "take_secrets oc' P fwd tol gs (decryption_init s) = Ok (z, ks)"
  shows "map fst cs = map of_nat [0..<length ms]
    \<and> length ks = length gs
    \<and> (\<forall>i < length gs. decrypt_message P (snd (cs ! unat (gs ! i))) (ks ! i) = Ok (ms ! unat (gs ! i)))"
proof -
  note P = prims_okD [OF assms(1)]
  have cs: "length cs = length ms" "\<And>i. i < length ms \<Longrightarrow> fst (cs ! i) = of_nat i
      \<and> encrypt_message P (ms ! i) (generation_material P s i) = Ok (snd (cs ! i))"
    using encrypt_all_at [OF P(1), of 0 ms oc s y cs] assms(2) sent by (auto simp: ratchet_at_0)
  have "\<forall>g \<in> set gs. unat g < 2 ^ 32 - 1" using assms(2,4) by fastforce
  from take_secrets_window [OF P(1) assms(3) window_ok_start this, of oc' fwd s] taken
  have ks: "ks = map (\<lambda>g. generation_material P s (unat g)) gs"
    by (auto simp: ratchet_of_start split: outcome.splits)
  have "map fst cs = map of_nat [0..<length ms]"
    using cs by (intro nth_equalityI) auto
  moreover have "decrypt_message P (snd (cs ! unat (gs ! i))) (ks ! i) = Ok (ms ! unat (gs ! i))"
    if "i < length gs" for i
    using that assms(4) cs(2) [of "unat (gs ! i)"] by (auto simp: ks intro: message_roundtrip [OF P(2)])
  ultimately show ?thesis by (simp add: ks)
qed

theorem ratchet_messages_open_witness:
  "\<exists>y cs z ks.
     encrypt_all True demo_prims [[1], [2], [3]] (ratchet_init (replicate 32 7)) = Ok (y, cs)
     \<and> take_secrets True demo_prims 3 3 [2, 0] (decryption_init (replicate 32 7)) = Ok (z, ks)
     \<and> decrypt_message demo_prims (snd (cs ! 2)) (ks ! 0) = Ok [3]
     \<and> decrypt_message demo_prims (snd (cs ! 0)) (ks ! 1) = Ok [1]"
proof -
  have "window_run 3 3 [2, 0] (0, {}) = Ok (3, {1})" by code_simp
  then have taken: "take_secrets True demo_prims 3 3 [2, 0] (decryption_init (replicate 32 7)) =
      Ok (ratchet_of demo_prims (replicate 32 7) 3 (3, {1}),
          map (generation_material demo_prims (replicate 32 7)) [2, 0])"
    using take_secrets_window [OF prims_okD(1) [OF demo_prims_ok] _ window_ok_start,
        of 3 "[2, 0]" True 3 "replicate 32 7"]
    by (simp add: ratchet_of_start del: take_secrets.simps window_run.simps)
  obtain y cs where sent: "encrypt_all True demo_prims [[1], [2], [3]] (ratchet_init (replicate 32 7)) = Ok (y, cs)"
    using encrypt_all_total [OF prims_okD(1) [OF demo_prims_ok], of 0 "[[1], [2], [3]]" True "replicate 32 7"]
    by (auto simp: ratchet_at_0 demo_encrypts simp del: encrypt_all.simps)
  have "decrypt_message demo_prims (snd (cs ! unat ([2, 0 :: u32] ! i)))
      (map (generation_material demo_prims (replicate 32 7)) [2, 0] ! i)
      = Ok ([[1], [2], [3]] ! unat ([2, 0 :: u32] ! i))" if "i < 2" for i
    using ratchet_messages_open [OF demo_prims_ok _ _ _ sent taken] that by simp
  from this [of 0] this [of 1] sent taken show ?thesis
    by (simp del: take_secrets.simps encrypt_all.simps)
qed

end
