(* ===== verification/Group_Ordering.thy ===== *)
theory Group_Ordering
  imports Signing Group_Roles "HOL-Library.AList"
begin

text \<open>
  The orderer of encrypted group messages (\<^verbatim>\<open>src/src/group_encryption/ordering.rs\<close>) and its
  envelopes (\<^verbatim>\<open>message.rs\<close>).  The control messages of \<^verbatim>\<open>p2panda-encryption\<close> are a type
  parameter, the content hash is a function parameter, and \<open>order\<close> is the iteration order of
  a hash set.  The hash maps that the code iterates over or that the termination argument
  counts are association lists.

  \<^verbatim>\<open>cascade_ready\<close> calls itself inside the loop over a set of dependents, before the loop
  continues; \<open>promote\<close> is that recursion with the remaining elements of the enclosing loops
  as an explicit worklist.
\<close>

section \<open>Envelopes\<close>

datatype 'c group_content = Control 'c | Application bytes u32

record 'c group_envelope =
  eg_id :: op_id
  eg_sender :: peer_id
  eg_content :: "'c group_content"
  eg_direct_messages :: "bytes list"

definition content_id :: "crypto \<Rightarrow> ('c group_content \<Rightarrow> string + bytes) \<Rightarrow> 'c group_content \<Rightarrow> op_id" where
  "content_id C enc content = blake3 C (case enc content of Inl _ \<Rightarrow> [] | Inr b \<Rightarrow> b)"

definition new_control ::
  "crypto \<Rightarrow> ('c group_content \<Rightarrow> string + bytes) \<Rightarrow> peer_id \<Rightarrow> 'c \<Rightarrow> bytes list \<Rightarrow> 'c group_envelope" where
  "new_control C enc sender control dms =
     (let content = Control control
      in \<lparr>eg_id = content_id C enc content, eg_sender = sender, eg_content = content,
          eg_direct_messages = dms\<rparr>)"

definition new_application ::
  "crypto \<Rightarrow> ('c group_content \<Rightarrow> string + bytes) \<Rightarrow> peer_id \<Rightarrow> bytes \<Rightarrow> u32 \<Rightarrow> bytes list \<Rightarrow>
   'c group_envelope" where
  "new_application C enc sender ciphertext generation dms =
     (let content = Application ciphertext generation
      in \<lparr>eg_id = content_id C enc content, eg_sender = sender, eg_content = content,
          eg_direct_messages = dms\<rparr>)"

section \<open>State\<close>

text \<open>\<^verbatim>\<open>self.0 += 1\<close> and \<^verbatim>\<open>max + 1\<close>: \<open>None\<close> is the panic of a build with overflow checks.\<close>

definition clock_add :: "bool \<Rightarrow> u64 \<Rightarrow> u64 option" where
  "clock_add overflow_checks c = (if overflow_checks \<and> c = - 1 then None else Some (c + 1))"

definition clock_tick :: "bool \<Rightarrow> u64 \<Rightarrow> (u64 \<times> u64) option" where
  "clock_tick overflow_checks c = map_option (\<lambda>c'. (c, c')) (clock_add overflow_checks c)"

definition clock_observe :: "bool \<Rightarrow> u64 \<Rightarrow> u64 \<Rightarrow> u64 option" where
  "clock_observe overflow_checks c other = clock_add overflow_checks (max c other)"

record 'c ordering_state =
  or_clock :: u64
  or_my_id :: peer_id
  or_ready :: "op_id list"
  or_dependents :: "op_id \<rightharpoonup> op_id set"
  or_deps_of :: "(op_id \<times> op_id list) list"
  or_messages :: "(op_id \<times> 'c group_envelope) list"
  or_welcome :: "'c group_envelope option"

definition or_new :: "peer_id \<Rightarrow> 'c ordering_state" where
  "or_new my_id = \<lparr>or_clock = 1, or_my_id = my_id, or_ready = [], or_dependents = Map.empty,
     or_deps_of = [], or_messages = [], or_welcome = None\<rparr>"

definition pending_count :: "'c ordering_state \<Rightarrow> nat" where
  "pending_count y = length (or_deps_of y) - length (or_ready y)"

definition is_ready :: "'c ordering_state \<Rightarrow> op_id \<Rightarrow> bool" where
  "is_ready y i \<longleftrightarrow> i \<in> set (or_ready y)"

definition is_processed :: "'c ordering_state \<Rightarrow> op_id \<Rightarrow> bool" where
  "is_processed y i \<longleftrightarrow>
     (if is_ready y i then True
      else if map_option eg_id (or_welcome y) = Some i then True
      else map_of (or_deps_of y) i = None \<and> or_dependents y i = None \<and> map_of (or_messages y) i = None)"

definition all_deps_satisfied :: "'c ordering_state \<Rightarrow> op_id list \<Rightarrow> bool" where
  "all_deps_satisfied y deps \<longleftrightarrow> list_all (is_processed y) deps"

definition extract_dependencies :: "'c ordering_state \<Rightarrow> op_id \<Rightarrow> op_id list" where
  "extract_dependencies y exclude =
     map fst (filter (\<lambda>(i, msg). i \<noteq> exclude \<and> eg_sender msg \<noteq> or_my_id y) (or_messages y))"

section \<open>Operations\<close>

definition take_dependents :: "(op_id set \<Rightarrow> op_id list) \<Rightarrow> op_id \<Rightarrow> 'c ordering_state \<Rightarrow> op_id list \<times> 'c ordering_state" where
  "take_dependents order key y =
     (order (case or_dependents y key of None \<Rightarrow> {} | Some ds \<Rightarrow> ds),
      y\<lparr>or_dependents := (or_dependents y)(key := None)\<rparr>)"

lemma length_delete_less: "map_of xs k = Some v \<Longrightarrow> length (AList.delete k xs) < length xs"
proof (induction xs)
  case (Cons x xs)
  show ?case
  proof (cases "fst x = k")
    case True
    then show ?thesis using length_filter_le [of _ xs] by (auto simp: AList.delete_eq less_Suc_eq_le)
  next
    case False
    with Cons show ?thesis by (auto simp: AList.delete_eq split: if_splits)
  qed
qed simp

function promote :: "(op_id set \<Rightarrow> op_id list) \<Rightarrow> 'c ordering_state \<Rightarrow> op_id list \<Rightarrow> 'c ordering_state" where
  "promote order y [] = y"
| "promote order y (d # ds) =
     (case map_of (or_deps_of y) d of
        None \<Rightarrow> promote order y ds
      | Some deps \<Rightarrow>
          if all_deps_satisfied y deps then
            let y1 = y\<lparr>or_deps_of := AList.delete d (or_deps_of y), or_ready := or_ready y @ [d]\<rparr>
            in promote order (snd (take_dependents order d y1)) (fst (take_dependents order d y1) @ ds)
          else promote order y ds)"
  by pat_completeness auto

termination
  by (relation "measures [\<lambda>(order, y, ds). length (or_deps_of y), \<lambda>(order, y, ds). length ds]")
     (auto simp: take_dependents_def Let_def length_delete_less)

definition cascade_ready :: "(op_id set \<Rightarrow> op_id list) \<Rightarrow> 'c ordering_state \<Rightarrow> op_id \<Rightarrow> 'c ordering_state" where
  "cascade_ready order y key =
     (case take_dependents order key y of (ds, y1) \<Rightarrow> promote order y1 ds)"

definition store_own :: "'c group_envelope \<Rightarrow> 'c ordering_state \<Rightarrow> 'c ordering_state" where
  "store_own env y = y\<lparr>or_messages := AList.update (eg_id env) env (or_messages y)\<rparr>"

definition next_control_message ::
  "bool \<Rightarrow> crypto \<Rightarrow> ('c group_content \<Rightarrow> string + bytes) \<Rightarrow> 'c \<Rightarrow> bytes list \<Rightarrow> 'c ordering_state \<Rightarrow>
   ('c ordering_state \<times> 'c group_envelope) option" where
  "next_control_message oc C enc control dms y =
     map_option
       (\<lambda>(_, c). let env = new_control C enc (or_my_id y) control dms
                 in (store_own env (y\<lparr>or_clock := c\<rparr>), env))
       (clock_tick oc (or_clock y))"

definition next_application_message ::
  "bool \<Rightarrow> crypto \<Rightarrow> ('c group_content \<Rightarrow> string + bytes) \<Rightarrow> u32 \<Rightarrow> bytes \<Rightarrow> 'c ordering_state \<Rightarrow>
   ('c ordering_state \<times> 'c group_envelope) option" where
  "next_application_message oc C enc generation ciphertext y =
     map_option
       (\<lambda>(_, c). let env = new_application C enc (or_my_id y) ciphertext generation []
                 in (store_own env (y\<lparr>or_clock := c\<rparr>), env))
       (clock_tick oc (or_clock y))"

definition add_dependent :: "op_id \<Rightarrow> op_id \<Rightarrow> (op_id \<rightharpoonup> op_id set) \<Rightarrow> (op_id \<rightharpoonup> op_id set)" where
  "add_dependent i dep m = m(dep \<mapsto> insert i (case m dep of None \<Rightarrow> {} | Some s \<Rightarrow> s))"

definition or_queue ::
  "(op_id set \<Rightarrow> op_id list) \<Rightarrow> 'c group_envelope \<Rightarrow> 'c ordering_state \<Rightarrow> 'c ordering_state" where
  "or_queue order msg y =
     (let i = eg_id msg in
      if eg_sender msg = or_my_id y then y
      else if map_of (or_messages y) i \<noteq> None then y
      else
        let y1 = y\<lparr>or_messages := AList.update i msg (or_messages y)\<rparr>;
            deps = extract_dependencies y1 i
        in if deps = [] then y1\<lparr>or_ready := or_ready y1 @ [i]\<rparr>
           else if all_deps_satisfied y1 deps
           then cascade_ready order (y1\<lparr>or_ready := or_ready y1 @ [i]\<rparr>) i
           else y1\<lparr>or_deps_of := AList.update i deps (or_deps_of y1),
                  or_dependents := fold (add_dependent i) deps (or_dependents y1)\<rparr>)"

definition set_welcome :: "'c group_envelope \<Rightarrow> 'c ordering_state \<Rightarrow> 'c ordering_state" where
  "set_welcome msg y =
     y\<lparr>or_welcome := Some msg,
       or_messages := (if map_of (or_messages y) (eg_id msg) = None
                       then AList.update (eg_id msg) msg (or_messages y) else or_messages y)\<rparr>"

text \<open>The loop of \<^verbatim>\<open>next_ready_message\<close>, over the ready queue.\<close>

fun ready_loop ::
  "(op_id set \<Rightarrow> op_id list) \<Rightarrow> op_id \<Rightarrow> op_id list \<Rightarrow> 'c ordering_state \<Rightarrow>
   'c ordering_state \<times> 'c group_envelope option" where
  "ready_loop order welcome_id [] y = (y\<lparr>or_ready := []\<rparr>, None)"
| "ready_loop order welcome_id (i # is) y =
     (let y1 = y\<lparr>or_ready := is, or_deps_of := AList.delete i (or_deps_of y)\<rparr> in
      if i = welcome_id then ready_loop order welcome_id is y1
      else case map_of (or_messages y1) i of
             None \<Rightarrow> ready_loop order welcome_id is y1
           | Some msg \<Rightarrow>
               (cascade_ready order (y1\<lparr>or_messages := AList.delete i (or_messages y1)\<rparr>) i, Some msg))"

definition next_ready_message ::
  "(op_id set \<Rightarrow> op_id list) \<Rightarrow> 'c ordering_state \<Rightarrow> 'c ordering_state \<times> 'c group_envelope option" where
  "next_ready_message order y =
     (case or_welcome y of
        None \<Rightarrow> (y, None)
      | Some welcome \<Rightarrow> ready_loop order (eg_id welcome) (or_ready y) y)"

end
