(* ===== verification/Message_Group.thy ===== *)
theory Message_Group
  imports Dcgka Message_Ratchet Group_Ordering
begin

text \<open>
  The group of \<^verbatim>\<open>src/patched/p2panda-encryption/src/message_scheme/group.rs\<close> at the types boru
  uses it with: the key agreement (\<open>Dcgka\<close>), the message ratchets (\<open>Message_Ratchet\<close>) and the
  orderer (\<open>Group_Ordering\<close>).  The control messages of the orderer's envelopes are those of
  the key agreement; the encodings of contents and direct messages are parameters.

  An operation consumes the group state, so a failed operation yields an error and no state.
\<close>

section \<open>State\<close>

type_synonym envelope = "control_message group_envelope"

record group_config =
  cfg_maximum_forward_distance :: u32
  cfg_out_of_order_tolerance :: u32

definition default_config :: group_config where
  "default_config = \<lparr>cfg_maximum_forward_distance = 1000, cfg_out_of_order_tolerance = 100\<rparr>"

record group_state =
  gr_my_id :: peer_id
  gr_dcgka :: dcgka
  gr_orderer :: "control_message ordering_state"
  gr_welcome :: "envelope option"
  gr_ratchet :: "ratchet_secret option"
  gr_decryption :: "peer_id \<rightharpoonup> decryption_ratchet"
  gr_config :: group_config

datatype group_error =
  GrDcgka dcgka_error
| EncryptionRatchet ratchet_error
| DecryptionRatchet ratchet_error
| GrAead aead_error
| GroupAlreadyEstablished
| GroupNotYetEstablished
| NotAddOurselves
| DecryptionRatchetUnavailable peer_id generation
| AddedExistsAlready peer_id
| InexistentRemovedMember peer_id

datatype group_event = EvControl envelope | EvApplication bytes op_id | RemovedOurselves

record group_output =
  go_events :: "group_event list"
  go_removed :: "peer_id set"
  go_added :: "peer_id set"

definition group_output_new :: "group_event list \<Rightarrow> peer_id set \<Rightarrow> peer_id set \<Rightarrow> group_output" where
  "group_output_new events pre post = \<lparr>go_events = events, go_removed = pre - post, go_added = post - pre\<rparr>"

text \<open>The parameters of the key agreement, with those of the orderer and its envelopes.\<close>

record 'r gkit =
  gk_kit :: "'r kit"
  gk_crypto :: crypto
  gk_content :: "control_message group_content \<Rightarrow> string + bytes"
  gk_enc_dm :: "direct_message \<Rightarrow> string + bytes"
  gk_dec_dm :: "bytes \<Rightarrow> string + direct_message"
  gk_order :: "op_id set \<Rightarrow> op_id list"

definition gr_init :: "peer_id \<Rightarrow> kmg_state \<Rightarrow> membership_state \<Rightarrow> control_message ordering_state \<Rightarrow> group_config \<Rightarrow> group_state" where
  "gr_init my_id my_keys dgm orderer config =
     \<lparr>gr_my_id = my_id, gr_dcgka = dc_init my_id my_keys dgm, gr_orderer = orderer, gr_welcome = None,
      gr_ratchet = None, gr_decryption = Map.empty, gr_config = config\<rparr>"

definition gr_members :: "group_state \<Rightarrow> peer_id set" where
  "gr_members y = member_view (gr_dcgka y) (gr_my_id y)"

section \<open>Stamping and reading envelopes\<close>

definition stamp_control ::
  "'r gkit \<Rightarrow> control_message \<Rightarrow> direct_message list \<Rightarrow> group_state \<Rightarrow> (group_error, group_state \<times> envelope) outcome" where
  "stamp_control G c dms y =
     (case next_control_message (kit_checked (gk_kit G)) (gk_crypto G) (gk_content G) c
             (map (\<lambda>dm. case gk_enc_dm G dm of Inl _ \<Rightarrow> [] | Inr b \<Rightarrow> b) dms) (gr_orderer y) of
        None \<Rightarrow> Panic
      | Some (ord, env) \<Rightarrow> Ok (y\<lparr>gr_orderer := ord\<rparr>, env))"

definition direct_messages :: "'r gkit \<Rightarrow> envelope \<Rightarrow> direct_message list" where
  "direct_messages G env =
     List.map_filter (\<lambda>b. case gk_dec_dm G b of Inl _ \<Rightarrow> None | Inr dm \<Rightarrow> Some dm) (eg_direct_messages env)"

section \<open>Local operations\<close>

definition gr_process_local ::
  "'r gkit \<Rightarrow> group_state \<Rightarrow> operation_output \<Rightarrow> ('r world, group_error, group_state \<times> envelope) eff" where
  "gr_process_local G y out =
     bindE (pure (stamp_control G (op_control_message out) (op_direct_messages out) y)) (\<lambda>(y1, env).
     bindE (renameE GrDcgka (process_local (gk_kit G) (gr_dcgka y1) (eg_id env) out)) (\<lambda>(d, out1).
     case op_me_update_secret out1 of
       None \<Rightarrow> pure Panic
     | Some secret \<Rightarrow> ret (y1\<lparr>gr_dcgka := d, gr_ratchet := Some (ratchet_init secret)\<rparr>, env)))"

definition gr_create ::
  "'r gkit \<Rightarrow> group_state \<Rightarrow> peer_id list \<Rightarrow> ('r world, group_error, group_state \<times> envelope) eff" where
  "gr_create G y initial_members =
     (if gr_ratchet y \<noteq> None then raise GroupAlreadyEstablished
      else bindE (renameE GrDcgka (dc_create (gk_kit G) (gr_dcgka y) initial_members)) (\<lambda>(d, pre).
           bindE (gr_process_local G (y\<lparr>gr_dcgka := d\<rparr>) pre) (\<lambda>(y1, env).
           ret (y1\<lparr>gr_orderer := set_welcome env (gr_orderer y1)\<rparr>, env))))"

definition gr_add ::
  "'r gkit \<Rightarrow> group_state \<Rightarrow> peer_id \<Rightarrow> ('r world, group_error, group_state \<times> envelope) eff" where
  "gr_add G y added =
     (if gr_ratchet y = None then raise GroupNotYetEstablished
      else if gr_my_id y = added then raise NotAddOurselves
      else if added \<in> gr_members y then raise (AddedExistsAlready added)
      else bindE (renameE GrDcgka (dc_add (gk_kit G) (gr_dcgka y) added)) (\<lambda>(d, pre).
           gr_process_local G (y\<lparr>gr_dcgka := d\<rparr>) pre))"

definition gr_remove ::
  "'r gkit \<Rightarrow> group_state \<Rightarrow> peer_id \<Rightarrow> ('r world, group_error, group_state \<times> envelope) eff" where
  "gr_remove G y removed =
     (if gr_ratchet y = None then raise GroupNotYetEstablished
      else if removed \<notin> gr_members y then raise (InexistentRemovedMember removed)
      else bindE (renameE GrDcgka (dc_remove (gk_kit G) (gr_dcgka y) removed)) (\<lambda>(d, pre).
           gr_process_local G (y\<lparr>gr_dcgka := d\<rparr>) pre))"

definition gr_update ::
  "'r gkit \<Rightarrow> group_state \<Rightarrow> ('r world, group_error, group_state \<times> envelope) eff" where
  "gr_update G y =
     (if gr_ratchet y = None then raise GroupNotYetEstablished
      else bindE (renameE GrDcgka (dc_update (gk_kit G) (gr_dcgka y))) (\<lambda>(d, pre).
           gr_process_local G (y\<lparr>gr_dcgka := d\<rparr>) pre))"

definition gr_encrypt ::
  "'r gkit \<Rightarrow> ratchet_secret \<Rightarrow> bytes \<Rightarrow> (group_error, ratchet_secret \<times> generation \<times> bytes) outcome" where
  "gr_encrypt G ratchet plaintext =
     and_then (rename EncryptionRatchet
         (ratchet_forward (kit_checked (gk_kit G)) (kit_prims (gk_kit G)) ratchet)) (\<lambda>(ratchet1, generation, key).
     and_then (rename GrAead (encrypt_message (kit_prims (gk_kit G)) plaintext key)) (\<lambda>ciphertext.
     Ok (ratchet1, generation, ciphertext)))"

definition gr_send :: "'r gkit \<Rightarrow> group_state \<Rightarrow> bytes \<Rightarrow> (group_error, group_state \<times> envelope) outcome" where
  "gr_send G y plaintext =
     (case gr_ratchet y of
        None \<Rightarrow> Err GroupNotYetEstablished
      | Some ratchet \<Rightarrow>
          and_then (gr_encrypt G ratchet plaintext) (\<lambda>(ratchet1, generation, ciphertext).
          case next_application_message (kit_checked (gk_kit G)) (gk_crypto G) (gk_content G)
                 generation ciphertext (gr_orderer y) of
            None \<Rightarrow> Panic
          | Some (ord, env) \<Rightarrow> Ok (y\<lparr>gr_ratchet := Some ratchet1, gr_orderer := ord\<rparr>, env)))"

section \<open>Remote messages\<close>

definition gr_process_remote ::
  "'r gkit \<Rightarrow> group_state \<Rightarrow> op_id \<Rightarrow> peer_id \<Rightarrow> control_message \<Rightarrow> direct_message option \<Rightarrow>
   ('r world, group_error, group_state \<times> envelope option) eff" where
  "gr_process_remote G y seq sender c dm =
     bindE (renameE GrDcgka (process_remote (gk_kit G) (gr_dcgka y)
              \<lparr>in_seq = seq, in_sender = sender, in_control_message = c, in_direct_message = dm\<rparr>)) (\<lambda>(d, out).
     let y1 = y\<lparr>gr_dcgka := d\<rparr>;
         y2 = (case po_me_update_secret out of
                 None \<Rightarrow> y1 | Some s \<Rightarrow> y1\<lparr>gr_ratchet := Some (ratchet_init s)\<rparr>);
         y3 = (case po_sender_update_secret out of
                 None \<Rightarrow> y2
               | Some s \<Rightarrow> y2\<lparr>gr_decryption := (gr_decryption y2)(sender \<mapsto> decryption_init s)\<rparr>)
     in case po_control_message out of
          None \<Rightarrow> ret (y3, None)
        | Some c1 \<Rightarrow> bindE (pure (stamp_control G c1 (po_direct_messages out) y3)) (\<lambda>(y4, env).
                     ret (y4, Some env)))"

definition gr_decrypt ::
  "'r gkit \<Rightarrow> group_state \<Rightarrow> peer_id \<Rightarrow> bytes \<Rightarrow> generation \<Rightarrow> (group_error, group_state \<times> bytes) outcome" where
  "gr_decrypt G y sender ciphertext generation =
     (case gr_decryption y sender of
        None \<Rightarrow> Err (DecryptionRatchetUnavailable sender generation)
      | Some ratchet \<Rightarrow>
          and_then (rename DecryptionRatchet
              (secret_for_decryption (kit_checked (gk_kit G)) (kit_prims (gk_kit G)) ratchet generation
                 (cfg_maximum_forward_distance (gr_config y)) (cfg_out_of_order_tolerance (gr_config y))))
            (\<lambda>(ratchet1, key).
          and_then (rename GrAead (decrypt_message (kit_prims (gk_kit G)) ciphertext key)) (\<lambda>plaintext.
          Ok (y\<lparr>gr_decryption := (gr_decryption y)(sender \<mapsto> ratchet1)\<rparr>, plaintext))))"

definition process_ready ::
  "'r gkit \<Rightarrow> group_state \<Rightarrow> envelope \<Rightarrow> ('r world, group_error, group_state \<times> group_event option) eff" where
  "process_ready G y env =
     (case eg_content env of
        Control c \<Rightarrow>
          bindE (gr_process_remote G y (eg_id env) (eg_sender env) c
                   (List.find (\<lambda>dm. dm_recipient dm = gr_my_id y) (direct_messages G env))) (\<lambda>(y1, out).
          if gr_my_id y1 \<notin> gr_members y1 then ret (y1, Some RemovedOurselves)
          else ret (y1, map_option EvControl out))
      | Application ciphertext generation \<Rightarrow>
          bindE (pure (gr_decrypt G y (eg_sender env) ciphertext generation)) (\<lambda>(y1, plaintext).
          ret (y1, Some (EvApplication plaintext (eg_id env)))))"

text \<open>
  The loop of \<^verbatim>\<open>receive\<close> ends: each message it takes leaves the orderer with fewer messages
  that are ready or pending, and processing a message adds none.
\<close>

definition or_size :: "'c ordering_state \<Rightarrow> nat" where
  "or_size y = length (or_ready y) + length (or_deps_of y)"

lemma promote_size: "or_size (promote order y ds) \<le> or_size y"
proof (induction order y ds rule: promote.induct)
  case (2 order y d ds)
  then show ?case
    using length_delete_less [of "or_deps_of y" d]
    by (cases "map_of (or_deps_of y) d")
       (fastforce simp: or_size_def take_dependents_def Let_def intro: le_trans)+
qed simp

lemma ready_loop_size:
  "ready_loop order w is y = (y', Some m) \<Longrightarrow> or_size y' < length is + length (or_deps_of y)"
proof (induction order w "is" y rule: ready_loop.induct)
  case (2 order w i js y)
  have shorter: "length (AList.delete i (or_deps_of y)) \<le> length (or_deps_of y)" by (simp add: length_delete_le)
  have step: "or_size (cascade_ready order y2 k) \<le> or_size y2" for y2 :: "'b ordering_state" and k
    using promote_size [of order "snd (take_dependents order k y2)" "fst (take_dependents order k y2)"]
    by (simp add: cascade_ready_def or_size_def case_prod_beta take_dependents_def)
  show ?case
  proof (cases "i = w \<or> map_of (or_messages y) i = None")
    case True
    then have "or_size y' < length js + length (AList.delete i (or_deps_of y))"
      using 2 by (cases "i = w") (simp_all add: Let_def)
    with shorter show ?thesis by simp
  next
    case False
    then show ?thesis
      using 2(3) shorter
        step [of "y\<lparr>or_ready := js, or_deps_of := AList.delete i (or_deps_of y),
           or_messages := AList.delete i (or_messages y)\<rparr>" i]
      by (auto simp: Let_def or_size_def)
  qed
qed simp

lemma next_ready_size: "next_ready_message order y = (y', Some m) \<Longrightarrow> or_size y' < or_size y"
  using ready_loop_size by (fastforce simp: next_ready_message_def or_size_def split: option.splits)

lemma stamp_control_size: "stamp_control G c dms y = Ok (y', env) \<Longrightarrow> or_size (gr_orderer y') = or_size (gr_orderer y)"
  by (auto simp: stamp_control_def next_control_message_def store_own_def or_size_def Let_def
      split: option.splits prod.splits)

lemma gr_process_remote_size:
  assumes "gr_process_remote G y seq sender c dm w = (Ok (y', ev), w')"
  shows "or_size (gr_orderer y') = or_size (gr_orderer y)"
proof -
  obtain d out w1 where
    "process_remote (gk_kit G) (gr_dcgka y)
       \<lparr>in_seq = seq, in_sender = sender, in_control_message = c, in_direct_message = dm\<rparr> w = (Ok (d, out), w1)"
    using assms by (auto simp: gr_process_remote_def)
  with assms show ?thesis
    by (cases "po_me_update_secret out"; cases "po_sender_update_secret out"; cases "po_control_message out")
       (auto simp: gr_process_remote_def bindE_def renameE_def pure_def ret_def
          split: outcome.splits dest!: stamp_control_size)
qed

lemma gr_decrypt_size: "gr_decrypt G y p ct g = Ok (y', pt) \<Longrightarrow> gr_orderer y' = gr_orderer y"
  by (auto simp: gr_decrypt_def split: option.splits)

lemma process_ready_size:
  assumes "process_ready G y env w = (Ok (y', ev), w')"
  shows "or_size (gr_orderer y') = or_size (gr_orderer y)"
proof (cases "eg_content env")
  case (Control c)
  with assms gr_process_remote_size show ?thesis
    by (fastforce simp: process_ready_def split: if_splits)
next
  case (Application ct g)
  with assms gr_decrypt_size show ?thesis by (fastforce simp: process_ready_def)
qed

function receive_loop ::
  "'r gkit \<Rightarrow> group_state \<Rightarrow> group_event list \<Rightarrow> ('r world, group_error, group_state \<times> group_event list) eff" where
  "receive_loop G y events w =
     (case next_ready_message (gk_order G) (gr_orderer y) of
        (ord, None) \<Rightarrow> (Ok (y\<lparr>gr_orderer := ord\<rparr>, events), w)
      | (ord, Some env) \<Rightarrow>
          let y1 = y\<lparr>gr_orderer := ord\<rparr> in
          if map_option eg_id (gr_welcome y1) = Some (eg_id env) then receive_loop G y1 events w
          else case process_ready G y1 env w of
                 (Ok (y2, ev), w1) \<Rightarrow>
                   receive_loop G y2 (case ev of None \<Rightarrow> events | Some e \<Rightarrow> events @ [e]) w1
               | (Err e, w1) \<Rightarrow> (Err e, w1)
               | (Panic, w1) \<Rightarrow> (Panic, w1))"
  by pat_completeness auto

termination
  by (relation "measure (\<lambda>(G, y, events, w). or_size (gr_orderer y))")
     (auto dest!: next_ready_size [OF sym] process_ready_size [OF sym])

definition is_welcome :: "group_state \<Rightarrow> envelope \<Rightarrow> bool" where
  "is_welcome y env \<longleftrightarrow>
     (case eg_content env of
        Control (CtlCreate initial_members) \<Rightarrow> gr_my_id y \<in> set initial_members
      | Control (CtlAdd added) \<Rightarrow> gr_ratchet y = None \<and> added = gr_my_id y
      | _ \<Rightarrow> False)"

definition is_create :: "envelope \<Rightarrow> bool" where
  "is_create env \<longleftrightarrow> (case eg_content env of Control (CtlCreate _) \<Rightarrow> True | _ \<Rightarrow> False)"

definition gr_receive ::
  "'r gkit \<Rightarrow> group_state \<Rightarrow> envelope \<Rightarrow> ('r world, group_error, group_state \<times> group_output option) eff" where
  "gr_receive G y env =
     (let pre = gr_members y; established = gr_ratchet y \<noteq> None in
      if is_create env \<and> established then raise GroupAlreadyEstablished
      else
        let y1 = y\<lparr>gr_orderer := or_queue (gk_order G) env (gr_orderer y)\<rparr> in
        if \<not> established \<and> \<not> is_welcome y env then ret (y1, None)
        else if \<not> established then
          bindE (process_ready G (y1\<lparr>gr_orderer := set_welcome env (gr_orderer y1), gr_welcome := Some env\<rparr>) env)
            (\<lambda>(y2, result).
          ret (y2, map_option (\<lambda>ev. group_output_new [ev] pre (gr_members y2)) result))
        else
          bindE (receive_loop G y1 []) (\<lambda>(y2, events).
          ret (y2, Some (group_output_new events pre (gr_members y2)))))"

end
