(* ===== verification/Encryption_Store.thy ===== *)
theory Encryption_Store
  imports Message_Group
begin

text \<open>
  The store of encrypted group states (\<^verbatim>\<open>src/src/group_encryption/persistence.rs\<close>): the tables
  of group states and role mirrors with their quarantine tables, and the one transaction that
  writes a state and its roles together under a version check.

  SQLite is a parameter: each statement takes the next answer of \<open>sd_faults\<close>, and a
  transaction that does not commit leaves the tables as they were.  A version is the bits of
  a signed column: its increment overflows at the largest signed value, with a panic when
  the build checks overflows (\<open>sc_checked\<close>).  The encodings are parameters too.
  Where a theorem needs them to be inverse to each other (\<open>store_codec_ok\<close>), it also needs that
  no record with a version and a checksum decodes as a record of the former format, which
  has neither; this follows from neither format's documentation.
  Decoding a group state makes a new, empty registry for it, as the
  deserialisation of the registry handle does (\<^verbatim>\<open>registry.rs\<close>); the state itself is
  \<open>group_state\<close>, and the registry stands beside it.
\<close>

section \<open>Tables\<close>

type_synonym group_id = bytes
type_synonym role_map = "peer_id \<rightharpoonup> member_role"

record state_row =
  sr_state :: bytes
  sr_updated_at :: int
  sr_version :: u64

record roles_row =
  rr_roles :: bytes
  rr_self_id :: "bytes option"

record store_db =
  sd_states :: "group_id \<rightharpoonup> state_row"
  sd_roles :: "group_id \<rightharpoonup> roles_row"
  sd_state_quarantine :: "group_id \<rightharpoonup> bytes \<times> int \<times> int"
  sd_roles_quarantine :: "group_id \<rightharpoonup> roles_row \<times> int"
  sd_faults :: "bool list"
  sd_poisoned :: bool

datatype load_error =
  Missing
| Corrupt group_id string
| UnsupportedVersion group_id u32
| LoadIo

datatype tx_error = VersionConflict u64 u64 | TxIo

datatype auth_fault = AfterMembershipWrite | AfterCryptoStateWrite

record store_codec =
  sc_checked :: bool
  sc_version :: "u32 \<Rightarrow> string + bytes"
  sc_enc_state :: "group_state \<Rightarrow> string + bytes"
  sc_dec_state :: "bytes \<Rightarrow> string + group_state"
  sc_dec_envelope :: "bytes \<Rightarrow> string + u32 \<times> group_state \<times> bytes"
  sc_enc_roles :: "role_map \<Rightarrow> string + bytes"
  sc_dec_roles :: "bytes \<Rightarrow> string + role_map"
  sc_valid_key :: "bytes \<Rightarrow> bool"
  sc_hash :: "bytes \<Rightarrow> bytes"

definition GROUP_STATE_STORAGE_VERSION :: u32 where
  "GROUP_STATE_STORAGE_VERSION = 1"

text \<open>A statement, or a group of statements that fails as one.\<close>

definition sql :: "'e \<Rightarrow> (store_db, 'e, unit) eff" where
  "sql e d =
     (case sd_faults d of
        [] \<Rightarrow> (Ok (), d)
      | f # fs \<Rightarrow> (if f then Err e else Ok (), d\<lparr>sd_faults := fs\<rparr>))"

definition change :: "(store_db \<Rightarrow> store_db) \<Rightarrow> (store_db, 'e, unit) eff" where
  "change f d = (Ok (), f d)"

definition look :: "(store_db \<Rightarrow> 'a) \<Rightarrow> (store_db, 'e, 'a) eff" where
  "look f d = (Ok (f d), d)"

text \<open>A transaction that is dropped without a commit restores the tables.\<close>

definition transaction :: "(store_db, 'e, 'a) eff \<Rightarrow> (store_db, 'e, 'a) eff" where
  "transaction m d =
     (case m d of
        (Ok a, d1) \<Rightarrow> (Ok a, d1)
      | (r, d1) \<Rightarrow> (r, d\<lparr>sd_faults := sd_faults d1\<rparr>))"

section \<open>Records\<close>

definition encode_envelope :: "store_codec \<Rightarrow> group_state \<Rightarrow> string + bytes" where
  "encode_envelope K state =
     (case sc_version K GROUP_STATE_STORAGE_VERSION of
        Inl e \<Rightarrow> Inl e
      | Inr v \<Rightarrow>
          (case sc_enc_state K state of
             Inl e \<Rightarrow> Inl e
           | Inr s \<Rightarrow> Inr ((v @ s) @ sc_hash K (v @ s))))"

definition decode_group_state_blob :: "store_codec \<Rightarrow> group_id \<Rightarrow> bytes \<Rightarrow> (load_error, group_state) outcome" where
  "decode_group_state_blob K gid blob =
     (if \<not> isl (sc_dec_state K blob) then Err (UnsupportedVersion gid 0)
      else if length blob < 32 then Err (Corrupt gid ''short'')
      else
        let body = take (length blob - 32) blob; stored = drop (length blob - 32) blob in
        if sc_hash K body \<noteq> stored then Err (Corrupt gid ''checksum'')
        else case sc_dec_envelope K blob of
               Inl e \<Rightarrow> Err (Corrupt gid e)
             | Inr (version, state, _) \<Rightarrow>
                 if version \<noteq> GROUP_STATE_STORAGE_VERSION then Err (UnsupportedVersion gid version)
                 else Ok state)"

section \<open>Operations\<close>

definition load_group_state :: "store_codec \<Rightarrow> group_id \<Rightarrow> (store_db, load_error, group_state) eff" where
  "load_group_state K gid =
     bindE (sql LoadIo) (\<lambda>_.
     bindE (look (\<lambda>d. sd_states d gid)) (\<lambda>row.
     case row of
       None \<Rightarrow> raise Missing
     | Some r \<Rightarrow> pure (decode_group_state_blob K gid (sr_state r))))"

definition decode_self_id :: "store_codec \<Rightarrow> group_id \<Rightarrow> bytes option \<Rightarrow> (load_error, peer_id option) outcome" where
  "decode_self_id K gid b =
     (case b of
        None \<Rightarrow> Ok None
      | Some p \<Rightarrow>
          if length p \<noteq> 32 then Err (Corrupt gid ''self_id length'')
          else if \<not> sc_valid_key K p then Err (Corrupt gid ''self_id key'')
          else Ok (Some p))"

definition load_group_roles ::
  "store_codec \<Rightarrow> group_id \<Rightarrow> (store_db, load_error, (role_map \<times> peer_id option) option) eff" where
  "load_group_roles K gid =
     bindE (sql LoadIo) (\<lambda>_.
     bindE (sql LoadIo) (\<lambda>_.
     bindE (look (\<lambda>d. sd_roles d gid)) (\<lambda>row.
     case row of
       None \<Rightarrow> ret None
     | Some r \<Rightarrow>
         bindE (pure (case sc_dec_roles K (rr_roles r) of Inl e \<Rightarrow> Err (Corrupt gid e) | Inr m \<Rightarrow> Ok m)) (\<lambda>roles.
         bindE (pure (decode_self_id K gid (rr_self_id r))) (\<lambda>self_id.
         ret (Some (roles, self_id)))))))"

definition stored_version :: "group_id \<Rightarrow> store_db \<Rightarrow> u64" where
  "stored_version gid d = (case sd_states d gid of None \<Rightarrow> 0 | Some r \<Rightarrow> sr_version r)"

definition load_group_version :: "group_id \<Rightarrow> (store_db, tx_error, u64) eff" where
  "load_group_version gid =
     bindE (sql TxIo) (\<lambda>_. bindE (sql TxIo) (\<lambda>_. look (stored_version gid)))"

definition save_group_state :: "store_codec \<Rightarrow> int \<Rightarrow> group_id \<Rightarrow> group_state \<Rightarrow> (store_db, unit, unit) eff" where
  "save_group_state K now gid state =
     bindE (sql ()) (\<lambda>_.
     bindE (pure (case encode_envelope K state of Inl _ \<Rightarrow> Err () | Inr b \<Rightarrow> Ok b)) (\<lambda>blob.
     bindE (sql ()) (\<lambda>_.
     change (\<lambda>d. d\<lparr>sd_states := (sd_states d)(gid \<mapsto>
       \<lparr>sr_state = blob, sr_updated_at = now,
        sr_version = (case sd_states d gid of None \<Rightarrow> 1 | Some r \<Rightarrow> sr_version r)\<rparr>)\<rparr>))))"

definition save_group_roles ::
  "store_codec \<Rightarrow> group_id \<Rightarrow> role_map \<Rightarrow> peer_id option \<Rightarrow> (store_db, unit, unit) eff" where
  "save_group_roles K gid roles self_id =
     bindE (sql ()) (\<lambda>_.
     bindE (pure (case sc_enc_roles K roles of Inl _ \<Rightarrow> Err () | Inr b \<Rightarrow> Ok b)) (\<lambda>blob.
     bindE (sql ()) (\<lambda>_.
     change (\<lambda>d. d\<lparr>sd_roles := (sd_roles d)(gid \<mapsto> \<lparr>rr_roles = blob, rr_self_id = self_id\<rparr>)\<rparr>))))"

definition save_group_state_and_roles ::
  "store_codec \<Rightarrow> int \<Rightarrow> group_id \<Rightarrow> group_state \<Rightarrow> role_map \<Rightarrow> peer_id option \<Rightarrow> u64 \<Rightarrow> auth_fault option \<Rightarrow>
   (store_db, tx_error, u64) eff" where
  "save_group_state_and_roles K now gid state roles self_id expected fault =
     bindE (sql TxIo) (\<lambda>_.
     bindE (sql TxIo) (\<lambda>_.
     transaction (
       bindE (sql TxIo) (\<lambda>_.
       bindE (look (stored_version gid)) (\<lambda>current.
       if current \<noteq> expected then raise (VersionConflict expected current)
       else if sc_checked K \<and> current = 2 ^ 63 - 1 then pure Panic
       else
         bindE (sql TxIo) (\<lambda>_.
         bindE (pure (case sc_enc_roles K roles of Inl _ \<Rightarrow> Err TxIo | Inr b \<Rightarrow> Ok b)) (\<lambda>roles_blob.
         bindE (sql TxIo) (\<lambda>_.
         bindE (change (\<lambda>d. d\<lparr>sd_roles := (sd_roles d)(gid \<mapsto> \<lparr>rr_roles = roles_blob, rr_self_id = self_id\<rparr>)\<rparr>)) (\<lambda>_.
         if fault = Some AfterMembershipWrite then raise TxIo
         else
           bindE (pure (case encode_envelope K state of Inl _ \<Rightarrow> Err TxIo | Inr b \<Rightarrow> Ok b)) (\<lambda>blob.
           bindE (sql TxIo) (\<lambda>_.
           bindE (change (\<lambda>d. d\<lparr>sd_states := (sd_states d)(gid \<mapsto>
                    \<lparr>sr_state = blob, sr_updated_at = now, sr_version = current + 1\<rparr>)\<rparr>)) (\<lambda>_.
           if fault = Some AfterCryptoStateWrite then raise TxIo
           else bindE (sql TxIo) (\<lambda>_. ret (current + 1))))))))))))))"

definition delete_group_state :: "group_id \<Rightarrow> (store_db, unit, unit) eff" where
  "delete_group_state gid =
     bindE (sql ()) (\<lambda>_. change (\<lambda>d. d\<lparr>sd_states := (sd_states d)(gid := None)\<rparr>))"

definition delete_group_roles :: "group_id \<Rightarrow> (store_db, unit, unit) eff" where
  "delete_group_roles gid =
     bindE (sql ()) (\<lambda>_.
     bindE (sql ()) (\<lambda>_. change (\<lambda>d. d\<lparr>sd_roles := (sd_roles d)(gid := None)\<rparr>)))"

definition quarantine_group_state :: "int \<Rightarrow> group_id \<Rightarrow> (store_db, load_error, bool) eff" where
  "quarantine_group_state now gid =
     bindE (sql LoadIo) (\<lambda>_.
     bindE (sql LoadIo) (\<lambda>_.
     bindE (look (\<lambda>d. sd_states d gid)) (\<lambda>row.
     case row of
       None \<Rightarrow> ret False
     | Some r \<Rightarrow>
         bindE (change (\<lambda>d. d\<lparr>sd_state_quarantine :=
           (sd_state_quarantine d)(gid \<mapsto> (sr_state r, sr_updated_at r, now))\<rparr>)) (\<lambda>_.
         bindE (sql LoadIo) (\<lambda>_.
         bindE (change (\<lambda>d. d\<lparr>sd_states := (sd_states d)(gid := None)\<rparr>)) (\<lambda>_.
         ret True))))))"

definition quarantine_group_roles :: "int \<Rightarrow> group_id \<Rightarrow> (store_db, load_error, bool) eff" where
  "quarantine_group_roles now gid =
     bindE (sql LoadIo) (\<lambda>_.
     bindE (sql LoadIo) (\<lambda>_.
     bindE (look (\<lambda>d. sd_roles d gid)) (\<lambda>row.
     case row of
       None \<Rightarrow> ret False
     | Some r \<Rightarrow>
         bindE (change (\<lambda>d. d\<lparr>sd_roles_quarantine := (sd_roles_quarantine d)(gid \<mapsto> (r, now))\<rparr>)) (\<lambda>_.
         bindE (sql LoadIo) (\<lambda>_.
         bindE (change (\<lambda>d. d\<lparr>sd_roles := (sd_roles d)(gid := None)\<rparr>)) (\<lambda>_.
         ret True))))))"

definition reset_group_state :: "int \<Rightarrow> int \<Rightarrow> group_id \<Rightarrow> (store_db, load_error, unit) eff" where
  "reset_group_state now now' gid =
     bindE (quarantine_group_state now gid) (\<lambda>_.
     bindE (quarantine_group_roles now' gid) (\<lambda>_. ret ()))"

end
