(* ===== verification/Encryption_State.thy ===== *)
theory Encryption_State
  imports Encryption_Store
begin

text \<open>
  The encrypted groups of a peer (\<^verbatim>\<open>src/src/group_encryption/encryption_state.rs\<close>): the group
  states in memory, the mirror of the members' roles, the versions of the stored states, and
  the operations that check roles, run the group protocol and persist the result.

  An operation borrows the state mutably, so what it changed before an error stays changed;
  the operations are effects on the whole state.  A group state owns a handle of the registry:
  the shared one when the group was created or initialised here, an empty one of its own when
  the state was decoded.
\<close>

section \<open>State\<close>

datatype pki_handle = SharedPki | OwnPki registry

definition fresh_registry :: registry where
  "fresh_registry = \<lparr>rg_identity = Map.empty, rg_prekeys = [], rg_faults = [], rg_poisoned = False\<rparr>"

record 'r enc_state =
  es_groups :: "group_id \<rightharpoonup> group_state \<times> pki_handle"
  es_kmg :: kmg_state
  es_registry :: registry
  es_env :: 'r
  es_db :: "store_db option"
  es_roles :: "group_id \<rightharpoonup> role_map"
  es_self :: "group_id \<rightharpoonup> peer_id"
  es_versions :: "group_id \<rightharpoonup> u64"

datatype enc_error =
  EeGroupNotFound group_id
| EeGroup group_error
| EeGroupIo string
| EeMembership membership_error
| EeNotMember peer_id
| EeNotAuthorized peer_id
| EeForbiddenRole peer_id member_role
| EeGroupStateLoad load_error
| EeGroupStateWrite tx_error
| EeInternal string

datatype load_outcome = Loaded | LoadMissing

datatype auth_event =
  MemberJoined group_id peer_id u64
| MemberRemoved group_id peer_id u64
| RoleChanged group_id peer_id member_role u64
| EpochRotated group_id u64 u64

definition reads :: "('w \<Rightarrow> 'a) \<Rightarrow> ('w, 'e, 'a) eff" where
  "reads f w = (Ok (f w), w)"

definition writes :: "('w \<Rightarrow> 'w) \<Rightarrow> ('w, 'e, unit) eff" where
  "writes f w = (Ok (), f w)"

definition with_pki ::
  "pki_handle \<Rightarrow> ('r world, 'e, 'a) eff \<Rightarrow> ('r enc_state, 'e, 'a \<times> pki_handle) eff" where
  "with_pki h m es =
     (case m \<lparr>w_env = es_env es, w_registry = (case h of SharedPki \<Rightarrow> es_registry es | OwnPki g \<Rightarrow> g)\<rparr> of
        (r, w) \<Rightarrow>
          (case r of
             Ok a \<Rightarrow> Ok (a, case h of SharedPki \<Rightarrow> SharedPki | OwnPki _ \<Rightarrow> OwnPki (w_registry w))
           | Err e \<Rightarrow> Err e
           | Panic \<Rightarrow> Panic,
           es\<lparr>es_env := w_env w,
              es_registry := (case h of SharedPki \<Rightarrow> w_registry w | OwnPki _ \<Rightarrow> es_registry es)\<rparr>))"

text \<open>A panic while the connection is locked poisons the lock.\<close>

definition on_db :: "(store_db, 'e, 'a) eff \<Rightarrow> ('r enc_state, 'e, 'a) eff" where
  "on_db m es =
     (case es_db es of
        None \<Rightarrow> (Panic, es)
      | Some d \<Rightarrow>
          (case m d of
             (Panic, d1) \<Rightarrow> (Panic, es\<lparr>es_db := Some (d1\<lparr>sd_poisoned := True\<rparr>)\<rparr>)
           | (r, d1) \<Rightarrow> (r, es\<lparr>es_db := Some d1\<rparr>)))"

definition new_with_rng :: "bool \<Rightarrow> 'r prims \<Rightarrow> bool \<Rightarrow> 'r \<Rightarrow> (manager_error, 'r enc_state) outcome" where
  "new_with_rng oc P opens r =
     (case bindE (init_with_rng P) (\<lambda>k.
           bindE (lifetime_new oc P (60 * 60 * 24 * 28 * 3)) (\<lambda>l. rotate_prekey P l k)) r of
        (Ok kmg, r1) \<Rightarrow>
          if opens
          then Ok \<lparr>es_groups = Map.empty, es_kmg = kmg, es_registry = fresh_registry, es_env = r1, es_db = None,
                   es_roles = Map.empty, es_self = Map.empty, es_versions = Map.empty\<rparr>
          else Err (MgInternal ''open'')
      | (Err e, _) \<Rightarrow> Err e
      | (Panic, _) \<Rightarrow> Panic)"

definition with_db :: "store_db \<Rightarrow> 'r enc_state \<Rightarrow> 'r enc_state" where
  "with_db conn es = es\<lparr>es_db := Some conn\<rparr>"

definition member_role :: "'r enc_state \<Rightarrow> group_id \<Rightarrow> peer_id \<Rightarrow> member_role option" where
  "member_role es gid peer = Option.bind (es_roles es gid) (\<lambda>roles. roles peer)"

definition es_can_write :: "'r enc_state \<Rightarrow> group_id \<Rightarrow> peer_id \<Rightarrow> bool" where
  "es_can_write es gid peer = (case member_role es gid peer of None \<Rightarrow> False | Some r \<Rightarrow> role_can_write r)"

definition role_mirror :: "'r enc_state \<Rightarrow> group_id \<Rightarrow> role_map" where
  "role_mirror es gid = (case es_roles es gid of None \<Rightarrow> Map.empty | Some r \<Rightarrow> r)"

definition group_version :: "'r enc_state \<Rightarrow> group_id \<Rightarrow> u64" where
  "group_version es gid = (case es_versions es gid of None \<Rightarrow> 0 | Some v \<Rightarrow> v)"

section \<open>Persistence\<close>

definition persist_group_mutation ::
  "store_codec \<Rightarrow> int \<Rightarrow> group_id \<Rightarrow> group_state \<Rightarrow> role_map \<Rightarrow> u64 \<Rightarrow> auth_fault option \<Rightarrow>
   ('r enc_state, enc_error, u64) eff" where
  "persist_group_mutation K now gid state roles expected fault es =
     (case es_db es of
        None \<Rightarrow> (Ok expected, es)
      | Some d \<Rightarrow>
          if sd_poisoned d then (Err (EeInternal ''db lock poisoned''), es)
          else renameE EeGroupStateWrite
                 (on_db (save_group_state_and_roles K now gid state roles (es_self es gid) expected fault)) es)"

definition persist_current_group_state ::
  "store_codec \<Rightarrow> int \<Rightarrow> group_id \<Rightarrow> ('r enc_state, enc_error, u64) eff" where
  "persist_current_group_state K now gid es =
     (case es_groups es gid of
        None \<Rightarrow> (Ok (group_version es gid), es)
      | Some (state, _) \<Rightarrow>
          bindE (persist_group_mutation K now gid state (role_mirror es gid) (group_version es gid) None) (\<lambda>v.
          bindE (writes (\<lambda>es. es\<lparr>es_versions := (es_versions es)(gid \<mapsto> v)\<rparr>)) (\<lambda>_.
          ret v)) es)"

definition validate_loaded_group_state ::
  "group_id \<Rightarrow> group_state \<Rightarrow> role_map \<Rightarrow> peer_id option \<Rightarrow> (enc_error, unit) outcome" where
  "validate_loaded_group_state gid state roles self_id =
     (let members = gr_members state in
      if members = {} then Err (EeGroupStateLoad (Corrupt gid ''empty member set''))
      else if \<not> set_option self_id \<subseteq> members
      then Err (EeGroupStateLoad (Corrupt gid ''local identity is not a member''))
      else if \<not> dom roles \<subseteq> members
      then Err (EeGroupStateLoad (Corrupt gid ''role mirror references non-member''))
      else Ok ())"

text \<open>Loading after the state was decoded: roles, checks, version, and only then the memory.\<close>

definition install_group ::
  "store_codec \<Rightarrow> group_id \<Rightarrow> group_state \<Rightarrow> ('r enc_state, enc_error, load_outcome) eff" where
  "install_group K gid state =
     bindE (renameE EeGroupStateLoad (on_db (load_group_roles K gid))) (\<lambda>found.
       let roles = (case found of None \<Rightarrow> Map.empty | Some (m, _) \<Rightarrow> m);
           self_id = (case found of None \<Rightarrow> None | Some (_, s) \<Rightarrow> s)
       in bindE (pure (validate_loaded_group_state gid state roles self_id)) (\<lambda>_.
          bindE (renameE (\<lambda>_. EeGroupStateLoad LoadIo) (on_db (load_group_version gid))) (\<lambda>version.
          bindE (writes (\<lambda>es. es\<lparr>
            es_groups := (es_groups es)(gid \<mapsto> (state, OwnPki fresh_registry)),
            es_roles := (if roles = Map.empty then es_roles es else (es_roles es)(gid \<mapsto> roles)),
            es_self := (case self_id of None \<Rightarrow> es_self es | Some me \<Rightarrow> (es_self es)(gid \<mapsto> me)),
            es_versions := (es_versions es)(gid \<mapsto> version)\<rparr>)) (\<lambda>_.
          ret Loaded))))"

definition load_group_state_from_db ::
  "store_codec \<Rightarrow> group_id \<Rightarrow> ('r enc_state, enc_error, load_outcome) eff" where
  "load_group_state_from_db K gid es =
     (case es_db es of
        None \<Rightarrow> (Ok LoadMissing, es)
      | Some d \<Rightarrow>
          if sd_poisoned d then (Err (EeInternal ''db lock''), es)
          else case on_db (load_group_state K gid) es of
                 (Err Missing, es1) \<Rightarrow> (Ok LoadMissing, es1)
               | (Err e, es1) \<Rightarrow> (Err (EeGroupStateLoad e), es1)
               | (Panic, es1) \<Rightarrow> (Panic, es1)
               | (Ok state, es1) \<Rightarrow>
                   install_group K gid state es1)"

definition rollback_group_state :: "store_codec \<Rightarrow> group_id \<Rightarrow> bytes \<Rightarrow> 'r enc_state \<Rightarrow> 'r enc_state" where
  "rollback_group_state K gid backup es =
     (if es_db es \<noteq> None
      then snd (load_group_state_from_db K gid
             (es\<lparr>es_groups := (es_groups es)(gid := None), es_roles := (es_roles es)(gid := None),
                 es_versions := (es_versions es)(gid := None)\<rparr>))
      else case sc_dec_state K backup of
             Inl _ \<Rightarrow> es
           | Inr old \<Rightarrow> es\<lparr>es_groups := (es_groups es)(gid \<mapsto> (old, OwnPki fresh_registry))\<rparr>)"

text \<open>Both deletions are tried; a failure is only logged.\<close>

definition delete_group_state_from_db :: "group_id \<Rightarrow> ('r enc_state, enc_error, unit) eff" where
  "delete_group_state_from_db gid es =
     (case es_db es of
        None \<Rightarrow> (Ok (), es)
      | Some d \<Rightarrow>
          if sd_poisoned d then (Panic, es)
          else (Ok (), es\<lparr>es_db := Some (snd (delete_group_roles gid (snd (delete_group_state gid d)))),
                          es_versions := (es_versions es)(gid := None)\<rparr>))"

section \<open>Operations\<close>

definition init_group :: "group_id \<Rightarrow> peer_id \<Rightarrow> ('r enc_state, enc_error, unit) eff" where
  "init_group gid my_id =
     bindE (pure (rename EeMembership (dgm_create my_id []))) (\<lambda>dgm.
     writes (\<lambda>es. es\<lparr>
       es_groups := (es_groups es)(gid \<mapsto> (gr_init my_id (es_kmg es) dgm (or_new my_id) default_config, SharedPki)),
       es_self := (es_self es)(gid \<mapsto> my_id),
       es_roles := (es_roles es)(gid \<mapsto> role_default Writer my_id (role_mirror es gid))\<rparr>))"

definition create_group ::
  "'r gkit \<Rightarrow> store_codec \<Rightarrow> int \<Rightarrow> group_id \<Rightarrow> peer_id \<Rightarrow> peer_id list \<Rightarrow> ('r enc_state, enc_error, envelope) eff" where
  "create_group G K now gid my_id initial_members =
     bindE (pure (rename EeMembership (dgm_create my_id initial_members))) (\<lambda>dgm.
     bindE (reads es_kmg) (\<lambda>kmg.
     bindE (writes (\<lambda>es. es\<lparr>es_self := (es_self es)(gid \<mapsto> my_id)\<rparr>)) (\<lambda>_.
     let roles = fold (role_default Writer) initial_members [my_id \<mapsto> Admin] in
     bindE (renameE EeGroup (with_pki SharedPki
              (gr_create G (gr_init my_id kmg dgm (or_new my_id) default_config) initial_members)))
       (\<lambda>((state, env), h). \<lambda>es.
     case persist_group_mutation K now gid state roles 0 None es of
       (Ok v, es1) \<Rightarrow>
         (Ok env, es1\<lparr>es_groups := (es_groups es1)(gid \<mapsto> (state, h)), es_roles := (es_roles es1)(gid \<mapsto> roles),
                     es_versions := (es_versions es1)(gid \<mapsto> v)\<rparr>)
     | (Err e, es1) \<Rightarrow>
         (Err e, es1\<lparr>es_roles := (es_roles es1)(gid := None), es_self := (es_self es1)(gid := None)\<rparr>)
     | (Panic, es1) \<Rightarrow> (Panic, es1)))))"

text \<open>
  The second half of the three membership operations, which they share word for word: take
  the group out of memory, back it up, run the protocol, persist, and install the result or
  roll back.
\<close>

definition apply_group_op ::
  "store_codec \<Rightarrow> int \<Rightarrow> group_id \<Rightarrow> auth_fault option \<Rightarrow>
   (group_state \<Rightarrow> ('r world, group_error, group_state \<times> envelope) eff) \<Rightarrow> (role_map \<Rightarrow> role_map) \<Rightarrow>
   ('r enc_state, enc_error, envelope \<times> u64 \<times> u64) eff" where
  "apply_group_op K now gid fault op new_roles es =
     (case es_groups es gid of
        None \<Rightarrow> (Err (EeGroupNotFound gid), es)
      | Some (state, h) \<Rightarrow>
          let es0 = es\<lparr>es_groups := (es_groups es)(gid := None)\<rparr> in
          case sc_enc_state K state of
            Inl e \<Rightarrow> (Err (EeInternal e), es0)
          | Inr backup \<Rightarrow>
              (case with_pki h (op state) es0 of
                 (Ok ((state1, env), h1), es1) \<Rightarrow>
                   let roles = new_roles (role_mirror es1 gid); expected = group_version es1 gid in
                   (case persist_group_mutation K now gid state1 roles expected fault es1 of
                      (Ok v, es2) \<Rightarrow>
                        (Ok (env, expected, v),
                         es2\<lparr>es_groups := (es_groups es2)(gid \<mapsto> (state1, h1)),
                             es_roles := (es_roles es2)(gid \<mapsto> roles),
                             es_versions := (es_versions es2)(gid \<mapsto> v)\<rparr>)
                    | (Err e, es2) \<Rightarrow> (Err e, rollback_group_state K gid backup es2)
                    | (Panic, es2) \<Rightarrow> (Panic, es2))
               | (Err e, es1) \<Rightarrow> (Err (EeGroup e), rollback_group_state K gid backup es1)
               | (Panic, es1) \<Rightarrow> (Panic, es1)))"

definition local_admin :: "group_id \<Rightarrow> ('r enc_state, enc_error, peer_id) eff" where
  "local_admin gid =
     bindE (reads (\<lambda>es. es_self es gid)) (\<lambda>me.
     bindE (pure (ok_or (EeInternal ''no local identity'') me)) (\<lambda>my_id.
     bindE (reads (\<lambda>es. member_role es gid my_id)) (\<lambda>role.
     bindE (guard (role_can_manage (case role of None \<Rightarrow> Writer | Some r \<Rightarrow> r)) (EeNotAuthorized my_id)) (\<lambda>_.
     ret my_id))))"

definition group_members :: "group_id \<Rightarrow> ('r enc_state, enc_error, peer_id set) eff" where
  "group_members gid =
     bindE (reads (\<lambda>es. es_groups es gid)) (\<lambda>g.
     pure (ok_or (EeGroupNotFound gid) (map_option (\<lambda>(state, _). gr_members state) g)))"

definition apply_member_join ::
  "'r gkit \<Rightarrow> store_codec \<Rightarrow> int \<Rightarrow> group_id \<Rightarrow> peer_id \<Rightarrow> auth_fault option \<Rightarrow>
   ('r enc_state, enc_error, envelope \<times> auth_event) eff" where
  "apply_member_join G K now gid member fault =
     bindE (local_admin gid) (\<lambda>my_id.
     bindE (group_members gid) (\<lambda>members.
     bindE (guard (member \<notin> members) (EeGroupIo ''member is already in the group'')) (\<lambda>_.
     bindE (guard (member \<noteq> my_id) (EeGroupIo ''cannot add ourselves to the group'')) (\<lambda>_.
     bindE (apply_group_op K now gid fault (\<lambda>state. gr_add G state member) (\<lambda>roles. roles(member \<mapsto> Writer)))
       (\<lambda>(env, _, v).
     ret (env, MemberJoined gid member v))))))"

definition apply_member_remove ::
  "'r gkit \<Rightarrow> store_codec \<Rightarrow> int \<Rightarrow> group_id \<Rightarrow> peer_id \<Rightarrow> auth_fault option \<Rightarrow>
   ('r enc_state, enc_error, envelope \<times> auth_event) eff" where
  "apply_member_remove G K now gid member fault =
     bindE (local_admin gid) (\<lambda>my_id.
     bindE (group_members gid) (\<lambda>members.
     bindE (guard (member \<in> members) (EeGroupIo ''member is not in the group'')) (\<lambda>_.
     bindE (guard (member \<noteq> my_id) (EeGroupIo ''cannot remove ourselves with this API'')) (\<lambda>_.
     bindE (apply_group_op K now gid fault (\<lambda>state. gr_remove G state member) (\<lambda>roles. roles(member := None)))
       (\<lambda>(env, _, v).
     ret (env, MemberRemoved gid member v))))))"

definition rotate_epoch ::
  "'r gkit \<Rightarrow> store_codec \<Rightarrow> int \<Rightarrow> group_id \<Rightarrow> peer_id \<Rightarrow> auth_fault option \<Rightarrow>
   ('r enc_state, enc_error, envelope \<times> auth_event) eff" where
  "rotate_epoch G K now gid actor fault =
     bindE (reads (\<lambda>es. member_role es gid actor)) (\<lambda>role.
     bindE (guard (role_can_manage (case role of None \<Rightarrow> Writer | Some r \<Rightarrow> r)) (EeNotAuthorized actor)) (\<lambda>_.
     bindE (apply_group_op K now gid fault (gr_update G) (\<lambda>roles. roles)) (\<lambda>(env, old, v).
     ret (env, EpochRotated gid old v))))"

definition apply_role_change ::
  "store_codec \<Rightarrow> int \<Rightarrow> group_id \<Rightarrow> peer_id \<Rightarrow> peer_id \<Rightarrow> member_role \<Rightarrow>
   ('r enc_state, enc_error, auth_event) eff" where
  "apply_role_change K now gid actor member role =
     bindE (reads (\<lambda>es. member_role es gid actor)) (\<lambda>r.
     bindE (pure (ok_or (EeNotMember actor) r)) (\<lambda>actor_role.
     bindE (guard (role_can_manage actor_role) (EeNotAuthorized actor)) (\<lambda>_.
     bindE (reads (\<lambda>es. es_roles es gid)) (\<lambda>m.
     bindE (pure (ok_or (EeGroupNotFound gid) m)) (\<lambda>roles.
     bindE (guard (roles member \<noteq> None) (EeNotMember member)) (\<lambda>_.
     bindE (reads (\<lambda>es. es_groups es gid)) (\<lambda>g.
     bindE (pure (ok_or (EeGroupNotFound gid) g)) (\<lambda>(state, _).
     bindE (reads (\<lambda>es. group_version es gid)) (\<lambda>expected.
     bindE (persist_group_mutation K now gid state (roles(member \<mapsto> role)) expected None) (\<lambda>v.
     bindE (writes (\<lambda>es. es\<lparr>es_roles := (es_roles es)(gid \<mapsto> roles(member \<mapsto> role)),
                              es_versions := (es_versions es)(gid \<mapsto> v)\<rparr>)) (\<lambda>_.
     ret (RoleChanged gid member role v))))))))))))"

definition set_member_role ::
  "store_codec \<Rightarrow> int \<Rightarrow> group_id \<Rightarrow> peer_id \<Rightarrow> peer_id \<Rightarrow> member_role \<Rightarrow> ('r enc_state, enc_error, unit) eff" where
  "set_member_role K now gid actor member role =
     bindE (apply_role_change K now gid actor member role) (\<lambda>_. ret ())"

text \<open>Persisting after a message is best effort: a failure is only logged.\<close>

definition persist_logged :: "store_codec \<Rightarrow> int \<Rightarrow> group_id \<Rightarrow> ('r enc_state, enc_error, unit) eff" where
  "persist_logged K now gid es =
     (case persist_current_group_state K now gid es of
        (Panic, es1) \<Rightarrow> (Panic, es1)
      | (_, es1) \<Rightarrow> (Ok (), es1))"

definition send_message ::
  "'r gkit \<Rightarrow> store_codec \<Rightarrow> int \<Rightarrow> group_id \<Rightarrow> bytes \<Rightarrow> ('r enc_state, enc_error, envelope) eff" where
  "send_message G K now gid plaintext =
     bindE (reads (\<lambda>es. es_self es gid)) (\<lambda>me.
     bindE (pure (ok_or (EeInternal ''no local identity'') me)) (\<lambda>my_id.
     bindE (group_members gid) (\<lambda>members.
     bindE (guard (my_id \<in> members) (EeNotMember my_id)) (\<lambda>_.
     bindE (reads (\<lambda>es. case member_role es gid my_id of None \<Rightarrow> Writer | Some r \<Rightarrow> r)) (\<lambda>role.
     bindE (guard (role_can_write role) (EeForbiddenRole my_id role)) (\<lambda>_.
     bindE (reads (\<lambda>es. es_groups es gid)) (\<lambda>g.
     bindE (pure (ok_or (EeGroupNotFound gid) g)) (\<lambda>(state, h).
     bindE (writes (\<lambda>es. es\<lparr>es_groups := (es_groups es)(gid := None)\<rparr>)) (\<lambda>_.
     bindE (pure (rename EeGroup (gr_send G state plaintext))) (\<lambda>(state1, env).
     bindE (writes (\<lambda>es. es\<lparr>es_groups := (es_groups es)(gid \<mapsto> (state1, h))\<rparr>)) (\<lambda>_.
     bindE (persist_logged K now gid) (\<lambda>_.
     ret env))))))))))))"

definition surface_event ::
  "group_id \<Rightarrow> peer_id \<Rightarrow> group_output option \<Rightarrow> 'r enc_state \<Rightarrow> (enc_error, group_event option) outcome" where
  "surface_event gid sender output es =
     (case output of
        None \<Rightarrow> Ok None
      | Some out \<Rightarrow>
          (case go_events out of
             [] \<Rightarrow> Ok None
           | ev # _ \<Rightarrow>
               (case ev of
                  EvApplication _ _ \<Rightarrow>
                    (case es_groups es gid of
                       None \<Rightarrow> Err (EeGroupNotFound gid)
                     | Some (state, _) \<Rightarrow>
                         if sender \<notin> gr_members state then Ok None
                         else if \<not> role_can_write (case member_role es gid sender of None \<Rightarrow> Writer | Some r \<Rightarrow> r)
                         then Ok None
                         else Ok (Some ev))
                | _ \<Rightarrow> Ok (Some ev))))"

definition receive_message ::
  "'r gkit \<Rightarrow> store_codec \<Rightarrow> int \<Rightarrow> group_id \<Rightarrow> envelope \<Rightarrow> ('r enc_state, enc_error, group_event option) eff" where
  "receive_message G K now gid env =
     bindE (reads (\<lambda>es. es_groups es gid)) (\<lambda>g.
     case g of
       None \<Rightarrow> ret None
     | Some (state, h) \<Rightarrow>
         bindE (writes (\<lambda>es. es\<lparr>es_groups := (es_groups es)(gid := None)\<rparr>)) (\<lambda>_.
         bindE (renameE EeGroup (with_pki h (gr_receive G state env))) (\<lambda>((state1, output), h1).
         bindE (writes (\<lambda>es. es\<lparr>es_groups := (es_groups es)(gid \<mapsto> (state1, h1))\<rparr>)) (\<lambda>_.
         bindE (persist_logged K now gid) (\<lambda>_.
         bindE (reads (surface_event gid (eg_sender env) output)) pure)))))"

definition add_member ::
  "'r gkit \<Rightarrow> store_codec \<Rightarrow> int \<Rightarrow> group_id \<Rightarrow> peer_id \<Rightarrow> ('r enc_state, enc_error, envelope) eff" where
  "add_member G K now gid member = bindE (apply_member_join G K now gid member None) (\<lambda>(env, _). ret env)"

definition remove_member ::
  "'r gkit \<Rightarrow> store_codec \<Rightarrow> int \<Rightarrow> group_id \<Rightarrow> peer_id \<Rightarrow> ('r enc_state, enc_error, envelope) eff" where
  "remove_member G K now gid member = bindE (apply_member_remove G K now gid member None) (\<lambda>(env, _). ret env)"

end
