(* ===== verification/Two_Party_Delivery.thy ===== *)
theory Two_Party_Delivery
  imports Two_Party
begin

text \<open>
  Two parties that exchange messages over two ordered channels.  Each party may send at any
  time and each channel delivers at any time, so messages cross; the invariant relates the
  keys the sender will use to the keys the receiver still holds, message by message.
\<close>

section \<open>Two parties and two channels\<close>

type_synonym party = "two_party \<times> kmg_state"
type_synonym channel = "(two_party_message \<times> bytes) list"
type_synonym sm_conf = "party \<times> party \<times> channel \<times> channel"

fun swap_sides :: "sm_conf \<Rightarrow> sm_conf" where
  "swap_sides (a, b, ab, ba) = (b, a, ba, ab)"

text \<open>
  A party sends fewer messages than its \<^verbatim>\<open>u64\<close> counter can count.  The plaintext stays
  beside the message on the channel, to compare with what the receiver obtains.
\<close>

inductive sm_step :: "bool \<Rightarrow> 'r prims \<Rightarrow> plaintext_codec \<Rightarrow> sm_conf \<Rightarrow> sm_conf \<Rightarrow> bool"
  for oc P K where
  sm_step_send:
    "sm_send oc P K x mx pt r = (Ok (x', m), r') \<Longrightarrow> sm_our_next_key_index x \<noteq> - 1 \<Longrightarrow>
     sm_step oc P K ((x, mx), y, xy, yx) ((x', mx), y, xy @ [(m, pt)], yx)"
| sm_step_deliver:
    "sm_receive oc P K y my m = Ok (y', my', pt') \<Longrightarrow>
     sm_step oc P K (x, (y, my), (m, pt) # xy, yx) (x, (y', my'), xy, yx)"
| sm_step_swap:
    "sm_step oc P K (y, x, yx, xy) c \<Longrightarrow> sm_step oc P K (x, y, xy, yx) (swap_sides c)"

section \<open>The invariant\<close>

record flight =
  fl_msg :: two_party_message
  fl_plain :: two_party_plaintext
  fl_pk :: "bytes option"
  fl_sk :: bytes

abbreviation fl_tag :: "flight \<Rightarrow> key_used" where
  "fl_tag f \<equiv> tm_key_used (fl_msg f)"

abbreviation fl_index :: "flight \<Rightarrow> u64" where
  "fl_index f \<equiv> tt_sender_next_index (fl_plain f)"

abbreviation fl_recv :: "flight \<Rightarrow> bytes" where
  "fl_recv f \<equiv> tt_receiver_new_secret (fl_plain f)"

definition visible :: "flight \<Rightarrow> two_party_message \<times> bytes" where
  "visible f = (fl_msg f, tt_plaintext (fl_plain f))"

fun own_indices :: "key_used list \<Rightarrow> u64 list" where
  "own_indices [] = []"
| "own_indices (OwnKey i # ts) = i # own_indices ts"
| "own_indices (_ # ts) = own_indices ts"

lemma own_indices_append [simp]: "own_indices (ts @ us) = own_indices ts @ own_indices us"
  by (induction ts rule: own_indices.induct) simp_all

lemma own_indices_received [simp]: "own_indices [t, ReceivedKey] = own_indices [t]"
  by (cases t) simp_all

lemma set_own_indices: "j \<in> set (own_indices ts) \<longleftrightarrow> OwnKey j \<in> set ts"
  by (induction ts rule: own_indices.induct) auto

text \<open>The secret the receiver holds from the sender after the messages in flight.\<close>

fun last_recv :: "bytes option \<Rightarrow> flight list \<Rightarrow> bytes option" where
  "last_recv s [] = s"
| "last_recv s (f # fs) = last_recv (Some (fl_recv f)) fs"

lemma last_recv_snoc [simp]: "last_recv s (fs @ [f]) = Some (fl_recv f)"
  by (induction fs arbitrary: s) simp_all

definition holds :: "'r prims \<Rightarrow> bytes option \<Rightarrow> bytes option \<Rightarrow> bool" where
  "holds P secret pk \<longleftrightarrow> (\<exists>sk. secret = Some sk \<and> pk = Some (verifying_key P sk))"

fun recv_ok :: "'r prims \<Rightarrow> bytes option \<Rightarrow> flight list \<Rightarrow> bool" where
  "recv_ok P s [] \<longleftrightarrow> True"
| "recv_ok P s (f # fs) \<longleftrightarrow>
     (fl_tag f = ReceivedKey \<longrightarrow> holds P s (fl_pk f)) \<and> recv_ok P (Some (fl_recv f)) fs"

lemma recv_ok_snoc [simp]:
  "recv_ok P s (fs @ [f]) \<longleftrightarrow>
     recv_ok P s fs \<and> (fl_tag f = ReceivedKey \<longrightarrow> holds P (last_recv s fs) (fl_pk f))"
  by (induction fs arbitrary: s) auto

definition flight_opens :: "'r prims \<Rightarrow> plaintext_codec \<Rightarrow> kmg_state \<Rightarrow> flight \<Rightarrow> bool" where
  "flight_opens P K my f \<longleftrightarrow>
     (case tm_ciphertext (fl_msg f) of
        CPreKey c \<Rightarrow> fl_tag f = PreKeyUsed
          \<and> (\<exists>my' b. open_prekey_message P my c = Ok (my', b) \<and> dec_plain K b = Inr (fl_plain f))
      | CHpke c \<Rightarrow> fl_tag f \<noteq> PreKeyUsed
          \<and> (\<exists>b. (\<forall>sk. fl_pk f = Some (verifying_key P sk) \<longrightarrow> hpke_open P c sk None None = Ok b)
               \<and> dec_plain K b = Inr (fl_plain f)))"

text \<open>
  The direction from \<open>x\<close> to \<open>y\<close>: \<open>fs\<close> are the messages in flight, \<open>back\<close> the key tags of
  the messages in flight the other way, followed by the tag \<open>y\<close> will use next.
\<close>

definition keys_ok :: "'r prims \<Rightarrow> two_party \<Rightarrow> two_party \<Rightarrow> flight list \<Rightarrow> bool" where
  "keys_ok P x y fs \<longleftrightarrow>
     recv_ok P (sm_our_received_secret_key y) fs
     \<and> (sm_their_next_key_used x = ReceivedKey \<longrightarrow>
          holds P (last_recv (sm_our_received_secret_key y) fs) (sm_their_verifying_key x))
     \<and> (\<forall>f \<in> set fs. \<forall>j. fl_tag f = OwnKey j \<longrightarrow> holds P (sm_our_secret_keys y j) (fl_pk f))
     \<and> (\<forall>j. sm_their_next_key_used x = OwnKey j \<longrightarrow>
          holds P (sm_our_secret_keys y j) (sm_their_verifying_key x))
     \<and> sorted_wrt (<) (own_indices (map fl_tag fs @ [sm_their_next_key_used x]))
     \<and> (\<forall>j. sm_our_secret_keys y j \<noteq> None \<longrightarrow> j < sm_our_next_key_index y)"

definition announced_ok :: "'r prims \<Rightarrow> two_party \<Rightarrow> flight list \<Rightarrow> key_used list \<Rightarrow> bool" where
  "announced_ok P x fs back \<longleftrightarrow>
     sorted_wrt (<) (map fl_index fs)
     \<and> (\<forall>f \<in> set fs. fl_index f < sm_our_next_key_index x
          \<and> sm_our_secret_keys x (fl_index f) = Some (fl_sk f)
          \<and> tt_sender_new_verifying_key (fl_plain f) = verifying_key P (fl_sk f))
     \<and> (\<forall>j. OwnKey j \<in> set back \<longrightarrow> (\<forall>f \<in> set fs. j < fl_index f))"

definition prekey_ok :: "'r prims \<Rightarrow> plaintext_codec \<Rightarrow> two_party \<Rightarrow> kmg_state \<Rightarrow> flight list \<Rightarrow> bool" where
  "prekey_ok P K x my fs \<longleftrightarrow>
     (sm_their_next_key_used x = PreKeyUsed \<longleftrightarrow> sm_their_verifying_key x = None)
     \<and> (sm_their_next_key_used x = PreKeyUsed \<longrightarrow>
          fs = [] \<and> (\<exists>b. sm_their_prekey_bundle x = Some b \<and> bundle_of P my b))
     \<and> (\<forall>f \<in> set (tl fs). fl_tag f \<noteq> PreKeyUsed)
     \<and> (\<forall>f \<in> set fs. flight_opens P K my f)"

definition direction ::
  "'r prims \<Rightarrow> plaintext_codec \<Rightarrow> two_party \<Rightarrow> two_party \<Rightarrow> kmg_state \<Rightarrow> flight list \<Rightarrow> key_used list \<Rightarrow> bool" where
  "direction P K x y my fs back \<longleftrightarrow>
     keys_ok P x y fs \<and> announced_ok P x fs back \<and> prekey_ok P K x my fs"

definition tags :: "flight list \<Rightarrow> two_party \<Rightarrow> key_used list" where
  "tags fs x = map fl_tag fs @ [sm_their_next_key_used x]"

fun sm_inv :: "'r prims \<Rightarrow> plaintext_codec \<Rightarrow> sm_conf \<Rightarrow> bool" where
  "sm_inv P K ((x, mx), (y, my), xy, yx) \<longleftrightarrow>
     (\<exists>fs gs. map visible fs = xy \<and> map visible gs = yx
        \<and> direction P K x y my fs (tags gs y) \<and> direction P K y x mx gs (tags fs x))"

lemma sm_inv_swap: "sm_inv P K c \<Longrightarrow> sm_inv P K (swap_sides c)"
  by (cases c) (auto, blast)

lemma sm_inv_start:
  assumes "bundle_of P my b" and "bundle_of P mx a"
  shows "sm_inv P K ((sm_init b, mx), (sm_init a, my), [], [])"
  using assms
  by (simp add: direction_def keys_ok_def announced_ok_def prekey_ok_def tags_def sm_init_def)

section \<open>Sending\<close>

lemma open_prekey_message_ok:
  assumes "exchange_ok P" and "cipher_ok P" and "bundle_of P my b"
    and "x3dh_encrypt P m secret b r = (Ok c, r')"
  shows "\<exists>my'. open_prekey_message P my c = Ok (my', m)"
proof -
  obtain e where e: "km_prekeys my (pre_key_id (kb_signed_prekey b)) = Some e"
    using assms(3) by (auto simp: bundle_of_def)
  note x = x3dh_roundtrip [OF assms(1-3) e assms(4)]
  show ?thesis
  proof (cases "kb_onetime_prekey b")
    case None
    with x e show ?thesis
      by (simp add: open_prekey_message_def prekey_secret_def onetime_secret_of_def)
  next
    case (Some o1)
    with assms(3) x e show ?thesis
      by (auto simp: open_prekey_message_def prekey_secret_def onetime_secret_of_def bundle_of_def
          use_onetime_secret_def split: prod.splits)
  qed
qed

text \<open>What a successful send leaves: the message in flight and the sender's state after it.\<close>

lemma sm_send_flight:
  assumes P: "prims_ok P" and K: "plaintext_codec_ok K"
    and pre: "sm_their_next_key_used x = PreKeyUsed \<longleftrightarrow> sm_their_verifying_key x = None"
    and bun: "sm_their_verifying_key x = None \<Longrightarrow>
      \<exists>b. sm_their_prekey_bundle x = Some b \<and> bundle_of P my b"
    and send: "sm_send oc P K x mx pt r = (Ok (x', m), r')"
  obtains f where "fl_msg f = m" and "tt_plaintext (fl_plain f) = pt"
    and "fl_tag f = sm_their_next_key_used x" and "fl_pk f = sm_their_verifying_key x"
    and "fl_index f = sm_our_next_key_index x"
    and "tt_sender_new_verifying_key (fl_plain f) = verifying_key P (fl_sk f)"
    and "flight_opens P K my f"
    and "sm_our_secret_keys x' = (sm_our_secret_keys x)(sm_our_next_key_index x \<mapsto> fl_sk f)"
    and "sm_our_next_key_index x' = sm_our_next_key_index x + 1"
    and "sm_their_verifying_key x' = Some (verifying_key P (fl_recv f))"
    and "sm_their_next_key_used x' = ReceivedKey"
    and "sm_our_received_secret_key x' = sm_our_received_secret_key x"
proof -
  obtain ours theirs r1 where keys: "generate_keys P r = (Ok (ours, theirs), r1)"
    using send by (auto simp: sm_send_def)
  let ?m = "\<lparr>tt_plaintext = pt, tt_receiver_new_secret = theirs,
      tt_sender_new_verifying_key = verifying_key P ours,
      tt_sender_next_index = sm_our_next_key_index x\<rparr>"
  obtain b y1 c where enc: "enc_plain K ?m = Inr b" and ct: "sm_encrypt P x mx b r1 = (Ok (y1, c), r')"
    and x': "x' = y1\<lparr>sm_our_secret_keys := (sm_our_secret_keys y1)(sm_our_next_key_index y1 \<mapsto> ours),
              sm_our_next_key_index := sm_our_next_key_index y1 + 1,
              sm_their_verifying_key := Some (verifying_key P theirs),
              sm_their_next_key_used := ReceivedKey\<rparr>"
    and m: "m = \<lparr>tm_ciphertext = c, tm_key_used = sm_their_next_key_used y1\<rparr>"
    using send keys by (auto simp: sm_send_def Let_def split: if_splits)
  have dec: "dec_plain K b = Inr ?m" using K enc by (simp add: plaintext_codec_ok_def)
  let ?f = "\<lparr>fl_msg = m, fl_plain = ?m, fl_pk = sm_their_verifying_key x, fl_sk = ours\<rparr>"
  have same: "sm_our_secret_keys y1 = sm_our_secret_keys x"
    "sm_our_next_key_index y1 = sm_our_next_key_index x"
    "sm_their_next_key_used y1 = sm_their_next_key_used x"
    "sm_our_received_secret_key y1 = sm_our_received_secret_key x"
    using ct by (auto simp: sm_encrypt_def split: option.splits)
  have "flight_opens P K my ?f"
  proof (cases "sm_their_verifying_key x")
    case None
    with bun obtain b0 where b0: "sm_their_prekey_bundle x = Some b0" "bundle_of P my b0" by auto
    then obtain h where "c = CPreKey h" and "x3dh_encrypt P b (km_identity_secret mx) b0 r1 = (Ok h, r')"
      using ct None by (auto simp: sm_encrypt_def)
    moreover from this(2) obtain my' where "open_prekey_message P my h = Ok (my', b)"
      using open_prekey_message_ok [OF prims_okD(3,2) [OF P] b0(2)] by blast
    ultimately show ?thesis using None pre dec by (auto simp: flight_opens_def m same)
  next
    case (Some vk)
    then obtain h where "c = CHpke h" and seal: "hpke_seal P vk None None b r1 = (Ok h, r')"
      using ct by (auto simp: sm_encrypt_def)
    with Some pre dec show ?thesis
      by (auto simp: flight_opens_def m same intro: hpke_roundtrip [OF prims_okD(4) [OF P]])
  qed
  with that [of ?f] show thesis by (simp add: x' m same)
qed

lemma increment_greater:
  fixes i j :: u64
  assumes "i \<noteq> - 1"
  shows "i < i + 1" and "j < i \<Longrightarrow> j < i + 1" and "j < i + 1 \<Longrightarrow> j \<le> i"
proof -
  have "1 + i \<noteq> 0" using assms by (simp add: add.commute eq_neg_iff_add_eq_0)
  then have "unat (i + 1) = Suc (unat i)" by (simp add: unatSuc add.commute)
  then show "i < i + 1" and "j < i \<Longrightarrow> j < i + 1" and "j < i + 1 \<Longrightarrow> j \<le> i"
    by (auto simp: word_less_nat_alt word_le_nat_alt)
qed

lemma direction_send:
  assumes "direction P K x y my fs back"
    and f: "fl_tag f = sm_their_next_key_used x" "fl_pk f = sm_their_verifying_key x"
      "fl_index f = sm_our_next_key_index x"
      "tt_sender_new_verifying_key (fl_plain f) = verifying_key P (fl_sk f)" "flight_opens P K my f"
    and x': "sm_our_secret_keys x' = (sm_our_secret_keys x)(sm_our_next_key_index x \<mapsto> fl_sk f)"
      "sm_our_next_key_index x' = sm_our_next_key_index x + 1"
      "sm_their_verifying_key x' = Some (verifying_key P (fl_recv f))"
      "sm_their_next_key_used x' = ReceivedKey"
    and index: "sm_our_next_key_index x \<noteq> - 1"
    and bk: "\<forall>j. OwnKey j \<in> set back \<longrightarrow> j < sm_our_next_key_index x"
  shows "direction P K x' y my (fs @ [f]) back"
proof -
  from assms(1) have k: "keys_ok P x y fs" and a: "announced_ok P x fs back" and p: "prekey_ok P K x my fs"
    by (simp_all add: direction_def)
  have "keys_ok P x' y (fs @ [f])"
    using k f x' by (auto simp: keys_ok_def holds_def)
  moreover have "announced_ok P x' (fs @ [f]) back"
    using a f x' bk increment_greater [OF index]
    by (fastforce simp: announced_ok_def sorted_wrt_append)
  moreover have "prekey_ok P K x' my (fs @ [f])"
    using p f x' by (cases fs) (auto simp: prekey_ok_def)
  ultimately show ?thesis by (simp add: direction_def)
qed

text \<open>The other direction, seen from the party that receives nothing yet.\<close>

lemma direction_other_send:
  assumes "direction P K y x mx gs (tags fs x)"
    and f: "fl_tag f = sm_their_next_key_used x"
    and x': "sm_our_secret_keys x' = (sm_our_secret_keys x)(sm_our_next_key_index x \<mapsto> fl_sk f)"
      "sm_our_next_key_index x' = sm_our_next_key_index x + 1"
      "sm_their_next_key_used x' = ReceivedKey"
      "sm_our_received_secret_key x' = sm_our_received_secret_key x"
    and index: "sm_our_next_key_index x \<noteq> - 1"
  shows "direction P K y x' mx gs (tags (fs @ [f]) x')"
proof -
  from assms(1) have k: "keys_ok P y x gs" and a: "announced_ok P y gs (tags fs x)"
    and p: "prekey_ok P K y mx gs"
    by (simp_all add: direction_def)
  have own: "sm_our_secret_keys x j \<noteq> None \<Longrightarrow> j \<noteq> sm_our_next_key_index x" for j
    using k by (auto simp: keys_ok_def)
  have "keys_ok P y x' gs"
    using k x' own increment_greater [OF index]
    by (auto simp: keys_ok_def holds_def) (metis option.distinct(1))+
  moreover have "announced_ok P y gs (tags (fs @ [f]) x')"
    using a f x' by (auto simp: announced_ok_def tags_def)
  ultimately show ?thesis using p by (simp add: direction_def)
qed

section \<open>Receiving\<close>

text \<open>
  After a message the receiver holds the keys the message brought, and of its own keys at
  least those above the one the message used.
\<close>

definition received :: "flight \<Rightarrow> two_party \<Rightarrow> two_party \<Rightarrow> bool" where
  "received f y y' \<longleftrightarrow>
     sm_their_verifying_key y' = Some (tt_sender_new_verifying_key (fl_plain f))
     \<and> sm_their_next_key_used y' = OwnKey (fl_index f)
     \<and> sm_our_received_secret_key y' = Some (fl_recv f)
     \<and> sm_our_next_key_index y' = sm_our_next_key_index y
     \<and> (\<forall>i. sm_our_secret_keys y' i \<noteq> None \<longrightarrow> sm_our_secret_keys y i \<noteq> None)
     \<and> (\<forall>i. (\<forall>j. fl_tag f = OwnKey j \<longrightarrow> j < i) \<longrightarrow> sm_our_secret_keys y' i = sm_our_secret_keys y i)"

lemma sm_receive_flight:
  assumes "direction P K x y my (f # fs) back"
  obtains y' my' where "sm_receive oc P K y my (fl_msg f) = Ok (y', my', tt_plaintext (fl_plain f))"
    and "received f y y'"
proof -
  from assms have k: "keys_ok P x y (f # fs)" and o: "flight_opens P K my f"
    by (simp_all add: direction_def prekey_ok_def)
  show thesis
  proof (cases "fl_tag f")
    case PreKeyUsed
    then obtain c my' b where "tm_ciphertext (fl_msg f) = CPreKey c"
      and "open_prekey_message P my c = Ok (my', b)" and "dec_plain K b = Inr (fl_plain f)"
      using o by (auto simp: flight_opens_def split: two_party_ciphertext.splits)
    with PreKeyUsed show thesis
      by (intro that) (auto simp: sm_receive_def sm_decrypt_def received_def)
  next
    case ReceivedKey
    then obtain sk where "sm_our_received_secret_key y = Some sk" "fl_pk f = Some (verifying_key P sk)"
      using k by (auto simp: keys_ok_def holds_def)
    with ReceivedKey o obtain c b where "tm_ciphertext (fl_msg f) = CHpke c"
      and "hpke_open P c sk None None = Ok b" and "dec_plain K b = Inr (fl_plain f)"
      by (auto simp: flight_opens_def split: two_party_ciphertext.splits)
    with ReceivedKey \<open>sm_our_received_secret_key y = Some sk\<close> show thesis
      by (intro that) (auto simp: sm_receive_def sm_decrypt_def received_def)
  next
    case (OwnKey j)
    then obtain sk where sk: "sm_our_secret_keys y j = Some sk" "fl_pk f = Some (verifying_key P sk)"
      using k by (auto simp: keys_ok_def holds_def)
    then have "j < sm_our_next_key_index y" using k by (auto simp: keys_ok_def)
    then have j: "j \<noteq> - 1" by auto
    from OwnKey o sk(2) obtain c b where "tm_ciphertext (fl_msg f) = CHpke c"
      and "hpke_open P c sk None None = Ok b" and "dec_plain K b = Inr (fl_plain f)"
      by (auto simp: flight_opens_def split: two_party_ciphertext.splits)
    with OwnKey sk j increment_greater(3) [OF j] show thesis
      by (intro that) (auto simp: sm_receive_def sm_decrypt_def forget_keys_def received_def not_le [symmetric]
          split: if_splits)
  qed
qed

lemma direction_receive:
  assumes xy: "direction P K x y my (f # fs) (tags gs y)" and r: "received f y y'"
  shows "direction P K x y' my' fs (tags gs y')"
proof -
  from xy have k: "keys_ok P x y (f # fs)" and a: "announced_ok P x (f # fs) (tags gs y)"
    and p: "prekey_ok P K x my (f # fs)"
    by (simp_all add: direction_def)
  have above: "\<forall>j. fl_tag f = OwnKey j \<longrightarrow> j < i" if "OwnKey i \<in> set (tags fs x)" for i
    using k that by (cases "fl_tag f") (auto simp: keys_ok_def tags_def set_own_indices)
  have own: "sm_our_secret_keys y' i = sm_our_secret_keys y i" if "OwnKey i \<in> set (tags fs x)" for i
    using above [OF that] r by (simp add: received_def)
  have "sm_our_secret_keys y' i = sm_our_secret_keys y i" if "g \<in> set fs" "fl_tag g = OwnKey i" for g i
    using own that by (force simp: tags_def)
  moreover have "sm_our_secret_keys y' i = sm_our_secret_keys y i"
    if "sm_their_next_key_used x = OwnKey i" for i
    using own that by (auto simp: tags_def)
  moreover have "sorted_wrt (<) (own_indices (tags fs x))"
    using k by (cases "fl_tag f") (auto simp: keys_ok_def tags_def)
  ultimately have "keys_ok P x y' fs"
    using k r by (auto simp: keys_ok_def received_def tags_def)
  moreover have "announced_ok P x fs (tags gs y')"
    using a r by (auto simp: announced_ok_def tags_def received_def)
  moreover have "prekey_ok P K x my' fs"
    using p by (cases fs) (auto simp: prekey_ok_def flight_opens_def split: two_party_ciphertext.splits)
  ultimately show ?thesis by (simp add: direction_def)
qed

lemma direction_other_receive:
  assumes xy: "direction P K x y my (f # fs) (tags gs y)"
    and yx: "direction P K y x mx gs (tags (f # fs) x)" and r: "received f y y'"
  shows "direction P K y' x mx gs (tags fs x)"
proof -
  from xy have ax: "announced_ok P x (f # fs) (tags gs y)" by (simp add: direction_def)
  from yx have k: "keys_ok P y x gs" and a: "announced_ok P y gs (tags (f # fs) x)"
    and p: "prekey_ok P K y mx gs"
    by (simp_all add: direction_def)
  have "keys_ok P y' x gs"
    using k ax r by (auto simp: keys_ok_def received_def holds_def announced_ok_def tags_def
        sorted_wrt_append set_own_indices)
  moreover have "announced_ok P y' gs (tags fs x)"
    using a r by (auto simp: announced_ok_def received_def tags_def)
  moreover have "prekey_ok P K y' mx gs"
    using p r by (auto simp: prekey_ok_def received_def)
  ultimately show ?thesis by (simp add: direction_def)
qed

section \<open>Runs\<close>

lemma own_tag_below:
  assumes "direction P K y x mx gs back" and "OwnKey j \<in> set (tags gs y)"
  shows "j < sm_our_next_key_index x"
  using assms by (auto simp: direction_def keys_ok_def tags_def holds_def) (metis option.distinct(1))+

lemma sm_inv_step:
  assumes P: "prims_ok P" and K: "plaintext_codec_ok K"
  shows "sm_step oc P K c c' \<Longrightarrow> sm_inv P K c \<Longrightarrow> sm_inv P K c'"
proof (induction rule: sm_step.induct)
  case (sm_step_send x mx pt r x' m r' y xy yx)
  obtain y0 my where y: "y = (y0, my)" by force
  obtain fs gs where q: "map visible fs = xy" "map visible gs = yx"
    and xy: "direction P K x y0 my fs (tags gs y0)" and yx: "direction P K y0 x mx gs (tags fs x)"
    using sm_step_send.prems y by auto
  have p: "prekey_ok P K x my fs" using xy by (simp add: direction_def)
  obtain f where f: "fl_msg f = m" "tt_plaintext (fl_plain f) = pt"
    "fl_tag f = sm_their_next_key_used x" "fl_pk f = sm_their_verifying_key x"
    "fl_index f = sm_our_next_key_index x"
    "tt_sender_new_verifying_key (fl_plain f) = verifying_key P (fl_sk f)" "flight_opens P K my f"
    and x': "sm_our_secret_keys x' = (sm_our_secret_keys x)(sm_our_next_key_index x \<mapsto> fl_sk f)"
    "sm_our_next_key_index x' = sm_our_next_key_index x + 1"
    "sm_their_verifying_key x' = Some (verifying_key P (fl_recv f))"
    "sm_their_next_key_used x' = ReceivedKey"
    "sm_our_received_secret_key x' = sm_our_received_secret_key x"
    using sm_send_flight [OF P K _ _ sm_step_send.hyps(1), of my] p by (auto simp: prekey_ok_def)
  have "direction P K x' y0 my (fs @ [f]) (tags gs y0)"
    using direction_send [OF xy f(3-7) x'(1-4) sm_step_send.hyps(2)] own_tag_below [OF yx] by blast
  moreover have "direction P K y0 x' mx gs (tags (fs @ [f]) x')"
    by (rule direction_other_send [OF yx f(3) x'(1,2,4,5) sm_step_send.hyps(2)])
  moreover have "map visible (fs @ [f]) = xy @ [(m, pt)]" using q f by (simp add: visible_def)
  ultimately show ?case using q(2) unfolding y sm_inv.simps by blast
next
  case (sm_step_deliver y my m y' my' pt' x pt xy yx)
  obtain x0 mx where x: "x = (x0, mx)" by force
  obtain f fs gs where q: "map visible fs = xy" "map visible gs = yx" "fl_msg f = m"
    and xy: "direction P K x0 y my (f # fs) (tags gs y)" and yx: "direction P K y x0 mx gs (tags (f # fs) x0)"
    using sm_step_deliver.prems x by (auto simp: map_eq_Cons_conv visible_def)
  have "received f y y'"
    using sm_receive_flight [OF xy, of oc] sm_step_deliver.hyps q(3) by (metis outcome.inject(1) prod.inject)
  with direction_receive [OF xy] direction_other_receive [OF xy yx] q
  show ?case unfolding x sm_inv.simps by blast
next
  case (sm_step_swap y x yx xy c)
  then show ?case using sm_inv_swap [of P K "(x, y, xy, yx)"] by (auto intro: sm_inv_swap)
qed

lemma sm_inv_run:
  assumes "prims_ok P" and "plaintext_codec_ok K" and "(sm_step oc P K)\<^sup>*\<^sup>* c c'" and "sm_inv P K c"
  shows "sm_inv P K c'"
  using assms(3,4) by (induction rule: rtranclp_induct) (auto intro: sm_inv_step [OF assms(1,2)])

lemma sm_inv_opens:
  assumes "sm_inv P K ((x, mx), (y, my), (m, pt) # xy, yx)"
  shows "\<exists>y' my'. sm_receive oc P K y my m = Ok (y', my', pt)"
proof -
  from assms obtain f fs gs where "visible f = (m, pt)" and "direction P K x y my (f # fs) (tags gs y)"
    by (auto simp: map_eq_Cons_conv)
  then show ?thesis
    using sm_receive_flight [of P K x y my f fs "tags gs y" oc] by (metis prod.inject visible_def)
qed

section \<open>Properties\<close>

text \<open>
  C9. Two parties that hold each other's pre-key bundles understand each other: however
  their sends and the deliveries of the two ordered channels interleave, the next message
  of a channel decrypts at its receiver to the plaintext that was sent.
\<close>

theorem two_party_delivers:
  assumes "prims_ok P" and "plaintext_codec_ok K" and "bundle_of P mb b" and "bundle_of P ma a"
    and "(sm_step oc P K)\<^sup>*\<^sup>* ((sm_init b, ma), (sm_init a, mb), [], [])
           ((x, mx), (y, my), (m, pt) # xy, yx)"
  shows "\<exists>y' my'. sm_receive oc P K y my m = Ok (y', my', pt)"
  by (rule sm_inv_opens [OF sm_inv_run [OF assms(1,2,5) sm_inv_start [OF assms(3,4)]]])

definition demo_plain_codec :: plaintext_codec where
  "demo_plain_codec =
     \<lparr>enc_plain = (\<lambda>m.
        if length (tt_receiver_new_secret m) = 32 \<and> length (tt_sender_new_verifying_key m) = 32
           \<and> unat (tt_sender_next_index m) < 256
        then Inr (tt_receiver_new_secret m @ tt_sender_new_verifying_key m
                  @ of_nat (unat (tt_sender_next_index m)) # tt_plaintext m)
        else Inl ''size''),
      dec_plain = (\<lambda>b.
        if length b < 65 then Inl ''short''
        else Inr \<lparr>tt_plaintext = drop 65 b, tt_receiver_new_secret = take 32 b,
                  tt_sender_new_verifying_key = take 32 (drop 32 b),
                  tt_sender_next_index = of_nat (unat (b ! 64))\<rparr>)\<rparr>"

lemma byte_index:
  assumes "unat i < 256"
  shows "ucast (ucast (i :: u64) :: u8) = i"
proof -
  have "unat (ucast (ucast i :: u8) :: u64) = unat i"
    using assms by (simp add: unsigned_ucast_eq unsigned_take_bit_eq take_bit_nat_eq_self)
  then show ?thesis by (metis unsigned_word_eqI)
qed

lemma demo_plain_codec_ok: "plaintext_codec_ok demo_plain_codec"
  by (auto simp: plaintext_codec_ok_def demo_plain_codec_def unat_of_nat_small nth_append
      byte_index)

definition demo_signature :: "u8 \<Rightarrow> bytes" where
  "demo_signature k = xeddsa_signature demo_prims (replicate 32 (k + 1)) (replicate 32 k) (replicate 64 0)"

lemma demo_signature_verifies: "xeddsa_verify demo_prims (replicate 32 (k + 1)) (replicate 32 k) (demo_signature k) = Ok ()"
  using xeddsa_verifies [OF demo_curve_ok, of "replicate 32 (k + 1)" "replicate 32 k" "replicate 64 0"]
  by (simp add: demo_signature_def verifying_key_def secret_from_bytes_def demo_prims_sel)

definition demo_manager :: "u8 \<Rightarrow> kmg_state" where
  "demo_manager k =
     \<lparr>km_identity_secret = replicate 32 k, km_identity_key = replicate 32 k,
      km_prekeys = [replicate 32 (k + 1) \<mapsto>
        \<lparr>pe_prekey = \<lparr>pre_key_id = replicate 32 (k + 1),
                      pre_lifetime = \<lparr>lt_not_before = 0, lt_not_after = 2000\<rparr>\<rparr>,
         pe_signature = demo_signature k, pe_secret = replicate 32 (k + 1)\<rparr>],
      km_onetime_secrets = [0 \<mapsto> (replicate 32 (k + 1), replicate 32 (k + 2))],
      km_onetime_next_id = 1\<rparr>"

definition demo_bundle :: "u8 \<Rightarrow> key_bundle" where
  "demo_bundle k =
     \<lparr>kb_identity_key = replicate 32 k,
      kb_signed_prekey = \<lparr>pre_key_id = replicate 32 (k + 1),
                          pre_lifetime = \<lparr>lt_not_before = 0, lt_not_after = 2000\<rparr>\<rparr>,
      kb_prekey_signature = demo_signature k,
      kb_onetime_prekey = Some (replicate 32 (k + 2), 0)\<rparr>"

lemma demo_bundle_of: "bundle_of demo_prims (demo_manager k) (demo_bundle k)"
  by (simp add: bundle_of_def demo_manager_def demo_bundle_def verifying_key_def demo_prims_def)

lemma demo_bundle_verify: "bundle_verify demo_prims (demo_bundle k) r = (Ok (), r)"
  using demo_signature_verifies [of k]
  by (simp add: bundle_verify_def demo_bundle_def bindE_def renameE_def pure_def lifetime_verify_def demo_prims_sel ensure_def
      ret_def Let_def)

lemma demo_first_send:
  "\<exists>x' m r'. sm_send oc demo_prims demo_plain_codec (sm_init (demo_bundle k)) mx pt r = (Ok (x', m), r')"
  by (simp add: sm_send_def sm_init_def demo_plain_codec_def demo_prims_sel demo_bundle_verify
      bindE_def ret_def pure_def renameE_def generate_keys_def random_array_def secret_from_bytes_def
      verifying_key_def sm_encrypt_def ok_or_def x3dh_encrypt_def
      x3dh_key_def x3dh_nonce_def hkdf_def aead_encrypt_def calculate_agreement_def Let_def)

theorem two_party_delivers_witness:
  "\<exists>x y m y' my'.
     (sm_step True demo_prims demo_plain_codec)\<^sup>*\<^sup>*
       ((sm_init (demo_bundle 20), demo_manager 10), (sm_init (demo_bundle 10), demo_manager 20), [], [])
       ((x, demo_manager 10), (y, demo_manager 20), [(m, [42])], [])
     \<and> sm_receive True demo_prims demo_plain_codec y (demo_manager 20) m = Ok (y', my', [42])"
proof -
  obtain x m r where "sm_send True demo_prims demo_plain_codec (sm_init (demo_bundle 20))
      (demo_manager 10) [42] 0 = (Ok (x, m), r)"
    using demo_first_send by blast
  from sm_step_send [OF this, of "(sm_init (demo_bundle 10), demo_manager 20)" "[]" "[]"]
  have "(sm_step True demo_prims demo_plain_codec)\<^sup>*\<^sup>*
       ((sm_init (demo_bundle 20), demo_manager 10), (sm_init (demo_bundle 10), demo_manager 20), [], [])
       ((x, demo_manager 10), (sm_init (demo_bundle 10), demo_manager 20), [(m, [42])], [])"
    by (simp add: r_into_rtranclp sm_init_def)
  with two_party_delivers [OF demo_prims_ok demo_plain_codec_ok demo_bundle_of demo_bundle_of this]
  show ?thesis by blast
qed

end
