(* ===== verification/Dcgka_Agreement.thy ===== *)
theory Dcgka_Agreement
  imports Dcgka Two_Party_Delivery "HOL-Library.List_Lexorder"
begin

text \<open>
  Agreement of the group key agreement: the member that refreshes the group's keys and a
  member that processes the refresh derive the same update secrets, for both of them, and
  their outer ratchets agree again afterwards.
\<close>

section \<open>The registry knows the identity keys\<close>

definition identities_known ::
  "bundle_codec \<Rightarrow> registry \<Rightarrow> peer_id set \<Rightarrow> (peer_id \<Rightarrow> bytes) \<Rightarrow> bool" where
  "identities_known K g M ids \<longleftrightarrow>
     rg_faults g = [] \<and> \<not> rg_poisoned g
     \<and> (\<forall>m \<in> M. \<exists>blob b. rg_identity g m = Some blob \<and> dec_bundle K blob = Inr b
          \<and> kb_identity_key b = ids m)"

abbreviation knows :: "'r kit \<Rightarrow> 'r world \<Rightarrow> peer_id set \<Rightarrow> (peer_id \<Rightarrow> bytes) \<Rightarrow> bool" where
  "knows E w M ids \<equiv> identities_known (kit_bundles E) (w_registry w) M ids"

lemma known_identity_key_ok:
  assumes "knows E w M ids" and "m \<in> M"
  shows "known_identity_key E m w = (Ok (ids m), w)"
proof -
  obtain blob b where "rg_identity (w_registry w) m = Some blob"
    and "dec_bundle (kit_bundles E) blob = Inr b" and "kb_identity_key b = ids m"
    using assms by (auto simp: identities_known_def)
  with assms(1) show ?thesis
    by (simp add: known_identity_key_def on_registry_def identity_key_def bindE_def renameE_def
        lock_registry_def statement_def pure_def ok_or_def identities_known_def)
qed

section \<open>The pure part of the ratchets\<close>

definition ratchet_output :: "'r prims \<Rightarrow> string \<Rightarrow> bytes option \<Rightarrow> bytes \<Rightarrow> bytes \<Rightarrow> bytes" where
  "ratchet_output P s prev secret identity =
     the_ok (hkdf P RATCHET_KEY_SIZE (map of_char s)
       ((case prev of None \<Rightarrow> [] | Some k \<Rightarrow> k) @ secret @ identity) None)"

definition member_secret_of :: "'r prims \<Rightarrow> bytes \<Rightarrow> bytes \<Rightarrow> bytes" where
  "member_secret_of P seed identity =
     the_ok (hkdf P RATCHET_KEY_SIZE (map of_char ''update'') (seed @ identity) None)"

lemma dc_hkdf_ok:
  assumes "hkdf_ok (kit_prims E)"
  shows "dc_hkdf E s ikm = Ok (the_ok (hkdf (kit_prims E) RATCHET_KEY_SIZE (map of_char s) ikm None))"
proof -
  obtain okm where "hkdf (kit_prims E) RATCHET_KEY_SIZE (map of_char s) ikm None = Ok okm"
    using hkdf_total [OF assms, of RATCHET_KEY_SIZE "map of_char s" ikm None]
    by (auto simp: RATCHET_KEY_SIZE_def)
  then show ?thesis by (simp add: dc_hkdf_def)
qed

lemma update_ratchet_ok:
  assumes "hkdf_ok (kit_prims E)" and "knows E w M ids" and "m \<in> M"
  shows "update_ratchet E y m s w =
    (Ok (y\<lparr>dc_ratchet := (dc_ratchet y)(m \<mapsto> ratchet_output (kit_prims E) ''chain'' (dc_ratchet y m) s (ids m))\<rparr>,
         ratchet_output (kit_prims E) ''update'' (dc_ratchet y m) s (ids m)), w)"
  using known_identity_key_ok [OF assms(2,3)]
  by (simp add: update_ratchet_def bindE_def Let_def pure_def ret_def dc_hkdf_ok [OF assms(1)]
      ratchet_output_def)

lemma derive_member_secret_ok:
  assumes "hkdf_ok (kit_prims E)" and "knows E w M ids" and "m \<in> M"
  shows "derive_member_secret E seed m w = (Ok (member_secret_of (kit_prims E) seed (ids m)), w)"
  using known_identity_key_ok [OF assms(2,3)]
  by (simp add: derive_member_secret_def bindE_def pure_def dc_hkdf_ok [OF assms(1)] member_secret_of_def)

definition store_all ::
  "'r prims \<Rightarrow> (peer_id \<Rightarrow> bytes) \<Rightarrow> peer_id \<Rightarrow> op_id \<Rightarrow> bytes \<Rightarrow> peer_id list \<Rightarrow> dcgka \<Rightarrow> dcgka" where
  "store_all P ids sender seq seed rs y =
     y\<lparr>dc_member_secrets := (\<lambda>k.
         if k \<in> (\<lambda>r. (sender, seq, r)) ` set rs
         then Some (member_secret_of P seed (ids (snd (snd k)))) else dc_member_secrets y k)\<rparr>"

lemma store_member_secrets_ok:
  assumes "hkdf_ok (kit_prims E)" and "knows E w M ids" and "set rs \<subseteq> M"
  shows "foldE (store_member_secret E sender seq seed) rs y w =
    (Ok (store_all (kit_prims E) ids sender seq seed rs y), w)"
  using assms(3)
proof (induction rs arbitrary: y)
  case Nil
  then show ?case by (simp add: ret_def store_all_def)
next
  case (Cons r rs)
  then have "store_member_secret E sender seq seed r y w =
      (Ok (y\<lparr>dc_member_secrets := (dc_member_secrets y)((sender, seq, r) \<mapsto>
          member_secret_of (kit_prims E) seed (ids r))\<rparr>), w)"
    using derive_member_secret_ok [OF assms(1,2)]
    by (simp add: store_member_secret_def bindE_def ret_def)
  with Cons show ?case
    by (auto simp: bindE_def store_all_def fun_eq_iff)
qed

section \<open>Processing a seed\<close>

text \<open>The recipients of a control message of \<open>a\<close>: the other members.\<close>

lemma recipients_set:
  assumes "order_ok order" and "finite M"
  shows "set (filter (\<lambda>m. m \<noteq> a) (order M)) = M - {a}"
  using assms by (auto simp: order_ok_def)

text \<open>At its sender, a seed gives the sender's update secret and a secret per recipient.\<close>

lemma process_seed_own:
  assumes "hkdf_ok (kit_prims E)" and "order_ok (kit_order E)" and "knows E w M ids"
    and "ms_members (dc_dgm y) = M" and "finite M" and "a \<in> M"
    and "dc_my_id y = a" and "dc_next_seed y = Some seed"
  shows "\<exists>y'. process_seed E y a seq None w =
      (Ok (y', no_output\<lparr>po_sender_update_secret :=
         Some (ratchet_output (kit_prims E) ''update'' (dc_ratchet y a)
                (member_secret_of (kit_prims E) seed (ids a)) (ids a))\<rparr>), w)
    \<and> dc_my_id y' = a \<and> dc_dgm y' = dc_dgm y
    \<and> dc_two_party y' = dc_two_party y \<and> dc_my_keys y' = dc_my_keys y
    \<and> dc_ratchet y' = (dc_ratchet y)(a \<mapsto> ratchet_output (kit_prims E) ''chain'' (dc_ratchet y a)
         (member_secret_of (kit_prims E) seed (ids a)) (ids a))
    \<and> (\<forall>r \<in> M - {a}. dc_member_secrets y' (a, seq, r) = Some (member_secret_of (kit_prims E) seed (ids r)))"
proof -
  let ?rs = "filter (\<lambda>m. m \<noteq> a) (kit_order E M)"
  have rs: "set ?rs = M - {a}" by (rule recipients_set [OF assms(2,5)])
  let ?y = "store_all (kit_prims E) ids a seq seed ?rs (y\<lparr>dc_next_seed := None\<rparr>)"
  have store: "foldE (store_member_secret E a seq seed) ?rs (y\<lparr>dc_next_seed := None\<rparr>) w = (Ok ?y, w)"
    using store_member_secrets_ok [OF assms(1,3)] rs by blast
  have id: "dc_my_id ?y = a" and ratchet: "dc_ratchet ?y = dc_ratchet y" and dgm: "dc_dgm ?y = dc_dgm y"
    and "dc_two_party ?y = dc_two_party y" and "dc_my_keys ?y = dc_my_keys y"
    using assms(7) by (simp_all add: store_all_def)
  have secrets: "dc_member_secrets ?y (a, seq, r) = Some (member_secret_of (kit_prims E) seed (ids r))"
    if "r \<in> M - {a}" for r
    using that rs by (auto simp: store_all_def)
  show ?thesis
    using assms(4,6-8) store secrets \<open>dc_two_party ?y = _\<close> \<open>dc_my_keys ?y = _\<close>
      derive_member_secret_ok [OF assms(1,3,6)] update_ratchet_ok [OF assms(1,3,6)]
    by (simp add: process_seed_def obtain_seed_def member_view_def dgm_members_view_def Let_def
        bindE_def ret_def id ratchet dgm)
qed

text \<open>An acknowledgement uses up the member secret that was kept for it.\<close>

lemma process_ack_kept:
  assumes "hkdf_ok (kit_prims E)" and "knows E w M ids" and "b \<in> M"
    and "dc_member_secrets y (a, seq, b) = Some secret"
  shows "\<exists>y'. process_ack E y b (a, seq) dm w =
      (Ok (y', no_output\<lparr>po_sender_update_secret :=
         Some (ratchet_output (kit_prims E) ''update'' (dc_ratchet y b) secret (ids b))\<rparr>), w)
    \<and> dc_my_id y' = dc_my_id y \<and> ms_members (dc_dgm y') = ms_members (dc_dgm y)
    \<and> dc_two_party y' = dc_two_party y \<and> dc_my_keys y' = dc_my_keys y
    \<and> dc_ratchet y' = (dc_ratchet y)(b \<mapsto> ratchet_output (kit_prims E) ''chain'' (dc_ratchet y b) secret (ids b))"
  using assms(4) update_ratchet_ok [OF assms(1-3)]
  by (auto simp: process_ack_def bindE_def pure_def ret_def Let_def dgm_ack_def dgm_is_add_def split: if_splits)

lemma decrypt_from_frame:
  assumes "decrypt_from E y a m w = (Ok (y1, b), w1)"
  shows "dc_my_id y1 = dc_my_id y" "dc_dgm y1 = dc_dgm y" "dc_ratchet y1 = dc_ratchet y"
    "dc_next_seed y1 = dc_next_seed y"
  using assms by (auto simp: decrypt_from_def)

lemma process_seed_remote:
  assumes "hkdf_ok (kit_prims E)" and "order_ok (kit_order E)" and "knows E w1 M ids"
    and "ms_members (dc_dgm y) = M" and "finite M" and "a \<in> M" and "b \<in> M" and "a \<noteq> b"
    and "dc_my_id y = b" and dec: "decrypt_from E y a m w = (Ok (y1, seed), w1)"
    and "length seed = RATCHET_KEY_SIZE"
  shows "\<exists>y'. process_seed E y a seq (Some \<lparr>dm_recipient = b, dm_content = DcTwoParty m\<rparr>) w =
      (Ok (y', \<lparr>po_control_message = Some (CtlAck a seq), po_direct_messages = [],
         po_sender_update_secret =
           Some (ratchet_output (kit_prims E) ''update'' (dc_ratchet y a)
                  (member_secret_of (kit_prims E) seed (ids a)) (ids a)),
         po_me_update_secret =
           Some (ratchet_output (kit_prims E) ''update'' (dc_ratchet y b)
                  (member_secret_of (kit_prims E) seed (ids b)) (ids b))\<rparr>), w1)
    \<and> dc_my_id y' = b \<and> ms_members (dc_dgm y') = M
    \<and> dc_two_party y' = dc_two_party y1 \<and> dc_my_keys y' = dc_my_keys y1
    \<and> dc_ratchet y' = (dc_ratchet y)
        (a \<mapsto> ratchet_output (kit_prims E) ''chain'' (dc_ratchet y a)
               (member_secret_of (kit_prims E) seed (ids a)) (ids a),
         b \<mapsto> ratchet_output (kit_prims E) ''chain'' (dc_ratchet y b)
               (member_secret_of (kit_prims E) seed (ids b)) (ids b))"
proof -
  let ?P = "kit_prims E"
  let ?rs = "filter (\<lambda>m. m \<noteq> a) (kit_order E M)"
  have rs: "set ?rs = M - {a}" by (rule recipients_set [OF assms(2,5)])
  note frame = decrypt_from_frame [OF dec]
  let ?y2 = "store_all ?P ids a seq seed ?rs y1"
  have store: "foldE (store_member_secret E a seq seed) ?rs y1 w1 = (Ok ?y2, w1)"
    using store_member_secrets_ok [OF assms(1,3)] rs by blast
  have y2: "dc_my_id ?y2 = b" "dc_ratchet ?y2 = dc_ratchet y" "dc_dgm ?y2 = dc_dgm y"
    "dc_two_party ?y2 = dc_two_party y1" "dc_my_keys ?y2 = dc_my_keys y1"
    "dc_member_secrets ?y2 (a, seq, b) = Some (member_secret_of ?P seed (ids b))"
    using assms(7-9) rs by (auto simp: store_all_def frame)
  let ?y3 = "?y2\<lparr>dc_ratchet := (dc_ratchet ?y2)(a \<mapsto> ratchet_output ?P ''chain'' (dc_ratchet ?y2 a)
      (member_secret_of ?P seed (ids a)) (ids a))\<rparr>"
  have none: "filter (\<lambda>m. m \<noteq> a \<and> m \<notin> set ?rs) (kit_order E M) = []"
    using assms(2,5) by (auto simp: order_ok_def filter_empty_conv)
  have "dc_member_secrets ?y3 (a, seq, b) = Some (member_secret_of ?P seed (ids b))" using y2 by simp
  from process_ack_kept [OF assms(1,3,7) this] obtain y' where
    ack: "process_ack E ?y3 b (a, seq) None w1 =
      (Ok (y', no_output\<lparr>po_sender_update_secret :=
         Some (ratchet_output ?P ''update'' (dc_ratchet ?y3 b) (member_secret_of ?P seed (ids b)) (ids b))\<rparr>), w1)"
    and y': "dc_my_id y' = b" "ms_members (dc_dgm y') = M"
      "dc_two_party y' = dc_two_party y1" "dc_my_keys y' = dc_my_keys y1"
      "dc_ratchet y' = (dc_ratchet ?y3)(b \<mapsto> ratchet_output ?P ''chain'' (dc_ratchet ?y3 b)
         (member_secret_of ?P seed (ids b)) (ids b))"
    using y2 assms(4) by auto
  have "obtain_seed E y a ?rs (Some \<lparr>dm_recipient = b, dm_content = DcTwoParty m\<rparr>) w = (Ok (Some (y1, seed)), w1)"
    using assms(7-9,11) rs dec
    by (simp add: obtain_seed_def bindE_def pure_def ret_def key_try_from_bytes_def)
  moreover note store derive_member_secret_ok [OF assms(1,3,6)] update_ratchet_ok [OF assms(1,3,6)]
  ultimately show ?thesis
    using assms(4,8) none ack y' y2
    by (simp add: process_seed_def member_view_def dgm_members_view_def Let_def bindE_def ret_def no_output_def)
qed

section \<open>Sending a seed\<close>

lemma reg_key_bundle_known:
  assumes "identities_known K g M ids"
  shows "identities_known K (snd (reg_key_bundle K' peer g)) M ids"
  using assms
  by (auto simp: reg_key_bundle_def bindE_def lock_registry_def statement_def identities_known_def
      split: option.splits)

lemma session_with_known:
  assumes "session_with E y peer w = (Ok s, w')" and "knows E w M ids"
  shows "knows E w' M ids \<and> (\<forall>s0. dc_two_party y peer = Some s0 \<longrightarrow> s = s0)"
  using assms(1) reg_key_bundle_known [OF assms(2), of "kit_bundles E" peer] assms(2)
  by (auto simp: session_with_def on_registry_def split: option.splits prod.splits)

lemma encrypt_to_sent:
  assumes "encrypt_to E y peer pt w = (Ok (y', m), w')" and "knows E w M ids"
  shows "knows E w' M ids
    \<and> (\<exists>s s' r r'. y' = y\<lparr>dc_two_party := (dc_two_party y)(peer \<mapsto> s')\<rparr>
        \<and> sm_send (kit_checked E) (kit_prims E) (kit_plain E) s (dc_my_keys y) pt r = (Ok (s', m), r')
        \<and> (\<forall>s0. dc_two_party y peer = Some s0 \<longrightarrow> s = s0))"
proof -
  obtain s w1 s' where s: "session_with E y peer w = (Ok s, w1)"
    and send: "on_env (sm_send (kit_checked E) (kit_prims E) (kit_plain E) s (dc_my_keys y) pt) w1
      = (Ok (s', m), w')"
    and y': "y' = y\<lparr>dc_two_party := (dc_two_party y)(peer \<mapsto> s')\<rparr>"
    using assms(1) by (auto simp: encrypt_to_def)
  have w': "w_registry w' = w_registry w1" using send by (auto simp: on_env_def split: prod.splits)
  have "sm_send (kit_checked E) (kit_prims E) (kit_plain E) s (dc_my_keys y) pt (w_env w1) =
      (Ok (s', m), w_env w')"
    using send by (auto simp: on_env_def split: prod.splits)
  with session_with_known [OF s assms(2)] w' y' show ?thesis by auto
qed

definition same_but_sessions :: "dcgka \<Rightarrow> dcgka \<Rightarrow> bool" where
  "same_but_sessions y y' \<longleftrightarrow> (\<exists>t. y' = y\<lparr>dc_two_party := t\<rparr>)"

lemma same_but_sessions_refl [simp]: "same_but_sessions y y"
  unfolding same_but_sessions_def by (rule exI [of _ "dc_two_party y"]) simp

lemma same_but_sessions_trans:
  "same_but_sessions y y1 \<Longrightarrow> same_but_sessions y1 y2 \<Longrightarrow> same_but_sessions y y2"
  by (auto simp: same_but_sessions_def)

lemma same_but_sessionsD:
  assumes "same_but_sessions y y'"
  shows "dc_my_id y' = dc_my_id y" "dc_dgm y' = dc_dgm y" "dc_ratchet y' = dc_ratchet y"
    "dc_next_seed y' = dc_next_seed y" "dc_my_keys y' = dc_my_keys y"
    "dc_member_secrets y' = dc_member_secrets y"
  using assms by (auto simp: same_but_sessions_def)

lemma seed_to_one:
  assumes "seed_to E seed r (y, dms) w = (Ok (y1, dms1), w1)" and "knows E w M ids"
  shows "knows E w1 M ids \<and> same_but_sessions y y1
    \<and> (\<exists>ds. dms1 = dms @ ds \<and> map dm_recipient ds = filter (\<lambda>r. r \<noteq> dc_my_id y) [r])
    \<and> (\<forall>b. b \<noteq> r \<longrightarrow> dc_two_party y1 b = dc_two_party y b)"
proof (cases "r = dc_my_id y")
  case True
  with assms show ?thesis by (simp add: seed_to_def)
next
  case False
  then obtain m where enc: "encrypt_to E y r seed w = (Ok (y1, m), w1)"
    and dms1: "dms1 = dms @ [\<lparr>dm_recipient = r, dm_content = DcTwoParty m\<rparr>]"
    using assms(1) by (auto simp: seed_to_def)
  from encrypt_to_sent [OF enc assms(2)] False show ?thesis
    by (auto simp: dms1 same_but_sessions_def intro!: exI [of _ "[\<lparr>dm_recipient = r, dm_content = DcTwoParty m\<rparr>]"])
qed

text \<open>Every other recipient gets one direct message, and nobody else does.\<close>

lemma seed_to_all:
  assumes "foldE (seed_to E seed) rs (y, dms) w = (Ok (y', dms'), w')" and "knows E w M ids"
  shows "knows E w' M ids \<and> same_but_sessions y y'
    \<and> (\<exists>ds. dms' = dms @ ds \<and> map dm_recipient ds = filter (\<lambda>r. r \<noteq> dc_my_id y) rs)
    \<and> (\<forall>b. b \<notin> set rs \<longrightarrow> dc_two_party y' b = dc_two_party y b)"
  using assms
proof (induction rs arbitrary: y dms w)
  case (Cons r rs)
  obtain y1 dms1 w1 where one: "seed_to E seed r (y, dms) w = (Ok (y1, dms1), w1)"
    and rest: "foldE (seed_to E seed) rs (y1, dms1) w1 = (Ok (y', dms'), w')"
    using Cons.prems(1) by auto
  obtain ds where y1: "knows E w1 M ids" "same_but_sessions y y1"
    "dms1 = dms @ ds" "map dm_recipient ds = filter (\<lambda>r. r \<noteq> dc_my_id y) [r]"
    "\<And>b. b \<noteq> r \<Longrightarrow> dc_two_party y1 b = dc_two_party y b"
    using seed_to_one [OF one Cons.prems(2)] by auto
  from Cons.IH [OF rest y1(1)] obtain ds' where IH: "knows E w' M ids" "same_but_sessions y1 y'"
    "dms' = dms1 @ ds'" "map dm_recipient ds' = filter (\<lambda>r. r \<noteq> dc_my_id y1) rs"
    "\<forall>b. b \<notin> set rs \<longrightarrow> dc_two_party y' b = dc_two_party y1 b"
    by auto
  moreover have "map dm_recipient (ds @ ds') = filter (\<lambda>r. r \<noteq> dc_my_id y) (r # rs)"
    using y1(4) IH(4) same_but_sessionsD(1) [OF y1(2)] by simp
  ultimately show ?case
    using y1 same_but_sessions_trans [OF y1(2) IH(2)] by (auto intro!: exI [of _ "ds @ ds'"])
qed simp

lemma seed_to_all_sent:
  assumes "foldE (seed_to E seed) rs (y, dms) w = (Ok (y', dms'), w')" and "knows E w M ids"
    and "distinct rs" and "b \<in> set rs" and "b \<noteq> dc_my_id y" and "dc_two_party y b = Some s"
  shows "\<exists>m s' r r'. sm_send (kit_checked E) (kit_prims E) (kit_plain E) s (dc_my_keys y) seed r = (Ok (s', m), r')
    \<and> \<lparr>dm_recipient = b, dm_content = DcTwoParty m\<rparr> \<in> set dms' \<and> dc_two_party y' b = Some s'"
  using assms
proof (induction rs arbitrary: y dms w)
  case (Cons r rs)
  obtain y1 dms1 w1 where one: "seed_to E seed r (y, dms) w = (Ok (y1, dms1), w1)"
    and rest: "foldE (seed_to E seed) rs (y1, dms1) w1 = (Ok (y', dms'), w')"
    using Cons.prems(1) by auto
  note y1 = seed_to_one [OF one Cons.prems(2)]
  show ?case
  proof (cases "r = b")
    case True
    then obtain m where enc: "encrypt_to E y b seed w = (Ok (y1, m), w1)"
      and dms1: "dms1 = dms @ [\<lparr>dm_recipient = b, dm_content = DcTwoParty m\<rparr>]"
      using one Cons.prems(5) by (auto simp: seed_to_def)
    have "knows E w1 M ids" using y1 by simp
    from seed_to_all [OF rest this] obtain ds where "dms' = dms1 @ ds"
      and "dc_two_party y' b = dc_two_party y1 b"
      using Cons.prems(3) True by auto
    then have "\<lparr>dm_recipient = b, dm_content = DcTwoParty m\<rparr> \<in> set dms'"
      using dms1 by simp
    with encrypt_to_sent [OF enc Cons.prems(2)] Cons.prems(6) \<open>dc_two_party y' b = dc_two_party y1 b\<close>
    show ?thesis by fastforce
  next
    case False
    with Cons.IH [OF rest] Cons.prems y1 same_but_sessionsD [of y y1] show ?thesis by auto
  qed
qed simp

section \<open>A refresh of the group's keys\<close>

text \<open>
  Two members whose states fit together: they see the same members, their outer ratchets for
  each other agree, and their two-party sessions are in step with nothing under way.
\<close>

definition at_member ::
  "'r kit \<Rightarrow> 'r world \<Rightarrow> dcgka \<Rightarrow> peer_id \<Rightarrow> peer_id set \<Rightarrow> (peer_id \<Rightarrow> bytes) \<Rightarrow> bool" where
  "at_member E w y me M ids \<longleftrightarrow>
     order_ok (kit_order E) \<and> knows E w M ids \<and> finite M \<and> me \<in> M
     \<and> ms_members (dc_dgm y) = M \<and> dc_my_id y = me"

definition paired ::
  "'r kit \<Rightarrow> 'r world \<Rightarrow> dcgka \<Rightarrow> peer_id \<Rightarrow> 'r kit \<Rightarrow> 'r world \<Rightarrow> dcgka \<Rightarrow> peer_id \<Rightarrow>
   peer_id set \<Rightarrow> (peer_id \<Rightarrow> bytes) \<Rightarrow> bool" where
  "paired Ea wa ya a Eb wb yb b M ids \<longleftrightarrow>
     at_member Ea wa ya a M ids \<and> at_member Eb wb yb b M ids \<and> a \<noteq> b
     \<and> kit_prims Eb = kit_prims Ea \<and> kit_plain Eb = kit_plain Ea
     \<and> dc_ratchet yb a = dc_ratchet ya a \<and> dc_ratchet yb b = dc_ratchet ya b
     \<and> (\<exists>sa sb. dc_two_party ya b = Some sa \<and> dc_two_party yb a = Some sb
          \<and> sm_inv (kit_prims Ea) (kit_plain Ea) ((sa, dc_my_keys ya), (sb, dc_my_keys yb), [], []))"

text \<open>The two operations that refresh the keys of the members that stay.\<close>

definition dc_refresh ::
  "'r kit \<Rightarrow> dcgka \<Rightarrow> control_message \<Rightarrow> ('r world, dcgka_error, dcgka \<times> operation_output) eff" where
  "dc_refresh E y c =
     (case c of CtlUpdate \<Rightarrow> dc_update E y | CtlRemove p \<Rightarrow> dc_remove E y p | _ \<Rightarrow> pure Panic)"

definition members_after :: "control_message \<Rightarrow> peer_id set \<Rightarrow> peer_id set" where
  "members_after c M = (case c of CtlRemove p \<Rightarrow> M - {p} | _ \<Rightarrow> M)"

definition refresh_of :: "control_message \<Rightarrow> peer_id set \<Rightarrow> bool" where
  "refresh_of c M \<longleftrightarrow> c = CtlUpdate \<or> (\<exists>p \<in> M. c = CtlRemove p)"

lemma knows_mono: "knows E w M ids \<Longrightarrow> M' \<subseteq> M \<Longrightarrow> knows E w M' ids"
  by (auto simp: identities_known_def)

lemma members_after_subset: "members_after c M \<subseteq> M"
  by (auto simp: members_after_def split: control_message.splits)

text \<open>What a refresh sends: the seed, to each member that stays.\<close>

lemma refresh_sends:
  assumes "dc_refresh E y c w = (Ok (y1, out), w1)" and "at_member E w y me M ids"
  shows "\<exists>seed r r'. random_array (kit_prims E) RATCHET_KEY_SIZE r = (Ok seed, r')
    \<and> same_but_sessions (y\<lparr>dc_next_seed := Some seed\<rparr>) y1 \<and> knows E w1 M ids
    \<and> op_control_message out = c \<and> op_me_update_secret out = None
    \<and> map dm_recipient (op_direct_messages out) = filter (\<lambda>m. m \<noteq> me) (filter (\<lambda>m. m \<in> members_after c M) (kit_order E M))
    \<and> (\<forall>b s. b \<in> members_after c M - {me} \<longrightarrow> dc_two_party y b = Some s \<longrightarrow>
         (\<exists>m s' r r'. sm_send (kit_checked E) (kit_prims E) (kit_plain E) s (dc_my_keys y) seed r = (Ok (s', m), r')
            \<and> \<lparr>dm_recipient = b, dm_content = DcTwoParty m\<rparr> \<in> set (op_direct_messages out)
            \<and> dc_two_party y1 b = Some s'))"
proof -
  let ?rs = "filter (\<lambda>m. m \<noteq> me) (filter (\<lambda>m. m \<in> members_after c M) (kit_order E M))"
  have order: "set (kit_order E M) = M" "distinct (kit_order E M)" and me: "dc_my_id y = me"
    and known: "knows E w M ids" and mem: "ms_members (dc_dgm y) = M"
    using assms(2) by (auto simp: at_member_def order_ok_def)
  have rs: "filter (\<lambda>m. m \<noteq> me \<and> (\<forall>p. c = CtlRemove p \<longrightarrow> m \<noteq> p)) (kit_order E M) = ?rs"
    using order by (auto simp: members_after_def intro!: filter_cong split: control_message.splits)
  obtain dms where gen: "generate_seed E y ?rs w = (Ok (y1, dms), w1)"
    and out: "out = \<lparr>op_control_message = c, op_direct_messages = dms, op_me_update_secret = None\<rparr>"
    using assms(1) rs me mem
    by (auto simp: dc_refresh_def dc_update_def dc_remove_def Let_def member_view_def
        dgm_members_view_def split: control_message.splits)
  then obtain seed w0 where rnd: "on_env (random_array (kit_prims E) RATCHET_KEY_SIZE) w = (Ok seed, w0)"
    and loop: "foldE (seed_to E seed) ?rs (y\<lparr>dc_next_seed := Some seed\<rparr>, []) w0 = (Ok (y1, dms), w1)"
    by (auto simp: generate_seed_def)
  have w0: "knows E w0 M ids"
    and rnd': "random_array (kit_prims E) RATCHET_KEY_SIZE (w_env w) = (Ok seed, w_env w0)"
    using rnd known by (auto simp: on_env_def split: prod.splits)
  note all = seed_to_all [OF loop w0]
  have "\<exists>m s' r r'. sm_send (kit_checked E) (kit_prims E) (kit_plain E) s (dc_my_keys y) seed r = (Ok (s', m), r')
      \<and> \<lparr>dm_recipient = b, dm_content = DcTwoParty m\<rparr> \<in> set dms \<and> dc_two_party y1 b = Some s'"
    if "b \<in> members_after c M - {me}" and "dc_two_party y b = Some s" for b s
    using seed_to_all_sent [OF loop w0, of b s] that order me members_after_subset [of c M] by auto
  with rnd' all out me show ?thesis
    by (intro exI [of _ seed] exI [of _ "w_env w"] exI [of _ "w_env w0"]) (auto simp: filter_filter)
qed

lemma decrypt_from_session:
  assumes "dc_two_party y a = Some s"
    and "sm_receive (kit_checked E) (kit_prims E) (kit_plain E) s (dc_my_keys y) m = Ok (s', keys, pt)"
  shows "decrypt_from E y a m w =
    (Ok (y\<lparr>dc_my_keys := keys, dc_two_party := (dc_two_party y)(a \<mapsto> s')\<rparr>, pt), w)"
  using assms by (simp add: decrypt_from_def session_with_def bindE_def ret_def pure_def)

text \<open>Both processing functions of a refresh come down to the seed over the remaining members.\<close>

definition seed_only :: "control_message \<Rightarrow> op_id \<Rightarrow> dcgka \<Rightarrow> dcgka" where
  "seed_only c seq y =
     (case c of CtlRemove p \<Rightarrow> y\<lparr>dc_dgm := the_ok (dgm_remove (dc_dgm y) (dc_my_id y) p seq)\<rparr> | _ \<Rightarrow> y)"

lemma seed_only_frame [simp]:
  "dc_my_id (seed_only c seq y) = dc_my_id y" "dc_ratchet (seed_only c seq y) = dc_ratchet y"
  "dc_two_party (seed_only c seq y) = dc_two_party y" "dc_my_keys (seed_only c seq y) = dc_my_keys y"
  "dc_next_seed (seed_only c seq y) = dc_next_seed y"
  by (simp_all add: seed_only_def split: control_message.splits)

lemma seed_only_members:
  assumes "refresh_of c (ms_members (dc_dgm y))"
  shows "ms_members (dc_dgm (seed_only c seq y)) = members_after c (ms_members (dc_dgm y))"
  using assms by (auto simp: seed_only_def members_after_def refresh_of_def dgm_remove_def)

lemma process_refresh_remote:
  assumes "refresh_of c (ms_members (dc_dgm y))" and "a \<noteq> dc_my_id y"
  shows "process_remote E y \<lparr>in_seq = seq, in_sender = a, in_control_message = c, in_direct_message = d\<rparr> w
    = process_seed E (seed_only c seq y) a seq d w"
  using assms
  by (auto simp: process_remote_def seed_only_def refresh_of_def process_update_def process_remove_def
      dgm_remove_def bindE_def pure_def)

lemma process_refresh_local:
  assumes "refresh_of (op_control_message out) (ms_members (dc_dgm y))"
    and "process_seed E (seed_only (op_control_message out) seq y) (dc_my_id y) seq None w =
      (Ok (y1, no_output\<lparr>po_sender_update_secret := Some k\<rparr>), w)"
  shows "process_local E y seq out w = (Ok (y1, out\<lparr>op_me_update_secret := Some k\<rparr>), w)"
  using assms
  by (auto simp: process_local_def seed_only_def refresh_of_def process_update_def process_remove_def
      dgm_remove_def bindE_def pure_def ret_def no_output_def Let_def)

lemma at_member_refreshed:
  assumes "at_member E w y me M ids" and "refresh_of c M" and "me \<in> members_after c M"
  shows "at_member E w (seed_only c seq y) me (members_after c M) ids"
  using assms members_after_subset [of c M] seed_only_members [of c y seq]
  by (auto simp: at_member_def intro: finite_subset knows_mono)

lemma seed_round:
  assumes "hkdf_ok (kit_prims Ea)" and A: "at_member Ea wa ya a M ids" and B: "at_member Eb wb yb b M ids"
    and "a \<noteq> b" and P: "kit_prims Eb = kit_prims Ea"
    and agree: "dc_ratchet yb a = dc_ratchet ya a" "dc_ratchet yb b = dc_ratchet ya b"
    and "dc_next_seed ya = Some seed" and "length seed = RATCHET_KEY_SIZE"
    and dec: "decrypt_from Eb yb a m wb = (Ok (yb1, seed), wb)"
  shows "\<exists>ya2 yb2 ya3 k1 k2.
      process_seed Ea ya a seq None wa = (Ok (ya2, no_output\<lparr>po_sender_update_secret := Some k1\<rparr>), wa)
    \<and> process_seed Eb yb a seq (Some \<lparr>dm_recipient = b, dm_content = DcTwoParty m\<rparr>) wb =
        (Ok (yb2, \<lparr>po_control_message = Some (CtlAck a seq), po_direct_messages = [],
                   po_sender_update_secret = Some k1, po_me_update_secret = Some k2\<rparr>), wb)
    \<and> process_remote Ea ya2 \<lparr>in_seq = seq', in_sender = b, in_control_message = CtlAck a seq,
          in_direct_message = None\<rparr> wa =
        (Ok (ya3, no_output\<lparr>po_sender_update_secret := Some k2\<rparr>), wa)
    \<and> at_member Ea wa ya3 a M ids \<and> at_member Eb wb yb2 b M ids
    \<and> dc_ratchet yb2 a = dc_ratchet ya3 a \<and> dc_ratchet yb2 b = dc_ratchet ya3 b
    \<and> dc_two_party ya3 = dc_two_party ya \<and> dc_my_keys ya3 = dc_my_keys ya
    \<and> dc_two_party yb2 = dc_two_party yb1 \<and> dc_my_keys yb2 = dc_my_keys yb1"
proof -
  note a = A [unfolded at_member_def] and b = B [unfolded at_member_def]
  let ?P = "kit_prims Ea"
  obtain ya2 where own: "process_seed Ea ya a seq None wa =
      (Ok (ya2, no_output\<lparr>po_sender_update_secret :=
         Some (ratchet_output ?P ''update'' (dc_ratchet ya a) (member_secret_of ?P seed (ids a)) (ids a))\<rparr>), wa)"
    and ya2: "dc_my_id ya2 = a" "dc_dgm ya2 = dc_dgm ya" "dc_two_party ya2 = dc_two_party ya"
      "dc_my_keys ya2 = dc_my_keys ya"
      "dc_ratchet ya2 = (dc_ratchet ya)(a \<mapsto> ratchet_output ?P ''chain'' (dc_ratchet ya a)
         (member_secret_of ?P seed (ids a)) (ids a))"
      "dc_member_secrets ya2 (a, seq, b) = Some (member_secret_of ?P seed (ids b))"
    using process_seed_own [of Ea wa M ids ya a seed seq] assms(1,4,8) a b by auto
  have "b \<in> M" "knows Ea wa M ids" using a b by auto
  from process_ack_kept [OF assms(1) this(2,1) ya2(6), of None] obtain ya3 where
    ack: "process_ack Ea ya2 b (a, seq) None wa =
      (Ok (ya3, no_output\<lparr>po_sender_update_secret :=
         Some (ratchet_output ?P ''update'' (dc_ratchet ya2 b) (member_secret_of ?P seed (ids b)) (ids b))\<rparr>), wa)"
    and ya3: "dc_my_id ya3 = dc_my_id ya2" "ms_members (dc_dgm ya3) = ms_members (dc_dgm ya2)"
      "dc_two_party ya3 = dc_two_party ya2" "dc_my_keys ya3 = dc_my_keys ya2"
      "dc_ratchet ya3 = (dc_ratchet ya2)(b \<mapsto> ratchet_output ?P ''chain'' (dc_ratchet ya2 b)
         (member_secret_of ?P seed (ids b)) (ids b))"
    by blast
  have "process_remote Ea ya2 \<lparr>in_seq = seq', in_sender = b, in_control_message = CtlAck a seq,
          in_direct_message = None\<rparr> wa = process_ack Ea ya2 b (a, seq) None wa"
    using ya2(1) assms(4) by (simp add: process_remote_def)
  with own ack ya2 ya3 agree a b assms(4)
    process_seed_remote [of Eb wb M ids yb a b m wb yb1 seed seq] assms(1,9) P dec
  show ?thesis by (auto simp: at_member_def)
qed

lemma sent_is_received:
  assumes "prims_ok P" and "plaintext_codec_ok K" and "sm_inv P K ((x, mx), (y, my), [], [])"
    and "sm_send oc P K x mx pt r = (Ok (x', m), r')" and "sm_our_next_key_index x \<noteq> - 1"
  shows "\<exists>y' my'. sm_receive oc' P K y my m = Ok (y', my', pt) \<and> sm_inv P K ((x', mx), (y', my'), [], [])"
proof -
  have inv: "sm_inv P K ((x', mx), (y, my), [(m, pt)], [])"
    using sm_inv_step [OF assms(1,2) sm_step_send [OF assms(4,5)] assms(3)] by simp
  then obtain y' my' where rcv: "sm_receive oc' P K y my m = Ok (y', my', pt)"
    using sm_inv_opens by blast
  then show ?thesis using sm_inv_step [OF assms(1,2) sm_step_deliver [OF rcv] inv] by blast
qed

lemma refresh_round:
  assumes P: "prims_ok (kit_prims Ea)" and K: "plaintext_codec_ok (kit_plain Ea)"
    and pair: "paired Ea wa ya a Eb wb yb b M ids" and c: "refresh_of c M"
    and stay: "a \<in> members_after c M" "b \<in> members_after c M"
    and room: "\<forall>s. dc_two_party ya b = Some s \<longrightarrow> sm_our_next_key_index s \<noteq> - 1"
    and started: "dc_refresh Ea ya c wa = (Ok (ya1, out), wa1)"
  shows "set (map dm_recipient (op_direct_messages out)) = members_after c M - {a}
    \<and> distinct (map dm_recipient (op_direct_messages out))
    \<and> (\<exists>ya2 k1 d yb2 ob ya3 k2.
          process_local Ea ya1 seq out wa1 = (Ok (ya2, out\<lparr>op_me_update_secret := Some k1\<rparr>), wa1)
        \<and> d \<in> set (op_direct_messages out) \<and> dm_recipient d = b
        \<and> process_remote Eb yb \<lparr>in_seq = seq, in_sender = a, in_control_message = op_control_message out,
             in_direct_message = Some d\<rparr> wb = (Ok (yb2, ob), wb)
        \<and> po_control_message ob = Some (CtlAck a seq)
        \<and> po_sender_update_secret ob = Some k1 \<and> po_me_update_secret ob = Some k2
        \<and> process_remote Ea ya2 \<lparr>in_seq = seq', in_sender = b, in_control_message = CtlAck a seq,
             in_direct_message = None\<rparr> wa1 = (Ok (ya3, no_output\<lparr>po_sender_update_secret := Some k2\<rparr>), wa1)
        \<and> paired Ea wa1 ya3 a Eb wb yb2 b (members_after c M) ids)"
proof -
  let ?M = "members_after c M"
  note A = pair [unfolded paired_def, THEN conjunct1]
  obtain sa sb where B: "at_member Eb wb yb b M ids" and "a \<noteq> b"
    and kits: "kit_prims Eb = kit_prims Ea" "kit_plain Eb = kit_plain Ea"
    and agree: "dc_ratchet yb a = dc_ratchet ya a" "dc_ratchet yb b = dc_ratchet ya b"
    and s: "dc_two_party ya b = Some sa" "dc_two_party yb a = Some sb"
    and inv: "sm_inv (kit_prims Ea) (kit_plain Ea) ((sa, dc_my_keys ya), (sb, dc_my_keys yb), [], [])"
    using pair by (auto simp: paired_def)
  obtain seed r r' m sa' q q' where rnd: "random_array (kit_prims Ea) RATCHET_KEY_SIZE r = (Ok seed, r')"
    and ya1: "same_but_sessions (ya\<lparr>dc_next_seed := Some seed\<rparr>) ya1" "knows Ea wa1 M ids"
    and out: "op_control_message out = c"
      "map dm_recipient (op_direct_messages out) = filter (\<lambda>m. m \<noteq> a) (filter (\<lambda>m. m \<in> ?M) (kit_order Ea M))"
    and sent: "sm_send (kit_checked Ea) (kit_prims Ea) (kit_plain Ea) sa (dc_my_keys ya) seed q = (Ok (sa', m), q')"
      "\<lparr>dm_recipient = b, dm_content = DcTwoParty m\<rparr> \<in> set (op_direct_messages out)" "dc_two_party ya1 b = Some sa'"
    using refresh_sends [OF started A] s(1) stay(2) \<open>a \<noteq> b\<close> by blast
  obtain sb' keys where rcv: "sm_receive (kit_checked Eb) (kit_prims Ea) (kit_plain Ea) sb (dc_my_keys yb) m
      = Ok (sb', keys, seed)"
    and inv': "sm_inv (kit_prims Ea) (kit_plain Ea) ((sa', dc_my_keys ya), (sb', keys), [], [])"
    using sent_is_received [OF P K inv sent(1)] room s(1) by blast
  note same = same_but_sessionsD [OF ya1(1), simplified]
  have "at_member Ea wa1 ya1 a M ids" using A ya1(2) same by (simp add: at_member_def)
  note A1 = at_member_refreshed [OF this c stay(1), of seq]
  note B1 = at_member_refreshed [OF B c stay(2), of seq]
  have len: "length seed = RATCHET_KEY_SIZE" using random_array_length [OF _ rnd] P by (simp add: prims_ok_def)
  have dec: "decrypt_from Eb (seed_only c seq yb) a m wb = (Ok ((seed_only c seq yb)\<lparr>dc_my_keys := keys,
      dc_two_party := (dc_two_party yb)(a \<mapsto> sb')\<rparr>, seed), wb)"
    using decrypt_from_session [of "seed_only c seq yb" a sb Eb m sb' keys seed wb] s(2) rcv kits by simp
  have members: "ms_members (dc_dgm ya1) = M" "ms_members (dc_dgm yb) = M" "dc_my_id ya1 = a" "dc_my_id yb = b"
    using A B same by (auto simp: at_member_def)
  from seed_round [OF prims_okD(1) [OF P] A1 B1 \<open>a \<noteq> b\<close> kits(1) _ _ _ len dec, of seq seq'] same agree
  obtain ya2 yb2 ya3 k1 k2 where
    own: "process_seed Ea (seed_only c seq ya1) a seq None wa1 =
      (Ok (ya2, no_output\<lparr>po_sender_update_secret := Some k1\<rparr>), wa1)"
    and other: "process_seed Eb (seed_only c seq yb) a seq (Some \<lparr>dm_recipient = b, dm_content = DcTwoParty m\<rparr>) wb =
        (Ok (yb2, \<lparr>po_control_message = Some (CtlAck a seq), po_direct_messages = [],
                   po_sender_update_secret = Some k1, po_me_update_secret = Some k2\<rparr>), wb)"
    and ack: "process_remote Ea ya2 \<lparr>in_seq = seq', in_sender = b, in_control_message = CtlAck a seq,
          in_direct_message = None\<rparr> wa1 = (Ok (ya3, no_output\<lparr>po_sender_update_secret := Some k2\<rparr>), wa1)"
    and "paired Ea wa1 ya3 a Eb wb yb2 b ?M ids"
    using kits \<open>a \<noteq> b\<close> sent(3) inv' by (auto simp: paired_def)
  moreover from own have "process_local Ea ya1 seq out wa1 = (Ok (ya2, out\<lparr>op_me_update_secret := Some k1\<rparr>), wa1)"
    using process_refresh_local [of out ya1 Ea seq wa1 ya2 k1] c members out(1) by simp
  moreover from other have "process_remote Eb yb \<lparr>in_seq = seq, in_sender = a,
      in_control_message = op_control_message out,
      in_direct_message = Some \<lparr>dm_recipient = b, dm_content = DcTwoParty m\<rparr>\<rparr> wb =
        (Ok (yb2, \<lparr>po_control_message = Some (CtlAck a seq), po_direct_messages = [],
                   po_sender_update_secret = Some k1, po_me_update_secret = Some k2\<rparr>), wb)"
    using process_refresh_remote [of c yb a Eb seq _ wb] c members out(1) \<open>a \<noteq> b\<close> by simp
  moreover have "set (map dm_recipient (op_direct_messages out)) = ?M - {a}"
    "distinct (map dm_recipient (op_direct_messages out))"
    using A members_after_subset [of c M] unfolding out(2) by (auto simp: at_member_def order_ok_def)
  ultimately show ?thesis using sent(2) by (metis direct_message.select_convs(1) process_output.select_convs)
qed

section \<open>Properties\<close>

text \<open>
  C5. A refresh of the group's keys (an update, or the removal of a member) reaches agreement.
  The initiator sends one direct message to each member that stays and to nobody else, so a
  removed member is sent no seed.  When another member processes the control message with
  its direct message, it derives the same update secret for the initiator as the initiator
  itself; when the initiator processes the acknowledgement, it derives the same update secret
  for the other member.  Afterwards the two members' states fit together again, over the
  members that stay, so the next refresh starts where this one ended.
\<close>

theorem refresh_agreement:
  assumes P: "prims_ok (kit_prims Ea)" and K: "plaintext_codec_ok (kit_plain Ea)"
    and pair: "paired Ea wa ya a Eb wb yb b M ids" and c: "refresh_of c M"
    and stay: "a \<in> members_after c M" "b \<in> members_after c M"
    and room: "\<forall>s. dc_two_party ya b = Some s \<longrightarrow> sm_our_next_key_index s \<noteq> - 1"
    and started: "dc_refresh Ea ya c wa = (Ok (ya1, out), wa1)"
  shows "set (map dm_recipient (op_direct_messages out)) = members_after c M - {a}
    \<and> distinct (map dm_recipient (op_direct_messages out))
    \<and> (\<exists>ya2 k1 d yb2 ob ya3 k2.
          process_local Ea ya1 seq out wa1 = (Ok (ya2, out\<lparr>op_me_update_secret := Some k1\<rparr>), wa1)
        \<and> d \<in> set (op_direct_messages out) \<and> dm_recipient d = b
        \<and> process_remote Eb yb \<lparr>in_seq = seq, in_sender = a, in_control_message = op_control_message out,
             in_direct_message = Some d\<rparr> wb = (Ok (yb2, ob), wb)
        \<and> po_control_message ob = Some (CtlAck a seq)
        \<and> po_sender_update_secret ob = Some k1 \<and> po_me_update_secret ob = Some k2
        \<and> process_remote Ea ya2 \<lparr>in_seq = seq', in_sender = b, in_control_message = CtlAck a seq,
             in_direct_message = None\<rparr> wa1 = (Ok (ya3, no_output\<lparr>po_sender_update_secret := Some k2\<rparr>), wa1)
        \<and> paired Ea wa1 ya3 a Eb wb yb2 b (members_after c M) ids)"
  by (rule refresh_round [OF assms])

text \<open>Three members, each known by a byte; the first removes the third.\<close>

definition demo_kit :: "nat kit" where
  "demo_kit = \<lparr>kit_checked = True, kit_prims = demo_prims,
     kit_bundles = \<lparr>enc_bundle = (\<lambda>b. Inr [hd (kb_identity_key b)]), dec_bundle = (\<lambda>c. Inr (demo_bundle (hd c)))\<rparr>,
     kit_plain = demo_plain_codec, kit_order = sorted_list_of_set\<rparr>"

definition demo_world :: "nat world" where
  "demo_world = \<lparr>w_env = 0, w_registry = \<lparr>rg_identity = Some, rg_prekeys = [], rg_faults = [],
     rg_poisoned = False\<rparr>\<rparr>"

definition demo_member :: "u8 \<Rightarrow> u8 \<Rightarrow> dcgka" where
  "demo_member me peer =
     (dc_init [me] (demo_manager me) (ms_new [10] [[20], [30]]))
       \<lparr>dc_two_party := [[peer] \<mapsto> sm_init (demo_bundle peer)]\<rparr>"

lemma demo_trio: "ms_members (ms_new [10] [[20], [30]]) = {[10], [20], [30]}"
  by (simp add: ms_new_def)

lemma demo_kit_order: "order_ok (kit_order demo_kit)"
  by (simp add: order_ok_def demo_kit_def)

lemma demo_paired:
  "paired demo_kit demo_world (demo_member 10 20) [10] demo_kit demo_world (demo_member 20 10) [20]
     {[10], [20], [30]} (\<lambda>m. replicate 32 (hd m))"
  using demo_kit_order sm_inv_start [OF demo_bundle_of [of 20] demo_bundle_of [of 10], of demo_plain_codec]
  by (simp add: paired_def at_member_def identities_known_def demo_member_def dc_init_def demo_world_def
      demo_trio del: sm_inv.simps)
    (simp add: demo_kit_def demo_bundle_def del: sm_inv.simps)

lemma demo_recipients:
  "filter (\<lambda>m. m \<noteq> [10] \<and> m \<noteq> [30]) (sorted_list_of_set {[10], [20], [30 :: u8]}) = [[20]]"
  by code_simp

lemma demo_removal:
  "\<exists>y1 out w1. dc_refresh demo_kit (demo_member 10 20) (CtlRemove [30]) demo_world = (Ok (y1, out), w1)"
proof -
  have "random_array demo_prims 32 0 = (Ok (replicate 32 0), 1)"
    by (simp add: random_array_def demo_prims_def)
  moreover obtain s m r where "sm_send True demo_prims demo_plain_codec (sm_init (demo_bundle 20)) (demo_manager 10)
      (replicate 32 0) 1 = (Ok (s, m), r)"
    using demo_first_send by blast
  ultimately show ?thesis
    by (simp add: dc_refresh_def dc_remove_def member_view_def dgm_members_view_def demo_member_def dc_init_def
        demo_kit_def demo_recipients Let_def generate_seed_def bindE_def renameE_def on_env_def
        demo_world_def demo_trio RATCHET_KEY_SIZE_def seed_to_def encrypt_to_def session_with_def ret_def)
qed

theorem refresh_agreement_witness:
  "\<exists>y1 out w1 ya2 d yb2 ob k1 k2.
     dc_refresh demo_kit (demo_member 10 20) (CtlRemove [30]) demo_world = (Ok (y1, out), w1)
     \<and> set (map dm_recipient (op_direct_messages out)) = {[20]}
     \<and> process_local demo_kit y1 [7] out w1 = (Ok (ya2, out\<lparr>op_me_update_secret := Some k1\<rparr>), w1)
     \<and> process_remote demo_kit (demo_member 20 10) \<lparr>in_seq = [7], in_sender = [10],
          in_control_message = op_control_message out, in_direct_message = Some d\<rparr> demo_world
        = (Ok (yb2, ob), demo_world)
     \<and> po_sender_update_secret ob = Some k1 \<and> po_me_update_secret ob = Some k2"
proof -
  obtain y1 out w1 where run:
    "dc_refresh demo_kit (demo_member 10 20) (CtlRemove [30]) demo_world = (Ok (y1, out), w1)"
    using demo_removal by blast
  have "prims_ok (kit_prims demo_kit)" "plaintext_codec_ok (kit_plain demo_kit)"
    by (simp_all add: demo_kit_def demo_prims_ok demo_plain_codec_ok)
  moreover have "refresh_of (CtlRemove [30]) {[10], [20], [30]}" by (simp add: refresh_of_def)
  moreover have "members_after (CtlRemove [30]) {[10], [20], [30]} = {[10], [20]}"
    by (auto simp: members_after_def)
  moreover have "\<forall>s. dc_two_party (demo_member 10 20) [20] = Some s \<longrightarrow> sm_our_next_key_index s \<noteq> - 1"
    by (simp add: demo_member_def sm_init_def)
  ultimately show ?thesis
    using refresh_agreement [OF _ _ demo_paired _ _ _ _ run, of "[7]" "[8]"] run by auto
qed

end
