(* ===== verification/Group_Ordering_Inv.thy ===== *)
theory Group_Ordering_Inv
  imports Group_Ordering
begin

text \<open>
  What the orderer does on every sequence of its operations with one welcome at most: it is a
  queue in order of arrival that suppresses duplicates by content, in which an own message
  takes the place of a waiting one with the same content, and the dependency graph stays
  empty.
\<close>

section \<open>Sequences of operations\<close>

text \<open>An own message is the envelope that \<open>next_control_message\<close> or \<open>next_application_message\<close> returns.\<close>

datatype 'c or_op = OpQueue "'c group_envelope" | OpOwn 'c "bytes list" | OpSend u32 bytes
  | OpWelcome "'c group_envelope" | OpNext

type_synonym 'c content_codec = "'c group_content \<Rightarrow> string + bytes"

fun or_step ::
  "bool \<Rightarrow> crypto \<Rightarrow> 'c content_codec \<Rightarrow> (op_id set \<Rightarrow> op_id list) \<Rightarrow> 'c or_op \<Rightarrow> 'c ordering_state \<Rightarrow>
   ('c ordering_state \<times> 'c group_envelope list) option" where
  "or_step oc C enc order (OpQueue m) y = Some (or_queue order m y, [])"
| "or_step oc C enc order (OpOwn c dms) y =
     map_option (\<lambda>(y1, env). (y1, [])) (next_control_message oc C enc c dms y)"
| "or_step oc C enc order (OpSend g ct) y =
     map_option (\<lambda>(y1, env). (y1, [])) (next_application_message oc C enc g ct y)"
| "or_step oc C enc order (OpWelcome m) y = Some (set_welcome m y, [])"
| "or_step oc C enc order OpNext y =
     (case next_ready_message order y of
        (y1, m) \<Rightarrow> Some (y1, case m of None \<Rightarrow> [] | Some env \<Rightarrow> [env]))"

fun or_run ::
  "bool \<Rightarrow> crypto \<Rightarrow> 'c content_codec \<Rightarrow> (op_id set \<Rightarrow> op_id list) \<Rightarrow> 'c or_op list \<Rightarrow> 'c ordering_state \<Rightarrow>
   ('c ordering_state \<times> 'c group_envelope list) option" where
  "or_run oc C enc order [] y = Some (y, [])"
| "or_run oc C enc order (e # es) y =
     Option.bind (or_step oc C enc order e y) (\<lambda>(y1, out).
     map_option (\<lambda>(y2, outs). (y2, out @ outs)) (or_run oc C enc order es y1))"

section \<open>The specification: a queue without dependencies\<close>

record 'c fifo =
  ff_queue :: "'c group_envelope list"
  ff_known :: "op_id set"
  ff_welcome :: "op_id option"

definition ff_empty :: "'c fifo" where
  "ff_empty = \<lparr>ff_queue = [], ff_known = {}, ff_welcome = None\<rparr>"

text \<open>An own message takes the place of a waiting message with the same content.\<close>

definition ff_own :: "'c group_envelope \<Rightarrow> 'c fifo \<Rightarrow> 'c fifo" where
  "ff_own env f =
     f\<lparr>ff_queue := map (\<lambda>q. if eg_id q = eg_id env then env else q) (ff_queue f),
       ff_known := insert (eg_id env) (ff_known f)\<rparr>"

fun ff_step :: "peer_id \<Rightarrow> crypto \<Rightarrow> 'c content_codec \<Rightarrow> 'c or_op \<Rightarrow> 'c fifo \<Rightarrow> 'c fifo \<times> 'c group_envelope list" where
  "ff_step me C enc (OpQueue m) f =
     (if eg_sender m = me \<or> eg_id m \<in> ff_known f then (f, [])
      else (f\<lparr>ff_queue := ff_queue f @ [m], ff_known := insert (eg_id m) (ff_known f)\<rparr>, []))"
| "ff_step me C enc (OpWelcome m) f =
     (f\<lparr>ff_queue := filter (\<lambda>q. eg_id q \<noteq> eg_id m) (ff_queue f),
        ff_known := insert (eg_id m) (ff_known f), ff_welcome := Some (eg_id m)\<rparr>, [])"
| "ff_step me C enc OpNext f =
     (case (ff_welcome f, ff_queue f) of
        (Some _, m # ms) \<Rightarrow> (f\<lparr>ff_queue := ms, ff_known := ff_known f - {eg_id m}\<rparr>, [m])
      | _ \<Rightarrow> (f, []))"
| "ff_step me C enc (OpOwn c dms) f = (ff_own (new_control C enc me c dms) f, [])"
| "ff_step me C enc (OpSend g ct) f = (ff_own (new_application C enc me ct g []) f, [])"

fun ff_run :: "peer_id \<Rightarrow> crypto \<Rightarrow> 'c content_codec \<Rightarrow> 'c or_op list \<Rightarrow> 'c fifo \<Rightarrow> 'c fifo \<times> 'c group_envelope list" where
  "ff_run me C enc [] f = (f, [])"
| "ff_run me C enc (e # es) f =
     (case ff_step me C enc e f of (f1, out) \<Rightarrow>
      case ff_run me C enc es f1 of (f2, outs) \<Rightarrow> (f2, out @ outs))"

text \<open>The sequences considered: at most one welcome.\<close>

fun ff_allowed :: "'c or_op \<Rightarrow> 'c fifo \<Rightarrow> bool" where
  "ff_allowed (OpWelcome m) f \<longleftrightarrow> ff_welcome f = None"
| "ff_allowed _ f \<longleftrightarrow> True"

fun ff_allowed_run :: "peer_id \<Rightarrow> crypto \<Rightarrow> 'c content_codec \<Rightarrow> 'c or_op list \<Rightarrow> 'c fifo \<Rightarrow> bool" where
  "ff_allowed_run me C enc [] f \<longleftrightarrow> True"
| "ff_allowed_run me C enc (e # es) f \<longleftrightarrow>
     ff_allowed e f \<and> ff_allowed_run me C enc es (fst (ff_step me C enc e f))"

section \<open>Without pending messages\<close>

lemma promote_no_deps: "or_deps_of y = [] \<Longrightarrow> promote order y ds = y"
  by (induction ds) simp_all

lemma cascade_no_deps:
  assumes "or_deps_of y = []" and "or_dependents y = Map.empty"
  shows "cascade_ready order y key = y"
  using assms by (simp add: cascade_ready_def take_dependents_def promote_no_deps fun_upd_idem)

lemma no_deps_update: "or_deps_of y = [] \<Longrightarrow> y\<lparr>or_deps_of := []\<rparr> = y"
  by (cases y) simp

lemma ready_loop_no_deps:
  assumes "or_deps_of y = []" and "or_dependents y = Map.empty" and "set is \<subseteq> dom (map_of (or_messages y))"
  shows "ready_loop order w is y =
    (case dropWhile (\<lambda>i. i = w) is of
       [] \<Rightarrow> (y\<lparr>or_ready := []\<rparr>, None)
     | i # js \<Rightarrow> (y\<lparr>or_ready := js, or_messages := AList.delete i (or_messages y)\<rparr>, map_of (or_messages y) i))"
  using assms
proof (induction "is" arbitrary: y)
  case (Cons i js)
  show ?case
  proof (cases "i = w")
    case True
    with Cons.IH [of "y\<lparr>or_ready := js\<rparr>"] Cons.prems show ?thesis
      by (simp add: no_deps_update cong: list.case_cong)
  next
    case False
    then show ?thesis using Cons.prems by (auto simp: cascade_no_deps no_deps_update)
  qed
qed simp

definition or_rel :: "peer_id \<Rightarrow> 'c ordering_state \<Rightarrow> 'c fifo \<Rightarrow> bool" where
  "or_rel me y f \<longleftrightarrow>
     or_deps_of y = [] \<and> or_dependents y = Map.empty \<and> distinct (or_ready y) \<and> or_my_id y = me
     \<and> set (or_ready y) \<subseteq> dom (map_of (or_messages y)) \<and> distinct (map fst (or_messages y))
     \<and> ff_welcome f = map_option eg_id (or_welcome y) \<and> set_option (ff_welcome f) \<subseteq> ff_known f
     \<and> ff_known f = dom (map_of (or_messages y))
     \<and> map eg_id (ff_queue f) = filter (\<lambda>i. Some i \<noteq> ff_welcome f) (or_ready y)
     \<and> (\<forall>m \<in> set (ff_queue f). map_of (or_messages y) (eg_id m) = Some m)
     \<and> (\<forall>i m. map_of (or_messages y) i = Some m \<longrightarrow> eg_sender m \<noteq> me \<longrightarrow>
          i \<in> set (or_ready y) \<or> Some i = ff_welcome f)"

lemma or_rel_new: "or_rel me (or_new me) ff_empty"
  by (simp add: or_rel_def or_new_def ff_empty_def)

lemma or_relD:
  assumes "or_rel me y f"
  shows "or_deps_of y = []" "or_dependents y = Map.empty" "or_my_id y = me"
  using assms by (simp_all add: or_rel_def)

lemma dependencies_satisfied:
  assumes "or_rel me y f" and "map_of (or_messages y) (eg_id m) = None"
  shows "all_deps_satisfied (y\<lparr>or_messages := AList.update (eg_id m) m (or_messages y)\<rparr>)
    (extract_dependencies (y\<lparr>or_messages := AList.update (eg_id m) m (or_messages y)\<rparr>) (eg_id m))"
proof -
  let ?ms = "AList.update (eg_id m) m (or_messages y)"
  have rel: "distinct (map fst (or_messages y))" "or_my_id y = me"
      "ff_welcome f = map_option eg_id (or_welcome y)"
    and known: "\<And>i n. map_of (or_messages y) i = Some n \<Longrightarrow> eg_sender n \<noteq> me \<Longrightarrow>
      i \<in> set (or_ready y) \<or> Some i = ff_welcome f"
    using assms(1) unfolding or_rel_def by blast+
  have "i \<in> set (or_ready y) \<or> map_option eg_id (or_welcome y) = Some i"
    if "(i, n) \<in> set ?ms" "i \<noteq> eg_id m" "eg_sender n \<noteq> me" for i n
  proof -
    have "map_of ?ms i = Some n"
      using that(1) distinct_update [OF rel(1)] by (simp add: map_of_eq_Some_iff)
    then have "map_of (or_messages y) i = Some n" using that(2) by (simp add: update_conv')
    then show ?thesis using known [of i n] that(3) rel(3) by metis
  qed
  then show ?thesis
    unfolding all_deps_satisfied_def extract_dependencies_def list_all_iff is_processed_def is_ready_def
    using rel(2) by simp blast
qed

lemma queue_step:
  assumes "or_rel me y f"
  shows "or_queue order m y =
    (if eg_sender m = me \<or> eg_id m \<in> ff_known f then y
     else y\<lparr>or_messages := AList.update (eg_id m) m (or_messages y), or_ready := or_ready y @ [eg_id m]\<rparr>)"
proof -
  have "eg_id m \<in> ff_known f \<longleftrightarrow> map_of (or_messages y) (eg_id m) \<noteq> None"
    using assms by (auto simp: or_rel_def)
  then show ?thesis
    using dependencies_satisfied [OF assms, of m] or_relD [OF assms]
    by (auto simp: or_queue_def Let_def cascade_no_deps)
qed

lemma queue_rel:
  assumes "or_rel me y f"
  shows "or_rel me (or_queue order m y) (fst (ff_step me C enc (OpQueue m) f))"
proof (cases "eg_sender m = me \<or> eg_id m \<in> ff_known f")
  case True
  with assms show ?thesis by (simp add: queue_step [OF assms])
next
  case False
  then have new: "map_of (or_messages y) (eg_id m) = None" "eg_sender m \<noteq> me"
    using assms by (auto simp: or_rel_def)
  have old: "q \<in> set (ff_queue f) \<Longrightarrow> eg_id q \<noteq> eg_id m" for q
    using new(1) assms by (auto simp: or_rel_def)
  have "set_option (ff_welcome f) \<subseteq> ff_known f" and "set (or_ready y) \<subseteq> dom (map_of (or_messages y))"
    using assms unfolding or_rel_def by blast+
  then have "eg_id m \<notin> set (or_ready y)" "Some (eg_id m) \<noteq> ff_welcome f"
    using new(1) False by (auto simp: eq_commute)
  with False new old assms show ?thesis
    by (auto simp: queue_step [OF assms] or_rel_def update_conv' distinct_update simp del: map_of_eq_Some_iff)
      (metis)
qed

lemma ff_own_ids: "map eg_id (ff_queue (ff_own env f)) = map eg_id (ff_queue f)"
  by (auto simp: ff_own_def)

lemma ff_own_id_set [simp]: "eg_id ` set (ff_queue (ff_own env f)) = eg_id ` set (ff_queue f)"
  using arg_cong [OF ff_own_ids [of env f], of set] by simp

lemma ff_own_known [simp]: "ff_known (ff_own env f) = insert (eg_id env) (ff_known f)"
  by (simp add: ff_own_def)

lemma ff_own_absent:
  "eg_id env \<notin> eg_id ` set (ff_queue f) \<Longrightarrow> ff_own env f = f\<lparr>ff_known := insert (eg_id env) (ff_known f)\<rparr>"
  unfolding ff_own_def by (subst map_idI) (auto simp: image_iff)

lemma own_rel:
  assumes "or_rel me y f" and "eg_sender env = me"
  shows "or_rel me (store_own env (y\<lparr>or_clock := c\<rparr>)) (ff_own env f)"
proof -
  have "\<forall>m \<in> set (ff_queue (ff_own env f)). map_of (AList.update (eg_id env) env (or_messages y)) (eg_id m) = Some m"
    using assms(1) by (auto simp: ff_own_def or_rel_def update_conv' simp del: map_of_eq_Some_iff)
  moreover have "map eg_id (ff_queue (ff_own env f)) = filter (\<lambda>i. Some i \<noteq> ff_welcome f) (or_ready y)"
    using assms(1) by (simp add: ff_own_ids or_rel_def)
  moreover have "ff_welcome (ff_own env f) = ff_welcome f" "ff_known (ff_own env f) = insert (eg_id env) (ff_known f)"
    by (simp_all add: ff_own_def)
  ultimately show ?thesis
    using assms
    by (auto simp: store_own_def or_rel_def update_conv' distinct_update simp del: map_of_eq_Some_iff) (metis)
qed

lemma welcome_rel:
  assumes "or_rel me y f" and "ff_welcome f = None"
  shows "or_rel me (set_welcome m y) (fst (ff_step me C enc (OpWelcome m) f))"
proof -
  have "map eg_id (filter (\<lambda>q. eg_id q \<noteq> eg_id m) (ff_queue f)) = filter (\<lambda>i. i \<noteq> eg_id m) (or_ready y)"
  proof -
    have "or_ready y = map eg_id (ff_queue f)" using assms by (simp add: or_rel_def)
    then show ?thesis by (simp add: filter_map comp_def)
  qed
  with assms show ?thesis
    by (auto simp: set_welcome_def or_rel_def update_conv' distinct_update simp del: map_of_eq_Some_iff)
qed

lemma next_rel:
  assumes rel: "or_rel me y f" and run: "next_ready_message order y = (y', m)"
  shows "or_rel me y' (fst (ff_step me C enc OpNext f))
    \<and> (case m of None \<Rightarrow> [] | Some env \<Rightarrow> [env]) = snd (ff_step me C enc OpNext f)"
proof (cases "or_welcome y")
  case None
  with assms show ?thesis by (auto simp: next_ready_message_def or_rel_def)
next
  case (Some w)
  have y: "or_deps_of y = []" "or_dependents y = Map.empty" "distinct (or_ready y)"
      "set (or_ready y) \<subseteq> dom (map_of (or_messages y))"
    and q: "map eg_id (ff_queue f) = filter (\<lambda>i. i \<noteq> eg_id w) (or_ready y)" and w: "ff_welcome f = Some (eg_id w)"
    using rel Some by (auto simp: or_rel_def)
  note loop = ready_loop_no_deps [OF y(1,2,4), of order "eg_id w"]
  have split: "or_ready y = takeWhile (\<lambda>i. i = eg_id w) (or_ready y) @ dropWhile (\<lambda>i. i = eg_id w) (or_ready y)"
    by simp
  have skipped: "filter (\<lambda>i. i \<noteq> eg_id w) (takeWhile (\<lambda>i. i = eg_id w) (or_ready y)) = []"
    by (auto simp: filter_empty_conv dest: set_takeWhileD)
  show ?thesis
  proof (cases "dropWhile (\<lambda>i. i = eg_id w) (or_ready y)")
    case Nil
    then have all: "\<forall>i \<in> set (or_ready y). i = eg_id w" by (simp add: dropWhile_eq_Nil_conv)
    then have "ff_queue f = []" using q by (simp add: filter_empty_conv)
    then show ?thesis
      using run rel Some w loop Nil all
      by (auto simp: next_ready_message_def or_rel_def simp del: map_of_eq_Some_iff) (metis)
  next
    case (Cons i js)
    then have ready: "or_ready y = takeWhile (\<lambda>i. i = eg_id w) (or_ready y) @ i # js" using split by simp
    have i: "i \<noteq> eg_id w" using Cons by (simp add: dropWhile_eq_Cons_conv)
    obtain mq ms where mq: "ff_queue f = mq # ms" "eg_id mq = i" "map eg_id ms = filter (\<lambda>i. i \<noteq> eg_id w) js"
      using q skipped i by (subst (asm) ready) auto
    have js: "distinct js \<and> i \<notin> set js" using y(3) by (subst (asm) ready) simp
    have ready_cases: "j = eg_id w \<or> j = i \<or> j \<in> set js" if "j \<in> set (or_ready y)" for j
      using that by (subst (asm) ready) (auto dest: set_takeWhileD)
    have sub: "set js \<subseteq> set (or_ready y)" by (subst ready) auto
    have y': "y' = y\<lparr>or_ready := js, or_messages := AList.delete i (or_messages y)\<rparr>" and m: "m = Some mq"
      using run Some loop Cons rel mq(1,2) by (auto simp: next_ready_message_def or_rel_def)
    have step: "ff_step me C enc OpNext f = (f\<lparr>ff_queue := ms, ff_known := ff_known f - {i}\<rparr>, [mq])"
      using w mq by simp
    have rest: "eg_id q \<noteq> i" if "q \<in> set ms" for q
    proof -
      have "eg_id q \<in> set js" using that mq(3) by (metis filter_is_subset image_eqI set_map subsetD)
      then show ?thesis using js by blast
    qed
    have "or_rel me y' (f\<lparr>ff_queue := ms, ff_known := ff_known f - {i}\<rparr>)"
      unfolding or_rel_def y'
    proof (intro conjI allI impI)
      fix j n
      assume n: "map_of (or_messages (y\<lparr>or_ready := js, or_messages := AList.delete i (or_messages y)\<rparr>)) j = Some n"
        and other: "eg_sender n \<noteq> me"
      have old: "map_of (or_messages y) j = Some n" "j \<noteq> i"
        using n by (auto simp: delete_conv' split: if_splits simp del: map_of_eq_Some_iff)
      have "j \<in> set (or_ready y) \<or> Some j = ff_welcome f" using old(1) other rel unfolding or_rel_def by blast
      with ready_cases [of j] old(2) w
      show "j \<in> set (or_ready (y\<lparr>or_ready := js, or_messages := AList.delete i (or_messages y)\<rparr>))
        \<or> Some j = ff_welcome (f\<lparr>ff_queue := ms, ff_known := ff_known f - {i}\<rparr>)" by auto
    qed (insert rel mq i w js sub rest Some,
        auto simp: or_rel_def delete_conv' distinct_delete simp del: map_of_eq_Some_iff)
    then show ?thesis unfolding step m by simp
  qed
qed

section \<open>Every sequence\<close>

lemma or_step_rel:
  assumes "or_rel me y f" and "ff_allowed e f" and "or_step oc C enc order e y = Some (y1, out)"
  shows "or_rel me y1 (fst (ff_step me C enc e f)) \<and> out = snd (ff_step me C enc e f)"
proof (cases e)
  case (OpQueue m)
  with assms queue_rel [OF assms(1), of order m C enc] show ?thesis by auto
next
  case (OpWelcome m)
  with assms welcome_rel [OF assms(1), of m C enc] show ?thesis by auto
next
  case OpNext
  with assms next_rel [OF assms(1), of order _ _ C enc] show ?thesis
    by (auto split: prod.splits simp del: ff_step.simps)
next
  case (OpOwn c dms)
  with assms own_rel [OF assms(1), of "new_control C enc me c dms"] or_relD [OF assms(1)] show ?thesis
    by (auto simp: next_control_message_def new_control_def Let_def)
next
  case (OpSend g ct)
  with assms own_rel [OF assms(1), of "new_application C enc me ct g []"] or_relD [OF assms(1)] show ?thesis
    by (auto simp: next_application_message_def new_application_def Let_def)
qed

lemma or_run_rel:
  assumes "or_rel me y f" and "ff_allowed_run me C enc es f" and "or_run oc C enc order es y = Some (y1, outs)"
  shows "or_rel me y1 (fst (ff_run me C enc es f)) \<and> outs = snd (ff_run me C enc es f)"
  using assms
proof (induction es arbitrary: y f outs)
  case (Cons e es)
  obtain y0 out outs' where e: "or_step oc C enc order e y = Some (y0, out)"
    and es: "or_run oc C enc order es y0 = Some (y1, outs')" and outs: "outs = out @ outs'"
    using Cons.prems(3) by (auto simp: bind_eq_Some_conv)
  have "or_rel me y0 (fst (ff_step me C enc e f)) \<and> out = snd (ff_step me C enc e f)"
    using or_step_rel [OF Cons.prems(1) _ e] Cons.prems(2) by simp
  with Cons.IH [OF _ _ es, of "fst (ff_step me C enc e f)"] Cons.prems(2) outs show ?case
    by (auto split: prod.splits)
qed simp

text \<open>The clock starts at 1 and each own message adds one.\<close>

lemma promote_clock [simp]: "or_clock (promote order y ds) = or_clock y"
  by (induction order y ds rule: promote.induct) (auto simp: Let_def take_dependents_def split: option.splits)

lemma ready_loop_clock [simp]: "or_clock (fst (ready_loop order w is y)) = or_clock y"
  by (induction order w "is" y rule: ready_loop.induct)
     (auto simp: Let_def cascade_ready_def take_dependents_def split: option.splits)

lemma or_step_clock:
  assumes "unat (or_clock y) + 1 < 2 ^ 64"
  shows "\<exists>y1 out. or_step oc C enc order e y = Some (y1, out) \<and> unat (or_clock y1) \<le> unat (or_clock y) + 1"
proof -
  have "or_clock y \<noteq> - 1" using assms by (auto simp: unsigned_minus_1_eq_mask mask_eq_exp_minus_1)
  then have tick: "clock_tick oc (or_clock y) = Some (or_clock y, or_clock y + 1)"
    by (simp add: clock_tick_def clock_add_def)
  have "unat (or_clock y + 1) \<le> unat (or_clock y) + 1"
    using assms by (simp add: unat_word_ariths)
  with tick show ?thesis
    by (cases e) (auto simp: next_control_message_def next_application_message_def store_own_def Let_def
        or_queue_def cascade_ready_def take_dependents_def set_welcome_def next_ready_message_def
        split: prod.splits option.splits dest!: arg_cong [of _ _ fst])
qed

lemma or_run_total:
  assumes "unat (or_clock y) + length es < 2 ^ 64"
  shows "\<exists>y1 outs. or_run oc C enc order es y = Some (y1, outs)"
  using assms
proof (induction es arbitrary: y)
  case (Cons e es)
  then obtain y1 out where e: "or_step oc C enc order e y = Some (y1, out)"
    and "unat (or_clock y1) \<le> unat (or_clock y) + 1"
    using or_step_clock [of y oc C enc order e] by auto
  with Cons.IH [of y1] Cons.prems show ?case by auto
qed simp

lemma ff_run_append:
  "ff_run me C enc (es @ ds) f =
     (case ff_run me C enc es f of (f1, outs) \<Rightarrow>
      case ff_run me C enc ds f1 of (f2, outs2) \<Rightarrow> (f2, outs @ outs2))"
  by (induction es arbitrary: f) (auto split: prod.splits)

lemma ff_allowed_append:
  "ff_allowed_run me C enc (es @ ds) f \<longleftrightarrow>
     ff_allowed_run me C enc es f \<and> ff_allowed_run me C enc ds (fst (ff_run me C enc es f))"
  by (induction es arbitrary: f) (auto split: prod.splits)

text \<open>An identifier that is known without waiting in the queue stays so.\<close>

definition ff_settled :: "op_id \<Rightarrow> 'c fifo \<Rightarrow> bool" where
  "ff_settled i f \<longleftrightarrow> i \<in> ff_known f \<and> i \<notin> eg_id ` set (ff_queue f)"

lemma ff_settled_step: "ff_settled i f \<Longrightarrow> ff_settled i (fst (ff_step me C enc e f))"
  unfolding ff_settled_def
  by (cases e) (simp_all add: image_iff ff_own_known split: option.splits list.splits, blast+)

lemma ff_settled_run: "ff_settled i f \<Longrightarrow> ff_settled i (fst (ff_run me C enc es f))"
proof (induction es arbitrary: f)
  case (Cons e es)
  from Cons.IH [OF ff_settled_step [OF Cons.prems, of me C enc e]] show ?case
    by (auto split: prod.splits)
qed simp

section \<open>Properties\<close>

text \<open>
  C20. The orderer is a queue.  On every sequence of operations with at most one welcome it
  yields the messages of the other members in the order in which they were queued, skipping
  those whose content is still stored and the welcome; nothing is yielded before the welcome.
  An own message that is created while a message with the same content waits takes its
  place, and is then yielded instead of it; no other own message is.  No dependency is ever
  recorded, so no message waits for another one, whatever the senders had seen.
\<close>

theorem orderer_is_fifo:
  assumes "ff_allowed_run me C enc es ff_empty" and "length es + 1 < 2 ^ 64"
  shows "\<exists>y outs. or_run oc C enc order es (or_new me) = Some (y, outs)
    \<and> outs = snd (ff_run me C enc es ff_empty)
    \<and> or_deps_of y = [] \<and> pending_count y = 0 \<and> or_dependents y = Map.empty"
proof -
  obtain y outs where run: "or_run oc C enc order es (or_new me) = Some (y, outs)"
    using or_run_total [of "or_new me" es oc C enc order] assms(2) by (auto simp: or_new_def)
  with or_run_rel [OF or_rel_new assms(1) run] show ?thesis
    by (auto simp: or_rel_def pending_count_def)
qed

definition demo_codec :: "nat content_codec" where
  "demo_codec content = (case content of Control k \<Rightarrow> Inr [of_nat k] | _ \<Rightarrow> Inr [])"

definition demo_envelope :: "peer_id \<Rightarrow> nat \<Rightarrow> nat group_envelope" where
  "demo_envelope p c = new_control demo_crypto demo_codec p c []"

definition demo_ops :: "nat or_op list" where
  "demo_ops = [OpQueue (demo_envelope [2] 5), OpOwn 7 [], OpWelcome (demo_envelope [1] 7),
     OpQueue (demo_envelope [3] 6), OpQueue (demo_envelope [2] 5), OpQueue (demo_envelope [2] 8), OpOwn 8 [],
     OpNext, OpNext, OpNext, OpNext]"

lemma demo_content_id: "content_id demo_crypto demo_codec (Control k) = of_nat k # of_nat k # replicate 30 0"
  by (simp add: content_id_def demo_crypto_def demo_codec_def numeral_eq_Suc)

lemma demo_orderer_run:
  "ff_allowed_run [1] demo_crypto demo_codec demo_ops ff_empty"
  "snd (ff_run [1] demo_crypto demo_codec demo_ops ff_empty) = [demo_envelope [2] 5, demo_envelope [3] 6, demo_envelope [1] 8]"
  by (simp_all add: demo_ops_def demo_envelope_def new_control_def Let_def demo_content_id ff_empty_def ff_own_def)

theorem orderer_is_fifo_witness:
  "ff_allowed_run [1] demo_crypto demo_codec demo_ops ff_empty
   \<and> (\<exists>y. or_run True demo_crypto demo_codec (\<lambda>_. []) demo_ops (or_new [1]) =
          Some (y, [demo_envelope [2] 5, demo_envelope [3] 6, demo_envelope [1] 8]) \<and> pending_count y = 0)"
proof -
  have "length demo_ops + 1 < 2 ^ 64" by (simp add: demo_ops_def)
  from orderer_is_fifo [OF demo_orderer_run(1) this, of True "\<lambda>_. []"] obtain y where
    "or_run True demo_crypto demo_codec (\<lambda>_. []) demo_ops (or_new [1]) = Some (y, snd (ff_run [1] demo_crypto demo_codec demo_ops ff_empty))"
    "pending_count y = 0" by blast
  with demo_orderer_run show ?thesis by simp
qed

text \<open>
  C29. An envelope is identified by its content alone, and an own message stays stored for
  good, unless a message with the same content was waiting when it was created.  So once a
  member has sent a control message, it ignores every envelope of another
  member with an equal control message, now and after any further operations.  Two members
  that acknowledge the same operation send equal control messages, as do two members that
  update their keys: the second of each pair is lost to the first member.
\<close>

theorem equal_content_dropped:
  assumes "ff_allowed_run me C enc (es @ OpOwn c dms # ds) ff_empty"
    and "content_id C enc (Control c) \<notin> eg_id ` set (ff_queue (fst (ff_run me C enc es ff_empty)))"
    and "or_run oc C enc order (es @ OpOwn c dms # ds) (or_new me) = Some (y, outs)"
    and "other \<noteq> me"
  shows "or_queue order (new_control C enc other c dms') y = y"
proof -
  let ?f = "fst (ff_run me C enc es ff_empty)" and ?i = "content_id C enc (Control c)"
  have "ff_settled ?i (fst (ff_step me C enc (OpOwn c dms) ?f))"
    using assms(2) by (simp add: ff_settled_def new_control_def Let_def ff_own_absent)
  from ff_settled_run [OF this, of me C enc ds]
  have "ff_settled ?i (fst (ff_run me C enc (es @ OpOwn c dms # ds) ff_empty))"
    by (simp add: ff_run_append case_prod_beta)
  then have "map_of (or_messages y) ?i \<noteq> None"
    using or_run_rel [OF or_rel_new assms(1,3)] by (auto simp: or_rel_def ff_settled_def)
  then show ?thesis by (simp add: or_queue_def new_control_def Let_def)
qed

theorem equal_content_dropped_witness:
  "\<exists>y outs. or_run True demo_crypto demo_codec (\<lambda>_. []) demo_ops (or_new [1]) = Some (y, outs)
     \<and> or_queue (\<lambda>_. []) (new_control demo_crypto demo_codec [2] 7 []) y = y"
proof -
  obtain y outs where run: "or_run True demo_crypto demo_codec (\<lambda>_. []) demo_ops (or_new [1]) = Some (y, outs)"
    using or_run_total [of "or_new [1]" demo_ops True demo_crypto demo_codec "\<lambda>_. []"]
    by (auto simp: demo_ops_def or_new_def)
  have waiting: "content_id demo_crypto demo_codec (Control 7)
      \<notin> eg_id ` set (ff_queue (fst (ff_run [1] demo_crypto demo_codec [OpQueue (demo_envelope [2] 5)] ff_empty)))"
    by (simp add: demo_envelope_def new_control_def Let_def demo_content_id ff_empty_def)
  have "[OpQueue (demo_envelope [2] 5)] @ OpOwn 7 [] # drop 2 demo_ops = demo_ops" by (simp add: demo_ops_def)
  note dropped = equal_content_dropped [of "[1]" demo_crypto demo_codec "[OpQueue (demo_envelope [2] 5)]" 7 "[]"
      "drop 2 demo_ops", unfolded this, OF demo_orderer_run(1) waiting run]
  show ?thesis using dropped [of "[2]" "[]"] run by simp
qed

end
