(* ===== verification/Message_Group_Delivery.thy ===== *)
theory Message_Group_Delivery
  imports Message_Group Dcgka_Agreement Group_Ordering_Inv
begin

text \<open>
  Delivery in a group, end to end: a member refreshes the group's keys and then sends
  application messages; another member that receives the envelopes in order obtains the
  plaintexts.  The parts are the agreement on update secrets, the orderer as a queue, and
  the two ratchets that start from the same secret.
\<close>

section \<open>One envelope at a quiet orderer\<close>

lemma cascade_clock [simp]: "or_clock (cascade_ready order y k) = or_clock y"
  by (simp add: cascade_ready_def take_dependents_def)

lemma next_ready_clock: "next_ready_message order q = (q', m) \<Longrightarrow> or_clock q' = or_clock q"
  by (auto simp: next_ready_message_def split: option.splits) (metis fst_conv ready_loop_clock)

lemma or_queue_clock [simp]: "or_clock (or_queue order env q) = or_clock q"
  by (simp add: or_queue_def Let_def)

lemma queue_then_next:
  assumes "or_rel me q f" and "ff_queue f = []" and "ff_welcome f \<noteq> None"
    and "eg_id env \<notin> ff_known f" and "eg_sender env \<noteq> me"
  shows "\<exists>q'. next_ready_message order (or_queue order env q) = (q', Some env) \<and> or_rel me q' f
    \<and> or_clock q' = or_clock q"
proof -
  obtain q' m where run: "next_ready_message order (or_queue order env q) = (q', m)" by fastforce
  have same: "f\<lparr>ff_queue := []\<rparr> = f" using assms(2) by (cases f) simp
  from next_rel [OF queue_rel [OF assms(1), of order env undefined undefined] run, of undefined undefined] assms(2-)
  show ?thesis using next_ready_clock [OF run] unfolding run by (auto simp: same split: option.splits)
qed

lemma next_none:
  assumes "or_rel me q f" and "ff_queue f = []"
  shows "\<exists>q'. next_ready_message order q = (q', None) \<and> or_rel me q' f"
proof -
  obtain q' m where run: "next_ready_message order q = (q', m)" by fastforce
  from next_rel [OF assms(1) run, of undefined undefined] assms(2) show ?thesis
    unfolding run by (auto split: option.splits)
qed

text \<open>A member that is established and has processed everything it was sent.\<close>

definition quiet :: "group_state \<Rightarrow> control_message fifo \<Rightarrow> bool" where
  "quiet y f \<longleftrightarrow> or_rel (gr_my_id y) (gr_orderer y) f \<and> ff_queue f = [] \<and> ff_welcome f \<noteq> None
     \<and> gr_ratchet y \<noteq> None \<and> set_option (map_option eg_id (gr_welcome y)) \<subseteq> ff_known f"

declare receive_loop.simps [simp del]

lemma receive_loop_end:
  "next_ready_message (gk_order G) (gr_orderer y) = (q, None) \<Longrightarrow>
   receive_loop G y events w = (Ok (y\<lparr>gr_orderer := q\<rparr>, events), w)"
  by (subst receive_loop.simps) simp

lemma receive_loop_take:
  assumes "next_ready_message (gk_order G) (gr_orderer y) = (q, Some env)"
    and "map_option eg_id (gr_welcome y) \<noteq> Some (eg_id env)"
    and "process_ready G (y\<lparr>gr_orderer := q\<rparr>) env w = (Ok (y2, ev), w2)"
  shows "receive_loop G y events w =
    receive_loop G y2 (events @ (case ev of None \<Rightarrow> [] | Some e \<Rightarrow> [e])) w2"
  using assms by (subst receive_loop.simps) (auto simp: Let_def split: option.splits)

lemma receive_single:
  assumes "quiet y f" and "eg_id env \<notin> ff_known f" and "eg_sender env \<noteq> gr_my_id y" and "\<not> is_create env"
    and process: "\<And>q. or_rel (gr_my_id y) q f \<Longrightarrow> or_clock q = or_clock (gr_orderer y) \<Longrightarrow>
      \<exists>y2. process_ready G (y\<lparr>gr_orderer := q\<rparr>) env w = (Ok (y2, ev), w2)
        \<and> or_rel (gr_my_id y) (gr_orderer y2) f2 \<and> Q y2"
    and "ff_queue f2 = []" and cong: "\<And>y2 q. Q y2 \<Longrightarrow> Q (y2\<lparr>gr_orderer := q\<rparr>)"
  shows "\<exists>y3. gr_receive G y env w =
      (Ok (y3, Some (group_output_new (case ev of None \<Rightarrow> [] | Some e \<Rightarrow> [e]) (gr_members y) (gr_members y3))), w2)
    \<and> or_rel (gr_my_id y) (gr_orderer y3) f2 \<and> Q y3"
proof -
  let ?ord = "gk_order G" and ?me = "gr_my_id y"
  obtain q where nxt: "next_ready_message ?ord (or_queue ?ord env (gr_orderer y)) = (q, Some env)"
    and q: "or_rel ?me q f" "or_clock q = or_clock (gr_orderer y)"
    using queue_then_next [of ?me "gr_orderer y" f env ?ord] assms(1-3) by (auto simp: quiet_def)
  obtain y2 where ready: "process_ready G (y\<lparr>gr_orderer := q\<rparr>) env w = (Ok (y2, ev), w2)"
    and y2: "or_rel ?me (gr_orderer y2) f2" "Q y2"
    using process [OF q] by blast
  obtain q2 where none: "next_ready_message ?ord (gr_orderer y2) = (q2, None)" and q2: "or_rel ?me q2 f2"
    using next_none [OF y2(1) assms(6)] by blast
  have "map_option eg_id (gr_welcome y) \<noteq> Some (eg_id env)"
    using assms(1,2) by (auto simp: quiet_def)
  then have "receive_loop G (y\<lparr>gr_orderer := or_queue ?ord env (gr_orderer y)\<rparr>) [] w =
      (Ok (y2\<lparr>gr_orderer := q2\<rparr>, case ev of None \<Rightarrow> [] | Some e \<Rightarrow> [e]), w2)"
    using nxt ready receive_loop_end [OF none]
      receive_loop_take [of G "y\<lparr>gr_orderer := or_queue ?ord env (gr_orderer y)\<rparr>" q env w y2 ev w2 "[]"]
    by simp
  with assms(1,4) q2 cong [OF y2(2)] show ?thesis
    by (auto simp: gr_receive_def quiet_def Let_def bindE_def ret_def)
qed

section \<open>Application messages\<close>

text \<open>The receiver's ratchet for a sender stands where the sender's own ratchet stands.\<close>

definition in_step :: "group_state \<Rightarrow> group_state \<Rightarrow> peer_id \<Rightarrow> bool" where
  "in_step y z a \<longleftrightarrow> (\<exists>r d. gr_ratchet y = Some r \<and> gr_decryption z a = Some d \<and> dr_head d = r)"

lemma ratchet_in_step:
  assumes "ratchet_forward oc P r = Ok (r', g, k)" and "dr_head d = r"
  shows "\<exists>d'. secret_for_decryption oc P d g mf ooo = Ok (d', k) \<and> dr_head d' = r'"
proof -
  have "g = rt_generation r" using assms(1) by (auto simp: ratchet_forward_def split: if_splits)
  with assms show ?thesis
    using future_guard [of g mf g] by (auto simp: secret_for_decryption_def Let_def)
qed

fun gr_sends :: "'r gkit \<Rightarrow> group_state \<Rightarrow> bytes list \<Rightarrow> (group_error, group_state \<times> envelope list) outcome" where
  "gr_sends G y [] = Ok (y, [])"
| "gr_sends G y (pt # pts) =
     and_then (gr_send G y pt) (\<lambda>(y1, env).
     and_then (gr_sends G y1 pts) (\<lambda>(y2, envs). Ok (y2, env # envs)))"

fun receive_all ::
  "'r gkit \<Rightarrow> group_state \<Rightarrow> envelope list \<Rightarrow> ('r world, group_error, group_state \<times> group_event list) eff" where
  "receive_all G y [] = ret (y, [])"
| "receive_all G y (env # envs) =
     bindE (gr_receive G y env) (\<lambda>(y1, out).
     bindE (receive_all G y1 envs) (\<lambda>(y2, events).
     ret (y2, (case out of None \<Rightarrow> [] | Some x \<Rightarrow> go_events x) @ events)))"

lemma send_received:
  assumes kits: "kit_checked (gk_kit Gb) = kit_checked (gk_kit Ga)" "kit_prims (gk_kit Gb) = kit_prims (gk_kit Ga)"
    and "cipher_ok (kit_prims (gk_kit Ga))"
    and send: "gr_send Ga y pt = Ok (y', env)" and "in_step y z a" and "quiet z f"
    and "or_my_id (gr_orderer y) = a" and "a \<noteq> gr_my_id z" and "eg_id env \<notin> ff_known f"
  shows "\<exists>z' out. gr_receive Gb z env w = (Ok (z', Some out), w) \<and> go_events out = [EvApplication pt (eg_id env)]
    \<and> in_step y' z' a \<and> quiet z' f \<and> gr_my_id z' = gr_my_id z \<and> or_my_id (gr_orderer y') = a
    \<and> gr_members z' = gr_members z"
proof -
  let ?P = "kit_prims (gk_kit Ga)" and ?oc = "kit_checked (gk_kit Ga)"
  obtain r d where r: "gr_ratchet y = Some r" "gr_decryption z a = Some d" "dr_head d = r"
    using assms(5) by (auto simp: in_step_def)
  obtain r' g k ct where fwd: "ratchet_forward ?oc ?P r = Ok (r', g, k)" and enc: "encrypt_message ?P pt k = Ok ct"
    and env: "eg_content env = Application ct g" "eg_sender env = a"
    and y': "gr_ratchet y' = Some r'" "or_my_id (gr_orderer y') = a"
    using send r assms(7)
    by (auto simp: gr_send_def gr_encrypt_def next_application_message_def new_application_def store_own_def Let_def
        split: option.splits)
  obtain d' where d': "secret_for_decryption ?oc ?P d g (cfg_maximum_forward_distance (gr_config z))
      (cfg_out_of_order_tolerance (gr_config z)) = Ok (d', k)" "dr_head d' = r'"
    using ratchet_in_step [OF fwd r(3)] by blast
  have dec: "process_ready Gb (z\<lparr>gr_orderer := q\<rparr>) env w =
      (Ok (z\<lparr>gr_orderer := q, gr_decryption := (gr_decryption z)(a \<mapsto> d')\<rparr>, Some (EvApplication pt (eg_id env))), w)" for q
    using r(2) d'(1) message_roundtrip [OF assms(3) enc] env kits
    by (simp add: process_ready_def gr_decrypt_def bindE_def pure_def ret_def)
  let ?Q = "\<lambda>z'. gr_decryption z' a = Some d' \<and> gr_my_id z' = gr_my_id z \<and> gr_ratchet z' = gr_ratchet z
      \<and> gr_welcome z' = gr_welcome z \<and> gr_dcgka z' = gr_dcgka z"
  obtain z' where "gr_receive Gb z env w = (Ok (z', Some (group_output_new [EvApplication pt (eg_id env)]
        (gr_members z) (gr_members z'))), w)" "or_rel (gr_my_id z) (gr_orderer z') f" "?Q z'"
    using receive_single [OF assms(6,9), of Gb w "Some (EvApplication pt (eg_id env))" w f ?Q] assms(6,8) env dec
    by (auto simp: is_create_def quiet_def)
  with assms(6) y' d'(2) show ?thesis
    by (auto simp: quiet_def in_step_def group_output_new_def gr_members_def)
qed

lemma sends_received:
  assumes kits: "kit_checked (gk_kit Gb) = kit_checked (gk_kit Ga)" "kit_prims (gk_kit Gb) = kit_prims (gk_kit Ga)"
    and cipher: "cipher_ok (kit_prims (gk_kit Ga))"
    and "gr_sends Ga y pts = Ok (y', envs)" and "in_step y z a" and "quiet z f"
    and "or_my_id (gr_orderer y) = a" and "a \<noteq> gr_my_id z" and "\<forall>env \<in> set envs. eg_id env \<notin> ff_known f"
  shows "\<exists>z'. receive_all Gb z envs w = (Ok (z', map2 (\<lambda>pt env. EvApplication pt (eg_id env)) pts envs), w)
    \<and> gr_members z' = gr_members z"
  using assms(4-)
proof (induction pts arbitrary: y z envs)
  case (Cons pt pts)
  obtain y1 env envs1 where one: "gr_send Ga y pt = Ok (y1, env)" and rest: "gr_sends Ga y1 pts = Ok (y', envs1)"
    and envs: "envs = env # envs1"
    using Cons.prems(1) by auto
  obtain z1 out where rcv: "gr_receive Gb z env w = (Ok (z1, Some out), w)"
    and out: "go_events out = [EvApplication pt (eg_id env)]"
    and z1: "in_step y1 z1 a" "quiet z1 f" "gr_my_id z1 = gr_my_id z" "or_my_id (gr_orderer y1) = a"
      "gr_members z1 = gr_members z"
    using send_received [OF kits cipher one Cons.prems(2-5), of w] Cons.prems(6) envs by auto
  from Cons.IH [OF rest z1(1,2,4)] Cons.prems(5,6) z1(3) envs obtain z2 where
    "receive_all Gb z1 envs1 w = (Ok (z2, map2 (\<lambda>pt env. EvApplication pt (eg_id env)) pts envs1), w)" "gr_members z2 = gr_members z1"
    by auto
  with rcv out envs z1(5) show ?case by (simp add: bindE_def ret_def)
qed (simp add: ret_def)

section \<open>Control messages\<close>

text \<open>The promise of the encoding for the direct messages of a refresh.\<close>

definition two_party_dm :: "direct_message \<Rightarrow> bool" where
  "two_party_dm dm \<longleftrightarrow> (case dm_content dm of DcTwoParty _ \<Rightarrow> True | _ \<Rightarrow> False)"

definition dm_codec_ok :: "'r gkit \<Rightarrow> bool" where
  "dm_codec_ok G \<longleftrightarrow> (\<forall>dm. two_party_dm dm \<longrightarrow> (\<exists>c. gk_enc_dm G dm = Inr c \<and> gk_dec_dm G c = Inr dm))"

lemma seeds_two_party:
  "foldE (seed_to E seed) rs (y, dms) w = (Ok (y', dms'), w') \<Longrightarrow> list_all two_party_dm dms \<Longrightarrow>
   list_all two_party_dm dms'"
proof (induction rs arbitrary: y dms w)
  case (Cons r rs)
  obtain y1 dms1 w1 where "seed_to E seed r (y, dms) w = (Ok (y1, dms1), w1)"
    and "foldE (seed_to E seed) rs (y1, dms1) w1 = (Ok (y', dms'), w')"
    using Cons.prems(1) by auto
  with Cons show ?case by (auto simp: seed_to_def two_party_dm_def split: if_splits)
qed (simp add: ret_def)

lemma refresh_two_party:
  assumes "dc_refresh E y c w = (Ok (d, pre), w0)"
  shows "list_all two_party_dm (op_direct_messages pre)"
  using assms seeds_two_party
  by (cases c) (fastforce simp: dc_refresh_def dc_update_def dc_remove_def generate_seed_def pure_def Let_def)+

lemma stamped_direct_messages:
  assumes "dm_codec_ok Ga" and "gk_dec_dm Gb = gk_dec_dm Ga" and "list_all two_party_dm dms"
    and "stamp_control Ga c dms y = Ok (y', env)"
  shows "direct_messages Gb env = dms" "eg_sender env = or_my_id (gr_orderer y)" "eg_content env = Control c"
    "gr_orderer y' = store_own env ((gr_orderer y)\<lparr>or_clock := or_clock (gr_orderer y) + 1\<rparr>)"
    "y' = y\<lparr>gr_orderer := gr_orderer y'\<rparr>"
proof -
  have "List.map_filter (\<lambda>b. case gk_dec_dm Gb b of Inl x \<Rightarrow> None | Inr dm \<Rightarrow> Some dm)
      (map (\<lambda>dm. case gk_enc_dm Ga dm of Inl _ \<Rightarrow> [] | Inr b \<Rightarrow> b) dms) = dms"
    using assms(3)
  proof (induction dms)
    case (Cons dm dms)
    then obtain c where "gk_enc_dm Ga dm = Inr c" "gk_dec_dm Ga c = Inr dm"
      using assms(1) by (auto simp: dm_codec_ok_def)
    with Cons assms(2) show ?case by (simp add: List.map_filter_def)
  qed (simp add: List.map_filter_def)
  with assms(4) show "direct_messages Gb env = dms" "eg_sender env = or_my_id (gr_orderer y)"
    "eg_content env = Control c"
    "gr_orderer y' = store_own env ((gr_orderer y)\<lparr>or_clock := or_clock (gr_orderer y) + 1\<rparr>)"
    "y' = y\<lparr>gr_orderer := gr_orderer y'\<rparr>"
    by (auto simp: stamp_control_def next_control_message_def clock_tick_def clock_add_def new_control_def
        direct_messages_def Let_def split: option.splits if_splits)
qed

lemma find_recipient:
  "dm \<in> set dms \<Longrightarrow> distinct (map dm_recipient dms) \<Longrightarrow> dm_recipient dm = b \<Longrightarrow>
   List.find (\<lambda>dm. dm_recipient dm = b) dms = Some dm"
  by (induction dms) (auto simp: image_iff)

lemma stamp_control_ok:
  assumes "or_clock (gr_orderer y) \<noteq> - 1"
    and "env = new_control (gk_crypto G) (gk_content G) (or_my_id (gr_orderer y)) c
       (map (\<lambda>dm. case gk_enc_dm G dm of Inl _ \<Rightarrow> [] | Inr b \<Rightarrow> b) dms)"
  shows "stamp_control G c dms y =
    Ok (y\<lparr>gr_orderer := store_own env ((gr_orderer y)\<lparr>or_clock := or_clock (gr_orderer y) + 1\<rparr>)\<rparr>, env)"
  using assms
  by (simp add: stamp_control_def next_control_message_def clock_tick_def clock_add_def Let_def)

abbreviation control_id :: "'r gkit \<Rightarrow> control_message \<Rightarrow> op_id" where
  "control_id G c \<equiv> content_id (gk_crypto G) (gk_content G) (Control c)"

lemma control_received:
  assumes z: "quiet z f" "eg_id env \<notin> ff_known f" "eg_sender env = a" "a \<noteq> gr_my_id z" "\<not> is_create env"
      "or_clock (gr_orderer z) \<noteq> - 1" and env: "eg_content env = Control c"
    and found: "List.find (\<lambda>dm. dm_recipient dm = gr_my_id z) (direct_messages G env) = dm"
    and run: "process_remote (gk_kit G) (gr_dcgka z) \<lparr>in_seq = eg_id env, in_sender = a, in_control_message = c,
          in_direct_message = dm\<rparr> w = (Ok (d2, ob), w2)"
    and ob: "po_control_message ob = Some c1" "po_sender_update_secret ob = Some k1" "po_me_update_secret ob = Some k2"
    and member: "gr_my_id z \<in> member_view d2 (gr_my_id z)"
  shows "\<exists>z' ack out. gr_receive G z env w = (Ok (z', Some out), w2) \<and> go_events out = [EvControl ack]
    \<and> eg_content ack = Control c1 \<and> eg_sender ack = gr_my_id z
    \<and> quiet z' (f\<lparr>ff_known := insert (control_id G c1) (ff_known f)\<rparr>)
    \<and> gr_decryption z' a = Some (decryption_init k1) \<and> gr_ratchet z' = Some (ratchet_init k2)
    \<and> gr_my_id z' = gr_my_id z \<and> gr_dcgka z' = d2"
proof -
  let ?f = "f\<lparr>ff_known := insert (control_id G c1) (ff_known f)\<rparr>"
  let ?ack = "new_control (gk_crypto G) (gk_content G) (gr_my_id z) c1
      (map (\<lambda>dm. case gk_enc_dm G dm of Inl _ \<Rightarrow> [] | Inr b \<Rightarrow> b) (po_direct_messages ob))"
  let ?Q = "\<lambda>z'. gr_decryption z' a = Some (decryption_init k1) \<and> gr_ratchet z' = Some (ratchet_init k2)
      \<and> gr_my_id z' = gr_my_id z \<and> gr_dcgka z' = d2 \<and> gr_welcome z' = gr_welcome z"
  have "\<exists>z'. process_ready G (z\<lparr>gr_orderer := q\<rparr>) env w = (Ok (z', Some (EvControl ?ack)), w2)
      \<and> or_rel (gr_my_id z) (gr_orderer z') ?f \<and> ?Q z'"
    if q: "or_rel (gr_my_id z) q f" "or_clock q = or_clock (gr_orderer z)" for q
  proof -
    let ?z = "z\<lparr>gr_orderer := q, gr_dcgka := d2, gr_ratchet := Some (ratchet_init k2),
        gr_decryption := (gr_decryption z)(a \<mapsto> decryption_init k1)\<rparr>"
    have "stamp_control G c1 (po_direct_messages ob) ?z =
        Ok (?z\<lparr>gr_orderer := store_own ?ack (q\<lparr>or_clock := or_clock q + 1\<rparr>)\<rparr>, ?ack)"
      using stamp_control_ok [of ?z ?ack G c1 "po_direct_messages ob"] z(6) q or_relD(3) [OF q(1)]
      by simp
    moreover have "or_rel (gr_my_id z) (store_own ?ack (q\<lparr>or_clock := or_clock q + 1\<rparr>)) ?f"
      using own_rel [OF q(1), of ?ack "or_clock q + 1"] ff_own_absent [of ?ack f] z(1)
      by (simp add: quiet_def new_control_def Let_def)
    ultimately show ?thesis
      using run ob env found z(3) member
      by (simp add: process_ready_def gr_process_remote_def bindE_def renameE_def pure_def ret_def Let_def
          gr_members_def)
  qed
  then obtain z' where "gr_receive G z env w =
      (Ok (z', Some (group_output_new [EvControl ?ack] (gr_members z) (gr_members z'))), w2)"
      "or_rel (gr_my_id z) (gr_orderer z') ?f" "?Q z'"
    using receive_single [OF z(1,2), of G w "Some (EvControl ?ack)" w2 ?f ?Q] z
    by (auto simp: quiet_def)
  moreover have "eg_content ?ack = Control c1" "eg_sender ?ack = gr_my_id z" by (simp_all add: new_control_def Let_def)
  ultimately show ?thesis using z(1) by (auto simp: quiet_def group_output_new_def)
qed

section \<open>A refresh and the messages after it\<close>

definition gr_refresh ::
  "'r gkit \<Rightarrow> group_state \<Rightarrow> control_message \<Rightarrow> ('r world, group_error, group_state \<times> envelope) eff" where
  "gr_refresh G y c =
     (case c of CtlUpdate \<Rightarrow> gr_update G y | CtlRemove p \<Rightarrow> gr_remove G y p | _ \<Rightarrow> pure Panic)"

lemma refresh_parts:
  assumes "gr_refresh G y c w = (Ok (y1, env), w1)"
  shows "\<exists>d pre w0. dc_refresh (gk_kit G) (gr_dcgka y) c w = (Ok (d, pre), w0)
    \<and> gr_process_local G (y\<lparr>gr_dcgka := d\<rparr>) pre w0 = (Ok (y1, env), w1)"
  using assms
  by (cases c) (auto simp: gr_refresh_def gr_update_def gr_remove_def dc_refresh_def pure_def raise_def
      split: if_splits)

lemma refresh_control: "dc_refresh E y c w = (Ok (d, pre), w0) \<Longrightarrow> op_control_message pre = c"
  by (cases c) (auto simp: dc_refresh_def dc_update_def dc_remove_def pure_def Let_def)

text \<open>
  What two members of a group have in common before a refresh: the first is about to start
  it, the second has processed everything it was sent.
\<close>

definition group_pair ::
  "'r gkit \<Rightarrow> 'r world \<Rightarrow> group_state \<Rightarrow> peer_id \<Rightarrow> 'r gkit \<Rightarrow> 'r world \<Rightarrow> group_state \<Rightarrow> peer_id \<Rightarrow>
   peer_id set \<Rightarrow> (peer_id \<Rightarrow> bytes) \<Rightarrow> control_message fifo \<Rightarrow> bool" where
  "group_pair Ga wa ya a Gb wb yb b M ids f \<longleftrightarrow>
     paired (gk_kit Ga) wa (gr_dcgka ya) a (gk_kit Gb) wb (gr_dcgka yb) b M ids
     \<and> kit_checked (gk_kit Gb) = kit_checked (gk_kit Ga) \<and> gk_dec_dm Gb = gk_dec_dm Ga
     \<and> gr_my_id ya = a \<and> or_my_id (gr_orderer ya) = a \<and> gr_my_id yb = b \<and> quiet yb f
     \<and> or_clock (gr_orderer yb) \<noteq> - 1
     \<and> (\<forall>s. dc_two_party (gr_dcgka ya) b = Some s \<longrightarrow> sm_our_next_key_index s \<noteq> - 1)"

lemma refresh_received:
  assumes P: "prims_ok (kit_prims (gk_kit Ga))" and K: "plaintext_codec_ok (kit_plain (gk_kit Ga))"
    and D: "dm_codec_ok Ga" and pair: "group_pair Ga wa ya a Gb wb yb b M ids f"
    and c: "refresh_of c M" and stay: "a \<in> members_after c M" "b \<in> members_after c M"
    and started: "gr_refresh Ga ya c wa = (Ok (ya1, env), wa1)" and new: "eg_id env \<notin> ff_known f"
  shows "\<exists>yb1 ack out. gr_receive Gb yb env wb = (Ok (yb1, Some out), wb) \<and> go_events out = [EvControl ack]
    \<and> eg_content ack = Control (CtlAck a (eg_id env)) \<and> eg_sender ack = b
    \<and> quiet yb1 (f\<lparr>ff_known := insert (control_id Gb (CtlAck a (eg_id env))) (ff_known f)\<rparr>)
    \<and> in_step ya1 yb1 a \<and> gr_my_id yb1 = b \<and> or_my_id (gr_orderer ya1) = a
    \<and> gr_members yb1 = members_after c M"
proof -
  note p = pair [unfolded group_pair_def]
  obtain d pre w0 where parts: "dc_refresh (gk_kit Ga) (gr_dcgka ya) c wa = (Ok (d, pre), w0)"
      "gr_process_local Ga (ya\<lparr>gr_dcgka := d\<rparr>) pre w0 = (Ok (ya1, env), wa1)"
    using refresh_parts [OF started] by blast
  obtain y1 where stamp: "stamp_control Ga (op_control_message pre) (op_direct_messages pre) (ya\<lparr>gr_dcgka := d\<rparr>)
      = Ok (y1, env)"
    using parts(2) by (auto simp: gr_process_local_def pure_def split: option.splits)
  note sent = stamped_direct_messages [OF D _ refresh_two_party [OF parts(1)] stamp, of Gb]
  obtain d2 k1 dm db ob k2 d3 where
    recipients: "distinct (map dm_recipient (op_direct_messages pre))"
    and local: "process_local (gk_kit Ga) d (eg_id env) pre w0 = (Ok (d2, pre\<lparr>op_me_update_secret := Some k1\<rparr>), w0)"
    and dm: "dm \<in> set (op_direct_messages pre)" "dm_recipient dm = b"
    and remote: "process_remote (gk_kit Gb) (gr_dcgka yb) \<lparr>in_seq = eg_id env, in_sender = a,
        in_control_message = op_control_message pre, in_direct_message = Some dm\<rparr> wb = (Ok (db, ob), wb)"
    and ob: "po_control_message ob = Some (CtlAck a (eg_id env))" "po_sender_update_secret ob = Some k1"
      "po_me_update_secret ob = Some k2"
    and again: "paired (gk_kit Ga) w0 d3 a (gk_kit Gb) wb db b (members_after c M) ids"
    using refresh_round [OF P K _ c stay _ parts(1), of "gk_kit Gb" wb "gr_dcgka yb" ids "eg_id env" undefined] p
    by blast
  have db: "ms_members (dc_dgm db) = members_after c M"
    using again by (auto simp: paired_def at_member_def)
  have ya1: "gr_ratchet ya1 = Some (ratchet_init k1)" "or_my_id (gr_orderer ya1) = a"
    using parts(2) stamp local sent p
    by (auto simp: gr_process_local_def bindE_def renameE_def pure_def ret_def store_own_def)
  have "List.find (\<lambda>dm. dm_recipient dm = gr_my_id yb) (direct_messages Gb env) = Some dm"
    using find_recipient [OF dm(1) recipients dm(2)] sent p by simp
  moreover have env: "eg_sender env = a" "eg_content env = Control c" "\<not> is_create env"
    using sent refresh_control [OF parts(1)] p c by (auto simp: is_create_def refresh_of_def)
  moreover have "b \<in> member_view db b" using db stay by (simp add: member_view_def dgm_members_view_def)
  ultimately obtain yb1 ack out where rcv: "gr_receive Gb yb env wb = (Ok (yb1, Some out), wb)"
    "go_events out = [EvControl ack]" "eg_content ack = Control (CtlAck a (eg_id env))" "eg_sender ack = b"
    "quiet yb1 (f\<lparr>ff_known := insert (control_id Gb (CtlAck a (eg_id env))) (ff_known f)\<rparr>)"
    and yb1: "gr_decryption yb1 a = Some (decryption_init k1)" "gr_my_id yb1 = b" "gr_dcgka yb1 = db"
    using control_received [of yb f env a c Gb "Some dm" wb db ob wb "CtlAck a (eg_id env)" k1 k2]
      p new remote ob refresh_control [OF parts(1)] pair [unfolded group_pair_def paired_def] by auto
  have "in_step ya1 yb1 a" using ya1(1) yb1(1) by (simp add: in_step_def decryption_init_def)
  with rcv yb1 ya1(2) db show ?thesis by (auto simp: gr_members_def member_view_def dgm_members_view_def)
qed

section \<open>Properties\<close>

text \<open>
  C1. Delivery in a group.  A member starts a refresh of the group's keys, by an update or by
  the removal of a member, and then sends any number of application messages.  Another
  member that stays receives the envelopes in order, obtains exactly the plaintexts, answers
  the refresh with an acknowledgement, and sees the members that stay.

  This holds under conditions.  Before the refresh the two members agree on the members and
  on each other's ratchets, and their two-party session has no message in flight.  The
  receiver is welcomed and has no message waiting in its orderer, and it receives the
  envelopes in the order of sending with nothing in between.  It has not stored an
  envelope with the content of one that it receives.  The last condition fails for example
  when it has sent an update itself, and the envelope is then lost.
\<close>

theorem group_delivery:
  assumes "prims_ok (kit_prims (gk_kit Ga))" and "plaintext_codec_ok (kit_plain (gk_kit Ga))"
    and "dm_codec_ok Ga" and "group_pair Ga wa ya a Gb wb yb b M ids f"
    and "refresh_of c M" and "a \<in> members_after c M" "b \<in> members_after c M"
    and "gr_refresh Ga ya c wa = (Ok (ya1, env), wa1)" and "eg_id env \<notin> ff_known f"
    and sends: "gr_sends Ga ya1 pts = Ok (ya2, envs)"
    and fresh: "\<forall>e \<in> set envs. eg_id e \<notin> insert (control_id Gb (CtlAck a (eg_id env))) (ff_known f)"
  shows "\<exists>yb2 ack. receive_all Gb yb (env # envs) wb =
        (Ok (yb2, EvControl ack # map2 (\<lambda>pt e. EvApplication pt (eg_id e)) pts envs), wb)
      \<and> eg_content ack = Control (CtlAck a (eg_id env)) \<and> gr_members yb2 = members_after c M"
proof -
  obtain yb1 ack out where first: "gr_receive Gb yb env wb = (Ok (yb1, Some out), wb)"
      "go_events out = [EvControl ack]" "eg_content ack = Control (CtlAck a (eg_id env))"
    and yb1: "quiet yb1 (f\<lparr>ff_known := insert (control_id Gb (CtlAck a (eg_id env))) (ff_known f)\<rparr>)"
      "in_step ya1 yb1 a" "gr_my_id yb1 = b" "or_my_id (gr_orderer ya1) = a" "gr_members yb1 = members_after c M"
    using refresh_received [OF assms(1-9)] by blast
  have "kit_checked (gk_kit Gb) = kit_checked (gk_kit Ga)" "kit_prims (gk_kit Gb) = kit_prims (gk_kit Ga)" "a \<noteq> b"
    using assms(4) by (auto simp: group_pair_def paired_def)
  from sends_received [OF this(1,2) prims_okD(2) [OF assms(1)] sends yb1(2,1,4), of wb] this(3) yb1(3) fresh
  obtain yb2 where
    "receive_all Gb yb1 envs wb = (Ok (yb2, map2 (\<lambda>pt e. EvApplication pt (eg_id e)) pts envs), wb)"
    "gr_members yb2 = gr_members yb1"
    by auto
  with first yb1(5) show ?thesis by (auto simp: bindE_def ret_def)
qed

text \<open>
  An encoding of direct messages as a sequence of chunks, each byte after a one and each
  chunk closed by a zero; an index is encoded by its length.
\<close>

fun enc_chunk :: "bytes \<Rightarrow> bytes" where
  "enc_chunk [] = [0]"
| "enc_chunk (b # bs) = 1 # b # enc_chunk bs"

fun dec_chunks :: "bytes \<Rightarrow> bytes \<Rightarrow> bytes list" where
  "dec_chunks acc (x # b # bs) =
     (if x = 0 then acc # dec_chunks [] (b # bs) else dec_chunks (acc @ [b]) bs)"
| "dec_chunks acc [x] = (if x = 0 then [acc] else [])"
| "dec_chunks acc [] = []"

lemma dec_chunk: "dec_chunks acc (enc_chunk c @ r) = (acc @ c) # dec_chunks [] r"
proof (induction c arbitrary: acc)
  case Nil
  then show ?case by (cases r) simp_all
next
  case (Cons b c)
  then show ?case by simp
qed

lemma dec_enc_chunks: "dec_chunks [] (concat (map enc_chunk cs)) = cs"
  by (induction cs) (simp_all add: dec_chunk)

definition enc_index :: "u64 \<Rightarrow> bytes" where
  "enc_index i = replicate (unat i) 0"

definition key_used_chunk :: "key_used \<Rightarrow> bytes" where
  "key_used_chunk k = (case k of PreKeyUsed \<Rightarrow> [1] | ReceivedKey \<Rightarrow> [2] | OwnKey i \<Rightarrow> 3 # enc_index i)"

definition cipher_chunks :: "two_party_ciphertext \<Rightarrow> bytes list" where
  "cipher_chunks c =
     (case c of
        CPreKey x \<Rightarrow> [xc_identity_key x, case xc_onetime_prekey_id x of None \<Rightarrow> [] | Some i \<Rightarrow> 1 # enc_index i,
                      xc_prekey_id x, xc_ciphertext x, xc_ephemeral_key x]
      | CHpke h \<Rightarrow> [hc_kem_output h, hc_ciphertext h])"

definition demo_enc_dm :: "direct_message \<Rightarrow> string + bytes" where
  "demo_enc_dm dm =
     (case dm_content dm of
        DcTwoParty m \<Rightarrow> Inr (concat (map enc_chunk
          (dm_recipient dm # key_used_chunk (tm_key_used m) # cipher_chunks (tm_ciphertext m))))
      | _ \<Rightarrow> Inl ''unsupported'')"

definition dec_key_used :: "bytes \<Rightarrow> key_used" where
  "dec_key_used b = (if hd b = 1 then PreKeyUsed else if hd b = 2 then ReceivedKey else OwnKey (of_nat (length (tl b))))"

definition dec_cipher :: "bytes list \<Rightarrow> two_party_ciphertext" where
  "dec_cipher cs =
     (case cs of
        [i, p, k, c, e] \<Rightarrow> CPreKey \<lparr>xc_identity_key = i,
          xc_onetime_prekey_id = (case p of [] \<Rightarrow> None | _ # u \<Rightarrow> Some (of_nat (length u))),
          xc_prekey_id = k, xc_ciphertext = c, xc_ephemeral_key = e\<rparr>
      | _ \<Rightarrow> CHpke \<lparr>hc_kem_output = cs ! 0, hc_ciphertext = cs ! 1\<rparr>)"

definition demo_dec_dm :: "bytes \<Rightarrow> string + direct_message" where
  "demo_dec_dm b =
     (case dec_chunks [] b of
        r # k # cs \<Rightarrow> Inr \<lparr>dm_recipient = r, dm_content =
          DcTwoParty \<lparr>tm_ciphertext = dec_cipher cs, tm_key_used = dec_key_used k\<rparr>\<rparr>
      | _ \<Rightarrow> Inl ''chunks'')"

definition demo_content :: "control_message group_content \<Rightarrow> string + bytes" where
  "demo_content content =
     (case content of
        Control c \<Rightarrow> Inr (case c of CtlUpdate \<Rightarrow> [1] | CtlRemove p \<Rightarrow> 2 # p | CtlAck _ _ \<Rightarrow> [3] | _ \<Rightarrow> [0])
      | Application ct _ \<Rightarrow> Inr (4 # ct))"

definition demo_gkit :: "nat gkit" where
  "demo_gkit = \<lparr>gk_kit = demo_kit, gk_crypto = demo_crypto, gk_content = demo_content,
     gk_enc_dm = demo_enc_dm, gk_dec_dm = demo_dec_dm, gk_order = (\<lambda>_. [])\<rparr>"

lemma demo_dm_codec_ok: "dm_codec_ok demo_gkit"
proof -
  have index: "of_nat (length (enc_index i)) = i" for i by (simp add: enc_index_def)
  have "dec_key_used (key_used_chunk k) = k" for k
    using index by (cases k) (simp_all add: dec_key_used_def key_used_chunk_def)
  moreover have "dec_cipher (cipher_chunks c) = c" for c
    using index by (cases c) (auto simp: dec_cipher_def cipher_chunks_def split: option.splits)
  ultimately show ?thesis
    by (auto simp: dm_codec_ok_def demo_gkit_def demo_enc_dm_def demo_dec_dm_def two_party_dm_def
        dec_chunk dec_enc_chunks split: direct_message_content.splits)
qed

definition demo_sender :: group_state where
  "demo_sender = (gr_init [10] (demo_manager 10) (ms_new [10] [[20], [30]]) (or_new [10]) default_config)
     \<lparr>gr_dcgka := demo_member 10 20, gr_ratchet := Some (ratchet_init [])\<rparr>"

definition demo_welcome :: envelope where
  "demo_welcome = new_control demo_crypto demo_content [10] (CtlCreate [[10], [20], [30]]) []"

definition demo_receiver :: group_state where
  "demo_receiver = (gr_init [20] (demo_manager 20) (ms_new [10] [[20], [30]]) (set_welcome demo_welcome (or_new [20])) default_config)
     \<lparr>gr_dcgka := demo_member 20 10, gr_ratchet := Some (ratchet_init []), gr_welcome := Some demo_welcome\<rparr>"

definition demo_known :: "control_message fifo" where
  "demo_known = \<lparr>ff_queue = [], ff_known = {eg_id demo_welcome}, ff_welcome = Some (eg_id demo_welcome)\<rparr>"

lemma demo_group_pair:
  "group_pair demo_gkit demo_world demo_sender [10] demo_gkit demo_world demo_receiver [20]
     {[10], [20], [30]} (\<lambda>m. replicate 32 (hd m)) demo_known"
proof -
  have "or_rel [20] (set_welcome demo_welcome (or_new [20])) demo_known"
    using welcome_rel [OF or_rel_new [of "[20]"], of demo_welcome undefined undefined]
    by (simp add: ff_empty_def demo_known_def)
  then show ?thesis
    using demo_paired
    by (simp add: group_pair_def quiet_def demo_gkit_def demo_sender_def demo_receiver_def gr_init_def demo_known_def
        or_new_def set_welcome_def demo_member_def sm_init_def)
qed

lemma demo_refresh:
  "\<exists>y1 env w1 k. gr_refresh demo_gkit demo_sender (CtlRemove [30]) demo_world = (Ok (y1, env), w1)
     \<and> eg_id env = control_id demo_gkit (CtlRemove [30]) \<and> gr_ratchet y1 = Some (ratchet_init k)
     \<and> or_clock (gr_orderer y1) = 2"
proof -
  obtain d pre w1 where run: "dc_refresh demo_kit (demo_member 10 20) (CtlRemove [30]) demo_world = (Ok (d, pre), w1)"
    using demo_removal by blast
  obtain env where env: "stamp_control demo_gkit (op_control_message pre) (op_direct_messages pre)
      (demo_sender\<lparr>gr_dcgka := d\<rparr>)
      = Ok (demo_sender\<lparr>gr_dcgka := d, gr_orderer := store_own env ((or_new [10])\<lparr>or_clock := 2\<rparr>)\<rparr>, env)"
    "eg_id env = control_id demo_gkit (CtlRemove [30])"
    using stamp_control_ok [of "demo_sender\<lparr>gr_dcgka := d\<rparr>" _ demo_gkit] refresh_control [OF run]
    by (auto simp: demo_sender_def gr_init_def or_new_def new_control_def Let_def)
  have "prims_ok (kit_prims demo_kit)" "plaintext_codec_ok (kit_plain demo_kit)"
    by (simp_all add: demo_kit_def demo_prims_ok demo_plain_codec_ok)
  moreover have "refresh_of (CtlRemove [30]) {[10], [20], [30]}"
    "members_after (CtlRemove [30]) {[10], [20], [30]} = {[10], [20]}"
    by (auto simp: refresh_of_def members_after_def)
  moreover have "\<forall>s. dc_two_party (demo_member 10 20) [20] = Some s \<longrightarrow> sm_our_next_key_index s \<noteq> - 1"
    by (simp add: demo_member_def sm_init_def)
  ultimately obtain d2 k where
    "process_local demo_kit d (eg_id env) pre w1 = (Ok (d2, pre\<lparr>op_me_update_secret := Some k\<rparr>), w1)"
    using refresh_round [OF _ _ demo_paired _ _ _ _ run, of "eg_id env" "[]"] by auto
  moreover have "[30] \<in> gr_members demo_sender" "gr_ratchet demo_sender \<noteq> None"
    "gr_dcgka demo_sender = demo_member 10 20" "gk_kit demo_gkit = demo_kit"
    by (simp_all add: demo_sender_def gr_members_def member_view_def dgm_members_view_def demo_member_def dc_init_def
        demo_trio demo_gkit_def)
  ultimately show ?thesis
    using run env unfolding gr_refresh_def gr_remove_def gr_process_local_def dc_refresh_def
    by (simp add: bindE_def renameE_def pure_def ret_def store_own_def) blast
qed

lemma demo_send:
  assumes "gr_ratchet y = Some (ratchet_init k)" and "or_clock (gr_orderer y) \<noteq> - 1"
  shows "\<exists>y' e t. gr_sends demo_gkit y [[42]] = Ok (y', [e])
    \<and> eg_id e = content_id demo_crypto demo_content (Application [42, t] 0)"
proof -
  obtain r g key where fwd: "ratchet_forward True demo_prims (ratchet_init k) = Ok (r, g, key)"
    using ratchet_forward_at [OF prims_okD(1) [OF demo_prims_ok], of 0 True k] by (auto simp: ratchet_at_0)
  then have g: "g = 0" by (auto simp: ratchet_forward_def ratchet_init_def split: if_splits)
  obtain t where "encrypt_message demo_prims [42] key = Ok [42, t]"
    by (cases key) (auto simp: encrypt_message_def aead_encrypt_def demo_prims_def)
  with fwd g assms show ?thesis
    by (simp add: gr_send_def gr_encrypt_def demo_gkit_def demo_kit_def next_application_message_def clock_tick_def
        clock_add_def Let_def new_application_def) blast
qed

lemma demo_ids:
  "control_id demo_gkit (CtlRemove [30]) \<notin> ff_known demo_known"
  "content_id demo_crypto demo_content (Application [42, t] 0)
     \<notin> insert (control_id demo_gkit (CtlAck a i)) (ff_known demo_known)"
  by (simp_all add: demo_known_def demo_welcome_def demo_gkit_def new_control_def content_id_def demo_content_def
      demo_crypto_def Let_def take_Cons')

theorem group_delivery_witness:
  "\<exists>y1 env w1 y2 e yb2 ack.
     gr_refresh demo_gkit demo_sender (CtlRemove [30]) demo_world = (Ok (y1, env), w1)
     \<and> gr_sends demo_gkit y1 [[42]] = Ok (y2, [e])
     \<and> receive_all demo_gkit demo_receiver [env, e] demo_world =
         (Ok (yb2, [EvControl ack, EvApplication [42] (eg_id e)]), demo_world)
     \<and> gr_members yb2 = {[10], [20]}"
proof -
  obtain y1 env w1 k where run: "gr_refresh demo_gkit demo_sender (CtlRemove [30]) demo_world = (Ok (y1, env), w1)"
    and env: "eg_id env = control_id demo_gkit (CtlRemove [30])"
    and y1: "gr_ratchet y1 = Some (ratchet_init k)" "or_clock (gr_orderer y1) = 2"
    using demo_refresh by blast
  obtain y2 e t where send: "gr_sends demo_gkit y1 [[42]] = Ok (y2, [e])"
    and e: "eg_id e = content_id demo_crypto demo_content (Application [42, t] 0)"
    using demo_send [OF y1(1)] y1(2) by auto
  have "prims_ok (kit_prims (gk_kit demo_gkit))" "plaintext_codec_ok (kit_plain (gk_kit demo_gkit))"
    by (simp_all add: demo_gkit_def demo_kit_def demo_prims_ok demo_plain_codec_ok)
  moreover have "refresh_of (CtlRemove [30]) {[10], [20], [30]}"
    "members_after (CtlRemove [30]) {[10], [20], [30]} = {[10], [20]}"
    by (auto simp: refresh_of_def members_after_def)
  ultimately show ?thesis
    using group_delivery [OF _ _ demo_dm_codec_ok demo_group_pair _ _ _ run _ send] env e demo_ids run send
    by (auto simp del: receive_all.simps gr_sends.simps)
qed

end
