(* ===== verification/Encryption_State_Inv.thy ===== *)
theory Encryption_State_Inv
  imports Encryption_State Message_Group_Delivery
begin

text \<open>
  What the stored groups promise: a mutation (a member added or removed, the keys rotated, a
  role changed) commits the state and the roles together and installs exactly what it
  committed, or leaves the tables; and what was committed is what a restart loads.
  \<open>keeps\<close> and \<open>fails_in\<close> are frame rules for effects: what an effect leaves alone always,
  and what it leaves true when it fails.
\<close>

section \<open>The members after a local operation\<close>

lemma foldE_keeps:
  assumes "\<And>x s s' w w'. f x s w = (Ok s', w') \<Longrightarrow> view s' = view s"
  shows "foldE f xs s w = (Ok s', w') \<Longrightarrow> view s' = view s"
  by (induction xs arbitrary: s w) (auto dest!: assms)

lemma encrypt_to_dgm: "encrypt_to E y p pt w = (Ok (y', m), w') \<Longrightarrow> dc_dgm y' = dc_dgm y \<and> dc_my_id y' = dc_my_id y"
  by (auto simp: encrypt_to_def)

lemma generate_seed_dgm:
  assumes "generate_seed E y ps w = (Ok (y', dms), w')"
  shows "dc_dgm y' = dc_dgm y \<and> dc_my_id y' = dc_my_id y"
proof -
  have "seed_to E seed p s w = (Ok s', w') \<Longrightarrow> (dc_dgm (fst s'), dc_my_id (fst s')) = (dc_dgm (fst s), dc_my_id (fst s))"
    for seed p s s' and w w' :: "'a world"
    by (cases s) (auto simp: seed_to_def dest!: encrypt_to_dgm split: if_splits)
  from foldE_keeps [where view = "\<lambda>s. (dc_dgm (fst s), dc_my_id (fst s))", OF this] assms show ?thesis
    by (fastforce simp: generate_seed_def)
qed

lemma update_ratchet_dgm: "update_ratchet E y p s w = (Ok (y', u), w') \<Longrightarrow> dc_dgm y' = dc_dgm y \<and> dc_my_id y' = dc_my_id y"
  by (auto simp: update_ratchet_def Let_def)

lemma store_secrets_dgm:
  assumes "foldE (store_member_secret E a q seed) ps y w = (Ok y', w')"
  shows "dc_dgm y' = dc_dgm y \<and> dc_my_id y' = dc_my_id y"
proof -
  have "store_member_secret E a q seed p y w = (Ok y', w') \<Longrightarrow> (dc_dgm y', dc_my_id y') = (dc_dgm y, dc_my_id y)"
    for p y y' and w w' :: "'a world" by (auto simp: store_member_secret_def)
  from foldE_keeps [where view = "\<lambda>y. (dc_dgm y, dc_my_id y)", OF this assms] show ?thesis by simp
qed

lemma own_seed_dgm:
  assumes "process_seed E y me seq dm w = (Ok (y', out), w')" and me: "me = dc_my_id y"
  shows "dc_dgm y' = dc_dgm y"
  using assms(1) unfolding process_seed_def obtain_seed_def Let_def me
  by (cases "dc_next_seed y") (auto dest!: store_secrets_dgm update_ratchet_dgm)

fun members_by :: "control_message \<Rightarrow> peer_id \<Rightarrow> peer_id set \<Rightarrow> peer_id set" where
  "members_by (CtlCreate ms) me M = insert me (set ms)"
| "members_by (CtlAdd p) me M = insert p M"
| "members_by (CtlRemove p) me M = M - {p}"
| "members_by _ me M = M"

lemma process_local_members:
  assumes "process_local E y seq out w = (Ok (y', out'), w')"
  shows "ms_members (dc_dgm y') = members_by (op_control_message out) (dc_my_id y) (ms_members (dc_dgm y))"
proof (cases "op_control_message out")
  case (CtlCreate ms)
  with assms own_seed_dgm [of E "y\<lparr>dc_dgm := d\<rparr>" for d] show ?thesis
    by (fastforce simp: process_local_def process_create_def dgm_create_def ms_new_def Let_def split: if_splits option.splits)
next
  case CtlUpdate
  with assms own_seed_dgm show ?thesis
    by (fastforce simp: process_local_def process_update_def Let_def split: if_splits option.splits)
next
  case (CtlRemove p)
  with assms own_seed_dgm [of E "y\<lparr>dc_dgm := d\<rparr>" for d] show ?thesis
    by (fastforce simp: process_local_def process_remove_def dgm_remove_def Let_def split: if_splits option.splits)
next
  case (CtlAdd p)
  with assms show ?thesis
    by (auto simp: process_local_def process_add_def dgm_add_def Let_def split: if_splits option.splits dest!: update_ratchet_dgm)
qed (use assms in \<open>auto simp: process_local_def Let_def\<close>)

lemma gr_members_eq: "gr_members y = ms_members (dc_dgm (gr_dcgka y))"
  by (simp add: gr_members_def member_view_def dgm_members_view_def)

lemma stamp_control_dcgka: "stamp_control G c dms y = Ok (y', env) \<Longrightarrow> gr_dcgka y' = gr_dcgka y"
  by (auto simp: stamp_control_def split: option.splits)

lemma gr_process_local_members:
  assumes "gr_process_local G y out w = (Ok (y', env), w')"
  shows "gr_members y' = members_by (op_control_message out) (dc_my_id (gr_dcgka y)) (gr_members y)"
proof -
  obtain y1 d out1 w1 where "stamp_control G (op_control_message out) (op_direct_messages out) y = Ok (y1, env)"
    and "process_local (gk_kit G) (gr_dcgka y1) (eg_id env) out w = (Ok (d, out1), w1)" and "gr_dcgka y' = d"
    using assms unfolding gr_process_local_def by (auto split: option.splits)
  then show ?thesis by (simp add: gr_members_eq stamp_control_dcgka process_local_members)
qed

lemma gr_add_members:
  assumes "gr_add G y p w = (Ok (y', env), w')"
  shows "gr_members y' = insert p (gr_members y)"
proof -
  obtain d out w1 where dc: "dc_add (gk_kit G) (gr_dcgka y) p w = (Ok (d, out), w1)"
    and run: "gr_process_local G (y\<lparr>gr_dcgka := d\<rparr>) out w1 = (Ok (y', env), w')"
    using assms by (auto simp: gr_add_def split: if_splits)
  from dc have "dc_dgm d = dc_dgm (gr_dcgka y)" "op_control_message out = CtlAdd p"
    by (auto simp: dc_add_def dest!: encrypt_to_dgm)
  with gr_process_local_members [OF run] show ?thesis by (simp add: gr_members_eq)
qed

lemma gr_remove_members:
  assumes "gr_remove G y p w = (Ok (y', env), w')"
  shows "gr_members y' = gr_members y - {p}"
proof -
  obtain d out w1 where dc: "dc_remove (gk_kit G) (gr_dcgka y) p w = (Ok (d, out), w1)"
    and run: "gr_process_local G (y\<lparr>gr_dcgka := d\<rparr>) out w1 = (Ok (y', env), w')"
    using assms by (auto simp: gr_remove_def split: if_splits)
  from dc have "dc_dgm d = dc_dgm (gr_dcgka y)" "op_control_message out = CtlRemove p"
    by (auto simp: dc_remove_def Let_def dest!: generate_seed_dgm)
  with gr_process_local_members [OF run] show ?thesis by (simp add: gr_members_eq)
qed

lemma gr_update_members:
  assumes "gr_update G y w = (Ok (y', env), w')"
  shows "gr_members y' = gr_members y"
proof -
  obtain d out w1 where dc: "dc_update (gk_kit G) (gr_dcgka y) w = (Ok (d, out), w1)"
    and run: "gr_process_local G (y\<lparr>gr_dcgka := d\<rparr>) out w1 = (Ok (y', env), w')"
    using assms by (auto simp: gr_update_def split: if_splits)
  from dc have "dc_dgm d = dc_dgm (gr_dcgka y)" "op_control_message out = CtlUpdate"
    by (auto simp: dc_update_def Let_def dest!: generate_seed_dgm)
  with gr_process_local_members [OF run] show ?thesis by (simp add: gr_members_eq)
qed

lemma set_dedup_members: "set (dedup_members ms) = set ms"
proof -
  have "set (foldl (\<lambda>acc i. if i \<in> set acc then acc else acc @ [i]) acc ms) = set acc \<union> set ms" for acc
    by (induction ms arbitrary: acc) (auto simp: insert_absorb)
  from this [of "[]"] show ?thesis by (simp add: dedup_members_def)
qed

lemma gr_create_members:
  assumes "gr_create G y ms w = (Ok (y', env), w')"
  shows "gr_members y' = insert (dc_my_id (gr_dcgka y)) (set ms)"
proof -
  obtain d out w1 y1 where dc: "dc_create (gk_kit G) (gr_dcgka y) ms w = (Ok (d, out), w1)"
    and run: "gr_process_local G (y\<lparr>gr_dcgka := d\<rparr>) out w1 = (Ok (y1, env), w')" and "gr_dcgka y' = gr_dcgka y1"
    using assms by (auto simp: gr_create_def split: if_splits)
  from dc obtain members where "op_control_message out = CtlCreate members" "dc_my_id d = dc_my_id (gr_dcgka y)"
    "insert (dc_my_id (gr_dcgka y)) (set members) = insert (dc_my_id (gr_dcgka y)) (set ms)"
    by (auto simp: dc_create_def Let_def set_dedup_members dest!: generate_seed_dgm split: if_splits)
  with gr_process_local_members [OF run] \<open>gr_dcgka y' = gr_dcgka y1\<close> show ?thesis by (simp add: gr_members_eq)
qed

section \<open>Frames\<close>

text \<open>What an effect leaves alone, whatever its outcome.\<close>

definition keeps :: "('w \<Rightarrow> 'v) \<Rightarrow> ('w, 'e, 'a) eff \<Rightarrow> bool" where
  "keeps view m \<longleftrightarrow> (\<forall>w. view (snd (m w)) = view w)"

named_theorems keeping

lemma keepsD: "keeps view m \<Longrightarrow> m w = (r, w') \<Longrightarrow> view w' = view w"
  unfolding keeps_def by (metis snd_conv)

lemma keeps_snd: "keeps view m \<Longrightarrow> view (snd (m w)) = view w"
  by (simp add: keeps_def)

lemma keeps_bindE [keeping]: "keeps view m \<Longrightarrow> (\<And>a. keeps view (f a)) \<Longrightarrow> keeps view (bindE m f)"
  unfolding keeps_def bindE_def by (auto split: prod.splits outcome.splits) (metis snd_conv)+

lemma keeps_renameE [keeping]: "keeps view m \<Longrightarrow> keeps view (renameE h m)"
  by (auto simp: keeps_def renameE_def split: prod.splits) (metis snd_conv)

lemma keeps_pure [keeping]: "keeps view (pure r)" "keeps view (ret a)" "keeps view (raise e)" "keeps view (guard b e)"
  by (auto simp: keeps_def pure_def ret_def raise_def guard_def)

lemma keeps_look [keeping]: "keeps view (look f)"
  by (simp add: keeps_def look_def)

abbreviation tables :: "store_db \<Rightarrow> (group_id \<rightharpoonup> state_row) \<times> (group_id \<rightharpoonup> roles_row)" where
  "tables d \<equiv> (sd_states d, sd_roles d)"

lemma keeps_sql [keeping]: "keeps tables (sql e)"
  by (auto simp: keeps_def sql_def split: list.splits)

section \<open>The transaction\<close>

lemma transaction_result:
  assumes "transaction m d = (r, d')"
  shows "(\<exists>a. r = Ok a \<and> m d = (Ok a, d')) \<or> ((\<forall>a. r \<noteq> Ok a) \<and> tables d' = tables d)"
  using assms by (auto simp: transaction_def split: prod.splits outcome.splits)

text \<open>What a committed transaction has written.\<close>

definition committed ::
  "store_codec \<Rightarrow> int \<Rightarrow> group_id \<Rightarrow> group_state \<Rightarrow> role_map \<Rightarrow> peer_id option \<Rightarrow> u64 \<Rightarrow> store_db \<Rightarrow> store_db \<Rightarrow> bool" where
  "committed K now gid state roles self_id v d d' \<longleftrightarrow>
     v = stored_version gid d + 1
     \<and> (\<exists>blob rb. encode_envelope K state = Inr blob \<and> sc_enc_roles K roles = Inr rb
          \<and> sd_states d' = (sd_states d)(gid \<mapsto> \<lparr>sr_state = blob, sr_updated_at = now, sr_version = v\<rparr>)
          \<and> sd_roles d' = (sd_roles d)(gid \<mapsto> \<lparr>rr_roles = rb, rr_self_id = self_id\<rparr>))"

lemma stored_version_tables: "tables d = tables d' \<Longrightarrow> stored_version gid d = stored_version gid d'"
  by (simp add: stored_version_def)

lemma sql_Ok: "sql e d = (Ok u, d') \<Longrightarrow> sd_states d' = sd_states d \<and> sd_roles d' = sd_roles d"
  by (auto dest!: keepsD [OF keeps_sql])

lemma sum_case_Ok [simp]: "(case x of Inl z \<Rightarrow> Err (f z) | Inr b \<Rightarrow> Ok b) = Ok a \<longleftrightarrow> x = Inr a"
  by (cases x) auto

lemma look_eq [simp]: "look f d = (Ok a, d') \<longleftrightarrow> a = f d \<and> d' = d"
  by (auto simp: look_def)

lemma change_eq [simp]: "change f d = (Ok a, d') \<longleftrightarrow> d' = f d"
  by (auto simp: change_def)

lemma save_Ok:
  assumes "save_group_state_and_roles K now gid state roles self_id expected fault d = (Ok v, d')"
  shows "expected = stored_version gid d \<and> committed K now gid state roles self_id v d d'"
  using assms
  by (auto simp: save_group_state_and_roles_def committed_def stored_version_def
      dest!: sql_Ok transaction_result split: if_splits)

lemma save_not_Ok:
  assumes "save_group_state_and_roles K now gid state roles self_id expected fault d = (r, d')" and "\<And>v. r \<noteq> Ok v"
  shows "tables d' = tables d"
proof -
  consider "\<exists>e. sql TxIo d = (e, d')" | d1 where "sql TxIo d = (Ok (), d1)" "\<exists>e. sql TxIo d1 = (e, d')"
    | d1 d2 m where "sql TxIo d = (Ok (), d1)" "sql TxIo d1 = (Ok (), d2)" "transaction m d2 = (r, d')"
    using assms(1) unfolding save_group_state_and_roles_def bindE_def by (auto split: prod.splits outcome.splits)
  then show ?thesis
    by cases (use assms(2) in \<open>auto dest!: keepsD [OF keeps_sql] transaction_result\<close>)
qed

section \<open>Memory and tables\<close>

text \<open>The tables of the attached database.\<close>

definition stored :: "'r enc_state \<Rightarrow> ((group_id \<rightharpoonup> state_row) \<times> (group_id \<rightharpoonup> roles_row)) option" where
  "stored es = map_option tables (es_db es)"

lemma keeps_on_db [keeping]: "keeps tables m \<Longrightarrow> keeps stored (on_db m)"
  by (auto simp: keeps_def on_db_def stored_def split: option.splits prod.splits outcome.splits) (metis prod.inject snd_conv)+

lemma keeps_reads [keeping]: "keeps view (reads f)"
  by (simp add: keeps_def reads_def)

lemma keeps_writes [keeping]: "(\<And>es. view (f es) = view es) \<Longrightarrow> keeps view (writes f)"
  by (simp add: keeps_def writes_def)

lemma keeps_load_parts [keeping]:
  "keeps tables (load_group_state K gid)" "keeps tables (load_group_roles K gid)" "keeps tables (load_group_version gid)"
  unfolding load_group_state_def load_group_roles_def load_group_version_def
  by (auto intro!: keeping split: option.splits)

lemma stored_simps [simp]:
  "stored (es\<lparr>es_groups := a\<rparr>) = stored es" "stored (es\<lparr>es_roles := b\<rparr>) = stored es"
  "stored (es\<lparr>es_self := c\<rparr>) = stored es" "stored (es\<lparr>es_versions := v\<rparr>) = stored es"
  "stored (es\<lparr>es_env := r\<rparr>) = stored es" "stored (es\<lparr>es_registry := g\<rparr>) = stored es"
  by (simp_all add: stored_def)

lemma keeps_install [keeping]: "keeps stored (install_group K gid state)"
  unfolding install_group_def Let_def by (intro keeping) (simp split: option.splits)

lemma keeps_load [keeping]: "keeps stored (load_group_state_from_db K gid)"
  unfolding keeps_def
proof
  fix es :: "'a enc_state"
  obtain r es1 where load: "on_db (load_group_state K gid) es = (r, es1)" by fastforce
  then have "stored es1 = stored es" using keepsD [OF keeps_on_db [OF keeps_load_parts(1)]] by blast
  then show "stored (snd (load_group_state_from_db K gid es)) = stored es"
    using load unfolding load_group_state_from_db_def
    by (auto simp: keeps_snd [OF keeps_install] split: option.splits outcome.splits load_error.splits)
qed

lemma rollback_stored [simp]: "stored (rollback_group_state K gid backup es) = stored es"
  by (auto simp: rollback_group_state_def keeps_snd [OF keeps_load] split: sum.splits)

lemma keeps_with_pki [keeping]: "keeps stored (with_pki h m)"
  by (simp add: keeps_def with_pki_def split: prod.splits)

lemma on_db_cases:
  assumes "on_db m es = (r, es')" and "es_db es = Some d"
  obtains d1 where "m d = (r, d1)" and "stored es' = Some (tables d1)"
    and "es_groups es' = es_groups es" and "es_roles es' = es_roles es" and "es_self es' = es_self es"
    and "es_versions es' = es_versions es"
proof -
  obtain q d1 where "m d = (q, d1)" by fastforce
  with assms that [of d1] show ?thesis by (cases q) (auto simp: on_db_def stored_def)
qed

text \<open>Persisting a mutation commits it, or leaves the tables.\<close>

lemma persist_result:
  assumes "persist_group_mutation K now gid state roles expected fault es = (r, es')" and "es_db es = Some d"
  shows "es_groups es' = es_groups es \<and> es_roles es' = es_roles es \<and> es_self es' = es_self es \<and> es_versions es' = es_versions es
    \<and> (case r of
         Ok v \<Rightarrow> expected = stored_version gid d
           \<and> (\<exists>d'. stored es' = Some (tables d') \<and> committed K now gid state roles (es_self es gid) v d d')
       | _ \<Rightarrow> stored es' = stored es)"
proof (cases "sd_poisoned d")
  case True
  with assms show ?thesis by (auto simp: persist_group_mutation_def)
next
  case False
  let ?m = "save_group_state_and_roles K now gid state roles (es_self es gid) expected fault"
  obtain q where q: "on_db ?m es = (q, es')" and r: "r = rename EeGroupStateWrite q"
    using assms False by (auto simp: persist_group_mutation_def renameE_def split: prod.splits)
  from q assms(2) obtain d1 where d1: "?m d = (q, d1)" "stored es' = Some (tables d1)"
    "es_groups es' = es_groups es" "es_roles es' = es_roles es" "es_self es' = es_self es" "es_versions es' = es_versions es"
    by (rule on_db_cases)
  show ?thesis
  proof (cases q)
    case (Ok v)
    with d1 r save_Ok [of K now gid state roles "es_self es gid" expected fault d v d1] show ?thesis by auto
  next
    case (Err e)
    with d1 r save_not_Ok [OF d1(1)] assms(2) show ?thesis by (simp add: stored_def)
  next
    case Panic
    with d1 r save_not_Ok [OF d1(1)] assms(2) show ?thesis by (simp add: stored_def)
  qed
qed

definition registry_of :: "'r enc_state \<Rightarrow> pki_handle \<Rightarrow> registry" where
  "registry_of es h = (case h of SharedPki \<Rightarrow> es_registry es | OwnPki g \<Rightarrow> g)"

lemma registry_of_groups [simp]: "registry_of (es\<lparr>es_groups := g\<rparr>) h = registry_of es h"
  by (simp add: registry_of_def split: pki_handle.splits)

lemma with_pki_cases:
  assumes "with_pki h m es = (r, es')"
  obtains q w where "m \<lparr>w_env = es_env es, w_registry = registry_of es h\<rparr> = (q, w)"
    and "r = (case q of Ok a \<Rightarrow> Ok (a, case h of SharedPki \<Rightarrow> SharedPki | OwnPki _ \<Rightarrow> OwnPki (w_registry w)) | Err e \<Rightarrow> Err e | Panic \<Rightarrow> Panic)"
    and "es_db es' = es_db es" and "es_groups es' = es_groups es" and "es_roles es' = es_roles es" and "es_self es' = es_self es"
    and "es_versions es' = es_versions es"
  using assms by (auto simp: with_pki_def registry_of_def split: prod.splits)

text \<open>
  The shared second half of the membership operations: it commits the state and the mirror it
  installs in memory, from the version that is stored, or it leaves the tables.
\<close>

lemma apply_group_op_Ok:
  assumes "apply_group_op K now gid fault op new_roles es = (Ok (env, old, v), es')" and "es_db es = Some d"
  obtains state h state1 h1 w w1 d' where "es_groups es gid = Some (state, h)" and "op state w = (Ok (state1, env), w1)"
    and "w_registry w = registry_of es h"
    and "old = group_version es gid" and "old = stored_version gid d" and "stored es' = Some (tables d')"
    and "committed K now gid state1 (new_roles (role_mirror es gid)) (es_self es gid) v d d'"
    and "es_groups es' = (es_groups es)(gid \<mapsto> (state1, h1))"
    and "es_roles es' = (es_roles es)(gid \<mapsto> new_roles (role_mirror es gid))"
    and "es_versions es' = (es_versions es)(gid \<mapsto> v)" and "es_self es' = es_self es"
proof -
  obtain state h where group_at: "es_groups es gid = Some (state, h)"
    using assms by (auto simp: apply_group_op_def split: option.splits prod.splits)
  let ?es0 = "es\<lparr>es_groups := (es_groups es)(gid := None)\<rparr>"
  obtain state1 h1 es1 where op: "with_pki h (op state) ?es0 = (Ok ((state1, env), h1), es1)"
    and rest: "(case persist_group_mutation K now gid state1 (new_roles (role_mirror es1 gid)) (group_version es1 gid) fault es1 of
       (Ok v, es2) \<Rightarrow> (Ok (env, group_version es1 gid, v),
          es2\<lparr>es_groups := (es_groups es2)(gid \<mapsto> (state1, h1)), es_roles := (es_roles es2)(gid \<mapsto> new_roles (role_mirror es1 gid)),
              es_versions := (es_versions es2)(gid \<mapsto> v)\<rparr>)
     | (Err e, es2) \<Rightarrow> (Err e, es2) | (Panic, es2) \<Rightarrow> (Panic, es2)) = (Ok (env, old, v), es')"
    using assms group_at by (auto simp: apply_group_op_def Let_def split: sum.splits prod.splits outcome.splits)
  from op obtain w w1 where run: "op state w = (Ok (state1, env), w1)"
    and w: "w_registry w = registry_of es h"
    and es1: "es_db es1 = Some d" "es_groups es1 = (es_groups es)(gid := None)" "es_roles es1 = es_roles es" "es_self es1 = es_self es"
      "es_versions es1 = es_versions es"
    by (rule with_pki_cases) (use assms(2) in \<open>fastforce split: outcome.splits\<close>)
  then have same: "role_mirror es1 gid = role_mirror es gid" "group_version es1 gid = group_version es gid"
    by (simp_all add: role_mirror_def group_version_def)
  obtain r es2 where persist: "persist_group_mutation K now gid state1 (new_roles (role_mirror es gid)) (group_version es gid) fault es1 = (r, es2)"
    by fastforce
  with rest same obtain "r = Ok v" and "old = group_version es gid"
    and es': "es' = es2\<lparr>es_groups := (es_groups es2)(gid \<mapsto> (state1, h1)), es_roles := (es_roles es2)(gid \<mapsto> new_roles (role_mirror es gid)),
              es_versions := (es_versions es2)(gid \<mapsto> v)\<rparr>"
    by (auto split: outcome.splits)
  with persist_result [OF persist es1(1)] es1 that [OF group_at run w] show ?thesis by auto
qed

text \<open>A failed operation leaves the tables.\<close>

definition fails_in :: "('w \<Rightarrow> bool) \<Rightarrow> ('w, 'e, 'a) eff \<Rightarrow> bool" where
  "fails_in P m \<longleftrightarrow> (\<forall>w r w'. m w = (r, w') \<longrightarrow> (\<forall>a. r \<noteq> Ok a) \<longrightarrow> P w \<longrightarrow> P w')"

abbreviation clean :: "('w \<Rightarrow> 'v) \<Rightarrow> ('w, 'e, 'a) eff \<Rightarrow> bool" where
  "clean view m \<equiv> \<forall>v. fails_in (\<lambda>w. view w = v) m"

lemma fails_inD: "fails_in P m \<Longrightarrow> m w = (r, w') \<Longrightarrow> (\<And>a. r \<noteq> Ok a) \<Longrightarrow> P w \<Longrightarrow> P w'"
  unfolding fails_in_def by blast

lemma cleanD: "clean view m \<Longrightarrow> m w = (r, w') \<Longrightarrow> (\<And>a. r \<noteq> Ok a) \<Longrightarrow> view w' = view w"
  using fails_inD [of "\<lambda>u. view u = view w"] by blast

lemma cleanI: "(\<And>w r w'. m w = (r, w') \<Longrightarrow> (\<And>a. r \<noteq> Ok a) \<Longrightarrow> view w' = view w) \<Longrightarrow> clean view m"
  by (auto simp: fails_in_def)

lemma fails_bindE: "(\<And>w. P w \<Longrightarrow> P (snd (m w))) \<Longrightarrow> (\<And>a. fails_in P (f a)) \<Longrightarrow> fails_in P (bindE m f)"
  unfolding fails_in_def bindE_def by (auto split: prod.splits outcome.splits) (metis snd_conv)+

lemma fails_guard: "keeps (\<lambda>w. w) m \<Longrightarrow> (\<And>a. fails_in P (f a)) \<Longrightarrow> fails_in P (bindE m f)"
  by (rule fails_bindE) (simp add: keeps_def)

lemma clean_bindE: "keeps view m \<Longrightarrow> (\<And>a. clean view (f a)) \<Longrightarrow> clean view (bindE m f)"
  by (auto intro!: fails_bindE simp: keeps_snd)

lemma fails_then_ret: "fails_in P m \<Longrightarrow> fails_in P (bindE m (\<lambda>a. ret (f a)))"
  unfolding fails_in_def bindE_def ret_def by (auto split: prod.splits outcome.splits)

lemma fails_then_write: "fails_in P m \<Longrightarrow> fails_in P (bindE m (\<lambda>a. bindE (writes (g a)) (\<lambda>_. ret (f a))))"
  unfolding fails_in_def bindE_def ret_def writes_def by (auto split: prod.splits outcome.splits)

lemma clean_then_write: "clean view m \<Longrightarrow> clean view (bindE m (\<lambda>a. bindE (writes (g a)) (\<lambda>_. ret (f a))))"
  by (auto intro: fails_then_write)

lemma clean_keeps: "keeps view m \<Longrightarrow> clean view m"
  by (auto intro!: cleanI dest: keepsD)

lemma clean_persist: "clean stored (persist_group_mutation K now gid state roles v fault)"
proof (rule cleanI)
  fix es es' :: "'r enc_state" and r
  assume run: "persist_group_mutation K now gid state roles v fault es = (r, es')" and "\<And>a. r \<noteq> Ok a"
  moreover then obtain d where "es_db es = Some d"
    by (cases "es_db es") (auto simp: persist_group_mutation_def)
  ultimately show "stored es' = stored es" using persist_result [OF run] by (cases r) auto
qed

lemma clean_group_op: "clean stored (apply_group_op K now gid fault op new_roles)"
proof (rule cleanI)
  fix es es' :: "'a enc_state" and r
  assume run: "apply_group_op K now gid fault op new_roles es = (r, es')" and fails: "\<And>a. r \<noteq> Ok a"
  show "stored es' = stored es"
  proof (cases "es_groups es gid")
    case None
    with run show ?thesis by (simp add: apply_group_op_def)
  next
    case (Some g)
    obtain state h where g: "g = (state, h)" by fastforce
    let ?es0 = "es\<lparr>es_groups := (es_groups es)(gid := None)\<rparr>"
    obtain q es1 where op: "with_pki h (op state) ?es0 = (q, es1)" by fastforce
    then have es1: "stored es1 = stored es" by (auto elim!: with_pki_cases simp: stored_def)
    show ?thesis
      using run fails Some g op es1
      by (auto simp: apply_group_op_def Let_def dest: cleanD [OF clean_persist] split: sum.splits prod.splits outcome.splits)
  qed
qed

section \<open>Mutations\<close>

text \<open>
  The four operations that change who is in a group, what they may do, or the group's keys,
  and what each of them does to the members and to the roles.
\<close>

datatype mutation =
  MJoin peer_id
| MRemove peer_id
| MRotate peer_id
| MRole peer_id peer_id member_role

fun run_mutation ::
  "'r gkit \<Rightarrow> store_codec \<Rightarrow> int \<Rightarrow> group_id \<Rightarrow> auth_fault option \<Rightarrow> mutation \<Rightarrow> ('r enc_state, enc_error, auth_event) eff" where
  "run_mutation G K now gid fault (MJoin p) = bindE (apply_member_join G K now gid p fault) (\<lambda>(_, ev). ret ev)"
| "run_mutation G K now gid fault (MRemove p) = bindE (apply_member_remove G K now gid p fault) (\<lambda>(_, ev). ret ev)"
| "run_mutation G K now gid fault (MRotate a) = bindE (rotate_epoch G K now gid a fault) (\<lambda>(_, ev). ret ev)"
| "run_mutation G K now gid fault (MRole a p r) = apply_role_change K now gid a p r"

fun event_version :: "auth_event \<Rightarrow> u64" where
  "event_version (MemberJoined _ _ v) = v"
| "event_version (MemberRemoved _ _ v) = v"
| "event_version (RoleChanged _ _ _ v) = v"
| "event_version (EpochRotated _ _ v) = v"

fun permitted :: "mutation \<Rightarrow> peer_id option \<Rightarrow> peer_id set \<Rightarrow> role_map \<Rightarrow> bool" where
  "permitted (MJoin p) me M R \<longleftrightarrow> (case me of None \<Rightarrow> False | Some a \<Rightarrow> R a = Some Admin \<and> p \<notin> M)"
| "permitted (MRemove p) me M R \<longleftrightarrow> (case me of None \<Rightarrow> False | Some a \<Rightarrow> R a = Some Admin \<and> p \<in> M \<and> p \<noteq> a)"
| "permitted (MRotate a) me M R \<longleftrightarrow> R a = Some Admin"
| "permitted (MRole a p r) me M R \<longleftrightarrow> R a = Some Admin \<and> R p \<noteq> None"

fun mutated_members :: "mutation \<Rightarrow> peer_id set \<Rightarrow> peer_id set" where
  "mutated_members (MJoin p) M = insert p M"
| "mutated_members (MRemove p) M = M - {p}"
| "mutated_members _ M = M"

fun mutated_roles :: "mutation \<Rightarrow> role_map \<Rightarrow> role_map" where
  "mutated_roles (MJoin p) R = R(p \<mapsto> Writer)"
| "mutated_roles (MRemove p) R = R(p := None)"
| "mutated_roles (MRotate a) R = R"
| "mutated_roles (MRole a p r) R = R(p \<mapsto> r)"

lemma can_manage_iff [simp]: "role_can_manage r \<longleftrightarrow> r = Admin"
  by (cases r) auto

lemma manages_iff [simp]: "(case x of None \<Rightarrow> Writer | Some r \<Rightarrow> r) = Admin \<longleftrightarrow> x = Some Admin"
  by (cases x) auto

lemma reads_eq [simp]: "reads f w = (Ok a, w') \<longleftrightarrow> a = f w \<and> w' = w"
  by (auto simp: reads_def)

lemma writes_eq [simp]: "writes f w = (Ok a, w') \<longleftrightarrow> w' = f w"
  by (auto simp: writes_def)

lemma member_role_mirror: "member_role es gid p = role_mirror es gid p"
  by (simp add: member_role_def role_mirror_def split: option.splits)

lemma local_admin_eq [simp]:
  "local_admin gid es = (Ok a, es') \<longleftrightarrow> es' = es \<and> es_self es gid = Some a \<and> role_mirror es gid a = Some Admin"
  by (auto simp: local_admin_def member_role_mirror)

lemma group_members_eq [simp]:
  "group_members gid es = (Ok M, es') \<longleftrightarrow> es' = es \<and> (\<exists>state h. es_groups es gid = Some (state, h) \<and> M = gr_members state)"
  by (auto simp: group_members_def)

text \<open>The mutations other than a change of role run an operation of the group.\<close>

fun sends_control :: "mutation \<Rightarrow> bool" where
  "sends_control (MRole _ _ _) \<longleftrightarrow> False"
| "sends_control _ \<longleftrightarrow> True"

fun group_op :: "'r gkit \<Rightarrow> mutation \<Rightarrow> group_state \<Rightarrow> ('r world, group_error, group_state \<times> envelope) eff" where
  "group_op G (MJoin p) state = gr_add G state p"
| "group_op G (MRemove p) state = gr_remove G state p"
| "group_op G _ state = gr_update G state"

lemma group_op_members:
  assumes "sends_control m" and "group_op G m state w = (Ok (state1, env), w1)"
  shows "gr_members state1 = mutated_members m (gr_members state)"
  using assms gr_add_members [of G state _ w state1 env w1] gr_remove_members [of G state _ w state1 env w1]
    gr_update_members [of G state w state1 env w1] by (cases m) auto

lemma control_mutation:
  assumes "sends_control m" and "run_mutation G K now gid fault m es = (Ok ev, es')"
  obtains env old where "apply_group_op K now gid fault (group_op G m) (mutated_roles m) es = (Ok (env, old, event_version ev), es')"
    and "\<And>state h. es_groups es gid = Some (state, h) \<Longrightarrow> permitted m (es_self es gid) (gr_members state) (role_mirror es gid)"
proof -
  have eta: "group_op G (MJoin p) = (\<lambda>state. gr_add G state p)" "group_op G (MRemove p) = (\<lambda>state. gr_remove G state p)"
    "group_op G (MRotate a) = gr_update G" "mutated_roles (MJoin p) = (\<lambda>roles. roles(p \<mapsto> Writer))"
    "mutated_roles (MRemove p) = (\<lambda>roles. roles(p := None))" "mutated_roles (MRotate a) = (\<lambda>roles. roles)" for p a
    by (simp_all add: fun_eq_iff)
  show ?thesis
    using assms that
    by (cases m)
       (auto simp: eta apply_member_join_def apply_member_remove_def rotate_epoch_def member_role_mirror split: option.splits)
qed

lemma mutation_Ok:
  assumes run: "run_mutation G K now gid fault m es = (Ok ev, es')" and db: "es_db es = Some d"
  obtains state h state1 h1 d' where "es_groups es gid = Some (state, h)"
    and "permitted m (es_self es gid) (gr_members state) (role_mirror es gid)"
    and "group_version es gid = stored_version gid d" and "stored es' = Some (tables d')"
    and "committed K now gid state1 (mutated_roles m (role_mirror es gid)) (es_self es gid) (event_version ev) d d'"
    and "gr_members state1 = mutated_members m (gr_members state)"
    and "es_groups es' = (es_groups es)(gid \<mapsto> (state1, h1))"
    and "es_roles es' = (es_roles es)(gid \<mapsto> mutated_roles m (role_mirror es gid))"
    and "es_versions es' = (es_versions es)(gid \<mapsto> event_version ev)" and "es_self es' = es_self es"
proof (cases "sends_control m")
  case True
  from True run obtain env old where op: "apply_group_op K now gid fault (group_op G m) (mutated_roles m) es = (Ok (env, old, event_version ev), es')"
    and ok: "\<And>state h. es_groups es gid = Some (state, h) \<Longrightarrow> permitted m (es_self es gid) (gr_members state) (role_mirror es gid)"
    by (rule control_mutation) blast
  from op db show ?thesis
  proof (rule apply_group_op_Ok, goal_cases)
    case (1 state h state1 h1 w w1 d')
    with ok [OF 1(1)] group_op_members [OF True 1(2)] show ?thesis by (intro that [of state h d' state1 h1]) simp_all
  qed
next
  case False
  then obtain a p r where m: "m = MRole a p r" by (cases m) auto
  with run obtain state h roles v es1 where "es_groups es gid = Some (state, h)" and "es_roles es gid = Some roles"
    and "roles a = Some Admin" "roles p \<noteq> None" "ev = RoleChanged gid p r v"
    and persist: "persist_group_mutation K now gid state (roles(p \<mapsto> r)) (group_version es gid) None es = (Ok v, es1)"
    and "es' = es1\<lparr>es_roles := (es_roles es1)(gid \<mapsto> roles(p \<mapsto> r)), es_versions := (es_versions es1)(gid \<mapsto> v)\<rparr>"
    by (auto simp: apply_role_change_def member_role_mirror role_mirror_def)
  moreover from persist_result [OF persist db] obtain d' where "stored es1 = Some (tables d')"
    and "group_version es gid = stored_version gid d" "committed K now gid state (roles(p \<mapsto> r)) (es_self es gid) v d d'"
    and "es_groups es1 = es_groups es" "es_roles es1 = es_roles es" "es_self es1 = es_self es" "es_versions es1 = es_versions es"
    by auto
  ultimately show ?thesis using m by (intro that [of state h d' state h]) (simp_all add: role_mirror_def fun_upd_idem)
qed

lemma keeps_guards [keeping]: "keeps view (local_admin gid)" "keeps view (group_members gid)"
  unfolding local_admin_def group_members_def by (intro keeping)+

lemma fails_mutation:
  assumes op: "\<And>op new_roles. fails_in P (apply_group_op K now gid fault op new_roles)"
    and persist: "\<And>state roles v. fails_in P (persist_group_mutation K now gid state roles v None)"
  shows "fails_in P (run_mutation G K now gid fault m)"
proof (cases m)
  case (MJoin p)
  have "fails_in P (apply_member_join G K now gid p fault)"
    unfolding apply_member_join_def case_prod_beta'
    by (intro fails_guard keeping fails_then_ret op)
  with MJoin show ?thesis by (simp add: case_prod_beta' fails_then_ret)
next
  case (MRemove p)
  have "fails_in P (apply_member_remove G K now gid p fault)"
    unfolding apply_member_remove_def case_prod_beta'
    by (intro fails_guard keeping fails_then_ret op)
  with MRemove show ?thesis by (simp add: case_prod_beta' fails_then_ret)
next
  case (MRotate a)
  have "fails_in P (rotate_epoch G K now gid a fault)"
    unfolding rotate_epoch_def case_prod_beta'
    by (intro fails_guard keeping fails_then_ret op)
  with MRotate show ?thesis by (simp add: case_prod_beta' fails_then_ret)
next
  case (MRole a p r)
  have "fails_in P (apply_role_change K now gid a p r)"
    unfolding apply_role_change_def case_prod_beta'
    by (intro fails_guard [OF keeps_reads] fails_guard [OF keeps_pure(1)] fails_guard [OF keeps_pure(4)] fails_then_write persist)
  with MRole show ?thesis by simp
qed

lemma clean_mutation: "clean stored (run_mutation G K now gid fault m)"
  using clean_group_op clean_persist by (intro allI fails_mutation) blast+

text \<open>
  C10. Atomic mutations.  When adding a member, removing one, rotating the keys or changing a
  role succeeds, it was permitted by the roles, it started from the stored version, the new
  members and roles are those the operation means, and the state and the roles now in memory
  are the ones committed together under the next version.  When it fails, at whatever
  statement, the tables are as before.
\<close>

theorem mutation_atomic:
  assumes "es_db es = Some d" and "run_mutation G K now gid fault m es = (r, es')"
  shows "case r of
      Ok ev \<Rightarrow> (\<exists>state h state1 h1 d'. es_groups es gid = Some (state, h)
        \<and> permitted m (es_self es gid) (gr_members state) (role_mirror es gid)
        \<and> group_version es gid = stored_version gid d
        \<and> gr_members state1 = mutated_members m (gr_members state)
        \<and> es_groups es' = (es_groups es)(gid \<mapsto> (state1, h1))
        \<and> es_roles es' = (es_roles es)(gid \<mapsto> mutated_roles m (role_mirror es gid))
        \<and> es_versions es' = (es_versions es)(gid \<mapsto> event_version ev)
        \<and> stored es' = Some (tables d')
        \<and> committed K now gid state1 (mutated_roles m (role_mirror es gid)) (es_self es gid) (event_version ev) d d')
    | _ \<Rightarrow> stored es' = stored es"
proof (cases "\<exists>ev. r = Ok ev")
  case True
  with assms obtain ev where ev: "r = Ok ev" "run_mutation G K now gid fault m es = (Ok ev, es')" by auto
  from ev(2) assms(1) show ?thesis by (rule mutation_Ok) (auto simp: ev(1))
next
  case False
  with cleanD [OF clean_mutation assms(2)] show ?thesis by (cases r) auto
qed


section \<open>Restarts\<close>

text \<open>
  What the store relies on of the encodings: decoding inverts encoding, an envelope is not
  taken for a record of the format before envelopes, and a hash has 32 bytes.
\<close>

definition store_codec_ok :: "store_codec \<Rightarrow> bool" where
  "store_codec_ok K \<longleftrightarrow>
     (\<forall>x. length (sc_hash K x) = 32)
     \<and> (\<forall>s b. encode_envelope K s = Inr b \<longrightarrow>
          isl (sc_dec_state K b) \<and> (\<exists>c. sc_dec_envelope K b = Inr (GROUP_STATE_STORAGE_VERSION, s, c)))
     \<and> (\<forall>R b. sc_enc_roles K R = Inr b \<longrightarrow> sc_dec_roles K b = Inr R)"

lemma envelope_decodes:
  assumes "store_codec_ok K" and enc: "encode_envelope K s = Inr b"
  shows "decode_group_state_blob K gid b = Ok s"
proof -
  obtain v s' where "b = (v @ s') @ sc_hash K (v @ s')"
    using enc by (auto simp: encode_envelope_def split: sum.splits)
  then obtain body where b: "b = body @ sc_hash K body" by blast
  have "length (sc_hash K body) = 32" using assms by (simp add: store_codec_ok_def)
  moreover from this b have "take (length b - 32) b = body" "drop (length b - 32) b = sc_hash K body" "\<not> length b < 32"
    by simp_all
  moreover obtain c where "isl (sc_dec_state K b)" "sc_dec_envelope K b = Inr (GROUP_STATE_STORAGE_VERSION, s, c)"
    using assms unfolding store_codec_ok_def by blast
  ultimately show ?thesis by (simp add: decode_group_state_blob_def)
qed

lemma roles_decode: "store_codec_ok K \<Longrightarrow> sc_enc_roles K R = Inr b \<Longrightarrow> sc_dec_roles K b = Inr R"
  by (simp add: store_codec_ok_def)

text \<open>A database that answers every statement.\<close>

definition healthy :: "store_db \<Rightarrow> bool" where
  "healthy d \<longleftrightarrow> sd_faults d = [] \<and> \<not> sd_poisoned d"

lemma sql_healthy [simp]: "healthy d \<Longrightarrow> sql e d = (Ok (), d)"
  by (simp add: healthy_def sql_def)

definition peer_ok :: "store_codec \<Rightarrow> peer_id \<Rightarrow> bool" where
  "peer_ok K p \<longleftrightarrow> length p = 32 \<and> sc_valid_key K p"

lemma validate_iff:
  "validate_loaded_group_state gid state roles self_id = Ok () \<longleftrightarrow>
     gr_members state \<noteq> {} \<and> set_option self_id \<subseteq> gr_members state \<and> dom roles \<subseteq> gr_members state"
  by (auto simp: validate_loaded_group_state_def Let_def)

lemma load_stored:
  assumes db: "es_db es = Some d" "healthy d" and row: "sd_states d gid = Some row" "sd_roles d gid = Some rr"
    and dec: "decode_group_state_blob K gid (sr_state row) = Ok state" "sc_dec_roles K (rr_roles rr) = Inr roles"
    and me: "rr_self_id rr = Some me" "peer_ok K me" "me \<in> gr_members state" and roles: "dom roles \<subseteq> gr_members state" "roles \<noteq> Map.empty"
  shows "load_group_state_from_db K gid es =
    (Ok Loaded, es\<lparr>es_groups := (es_groups es)(gid \<mapsto> (state, OwnPki fresh_registry)), es_roles := (es_roles es)(gid \<mapsto> roles),
       es_self := (es_self es)(gid \<mapsto> me), es_versions := (es_versions es)(gid \<mapsto> sr_version row)\<rparr>)"
proof -
  have 1: "load_group_state K gid d = (Ok state, d)"
    using db row dec by (simp add: load_group_state_def bindE_def look_def pure_def)
  have 2: "load_group_roles K gid d = (Ok (Some (roles, Some me)), d)"
    using db row dec me by (simp add: load_group_roles_def bindE_def look_def pure_def ret_def decode_self_id_def peer_ok_def)
  have 3: "load_group_version gid d = (Ok (sr_version row), d)"
    using db row by (simp add: load_group_version_def bindE_def look_def stored_version_def)
  have valid: "validate_loaded_group_state gid state roles (Some me) = Ok ()" using me roles by (auto simp: validate_iff)
  have same: "es\<lparr>es_db := Some d\<rparr> = es" using db by simp
  from valid have "install_group K gid state es = (Ok Loaded, es\<lparr>es_groups := (es_groups es)(gid \<mapsto> (state, OwnPki fresh_registry)),
       es_roles := (es_roles es)(gid \<mapsto> roles), es_self := (es_self es)(gid \<mapsto> me), es_versions := (es_versions es)(gid \<mapsto> sr_version row)\<rparr>)"
    using db 2 3 roles(2) by (simp add: install_group_def bindE_def renameE_def on_db_def pure_def writes_def ret_def same)
  with 1 db show ?thesis
    by (simp add: load_group_state_from_db_def on_db_def healthy_def same)
qed

text \<open>
  A group whose local peer and whose roles are of members, which is what loading checks.
\<close>

definition consistent :: "'r enc_state \<Rightarrow> group_id \<Rightarrow> bool" where
  "consistent es gid \<longleftrightarrow>
     (case es_groups es gid of
        None \<Rightarrow> True
      | Some (state, _) \<Rightarrow>
          (case es_self es gid of None \<Rightarrow> False | Some me \<Rightarrow> me \<in> gr_members state)
          \<and> dom (role_mirror es gid) \<subseteq> gr_members state)"

lemma permitted_nonempty:
  assumes "permitted m me M R"
  shows "mutated_roles m R \<noteq> Map.empty"
proof (cases m)
  case (MRemove p)
  with assms obtain a where "p \<noteq> a" "R a = Some Admin" by (auto split: option.splits)
  with MRemove have "mutated_roles m R a = Some Admin" by simp
  then show ?thesis by auto
qed (use assms in auto)

lemma mutation_consistent:
  assumes "permitted m (Some me) M R" and "me \<in> M" and "dom R \<subseteq> M"
  shows "me \<in> mutated_members m M" and "dom (mutated_roles m R) \<subseteq> mutated_members m M"
  using assms by (cases m; auto)+

text \<open>A mutation that succeeded leaves a consistent group, which a restart loads.\<close>

lemma mutation_stays_consistent:
  assumes "run_mutation G K now gid fault m es = (Ok ev, es')" and "es_db es = Some d" and "consistent es gid"
  shows "consistent es' gid"
proof -
  obtain state h state1 h1 d' where "es_groups es gid = Some (state, h)"
    and ok: "permitted m (es_self es gid) (gr_members state) (role_mirror es gid)"
    and new: "gr_members state1 = mutated_members m (gr_members state)" "es_groups es' = (es_groups es)(gid \<mapsto> (state1, h1))"
    "es_roles es' = (es_roles es)(gid \<mapsto> mutated_roles m (role_mirror es gid))" "es_self es' = es_self es"
    using assms(1,2) by (rule mutation_Ok)
  with assms(3) obtain me where "es_self es gid = Some me" "me \<in> gr_members state" "dom (role_mirror es gid) \<subseteq> gr_members state"
    by (auto simp: consistent_def split: option.splits)
  with mutation_consistent [of m me] ok new show ?thesis
    by (simp add: consistent_def role_mirror_def)
qed

lemma create_group_consistent:
  assumes "create_group G K now gid my_id ms es = (Ok env, es')" and "es_db es = Some d"
  shows "consistent es' gid \<and> stored_version gid d = 0 \<and> es_versions es' gid = Some 1"
proof -
  let ?start = "gr_init my_id (es_kmg es) (ms_new my_id ms) (or_new my_id) default_config"
  let ?roles = "fold (role_default Writer) ms [my_id \<mapsto> Admin]"
  let ?es1 = "es\<lparr>es_self := (es_self es)(gid \<mapsto> my_id)\<rparr>"
  obtain state env0 h es2 where pki: "with_pki SharedPki (gr_create G ?start ms) ?es1 = (Ok ((state, env0), h), es2)"
    and rest: "(case persist_group_mutation K now gid state ?roles 0 None es2 of
       (Ok v, es3) \<Rightarrow> (Ok env0, es3\<lparr>es_groups := (es_groups es3)(gid \<mapsto> (state, h)), es_roles := (es_roles es3)(gid \<mapsto> ?roles),
                     es_versions := (es_versions es3)(gid \<mapsto> v)\<rparr>)
     | (Err e, es3) \<Rightarrow> (Err e, es3\<lparr>es_roles := (es_roles es3)(gid := None), es_self := (es_self es3)(gid := None)\<rparr>)
     | (Panic, es3) \<Rightarrow> (Panic, es3)) = (Ok env, es')"
    using assms(1) unfolding create_group_def dgm_create_def Let_def by auto
  have members: "gr_members state = insert my_id (set ms)"
    using pki by (auto elim!: with_pki_cases split: outcome.splits dest!: gr_create_members simp: gr_init_def dc_init_def)
  have es2: "es_self es2 gid = Some my_id" "es_db es2 = Some d" using pki assms(2) by (auto elim!: with_pki_cases)
  obtain r es3 where persist: "persist_group_mutation K now gid state ?roles 0 None es2 = (r, es3)" by fastforce
  with rest obtain v where "r = Ok v" and es': "es' = es3\<lparr>es_groups := (es_groups es3)(gid \<mapsto> (state, h)),
      es_roles := (es_roles es3)(gid \<mapsto> ?roles), es_versions := (es_versions es3)(gid \<mapsto> v)\<rparr>"
    by (cases r) auto
  with persist_result [OF persist es2(2)] es2(1) members show ?thesis
    by (auto simp: consistent_def role_mirror_def dom_fold_role_default committed_def)
qed

lemma committed_loads:
  assumes K: "store_codec_ok K" and c: "committed K now gid state roles (Some me) v d d'"
    and me: "peer_ok K me" "me \<in> gr_members state" and roles: "dom roles \<subseteq> gr_members state" "roles \<noteq> Map.empty"
    and db: "es_db es = Some d0" "healthy d0" "tables d0 = tables d'"
  shows "load_group_state_from_db K gid es =
    (Ok Loaded, es\<lparr>es_groups := (es_groups es)(gid \<mapsto> (state, OwnPki fresh_registry)), es_roles := (es_roles es)(gid \<mapsto> roles),
       es_self := (es_self es)(gid \<mapsto> me), es_versions := (es_versions es)(gid \<mapsto> v)\<rparr>)"
proof -
  obtain blob rb where "encode_envelope K state = Inr blob" "sc_enc_roles K roles = Inr rb"
    and "sd_states d0 gid = Some \<lparr>sr_state = blob, sr_updated_at = now, sr_version = v\<rparr>"
    and "sd_roles d0 gid = Some \<lparr>rr_roles = rb, rr_self_id = Some me\<rparr>"
    using c db(3) by (auto simp: committed_def)
  with load_stored [OF db(1,2) this(3,4)] envelope_decodes [OF K] roles_decode [OF K] me roles show ?thesis by simp
qed


text \<open>
  C19. Restart after a mutation.  When adding a member, removing one, rotating the keys or
  changing a role has succeeded on a group that was consistent, a process that starts on the
  same database loads exactly the state, roles, identity and version that the first process
  holds in memory.
\<close>

theorem mutation_survives_restart:
  assumes "store_codec_ok K" and "es_db es = Some d" and "consistent es gid" and "es_self es gid = Some me" and "peer_ok K me"
    and "run_mutation G K now gid fault m es = (Ok ev, es')"
    and "es_db es0 = Some d0" and "healthy d0" and "stored es0 = stored es'"
  shows "\<exists>es1. load_group_state_from_db K gid es0 = (Ok Loaded, es1)
    \<and> map_option fst (es_groups es1 gid) = map_option fst (es_groups es' gid) \<and> es_groups es' gid \<noteq> None
    \<and> es_roles es1 gid = es_roles es' gid \<and> es_self es1 gid = es_self es' gid \<and> es_versions es1 gid = es_versions es' gid"
proof -
  obtain state h state1 h1 d' where 1: "es_groups es gid = Some (state, h)"
    and ok: "permitted m (es_self es gid) (gr_members state) (role_mirror es gid)" and st: "stored es' = Some (tables d')"
    and com: "committed K now gid state1 (mutated_roles m (role_mirror es gid)) (es_self es gid) (event_version ev) d d'"
    and new: "gr_members state1 = mutated_members m (gr_members state)" "es_groups es' = (es_groups es)(gid \<mapsto> (state1, h1))"
    "es_roles es' = (es_roles es)(gid \<mapsto> mutated_roles m (role_mirror es gid))" "es_versions es' = (es_versions es)(gid \<mapsto> event_version ev)"
    "es_self es' = es_self es"
    using assms(6,2) by (rule mutation_Ok)
  have "consistent es' gid" using mutation_stays_consistent [OF assms(6,2,3)] .
  then have "me \<in> gr_members state1" "dom (mutated_roles m (role_mirror es gid)) \<subseteq> gr_members state1"
    using new assms(4) by (auto simp: consistent_def role_mirror_def)
  moreover have "tables d0 = tables d'" using st assms(7,9) unfolding stored_def by auto
  ultimately show ?thesis
    using committed_loads [OF assms(1) com [unfolded assms(4)] assms(5) _ _ permitted_nonempty [OF ok] assms(7,8)] new assms(4) by simp
qed

section \<open>A stored group\<close>

text \<open>A group of two peers, its encodings, and a process that loads it and changes a role.\<close>

definition demo_alice :: peer_id where "demo_alice = replicate 32 10"
definition demo_bobby :: peer_id where "demo_bobby = replicate 32 20"

definition demo_held :: group_state where
  "demo_held = (gr_init demo_alice (demo_manager 10) (ms_new demo_alice [demo_bobby]) (or_new demo_alice) default_config)
     \<lparr>gr_ratchet := Some (ratchet_init [])\<rparr>"

definition demo_roles :: "member_role \<Rightarrow> role_map" where
  "demo_roles r = [demo_alice \<mapsto> Admin, demo_bobby \<mapsto> r]"

definition demo_store_codec :: store_codec where
  "demo_store_codec =
     \<lparr>sc_checked = True, sc_version = (\<lambda>_. Inr [1]),
      sc_enc_state = (\<lambda>s. if s = demo_held then Inr [7] else Inl ''state''),
      sc_dec_state = (\<lambda>b. if b = [7] then Inr demo_held else Inl ''state''),
      sc_dec_envelope = (\<lambda>b. if take 2 b = [1, 7] then Inr (1, demo_held, drop 2 b) else Inl ''envelope''),
      sc_enc_roles = (\<lambda>R. if R = demo_roles Writer then Inr [0] else if R = demo_roles Reader then Inr [1] else Inl ''roles''),
      sc_dec_roles = (\<lambda>b. if b = [0] then Inr (demo_roles Writer) else if b = [1] then Inr (demo_roles Reader) else Inl ''roles''),
      sc_valid_key = (\<lambda>_. True), sc_hash = (\<lambda>x. replicate 32 (of_nat (length x)))\<rparr>"

definition demo_db :: store_db where
  "demo_db =
     \<lparr>sd_states = [[5] \<mapsto> \<lparr>sr_state = [1, 7] @ replicate 32 2, sr_updated_at = 0, sr_version = 5\<rparr>],
      sd_roles = [[5] \<mapsto> \<lparr>rr_roles = [0], rr_self_id = Some demo_alice\<rparr>],
      sd_state_quarantine = Map.empty, sd_roles_quarantine = Map.empty, sd_faults = [], sd_poisoned = False\<rparr>"

definition demo_process :: "nat enc_state" where
  "demo_process =
     \<lparr>es_groups = Map.empty, es_kmg = demo_manager 10, es_registry = w_registry Dcgka_Agreement.demo_world, es_env = 0,
      es_db = Some demo_db, es_roles = Map.empty, es_self = Map.empty, es_versions = Map.empty\<rparr>"

definition demo_loaded :: "nat enc_state" where
  "demo_loaded = demo_process\<lparr>es_groups := [[5] \<mapsto> (demo_held, OwnPki fresh_registry)], es_roles := [[5] \<mapsto> demo_roles Writer],
     es_self := [[5] \<mapsto> demo_alice], es_versions := [[5] \<mapsto> 5]\<rparr>"

lemma demo_peers [simp]: "demo_alice \<noteq> demo_bobby" "demo_bobby \<noteq> demo_alice" "length demo_alice = 32"
  by (simp_all add: demo_alice_def demo_bobby_def)

lemma demo_roles_neq [simp]: "demo_roles Reader \<noteq> demo_roles Writer"
  by (auto simp: demo_roles_def fun_eq_iff)

lemma demo_store_codec_ok: "store_codec_ok demo_store_codec"
  by (auto simp: store_codec_ok_def demo_store_codec_def encode_envelope_def GROUP_STATE_STORAGE_VERSION_def
      split: if_splits)

lemma demo_held_members [simp]: "gr_members demo_held = {demo_alice, demo_bobby}"
  by (simp add: demo_held_def gr_members_eq gr_init_def dc_init_def ms_new_def)

lemma demo_db_healthy: "healthy demo_db"
  by (simp add: healthy_def demo_db_def)

lemma demo_load: "load_group_state_from_db demo_store_codec [5] demo_process = (Ok Loaded, demo_loaded)"
proof -
  have "encode_envelope demo_store_codec demo_held = Inr ([1, 7] @ replicate 32 2)"
    by (simp add: encode_envelope_def demo_store_codec_def)
  from envelope_decodes [OF demo_store_codec_ok this]
  have "load_group_state_from_db demo_store_codec [5] demo_process =
    (Ok Loaded, demo_process\<lparr>es_groups := (es_groups demo_process)([5] \<mapsto> (demo_held, OwnPki fresh_registry)),
       es_roles := (es_roles demo_process)([5] \<mapsto> demo_roles Writer),
       es_self := (es_self demo_process)([5] \<mapsto> demo_alice), es_versions := (es_versions demo_process)([5] \<mapsto> 5)\<rparr>)"
    using load_stored [of demo_process demo_db "[5]" "\<lparr>sr_state = [1, 7] @ replicate 32 2, sr_updated_at = 0, sr_version = 5\<rparr>"
        "\<lparr>rr_roles = [0], rr_self_id = Some demo_alice\<rparr>" demo_store_codec demo_held "demo_roles Writer" demo_alice]
      demo_db_healthy
    by (simp add: demo_process_def demo_db_def peer_ok_def demo_store_codec_def demo_roles_def)
  then show ?thesis by (simp add: demo_loaded_def demo_process_def)
qed

definition demo_after :: "nat enc_state" where
  "demo_after = demo_loaded\<lparr>es_db := Some (demo_db\<lparr>
       sd_states := [[5] \<mapsto> \<lparr>sr_state = [1, 7] @ replicate 32 2, sr_updated_at = 9, sr_version = 6\<rparr>],
       sd_roles := [[5] \<mapsto> \<lparr>rr_roles = [1], rr_self_id = Some demo_alice\<rparr>]\<rparr>),
     es_roles := [[5] \<mapsto> demo_roles Reader], es_versions := [[5] \<mapsto> 6]\<rparr>"

lemma demo_mutation:
  "run_mutation demo_gkit demo_store_codec 9 [5] None (MRole demo_alice demo_bobby Reader) demo_loaded =
     (Ok (RoleChanged [5] demo_bobby Reader 6), demo_after)"
proof -
  have new: "(demo_roles Writer)(demo_bobby \<mapsto> Reader) = demo_roles Reader" by (simp add: demo_roles_def)
  have "demo_roles Writer demo_alice = Some Admin" "demo_roles Writer demo_bobby = Some Writer" by (simp_all add: demo_roles_def)
  with new show ?thesis
    by (simp add: apply_role_change_def persist_group_mutation_def save_group_state_and_roles_def bindE_def reads_def writes_def
        pure_def ret_def guard_def ok_or_def member_role_def demo_loaded_def demo_process_def group_version_def on_db_def renameE_def
        sql_def demo_db_def transaction_def look_def change_def stored_version_def encode_envelope_def
        demo_store_codec_def demo_after_def ensure_def)
qed

theorem mutation_survives_restart_witness:
  "\<exists>es1. load_group_state_from_db demo_store_codec [5] (demo_process\<lparr>es_db := es_db demo_after\<rparr>) = (Ok Loaded, es1)
     \<and> map_option fst (es_groups es1 [5]) = Some demo_held \<and> es_roles es1 [5] = Some (demo_roles Reader)
     \<and> es_self es1 [5] = Some demo_alice \<and> es_versions es1 [5] = Some 6"
proof -
  have "consistent demo_loaded [5]"
    by (auto simp: consistent_def demo_loaded_def role_mirror_def demo_roles_def)
  moreover obtain d where "es_db demo_after = Some d" "healthy d"
    by (simp add: demo_after_def healthy_def demo_db_def)
  ultimately show ?thesis
    using mutation_survives_restart [OF demo_store_codec_ok _ _ _ _ demo_mutation, of demo_db demo_alice "demo_process\<lparr>es_db := es_db demo_after\<rparr>" d]
    by (simp add: demo_loaded_def demo_process_def demo_after_def peer_ok_def demo_store_codec_def stored_def)
qed


text \<open>A group of three with its keys, from which a member is removed.\<close>

definition demo_const_codec :: store_codec where
  "demo_const_codec = demo_store_codec\<lparr>sc_enc_state := (\<lambda>_. Inr [7]), sc_enc_roles := (\<lambda>_. Inr [0])\<rparr>"

definition demo_trio_process :: "nat enc_state" where
  "demo_trio_process =
     \<lparr>es_groups = [[5] \<mapsto> (demo_sender, SharedPki)], es_kmg = demo_manager 10, es_registry = w_registry Dcgka_Agreement.demo_world,
      es_env = w_env Dcgka_Agreement.demo_world, es_db = Some (demo_db\<lparr>sd_states := Map.empty, sd_roles := Map.empty\<rparr>),
      es_roles = [[5] \<mapsto> [[10] \<mapsto> Admin, [20] \<mapsto> Writer, [30] \<mapsto> Reader]], es_self = [[5] \<mapsto> [10]], es_versions = Map.empty\<rparr>"

lemma demo_sender_members: "gr_members demo_sender = {[10], [20], [30]}"
  by (simp add: demo_sender_def gr_members_eq demo_member_def dc_init_def demo_trio)

lemma demo_remove:
  "\<exists>es'. run_mutation demo_gkit demo_const_codec 9 [5] None (MRemove [30]) demo_trio_process = (Ok (MemberRemoved [5] [30] 1), es')"
proof -
  let ?w = "\<lparr>w_env = w_env Dcgka_Agreement.demo_world, w_registry = w_registry Dcgka_Agreement.demo_world\<rparr>"
  let ?op = "apply_group_op demo_const_codec 9 [5] None (\<lambda>state. gr_remove demo_gkit state [30]) (\<lambda>roles. roles([30] := None)) demo_trio_process"
  have same: "?w = Dcgka_Agreement.demo_world" by (simp add: Dcgka_Agreement.demo_world_def)
  obtain y1 env w1 where "gr_remove demo_gkit demo_sender [30] Dcgka_Agreement.demo_world = (Ok (y1, env), w1)"
    using demo_refresh by (auto simp: gr_refresh_def)
  then have "gr_remove demo_gkit demo_sender [30] ?w = (Ok (y1, env), w1)" unfolding same .
  then obtain es1 where es1: "with_pki SharedPki (gr_remove demo_gkit demo_sender [30]) (demo_trio_process\<lparr>es_groups := Map.empty\<rparr>)
      = (Ok ((y1, env), SharedPki), es1)" "es_db es1 = es_db demo_trio_process" "es_versions es1 = Map.empty" "es_roles es1 = es_roles demo_trio_process"
    by (simp add: with_pki_def demo_trio_process_def)
  then have "\<exists>es2. persist_group_mutation demo_const_codec 9 [5] y1 roles 0 None es1 = (Ok 1, es2)" for roles
    by (simp add: persist_group_mutation_def save_group_state_and_roles_def bindE_def pure_def ret_def on_db_def renameE_def
        sql_def demo_db_def transaction_def look_def change_def stored_version_def encode_envelope_def demo_trio_process_def
        demo_store_codec_def demo_const_codec_def)
  then obtain es2 where p: "persist_group_mutation demo_const_codec 9 [5] y1 ((role_mirror es1 [5])([30] := None)) 0 None es1 = (Ok 1, es2)"
    by blast
  have "es_groups demo_trio_process [5] = Some (demo_sender, SharedPki)" "sc_enc_state demo_const_codec demo_sender = Inr [7]"
    "(es_groups demo_trio_process)([5] := None) = Map.empty" "group_version es1 [5] = 0"
    using es1 by (simp_all add: demo_trio_process_def demo_const_codec_def group_version_def)
  then have "\<exists>es2. ?op = (Ok (env, 0, 1), es2)" unfolding apply_group_op_def Let_def using es1(1) p by simp
  then show ?thesis
    using demo_sender_members
    by (auto simp: apply_member_remove_def bindE_def ret_def guard_def local_admin_def group_members_def reads_def pure_def ok_or_def
        member_role_def demo_trio_process_def ensure_def)
qed

theorem mutation_atomic_witness:
  "\<exists>es' state1 h1 d'. run_mutation demo_gkit demo_const_codec 9 [5] None (MRemove [30]) demo_trio_process = (Ok (MemberRemoved [5] [30] 1), es')
     \<and> es_groups es' [5] = Some (state1, h1) \<and> gr_members state1 = {[10], [20]}
     \<and> es_roles es' [5] = Some [[10] \<mapsto> Admin, [20] \<mapsto> Writer]
     \<and> stored es' = Some (tables d') \<and> stored_version [5] d' = 1"
proof -
  obtain es' where run: "run_mutation demo_gkit demo_const_codec 9 [5] None (MRemove [30]) demo_trio_process = (Ok (MemberRemoved [5] [30] 1), es')"
    using demo_remove by blast
  obtain d where d: "es_db demo_trio_process = Some d" by (simp add: demo_trio_process_def)
  have "role_mirror demo_trio_process [5] = [[10] \<mapsto> Admin, [20] \<mapsto> Writer, [30] \<mapsto> Reader]"
    "es_groups demo_trio_process [5] = Some (demo_sender, SharedPki)"
    by (simp_all add: demo_trio_process_def role_mirror_def)
  with mutation_atomic [OF d run] demo_sender_members obtain state1 h1 d' where
    "gr_members state1 = {[10], [20], [30]} - {[30]}" "es_groups es' = (es_groups demo_trio_process)([5] \<mapsto> (state1, h1))"
    "es_roles es' = (es_roles demo_trio_process)([5] \<mapsto> [[10] \<mapsto> Admin, [20] \<mapsto> Writer, [30] \<mapsto> Reader]([30] := None))"
    "stored es' = Some (tables d')"
    and com: "committed demo_const_codec 9 [5] state1 ([[10] \<mapsto> Admin, [20] \<mapsto> Writer, [30] \<mapsto> Reader]([30] := None)) (es_self demo_trio_process [5]) 1 d d'"
    by auto
  moreover from com have "stored_version [5] d' = 1" by (auto simp: committed_def stored_version_def)
  moreover have "{[10], [20], [30]} - {[30]} = {[10], [20 :: u8]}" by auto
  moreover have "[[10] \<mapsto> Admin, [20] \<mapsto> Writer, [30 :: u8] \<mapsto> Reader]([30] := None) = [[10] \<mapsto> Admin, [20] \<mapsto> Writer]"
    by (auto simp: fun_eq_iff)
  ultimately show ?thesis using run
    by (intro exI [of _ es'] exI [of _ state1] exI [of _ h1] exI [of _ d']) simp
qed

end
