(* ===== verification/Encryption_Concurrency.thy ===== *)
theory Encryption_Concurrency
  imports Encryption_State_Inv
begin

text \<open>
  Processes that share the database of encrypted groups: everything they do with a group and
  their restarts as an inductive step relation, the invariant that memory at the stored
  version is the stored group advanced by messages, and that every commit continues the last
  one.
\<close>

section \<open>Processes that share a database\<close>

text \<open>
  Several processes share the tables and may hold a group in memory.  A step is an operation
  of one of them on the group, with whatever outcome, or the restart of one of them, which
  forgets the group and loads it.  A process creates or initialises a group only when it does
  not hold it, and initialises it only when it has no version of it either.
\<close>

type_synonym shared_tables = "(group_id \<rightharpoonup> state_row) \<times> (group_id \<rightharpoonup> roles_row)"

definition attach :: "shared_tables \<Rightarrow> 'r enc_state \<Rightarrow> 'r enc_state" where
  "attach t es = es\<lparr>es_db := map_option (\<lambda>d. d\<lparr>sd_states := fst t, sd_roles := snd t\<rparr>) (es_db es)\<rparr>"

datatype group_step =
  StepMutate mutation "auth_fault option"
| StepCreate peer_id "peer_id list"
| StepInit peer_id
| StepSend bytes
| StepReceive envelope

fun take_step :: "'r gkit \<Rightarrow> store_codec \<Rightarrow> int \<Rightarrow> group_id \<Rightarrow> group_step \<Rightarrow> 'r enc_state \<Rightarrow> 'r enc_state" where
  "take_step G K now gid (StepMutate m fault) es = snd (run_mutation G K now gid fault m es)"
| "take_step G K now gid (StepCreate me ps) es = snd (create_group G K now gid me ps es)"
| "take_step G K now gid (StepInit me) es = snd (init_group gid me es)"
| "take_step G K now gid (StepSend pt) es = snd (send_message G K now gid pt es)"
| "take_step G K now gid (StepReceive env) es = snd (receive_message G K now gid env es)"

fun step_enabled :: "group_id \<Rightarrow> group_step \<Rightarrow> 'r enc_state \<Rightarrow> bool" where
  "step_enabled gid (StepCreate me ps) es \<longleftrightarrow> es_groups es gid = None"
| "step_enabled gid (StepInit me) es \<longleftrightarrow> es_groups es gid = None \<and> es_versions es gid = None"
| "step_enabled gid _ es \<longleftrightarrow> True"

inductive shared_run ::
  "'r gkit \<Rightarrow> store_codec \<Rightarrow> group_id \<Rightarrow> nat \<Rightarrow> shared_tables \<times> (nat \<Rightarrow> 'r enc_state) \<Rightarrow>
   shared_tables \<times> (nat \<Rightarrow> 'r enc_state) \<Rightarrow> bool"
  for G K gid where
  start: "shared_run G K gid 0 c c"
| operate: "shared_run G K gid (Suc n) c (t', ps(i := es'))"
  if "shared_run G K gid n c (t, ps)" and "es_db (ps i) \<noteq> None" and "step_enabled gid st (ps i)"
    and "take_step G K now gid st (attach t (ps i)) = es'" and "stored es' = Some t'"
| restart: "shared_run G K gid (Suc n) c (t', ps(i := es'))"
  if "shared_run G K gid n c (t, ps)" and "es_groups es gid = None" and "es_roles es gid = None"
    and "load_group_state_from_db K gid (attach t es) = (r, es')" and "stored es' = Some t'"

text \<open>What sending and receiving messages makes of a group.\<close>

inductive message_steps :: "'r gkit \<Rightarrow> group_state \<Rightarrow> group_state \<Rightarrow> bool" for G where
  no_message [simp]: "message_steps G s s"
| sent: "message_steps G s s2" if "message_steps G s s1" and "gr_send G s1 pt = Ok (s2, env)"
| received: "message_steps G s s2" if "message_steps G s s1" and "gr_receive G s1 env w = (Ok (s2, out), w')"

definition row_version :: "group_id \<Rightarrow> shared_tables \<Rightarrow> u64" where
  "row_version gid t = (case fst t gid of None \<Rightarrow> 0 | Some row \<Rightarrow> sr_version row)"

definition decoded_roles :: "store_codec \<Rightarrow> group_id \<Rightarrow> shared_tables \<Rightarrow> string + role_map" where
  "decoded_roles K gid t = (case snd t gid of None \<Rightarrow> Inr Map.empty | Some rr \<Rightarrow> sc_dec_roles K (rr_roles rr))"

text \<open>
  The memory of a process that holds the group at the stored version is the stored group, up to
  messages since then whose state could not be stored.
\<close>

definition reflects :: "'r gkit \<Rightarrow> store_codec \<Rightarrow> group_id \<Rightarrow> shared_tables \<Rightarrow> group_state \<Rightarrow> 'r enc_state \<Rightarrow> bool" where
  "reflects G K gid t state es \<longleftrightarrow>
     (\<exists>row base. fst t gid = Some row \<and> decode_group_state_blob K gid (sr_state row) = Ok base \<and> message_steps G base state
        \<and> decoded_roles K gid t = Inr (role_mirror es gid) \<and> group_version es gid = sr_version row)"

definition synced :: "'r gkit \<Rightarrow> store_codec \<Rightarrow> group_id \<Rightarrow> shared_tables \<Rightarrow> 'r enc_state \<Rightarrow> bool" where
  "synced G K gid t es \<longleftrightarrow>
     (case es_groups es gid of
        None \<Rightarrow> True
      | Some (state, _) \<Rightarrow>
          unat (group_version es gid) \<le> unat (row_version gid t)
          \<and> (fst t gid \<noteq> None \<longrightarrow> group_version es gid = row_version gid t \<longrightarrow> reflects G K gid t state es))"

lemma reflects_synced: "es_groups es gid = Some (state, h) \<Longrightarrow> reflects G K gid t state es \<Longrightarrow> synced G K gid t es"
  by (auto simp: reflects_def synced_def row_version_def)

lemma synced_cong:
  "es_groups es' gid = es_groups es gid \<Longrightarrow> es_roles es' gid = es_roles es gid \<Longrightarrow> es_versions es' gid = es_versions es gid \<Longrightarrow>
   synced G K gid t es' = synced G K gid t es"
  by (simp add: synced_def reflects_def group_version_def role_mirror_def cong: option.case_cong)

lemma attach_simps [simp]:
  "es_groups (attach t es) = es_groups es" "es_roles (attach t es) = es_roles es" "es_versions (attach t es) = es_versions es"
  "es_self (attach t es) = es_self es"
  by (simp_all add: attach_def)

lemma attach_mirror [simp]: "role_mirror (attach t es) gid = role_mirror es gid" "group_version (attach t es) gid = group_version es gid"
  by (simp_all add: role_mirror_def group_version_def)

lemma attach_stored: "es_db es \<noteq> None \<Longrightarrow> stored (attach t es) = Some t"
  by (auto simp: attach_def stored_def)

text \<open>Loading a group that is not in memory leaves none or the stored one.\<close>

lemma keeps_groups_on_db: "keeps es_groups (on_db m)"
  by (auto simp: keeps_def on_db_def split: option.splits prod.splits outcome.splits)

lemma clean_install: "clean es_groups (install_group K gid state)"
  unfolding install_group_def Let_def
  by (intro clean_bindE clean_then_write keeping keeps_groups_on_db clean_keeps [OF keeps_renameE])

lemma on_db_Ok: "on_db m es = (Ok a, es') \<Longrightarrow> \<exists>d d'. es_db es = Some d \<and> m d = (Ok a, d') \<and> es' = es\<lparr>es_db := Some d'\<rparr>"
  by (auto simp: on_db_def split: option.splits prod.splits outcome.splits)

lemma load_roles_Ok:
  assumes "load_group_roles K gid d = (Ok found, d')"
  shows "tables d' = tables d \<and> decoded_roles K gid (tables d) = Inr (case found of None \<Rightarrow> Map.empty | Some (m, _) \<Rightarrow> m)"
  using assms by (auto simp: load_group_roles_def decoded_roles_def dest!: sql_Ok split: option.splits)

lemma load_version_Ok: "load_group_version gid d = (Ok v, d') \<Longrightarrow> v = stored_version gid d"
  by (auto simp: load_group_version_def stored_version_def dest!: sql_Ok)

lemma install_result:
  assumes run: "install_group K gid state es = (Ok a, es')" and db: "es_db es = Some d"
  shows "\<exists>roles. decoded_roles K gid (tables d) = Inr roles \<and> es_groups es' gid = Some (state, OwnPki fresh_registry)
    \<and> es_roles es' gid = (if roles = Map.empty then es_roles es gid else Some roles) \<and> es_versions es' gid = Some (stored_version gid d)"
proof -
  obtain found es1 es2 v where roles: "on_db (load_group_roles K gid) es = (Ok found, es1)"
    and version: "on_db (load_group_version gid) es1 = (Ok v, es2)"
    and es': "es_groups es' gid = Some (state, OwnPki fresh_registry)" "es_versions es' gid = Some v"
      "es_roles es' gid = (let roles = (case found of None \<Rightarrow> Map.empty | Some (m, _) \<Rightarrow> m) in if roles = Map.empty then es_roles es2 gid else Some roles)"
    using run unfolding install_group_def Let_def by auto
  from roles version db obtain d1 d2 where "load_group_roles K gid d = (Ok found, d1)" "load_group_version gid d1 = (Ok v, d2)"
    and "es_roles es2 = es_roles es" by (auto dest!: on_db_Ok)
  with load_roles_Ok [OF this(1)] load_version_Ok [OF this(2)] es' show ?thesis
    by (auto simp: Let_def stored_version_def)
qed

lemma load_synced:
  assumes run: "load_group_state_from_db K gid es = (r, es')" and "stored es = Some t"
    and new: "es_groups es gid = None" "es_roles es gid = None"
  shows "synced G K gid t es'"
proof (cases "es_groups es' gid")
  case None
  then show ?thesis by (simp add: synced_def)
next
  case (Some g)
  obtain d where d: "es_db es = Some d" "t = tables d" using assms(2) by (auto simp: stored_def)
  have ok: "\<not> sd_poisoned d" using run d Some new by (auto simp: load_group_state_from_db_def)
  obtain q d1 where q: "load_group_state K gid d = (q, d1)" by fastforce
  then obtain state where "q = Ok state" and install: "install_group K gid state (es\<lparr>es_db := Some d1\<rparr>) = (r, es')"
    using run d ok Some new
    by (cases q) (auto simp: load_group_state_from_db_def on_db_def split: load_error.splits)
  moreover have t1: "tables d1 = tables d" using keepsD [OF keeps_load_parts(1) q] .
  ultimately obtain row where row: "fst t gid = Some row" "decode_group_state_blob K gid (sr_state row) = Ok state"
    using q d by (auto simp: load_group_state_def dest!: sql_Ok split: option.splits)
  have "\<exists>a. r = Ok a"
    using cleanD [OF clean_install install] Some new by fastforce
  with install install_result [of K gid state "es\<lparr>es_db := Some d1\<rparr>"] t1 d new obtain roles where
    "decoded_roles K gid t = Inr roles" "es_groups es' gid = Some (state, OwnPki fresh_registry)"
    "role_mirror es' gid = roles" "group_version es' gid = stored_version gid d"
    by (fastforce simp: role_mirror_def group_version_def stored_version_def)
  with row d show ?thesis
    by (intro reflects_synced) (auto simp: reflects_def stored_version_def)
qed

abbreviation in_sync :: "'r gkit \<Rightarrow> store_codec \<Rightarrow> group_id \<Rightarrow> 'r enc_state \<Rightarrow> bool" where
  "in_sync G K gid es \<equiv> \<forall>t. stored es = Some t \<longrightarrow> synced G K gid t es"

lemma absent_synced: "es_groups es gid = None \<Longrightarrow> synced G K gid t es"
  by (simp add: synced_def)

lemma rollback_synced:
  assumes "stored es = Some t"
  shows "synced G K gid t (rollback_group_state K gid backup es)"
proof -
  let ?es = "es\<lparr>es_groups := (es_groups es)(gid := None), es_roles := (es_roles es)(gid := None), es_versions := (es_versions es)(gid := None)\<rparr>"
  obtain r es' where "load_group_state_from_db K gid ?es = (r, es')" by fastforce
  from load_synced [OF this] assms this show ?thesis
    by (auto simp: rollback_group_state_def stored_def)
qed

lemma fails_persist_synced: "fails_in (in_sync G K gid) (persist_group_mutation K now gid state roles v fault)"
proof (unfold fails_in_def, intro allI impI)
  fix es es' :: "'a enc_state" and r t
  assume run: "persist_group_mutation K now gid state roles v fault es = (r, es')" and fails: "\<forall>a. r \<noteq> Ok a"
    and sync: "in_sync G K gid es" and t: "stored es' = Some t"
  have same: "stored es' = stored es" using cleanD [OF clean_persist run] fails by blast
  with t have "stored es = Some t" by simp
  then obtain d where d: "es_db es = Some d" by (auto simp: stored_def)
  have "synced G K gid t es' = synced G K gid t es"
    using persist_result [OF run d] by (intro synced_cong) simp_all
  with sync \<open>stored es = Some t\<close> show "synced G K gid t es'" by blast
qed

lemma fails_group_op_synced: "fails_in (in_sync G K gid) (apply_group_op K now gid fault op new_roles)"
proof (unfold fails_in_def, intro allI impI)
  fix es es' :: "'a enc_state" and r t
  assume run: "apply_group_op K now gid fault op new_roles es = (r, es')" and fails: "\<forall>a. r \<noteq> Ok a"
    and sync: "in_sync G K gid es" and t: "stored es' = Some t"
  have same: "stored es = Some t" using cleanD [OF clean_group_op run] fails t by auto
  show "synced G K gid t es'"
  proof (cases "es_groups es gid")
    case None
    with run sync t show ?thesis by (simp add: apply_group_op_def)
  next
    case (Some g)
    obtain state h where g: "g = (state, h)" by fastforce
    let ?es0 = "es\<lparr>es_groups := (es_groups es)(gid := None)\<rparr>"
    obtain q es1 where op: "with_pki h (op state) ?es0 = (q, es1)" by fastforce
    then have es1: "stored es1 = Some t" "es_groups es1 gid = None"
      using same by (auto elim!: with_pki_cases simp: stored_def)
    have persist: "stored es2 = Some t \<and> es_groups es2 gid = None"
      if "persist_group_mutation K now gid state1 roles v fault es1 = (p, es2)" "\<forall>a. p \<noteq> Ok a" for state1 roles v p es2
      using cleanD [OF clean_persist that(1)] that(2) es1 persist_result [OF that(1)] by (auto simp: stored_def)
    show ?thesis
      using run fails Some g op es1
      by (auto simp: apply_group_op_def Let_def rollback_synced absent_synced dest!: persist split: sum.splits prod.splits outcome.splits)
  qed
qed

lemma fails_mutation_synced: "fails_in (in_sync G K gid) (run_mutation G K now gid fault m)"
  by (intro fails_mutation fails_group_op_synced fails_persist_synced)

section \<open>Commits are made from the last commit\<close>

lemma committed_reflects:
  assumes "store_codec_ok K" and "committed K now gid state roles self_id v d d'"
    and "role_mirror es gid = roles" and "group_version es gid = v"
  shows "reflects G K gid (tables d') state es"
  using assms(2-) envelope_decodes [OF assms(1)] roles_decode [OF assms(1)]
  by (auto simp: committed_def reflects_def decoded_roles_def)

lemma next_version: "unat v < 2 ^ 64 - 1 \<Longrightarrow> unat (v + 1) = unat v + 1" for v :: u64
proof -
  assume "unat v < 2 ^ 64 - 1"
  then have "v \<noteq> - 1" by (auto simp: unsigned_minus_1_eq_mask mask_eq_exp_minus_1)
  then have "1 + v \<noteq> 0" by (metis add.commute add_eq_0_iff)
  from unatSuc [OF this] show ?thesis by (simp add: add.commute)
qed

lemma other_stays_synced:
  assumes "synced G K gid t es" and "unat (row_version gid t) < unat (row_version gid t')"
  shows "synced G K gid t' es"
  using assms by (auto simp: synced_def split: option.splits)

text \<open>A commit: the next version, made from the stored one unless nothing was stored.\<close>

definition commit_from :: "group_id \<Rightarrow> shared_tables \<Rightarrow> 'r enc_state \<Rightarrow> shared_tables \<Rightarrow> bool" where
  "commit_from gid t es t' \<longleftrightarrow>
     fst t' gid \<noteq> None \<and> row_version gid t' = row_version gid t + 1
     \<and> (fst t gid \<noteq> None \<longrightarrow> es_groups es gid \<noteq> None \<and> group_version es gid = row_version gid t)"

abbreviation step_ok :: "'r gkit \<Rightarrow> store_codec \<Rightarrow> group_id \<Rightarrow> shared_tables \<Rightarrow> 'r enc_state \<Rightarrow> shared_tables \<Rightarrow> 'r enc_state \<Rightarrow> bool" where
  "step_ok G K gid t es t' es' \<equiv> synced G K gid t' es' \<and> (t' = t \<or> commit_from gid t es t')"

lemma stored_version_row: "stored_version gid d = row_version gid (tables d)"
  by (simp add: stored_version_def row_version_def)

lemma committed_commit:
  assumes "committed K now gid state roles self_id v d d'"
    and "sd_states d gid \<noteq> None \<longrightarrow> es_groups es gid \<noteq> None \<and> group_version es gid = stored_version gid d"
  shows "commit_from gid (tables d) es (tables d')"
  using assms by (auto simp: committed_def commit_from_def row_version_def stored_version_def)

lemma mutation_step:
  assumes K: "store_codec_ok K" and t: "stored es = Some t" and sync: "synced G K gid t es"
    and run: "run_mutation G K now gid fault m es = (r, es')" and t': "stored es' = Some t'"
  shows "step_ok G K gid t es t' es'"
proof (cases "\<exists>ev. r = Ok ev")
  case True
  then obtain ev where ev: "r = Ok ev" by blast
  obtain d where d: "es_db es = Some d" "tables d = t" using t by (auto simp: stored_def)
  obtain state h state1 h1 roles d' where old: "es_groups es gid = Some (state, h)" "group_version es gid = stored_version gid d"
    and "stored es' = Some (tables d')" and com: "committed K now gid state1 roles (es_self es gid) (event_version ev) d d'"
    and new: "es_groups es' gid = Some (state1, h1)" "es_roles es' gid = Some roles" "es_versions es' gid = Some (event_version ev)"
    using mutation_Ok [OF run [unfolded ev] d(1)] by (metis fun_upd_same)
  then have d': "tables d' = t'" using t' by simp
  have "reflects G K gid t' state1 es'"
    using committed_reflects [OF K com, of es'] new d' by (simp add: role_mirror_def group_version_def)
  with new have "synced G K gid t' es'" by (intro reflects_synced)
  moreover have "commit_from gid t es t'" using committed_commit [OF com] old d d' by auto
  ultimately show ?thesis by blast
next
  case False
  have "stored es' = stored es" using cleanD [OF clean_mutation run] False by blast
  then have "t' = t" using t t' by simp
  moreover have "synced G K gid t' es'"
    using fails_inD [OF fails_mutation_synced [of G K gid] run] False t t' sync by auto
  ultimately show ?thesis by blast
qed

section \<open>Messages\<close>

lemma persist_logged_step:
  assumes K: "store_codec_ok K" and t: "stored es = Some t" and sync: "synced G K gid t es"
    and held: "es_groups es gid = Some (state, h)"
    and run: "persist_logged K now gid es = (r, es')" and t': "stored es' = Some t'"
  shows "step_ok G K gid t es t' es'"
proof -
  obtain d where d: "es_db es = Some d" "tables d = t" using t by (auto simp: stored_def)
  obtain q es1 where p: "persist_group_mutation K now gid state (role_mirror es gid) (group_version es gid) None es = (q, es1)"
    by fastforce
  note res = persist_result [OF p d(1)]
  show ?thesis
  proof (cases q)
    case (Ok v)
    with run p held have es': "es' = es1\<lparr>es_versions := (es_versions es1)(gid \<mapsto> v)\<rparr>"
      by (simp add: persist_logged_def persist_current_group_state_def bindE_def writes_def ret_def)
    from res Ok obtain d' where d': "stored es1 = Some (tables d')" and v: "group_version es gid = stored_version gid d"
      and com: "committed K now gid state (role_mirror es gid) (es_self es gid) v d d'" by auto
    have eq: "tables d' = t'" using d' t' es' by simp
    have "reflects G K gid t' state es'"
      using committed_reflects [OF K com, of es'] res es' eq by (simp add: role_mirror_def group_version_def)
    then have "synced G K gid t' es'" using held res es' by (intro reflects_synced [where h = h]) simp_all
    with committed_commit [OF com] held v d eq show ?thesis by auto
  next
    case (Err e)
    with run p held have "es' = es1"
      by (simp add: persist_logged_def persist_current_group_state_def bindE_def)
    with res Err t t' sync show ?thesis using synced_cong [of es1 gid es G K t] by simp
  next
    case Panic
    with run p held have "es' = es1"
      by (simp add: persist_logged_def persist_current_group_state_def bindE_def)
    with res Panic t t' sync show ?thesis using synced_cong [of es1 gid es G K t] by simp
  qed
qed

text \<open>A group advanced by a message is as much in step with the tables as before.\<close>

lemma advance_synced:
  assumes "synced G K gid t es" and "es_groups es gid = Some (state, h)"
    and "\<And>base. message_steps G base state \<Longrightarrow> message_steps G base state1"
    and "es_groups es1 gid = Some (state1, h1)" and "es_roles es1 gid = es_roles es gid" and "es_versions es1 gid = es_versions es gid"
  shows "synced G K gid t es1"
proof -
  have "role_mirror es1 gid = role_mirror es gid" "group_version es1 gid = group_version es gid"
    using assms(5,6) by (simp_all add: role_mirror_def group_version_def)
  with assms(1,2,4) assms(3) show ?thesis by (auto simp: synced_def reflects_def)
qed

lemma commit_from_cong:
  "es_groups es1 gid \<noteq> None \<Longrightarrow> es_groups es gid \<noteq> None \<Longrightarrow> es_versions es1 gid = es_versions es gid \<Longrightarrow>
   commit_from gid t es1 t' = commit_from gid t es t'"
  by (simp add: commit_from_def group_version_def)

lemma send_cases:
  assumes "send_message G K now gid pt es = (r, es')"
  obtains "es' = es" | "es' = es\<lparr>es_groups := (es_groups es)(gid := None)\<rparr>"
  | state h state1 env q where "es_groups es gid = Some (state, h)" and "gr_send G state pt = Ok (state1, env)"
      and "persist_logged K now gid (es\<lparr>es_groups := (es_groups es)(gid \<mapsto> (state1, h))\<rparr>) = (q, es')"
  using assms
  by (auto simp: send_message_def bindE_def reads_def writes_def pure_def ret_def guard_def group_members_def ok_or_def ensure_def
      split: if_splits option.splits prod.splits outcome.splits)

lemma receive_cases:
  assumes "receive_message G K now gid env es = (r, es')"
  obtains "es' = es" | "es_groups es' gid = None" and "stored es' = stored es"
  | state h state1 out h1 es1 q w w' where "es_groups es gid = Some (state, h)" and "gr_receive G state env w = (Ok (state1, out), w')"
      and "es_roles es1 = es_roles es" and "es_versions es1 = es_versions es" and "stored es1 = stored es"
      and "es_groups es1 gid = Some (state1, h1)" and "persist_logged K now gid es1 = (q, es')"
proof (cases "es_groups es gid")
  case None
  with assms that(1) show ?thesis by (auto simp: receive_message_def bindE_def reads_def ret_def)
next
  case (Some g)
  obtain state h where g: "g = (state, h)" by fastforce
  let ?es0 = "es\<lparr>es_groups := (es_groups es)(gid := None)\<rparr>"
  obtain x es1 where op: "with_pki h (gr_receive G state env) ?es0 = (x, es1)" by fastforce
  from op obtain y w where run: "gr_receive G state env \<lparr>w_env = es_env ?es0, w_registry = registry_of ?es0 h\<rparr> = (y, w)"
    and x: "x = (case y of Ok a \<Rightarrow> Ok (a, case h of SharedPki \<Rightarrow> SharedPki | OwnPki _ \<Rightarrow> OwnPki (w_registry w)) | Err e \<Rightarrow> Err e | Panic \<Rightarrow> Panic)"
    and es1: "es_db es1 = es_db ?es0" "es_groups es1 = es_groups ?es0" "es_roles es1 = es_roles ?es0" "es_versions es1 = es_versions ?es0"
    by (rule with_pki_cases) blast
  show ?thesis
  proof (cases y)
    case (Ok a)
    obtain state1 out where a: "a = (state1, out)" by fastforce
    define h1 where "h1 = (case h of SharedPki \<Rightarrow> SharedPki | OwnPki _ \<Rightarrow> OwnPki (w_registry w))"
    let ?es2 = "es1\<lparr>es_groups := (es_groups es1)(gid \<mapsto> (state1, h1))\<rparr>"
    obtain q es3 where p: "persist_logged K now gid ?es2 = (q, es3)" by fastforce
    have "es' = es3"
      using assms Some g op x Ok a p
      by (cases q) (auto simp: receive_message_def bindE_def reads_def writes_def renameE_def pure_def ret_def h1_def)
    with that(3) [of state h _ state1 out w ?es2 h1 q] Some g run Ok a es1 p show ?thesis by (simp add: stored_def)
  qed (use assms Some g op x es1 that(2) in
      \<open>auto simp: receive_message_def bindE_def reads_def writes_def renameE_def stored_def\<close>)
qed

lemma send_step:
  assumes K: "store_codec_ok K" and t: "stored es = Some t" and sync: "synced G K gid t es"
    and run: "send_message G K now gid pt es = (r, es')" and t': "stored es' = Some t'"
  shows "step_ok G K gid t es t' es'"
  using run
proof (cases rule: send_cases)
  case (3 state h state1 env q)
  let ?es1 = "es\<lparr>es_groups := (es_groups es)(gid \<mapsto> (state1, h))\<rparr>"
  have "synced G K gid t ?es1"
    using advance_synced [OF sync 3(1), of state1 ?es1 h] message_steps.sent [OF _ 3(2)] by simp
  moreover have "stored ?es1 = Some t" using t by simp
  ultimately have "step_ok G K gid t ?es1 t' es'"
    using persist_logged_step [OF K _ _ _ 3(3) t', of t G state1 h] by simp
  with commit_from_cong [of ?es1 gid es t t'] 3(1) show ?thesis by simp
qed (use t t' sync in \<open>auto simp: synced_def\<close>)

lemma receive_step:
  assumes K: "store_codec_ok K" and t: "stored es = Some t" and sync: "synced G K gid t es"
    and run: "receive_message G K now gid env es = (r, es')" and t': "stored es' = Some t'"
  shows "step_ok G K gid t es t' es'"
  using run
proof (cases rule: receive_cases)
  case (3 state h state1 out h1 es1 q w w')
  have "synced G K gid t es1"
    using advance_synced [OF sync 3(1), of state1 es1 h1] message_steps.received [OF _ 3(2)] 3(3-6) by simp
  moreover have "stored es1 = Some t" using t 3(5) by simp
  ultimately have "step_ok G K gid t es1 t' es'"
    using persist_logged_step [OF K _ _ 3(6,7) t', of t G] by simp
  with commit_from_cong [of es1 gid es t t'] 3(1,4,6) show ?thesis by simp
qed (use t t' sync in \<open>auto simp: synced_def\<close>)

section \<open>New groups\<close>

text \<open>A stored group has a version other than the one that stands for no group.\<close>

definition versioned :: "group_id \<Rightarrow> shared_tables \<Rightarrow> bool" where
  "versioned gid t \<longleftrightarrow> (fst t gid \<noteq> None \<longrightarrow> row_version gid t \<noteq> 0)"

lemma init_step:
  assumes "versioned gid t" and "stored es = Some t" and "es_versions es gid = None" and "es_groups es gid = None"
    and "init_group gid me es = (r, es')" and "stored es' = Some t'"
  shows "step_ok G K gid t es t' es'"
proof (cases "\<exists>u. r = Ok u")
  case True
  then have "t' = t" "es_versions es' gid = None"
    using assms by (auto simp: init_group_def)
  with assms(1) show ?thesis
    by (auto simp: synced_def versioned_def group_version_def split: option.splits)
next
  case False
  then have "es' = es" using assms(5)
    by (auto simp: init_group_def bindE_def pure_def writes_def split: outcome.splits)
  with assms show ?thesis by (simp add: absent_synced)
qed

lemma create_cases:
  fixes es es' :: "'r enc_state"
  assumes run: "create_group G K now gid me ps es = (r, es')" and new: "es_groups es gid = None"
  obtains "es_groups es' gid = None" and "stored es' = stored es"
  | es1 es2 :: "'r enc_state" and state roles v h where "stored es1 = stored es"
      and "persist_group_mutation K now gid state roles 0 None es1 = (Ok v, es2)" and "stored es' = stored es2"
      and "es_groups es' gid = Some (state, h)" and "es_roles es' gid = Some roles" and "es_versions es' gid = Some v"
proof (cases "dgm_create me ps")
  case (Ok dgm)
  let ?es0 = "es\<lparr>es_self := (es_self es)(gid \<mapsto> me)\<rparr>" and ?roles = "fold (role_default Writer) ps [me \<mapsto> Admin]"
  let ?op = "gr_create G (gr_init me (es_kmg es) dgm (or_new me) default_config) ps"
  obtain x es1 where op: "with_pki SharedPki ?op ?es0 = (x, es1)" by fastforce
  then have es1: "stored es1 = stored es" "es_groups es1 gid = None" using new by (auto elim!: with_pki_cases simp: stored_def)
  show ?thesis
  proof (cases x)
    case x: (Ok a)
    obtain state env h where a: "a = ((state, env), h)" by (metis prod.collapse)
    obtain q es2 where p: "persist_group_mutation K now gid state ?roles 0 None es1 = (q, es2)" by fastforce
    have after: "(case q of Ok v \<Rightarrow> (Ok env, es2\<lparr>es_groups := (es_groups es2)(gid \<mapsto> (state, h)), es_roles := (es_roles es2)(gid \<mapsto> ?roles),
          es_versions := (es_versions es2)(gid \<mapsto> v)\<rparr>)
       | Err e \<Rightarrow> (Err e, es2\<lparr>es_roles := (es_roles es2)(gid := None), es_self := (es_self es2)(gid := None)\<rparr>)
       | Panic \<Rightarrow> (Panic, es2)) = (r, es')"
      using run Ok op x a p by (simp add: create_group_def bindE_def pure_def reads_def writes_def renameE_def Let_def)
    show ?thesis
    proof (cases "\<exists>v. q = Ok v")
      case True
      with after p es1 that(2) [of es1 state ?roles _ es2 h] show ?thesis by auto
    next
      case False
      then have "stored es2 = stored es" using cleanD [OF clean_persist p] es1 by auto
      moreover have "es_groups es2 = es_groups es1"
        using p by (auto simp: persist_group_mutation_def on_db_def renameE_def split: option.splits if_splits prod.splits outcome.splits)
      ultimately show ?thesis using after False es1 that(1) by (auto split: outcome.splits)
    qed
  qed (use run Ok op es1 that(1) in \<open>auto simp: create_group_def bindE_def pure_def reads_def writes_def renameE_def Let_def\<close>)
qed (use run new that(1) in \<open>auto simp: create_group_def bindE_def pure_def\<close>)

lemma create_step:
  assumes K: "store_codec_ok K" and ver: "versioned gid t" and t: "stored es = Some t" and new: "es_groups es gid = None"
    and run: "create_group G K now gid me ps es = (r, es')" and t': "stored es' = Some t'"
  shows "step_ok G K gid t es t' es'"
  using run new
proof (cases rule: create_cases)
  case 1
  with t t' show ?thesis by (simp add: absent_synced)
next
  case (2 es1 es2 state roles v h)
  obtain d where d: "es_db es1 = Some d" "tables d = t" using t 2(1) by (auto simp: stored_def)
  from persist_result [OF 2(2) d(1)] obtain d' where v: "0 = stored_version gid d"
    and "stored es2 = Some (tables d')" and com: "committed K now gid state roles (es_self es1 gid) v d d'" by auto
  then have d': "tables d' = t'" using t' 2(3) by simp
  have "reflects G K gid t' state es'"
    using committed_reflects [OF K com, of es'] 2(5,6) d' by (simp add: role_mirror_def group_version_def)
  then have "synced G K gid t' es'" using 2(4) by (intro reflects_synced)
  moreover have "sd_states d gid = None" using ver v d by (auto simp: versioned_def stored_version_row)
  with committed_commit [OF com, of es] d d' have "commit_from gid t es t'" by simp
  ultimately show ?thesis by blast
qed

lemma take_step_ok:
  assumes "store_codec_ok K" and "versioned gid t" and "es_db es \<noteq> None" and "step_enabled gid st es"
    and "synced G K gid t es" and "take_step G K now gid st (attach t es) = es'" and "stored es' = Some t'"
  shows "step_ok G K gid t es t' es'"
proof -
  let ?es = "attach t es"
  have t: "stored ?es = Some t" using attach_stored [OF assms(3)] .
  have sync: "synced G K gid t ?es" using assms(5) synced_cong [of ?es gid es G K t] by simp
  have "step_ok G K gid t ?es t' es'"
  proof (cases st)
    case (StepMutate m fault)
    obtain r where "run_mutation G K now gid fault m ?es = (r, es')" using assms(6) StepMutate by (metis prod.collapse take_step.simps(1))
    then show ?thesis by (rule mutation_step [OF assms(1) t sync _ assms(7)])
  next
    case (StepCreate me ps)
    obtain r where "create_group G K now gid me ps ?es = (r, es')" using assms(6) StepCreate by (metis prod.collapse take_step.simps(2))
    then show ?thesis by (rule create_step [OF assms(1,2) t _ _ assms(7), rotated]) (use assms(4) StepCreate in simp)
  next
    case (StepInit me)
    obtain r where "init_group gid me ?es = (r, es')" using assms(6) StepInit by (metis prod.collapse take_step.simps(3))
    then show ?thesis by (rule init_step [OF assms(2) t _ _ _ assms(7), rotated 2]) (use assms(4) StepInit in simp_all)
  next
    case (StepSend pt)
    obtain r where "send_message G K now gid pt ?es = (r, es')" using assms(6) StepSend by (metis prod.collapse take_step.simps(4))
    then show ?thesis by (rule send_step [OF assms(1) t sync _ assms(7)])
  next
    case (StepReceive env)
    obtain r where "receive_message G K now gid env ?es = (r, es')" using assms(6) StepReceive by (metis prod.collapse take_step.simps(5))
    then show ?thesis by (rule receive_step [OF assms(1) t sync _ assms(7)])
  qed
  then show ?thesis by (simp add: commit_from_def)
qed

lemma commit_version:
  assumes "commit_from gid t es t'" and "unat (row_version gid t) < 2 ^ 64 - 1"
  shows "unat (row_version gid t') = unat (row_version gid t) + 1" and "versioned gid t'"
proof -
  show eq: "unat (row_version gid t') = unat (row_version gid t) + 1"
    using assms next_version [OF assms(2)] by (simp add: commit_from_def)
  then show "versioned gid t'" by (auto simp: versioned_def)
qed

lemma shared_run_synced:
  assumes "shared_run G K gid n c c'" and "store_codec_ok K" and "\<forall>j. synced G K gid (fst c) (snd c j)" and "versioned gid (fst c)"
    and "unat (row_version gid (fst c)) + n < 2 ^ 64"
  shows "(\<forall>j. synced G K gid (fst c') (snd c' j)) \<and> versioned gid (fst c')
    \<and> unat (row_version gid (fst c')) \<le> unat (row_version gid (fst c)) + n"
  using assms
proof (induction rule: shared_run.induct)
  case (operate n c t ps i st now es' t')
  then have sync: "\<And>j. synced G K gid t (ps j)" and ver: "versioned gid t"
    and bound: "unat (row_version gid t) \<le> unat (row_version gid (fst c)) + n" by auto
  have ok: "step_ok G K gid t (ps i) t' es'"
    using take_step_ok [OF operate.prems(1) ver operate.hyps(2,3) sync operate.hyps(4,5)] .
  show ?case
  proof (cases "t' = t")
    case True
    with ok sync ver bound show ?thesis by simp
  next
    case False
    then have "commit_from gid t (ps i) t'" using ok by blast
    moreover have "unat (row_version gid t) < 2 ^ 64 - 1" using bound operate.prems(4) by simp
    ultimately have next_v: "unat (row_version gid t') = unat (row_version gid t) + 1" and ver': "versioned gid t'"
      by (rule commit_version)+
    then have "synced G K gid t' (ps j)" for j using other_stays_synced [OF sync] by simp
    with ok next_v ver' bound show ?thesis by simp
  qed
next
  case (restart n c t ps es r es' t' i)
  have st: "stored (attach t es) = Some t'" using keepsD [OF keeps_load restart.hyps(4)] restart.hyps(5) by simp
  then have "t' = t" by (auto simp: attach_def stored_def)
  moreover have "synced G K gid t' es'"
    using load_synced [OF restart.hyps(4) st] restart.hyps(2,3) by simp
  ultimately show ?case using restart by simp
qed simp


text \<open>A process founds a group on an empty database and then adds a member.\<close>

definition demo_registry :: registry where
  "demo_registry = \<lparr>rg_identity = Some, rg_prekeys = [([20], [20], False)], rg_faults = [], rg_poisoned = False\<rparr>"

definition answers :: "registry \<Rightarrow> bool" where
  "answers g \<longleftrightarrow> rg_identity g = Some \<and> rg_faults g = [] \<and> \<not> rg_poisoned g"

lemma answers_demo: "answers demo_registry" by (simp add: answers_def demo_registry_def)

lemma demo_hkdf: "\<exists>k. dc_hkdf demo_kit s ikm = Ok k"
  by (simp add: dc_hkdf_def demo_kit_def hkdf_def demo_prims_def RATCHET_KEY_SIZE_def)

lemma demo_identity:
  assumes "answers (w_registry w)"
  shows "known_identity_key demo_kit m w = (Ok (replicate 32 (hd m)), w)"
  using assms by (simp add: known_identity_key_def bindE_def renameE_def on_registry_def identity_key_def lock_registry_def
      statement_def answers_def demo_kit_def pure_def ok_or_def demo_bundle_def)

lemma demo_ratchet:
  assumes "answers (w_registry w)"
  shows "\<exists>k c. update_ratchet demo_kit y m s w = (Ok (y\<lparr>dc_ratchet := (dc_ratchet y)(m \<mapsto> c)\<rparr>, k), w)"
proof -
  define ikm where "ikm = (case dc_ratchet y m of None \<Rightarrow> [] | Some k \<Rightarrow> k) @ s @ replicate 32 (hd m)"
  obtain k where "dc_hkdf demo_kit ''update'' ikm = Ok k" using demo_hkdf by blast
  moreover obtain c where "dc_hkdf demo_kit ''chain'' ikm = Ok c" using demo_hkdf by blast
  ultimately show ?thesis
    by (simp add: update_ratchet_def bindE_def demo_identity [OF assms] pure_def ret_def flip: ikm_def) blast
qed

definition demo_founder :: group_state where
  "demo_founder = gr_init [10] (demo_manager 10) (ms_new [10] []) (or_new [10]) default_config"

lemma demo_kit_gkit: "gk_kit demo_gkit = demo_kit" "kit_checked demo_kit"
  by (simp_all add: demo_gkit_def demo_kit_def)

lemma demo_stamp:
  assumes "or_clock (gr_orderer y) < 100"
  shows "\<exists>ord env. stamp_control demo_gkit c dms y = Ok (y\<lparr>gr_orderer := ord\<rparr>, env)
    \<and> or_clock ord = or_clock (gr_orderer y) + 1"
proof -
  have "or_clock (gr_orderer y) \<noteq> - 1" using assms by auto
  then show ?thesis
    by (auto simp: stamp_control_def next_control_message_def demo_kit_gkit clock_tick_def clock_add_def Let_def store_own_def)
qed

lemma demo_own_seed:
  assumes "answers (w_registry w)" and "dc_my_id y = [10]" and "ms_members (dc_dgm y) = {[10]}" and "dc_next_seed y = Some seed"
  shows "\<exists>c k. process_seed demo_kit y [10] seq None w =
    (Ok (y\<lparr>dc_next_seed := None, dc_ratchet := (dc_ratchet y)([10] \<mapsto> c)\<rparr>, no_output\<lparr>po_sender_update_secret := Some k\<rparr>), w)"
proof -
  have order: "kit_order demo_kit {[10]} = [[10]]" by (simp add: demo_kit_def)
  obtain s where "dc_hkdf demo_kit ''update'' (seed @ replicate 32 10) = Ok s" using demo_hkdf by blast
  moreover obtain k c where "update_ratchet demo_kit (y\<lparr>dc_next_seed := None\<rparr>) [10] s w =
      (Ok (y\<lparr>dc_next_seed := None, dc_ratchet := (dc_ratchet y)([10] \<mapsto> c)\<rparr>, k), w)"
    using demo_ratchet [OF assms(1), of "y\<lparr>dc_next_seed := None\<rparr>" "[10]" s] by auto
  ultimately show ?thesis
    using assms
    by (simp add: process_seed_def member_view_def dgm_members_view_def order obtain_seed_def bindE_def ret_def Let_def
        derive_member_secret_def demo_identity pure_def) blast
qed

lemma demo_found:
  assumes "w_registry w = demo_registry"
  shows "\<exists>y env w'. gr_create demo_gkit demo_founder [] w = (Ok (y, env), w') \<and> w_registry w' = demo_registry
    \<and> gr_my_id y = [10] \<and> dc_my_id (gr_dcgka y) = [10] \<and> gr_members y = {[10]} \<and> gr_ratchet y \<noteq> None
    \<and> dc_ratchet (gr_dcgka y) [10] \<noteq> None \<and> dc_two_party (gr_dcgka y) = Map.empty \<and> or_clock (gr_orderer y) < 100"
proof -
  let ?d = "gr_dcgka demo_founder"
  obtain seed r where "random_array demo_prims 32 (w_env w) = (Ok seed, r)" by (simp add: random_array_def demo_prims_def)
  then obtain pre w1 where pre: "dc_create demo_kit ?d [] w = (Ok (?d\<lparr>dc_next_seed := Some seed\<rparr>, pre), w1)"
    "op_control_message pre = CtlCreate [[10]]" "w_registry w1 = demo_registry"
    using assms
    by (simp add: dc_create_def dedup_members_def demo_founder_def gr_init_def dc_init_def generate_seed_def bindE_def renameE_def
        on_env_def demo_kit_def RATCHET_KEY_SIZE_def seed_to_def ret_def)
  let ?y = "demo_founder\<lparr>gr_dcgka := ?d\<lparr>dc_next_seed := Some seed\<rparr>\<rparr>"
  have "or_clock (gr_orderer ?y) < 100" "gr_ratchet demo_founder = None" "?d = dc_init [10] (demo_manager 10) (ms_new [10] [])"
    "or_clock (gr_orderer ?y) = 1" "gr_my_id demo_founder = [10]"
    by (simp_all add: demo_founder_def gr_init_def or_new_def)
  moreover from this obtain ord env where "stamp_control demo_gkit (CtlCreate [[10]]) (op_direct_messages pre) ?y = Ok (?y\<lparr>gr_orderer := ord\<rparr>, env)"
     "or_clock ord = or_clock (gr_orderer ?y) + 1"
    using demo_stamp by blast
  moreover obtain c k where "process_seed demo_kit (?d\<lparr>dc_next_seed := Some seed, dc_dgm := ms_new [10] [[10]]\<rparr>) [10] (eg_id env) None w1
      = (Ok (?d\<lparr>dc_next_seed := None, dc_dgm := ms_new [10] [[10]], dc_ratchet := (dc_ratchet ?d)([10] \<mapsto> c)\<rparr>,
          no_output\<lparr>po_sender_update_secret := Some k\<rparr>), w1)"
    using demo_own_seed [of w1, of "?d\<lparr>dc_next_seed := Some seed, dc_dgm := ms_new [10] [[10]]\<rparr>" seed "eg_id env"]
    by (simp add: pre(3) answers_demo demo_founder_def gr_init_def dc_init_def ms_new_def) blast
  ultimately show ?thesis
    using pre
    by (simp add: gr_create_def gr_process_local_def bindE_def renameE_def demo_kit_gkit pure_def ret_def process_local_def process_create_def
        dgm_create_def dc_init_def no_output_def gr_members_eq ms_new_def set_welcome_def)
qed


lemma demo_encrypt:
  assumes "w_registry w = demo_registry" and "dc_two_party y = Map.empty"
  shows "\<exists>s m w'. encrypt_to demo_kit y [20] pt w = (Ok (y\<lparr>dc_two_party := [[20] \<mapsto> s]\<rparr>, m), w') \<and> answers (w_registry w')"
proof -
  obtain w1 where "session_with demo_kit y [20] w = (Ok (sm_init (demo_bundle 20)), w1)" "answers (w_registry w1)"
    using assms by (simp add: session_with_def bindE_def renameE_def on_registry_def reg_key_bundle_def lock_registry_def statement_def
        demo_registry_def demo_kit_def pure_def ok_or_def ret_def answers_def)
  moreover obtain s m r where "sm_send True demo_prims demo_plain_codec (sm_init (demo_bundle 20)) (dc_my_keys y) pt (w_env w1) = (Ok (s, m), r)"
    using demo_first_send by blast
  ultimately show ?thesis
    using assms(2) by (simp add: encrypt_to_def bindE_def renameE_def on_env_def demo_kit_def ret_def) blast
qed

lemma demo_own_add:
  assumes "answers (w_registry w)" and "dc_my_id y = [10]" and "ms_members (dc_dgm y) = {[10]}"
  shows "\<exists>y' k. process_add demo_kit y [10] seq [20] None w = (Ok (y', no_output\<lparr>po_sender_update_secret := Some k\<rparr>), w)"
proof -
  obtain d where d: "dgm_add (dc_dgm y) [10] [20] seq = Ok d" "ms_members d = {[10], [20]}"
    using assms(3) by (auto simp: dgm_add_def)
  obtain y2 s where y2: "update_ratchet demo_kit (y\<lparr>dc_dgm := d\<rparr>) [10] chain_from_welcome w = (Ok (y2, s), w)" "dc_my_id y2 = [10]"
    using demo_ratchet [OF assms(1), of "y\<lparr>dc_dgm := d\<rparr>"] assms(2) by fastforce
  obtain y3 k where "update_ratchet demo_kit (y2\<lparr>dc_member_secrets := (dc_member_secrets y2)(([10], seq, [20]) \<mapsto> s)\<rparr>) [10] chain_from_add w
      = (Ok (y3, k), w)" "dc_my_id y3 = [10]"
    using demo_ratchet [OF assms(1), of "y2\<lparr>dc_member_secrets := (dc_member_secrets y2)(([10], seq, [20]) \<mapsto> s)\<rparr>"] y2(2) by fastforce
  with d y2 assms(2) show ?thesis
    by (simp add: process_add_def bindE_def pure_def ret_def Let_def member_view_def dgm_members_view_def) blast
qed

lemma demo_join:
  assumes "w_registry w = demo_registry" and "gr_my_id y = [10]" and "dc_my_id (gr_dcgka y) = [10]" and "gr_members y = {[10]}"
    and "gr_ratchet y \<noteq> None" and "dc_ratchet (gr_dcgka y) [10] \<noteq> None" and "dc_two_party (gr_dcgka y) = Map.empty"
    and "or_clock (gr_orderer y) < 100"
  shows "\<exists>y' env w'. gr_add demo_gkit y [20] w = (Ok (y', env), w')"
proof -
  obtain chain where chain: "dc_ratchet (gr_dcgka y) [10] = Some chain" using assms(6) by blast
  obtain s m w1 where "encrypt_to demo_kit (gr_dcgka y) [20] chain w = (Ok ((gr_dcgka y)\<lparr>dc_two_party := [[20] \<mapsto> s]\<rparr>, m), w1)"
    and w1: "answers (w_registry w1)"
    using demo_encrypt [OF assms(1,7)] by blast
  then obtain pre where pre: "dc_add demo_kit (gr_dcgka y) [20] w = (Ok ((gr_dcgka y)\<lparr>dc_two_party := [[20] \<mapsto> s]\<rparr>, pre), w1)"
    "op_control_message pre = CtlAdd [20]"
    using chain assms(3) by (simp add: dc_add_def bindE_def pure_def ok_or_def ret_def)
  let ?y = "y\<lparr>gr_dcgka := (gr_dcgka y)\<lparr>dc_two_party := [[20] \<mapsto> s]\<rparr>\<rparr>"
  obtain ord env where stamp: "stamp_control demo_gkit (CtlAdd [20]) (op_direct_messages pre) ?y = Ok (?y\<lparr>gr_orderer := ord\<rparr>, env)"
    using demo_stamp [of ?y "CtlAdd [20]" "op_direct_messages pre"] assms(8) by auto
  obtain d k where "process_add demo_kit ((gr_dcgka y)\<lparr>dc_two_party := [[20] \<mapsto> s]\<rparr>) [10] (eg_id env) [20] None w1
      = (Ok (d, no_output\<lparr>po_sender_update_secret := Some k\<rparr>), w1)"
    using demo_own_add [OF w1, of "(gr_dcgka y)\<lparr>dc_two_party := [[20] \<mapsto> s]\<rparr>" "eg_id env"] assms(3,4)
    by (auto simp: gr_members_eq)
  with pre stamp assms(2-5) show ?thesis
    by (simp add: gr_add_def gr_process_local_def bindE_def renameE_def demo_kit_gkit pure_def ret_def process_local_def no_output_def)
qed

definition demo_codec_of :: "group_state \<Rightarrow> group_state \<Rightarrow> store_codec" where
  "demo_codec_of a b = demo_store_codec
     \<lparr>sc_enc_state := (\<lambda>s. if s = a then Inr [7] else if s = b then Inr [8] else Inl ''state''),
      sc_dec_state := (\<lambda>_. Inl ''state''),
      sc_dec_envelope := (\<lambda>c. Inr (1, if take 2 c = [1, 7] then a else b, drop 2 c)),
      sc_enc_roles := (\<lambda>R. if R = [[10] \<mapsto> Admin] then Inr [0] else if R = [[10] \<mapsto> Admin, [20] \<mapsto> Writer] then Inr [1] else Inl ''roles''),
      sc_dec_roles := (\<lambda>c. if c = [0] then Inr [[10] \<mapsto> Admin] else Inr [[10] \<mapsto> Admin, [20] \<mapsto> Writer])\<rparr>"

lemma demo_codec_of_ok: "store_codec_ok (demo_codec_of a b)"
  by (auto simp: store_codec_ok_def demo_codec_of_def demo_store_codec_def encode_envelope_def GROUP_STATE_STORAGE_VERSION_def
      split: if_splits)

definition demo_fresh :: "nat enc_state" where
  "demo_fresh = demo_process\<lparr>es_registry := demo_registry,
     es_db := Some (demo_db\<lparr>sd_states := Map.empty, sd_roles := Map.empty\<rparr>)\<rparr>"

lemma demo_attach: "attach (Map.empty, Map.empty) demo_fresh = demo_fresh"
  by (simp add: attach_def demo_fresh_def)

lemma demo_persist:
  assumes "es_db es = Some d" and "sd_faults d = []" and "\<not> sd_poisoned d" and "stored_version [5] d = v" and "v < 100"
    and "encode_envelope K s = Inr b" and "sc_enc_roles K R = Inr c"
  shows "persist_group_mutation K 9 [5] s R v None es =
    (Ok (v + 1), es\<lparr>es_db := Some (d\<lparr>sd_states := (sd_states d)([5] \<mapsto> \<lparr>sr_state = b, sr_updated_at = 9, sr_version = v + 1\<rparr>),
       sd_roles := (sd_roles d)([5] \<mapsto> \<lparr>rr_roles = c, rr_self_id = es_self es [5]\<rparr>)\<rparr>)\<rparr>)"
proof -
  have "v \<noteq> 2 ^ 63 - 1" using assms(5) by auto
  with assms show ?thesis
    by (simp add: persist_group_mutation_def save_group_state_and_roles_def bindE_def pure_def ret_def on_db_def renameE_def
        sql_def transaction_def look_def change_def)
qed

lemma demo_codec_enc:
  "\<exists>e. encode_envelope (demo_codec_of a b) a = Inr e" "\<exists>e. encode_envelope (demo_codec_of a b) b = Inr e"
  "sc_enc_state (demo_codec_of a b) a = Inr [7]"
  "sc_enc_roles (demo_codec_of a b) [[10] \<mapsto> Admin] = Inr [0]" "\<exists>c. sc_enc_roles (demo_codec_of a b) [[10] \<mapsto> Admin, [20] \<mapsto> Writer] = Inr c"
  by (simp_all add: encode_envelope_def demo_codec_of_def demo_store_codec_def)

text \<open>What the process that founded the group holds.\<close>

definition founded :: "group_state \<Rightarrow> 'r world \<Rightarrow> 'r enc_state \<Rightarrow> bool" where
  "founded a w p \<longleftrightarrow> es_groups p = [[5] \<mapsto> (a, SharedPki)] \<and> es_roles p = [[5] \<mapsto> [[10] \<mapsto> Admin]]
     \<and> es_self p = [[5] \<mapsto> [10]] \<and> es_versions p = [[5] \<mapsto> 1] \<and> es_registry p = w_registry w \<and> es_env p = w_env w
     \<and> (\<exists>d. es_db p = Some d \<and> sd_faults d = [] \<and> \<not> sd_poisoned d \<and> stored_version [5] d = 1 \<and> sd_states d [5] \<noteq> None)"

lemma demo_created:
  assumes "gr_create demo_gkit demo_founder [] \<lparr>w_env = 0, w_registry = demo_registry\<rparr> = (Ok (a, env), w)"
  shows "\<exists>p. create_group demo_gkit (demo_codec_of a b) 9 [5] [10] [] demo_fresh = (Ok env, p) \<and> founded a w p"
proof -
  obtain e where e: "encode_envelope (demo_codec_of a b) a = Inr e" using demo_codec_enc(1) by blast
  define es where "es = demo_fresh\<lparr>es_self := [[5] \<mapsto> [10]], es_env := w_env w, es_registry := w_registry w\<rparr>"
  let ?d = "demo_db\<lparr>sd_states := Map.empty, sd_roles := Map.empty\<rparr>"
  have d: "es_db es = Some ?d" "sd_faults ?d = []" "\<not> sd_poisoned ?d" "stored_version [5] ?d = 0"
    by (simp_all add: es_def demo_fresh_def demo_db_def stored_version_def)
  have "with_pki SharedPki (gr_create demo_gkit demo_founder []) (demo_fresh\<lparr>es_self := [[5] \<mapsto> [10]]\<rparr>) = (Ok ((a, env), SharedPki), es)"
    using assms by (simp add: with_pki_def es_def demo_fresh_def demo_process_def)
  moreover have "es_kmg demo_fresh = demo_manager 10" "es_self demo_fresh = Map.empty"
    by (simp_all add: demo_fresh_def demo_process_def)
  ultimately show ?thesis
    using demo_persist [OF d _ e demo_codec_enc(4)]
    by (simp add: create_group_def bindE_def pure_def dgm_create_def reads_def writes_def ret_def renameE_def Let_def
        flip: demo_founder_def)
       (simp add: founded_def es_def demo_fresh_def demo_process_def stored_version_def demo_db_def)
qed

lemma demo_joined:
  assumes "founded a w p" and "gr_members a = {[10]}" and "gr_add demo_gkit a [20] w = (Ok (b, env), w')"
  shows "\<exists>p' d'. run_mutation demo_gkit (demo_codec_of a b) 9 [5] None (MJoin [20]) p = (Ok (MemberJoined [5] [20] 2), p')
    \<and> es_db p' = Some d' \<and> stored_version [5] d' = 2 \<and> map_option fst (es_groups p' [5]) = Some b"
proof -
  obtain d where p: "es_groups p = [[5] \<mapsto> (a, SharedPki)]" "es_roles p = [[5] \<mapsto> [[10] \<mapsto> Admin]]" "es_self p = [[5] \<mapsto> [10]]"
      "es_versions p = [[5] \<mapsto> 1]" "es_registry p = w_registry w" "es_env p = w_env w"
    and d: "es_db p = Some d" "sd_faults d = []" "\<not> sd_poisoned d" "stored_version [5] d = 1"
    using assms(1) by (auto simp: founded_def)
  obtain e where e: "encode_envelope (demo_codec_of a b) b = Inr e" using demo_codec_enc(2) by blast
  obtain c where c: "sc_enc_roles (demo_codec_of a b) [[10] \<mapsto> Admin, [20] \<mapsto> Writer] = Inr c" using demo_codec_enc(5) by blast
  define es where "es = p\<lparr>es_groups := Map.empty, es_env := w_env w', es_registry := w_registry w'\<rparr>"
  have w: "\<lparr>w_env = w_env w, w_registry = w_registry w\<rparr> = w" by simp
  have "with_pki SharedPki (gr_add demo_gkit a [20]) (p\<lparr>es_groups := Map.empty\<rparr>) = (Ok ((b, env), SharedPki), es)"
    using assms(3) p by (simp add: with_pki_def es_def w)
  moreover have "es_db es = Some d" "role_mirror es [5] = [[10] \<mapsto> Admin]" "group_version es [5] = 1" "es_groups es = Map.empty"
    using p d by (simp_all add: es_def role_mirror_def group_version_def)
  ultimately have "\<exists>p' d'. apply_group_op (demo_codec_of a b) 9 [5] None (\<lambda>state. gr_add demo_gkit state [20]) (\<lambda>roles. roles([20] \<mapsto> Writer)) p
      = (Ok (env, 1, 2), p') \<and> es_db p' = Some d' \<and> stored_version [5] d' = 2 \<and> map_option fst (es_groups p' [5]) = Some b"
    using demo_persist [OF _ d(2-4) _ e c, of es] p demo_codec_enc(3) [of a b]
    by (simp add: apply_group_op_def Let_def stored_version_def)
  with p assms(2) show ?thesis
    by (auto simp: apply_member_join_def local_admin_def group_members_def bindE_def reads_def pure_def ret_def ok_or_def
        member_role_def guard_def ensure_def)
qed


end
