(* ===== verification/Encryption_Restart.thy ===== *)
theory Encryption_Restart
  imports Encryption_Concurrency
begin

text \<open>
  What a restart and a failed message leave of a group: a loaded group has an empty registry
  and can make no control message, and a message that fails takes the group out of memory.
\<close>

section \<open>A group without a registry\<close>

abbreviation identities :: "'r world \<Rightarrow> bytes \<Rightarrow> bytes option" where
  "identities w \<equiv> rg_identity (w_registry w)"

lemma keeps_on_env [keeping]: "keeps identities (on_env m)"
  by (auto simp: keeps_def on_env_def split: prod.splits)

lemma keeps_on_registry [keeping]: "keeps rg_identity m \<Longrightarrow> keeps identities (on_registry m)"
  by (auto simp: keeps_def on_registry_def split: prod.splits) (metis snd_conv)

lemma keeps_statement [keeping]: "keeps rg_identity statement"
  by (auto simp: keeps_def statement_def split: list.splits)

lemma keeps_lock [keeping]: "keeps rg_identity lock_registry"
  by (auto simp: keeps_def lock_registry_def)

lemma keeps_identity_key [keeping]: "keeps rg_identity (identity_key B p)"
  unfolding identity_key_def by (intro keeping) (auto simp: keeps_def split: option.splits)

lemma keeps_reg_key_bundle [keeping]: "keeps rg_identity (reg_key_bundle B p)"
  unfolding reg_key_bundle_def
  apply (intro keeping)
  apply (auto simp: keeps_def bindE_def statement_def split: option.splits prod.splits outcome.splits list.splits)
  done

lemma keeps_foldE [keeping]: "(\<And>x s. keeps view (f x s)) \<Longrightarrow> keeps view (foldE f xs s)"
  by (induction xs arbitrary: s) (auto intro!: keeping)

lemma keeps_known_identity [keeping]: "keeps identities (known_identity_key E p)"
  unfolding known_identity_key_def by (intro keeping)

lemma keeps_session [keeping]: "keeps identities (session_with E y p)"
  unfolding session_with_def by (auto intro!: keeping split: option.splits)

lemma keeps_encrypt [keeping]: "keeps identities (encrypt_to E y p pt)"
  unfolding encrypt_to_def case_prod_beta' by (intro keeping)

lemma keeps_seed_to [keeping]: "keeps identities (seed_to E seed p s)"
  by (cases s) (auto simp: seed_to_def case_prod_beta' intro!: keeping)

lemma keeps_generate_seed [keeping]: "keeps identities (generate_seed E y ps)"
  unfolding generate_seed_def by (intro keeping)

text \<open>Without identities no member secret can be derived and no ratchet can be updated.\<close>

lemma no_identity:
  assumes "identities w = Map.empty"
  shows "known_identity_key E p w \<noteq> (Ok k, w')"
  using assms keepsD [OF keeps_lock] keepsD [OF keeps_statement]
  by (auto simp: known_identity_key_def identity_key_def on_registry_def split: prod.splits)

lemma no_update_ratchet: "identities w = Map.empty \<Longrightarrow> update_ratchet E y p s w \<noteq> (Ok r, w')"
  by (auto simp: update_ratchet_def Let_def no_identity)

lemma no_derive: "identities w = Map.empty \<Longrightarrow> derive_member_secret E s p w \<noteq> (Ok r, w')"
  by (auto simp: derive_member_secret_def no_identity)

lemma keeps_store_secret [keeping]: "keeps identities (store_member_secret E a q seed p y)"
  unfolding store_member_secret_def derive_member_secret_def by (intro keeping)

lemma no_own_seed:
  assumes "identities w = Map.empty" and me: "me = dc_my_id y"
  shows "process_seed E y me seq dm w \<noteq> (Ok r, w')"
  using assms(1) unfolding process_seed_def obtain_seed_def Let_def me
  by (cases "dc_next_seed y") (auto simp: no_derive dest!: keepsD [OF keeps_foldE [OF keeps_store_secret]])

lemma no_process_local:
  assumes "identities w = Map.empty"
  shows "process_local E y seq out w \<noteq> (Ok r, w')"
proof (cases "op_control_message out")
  case (CtlCreate ms)
  with assms show ?thesis by (auto simp: process_local_def process_create_def Let_def no_own_seed)
next
  case CtlUpdate
  with assms show ?thesis by (auto simp: process_local_def process_update_def Let_def no_own_seed)
next
  case (CtlRemove p)
  with assms show ?thesis by (auto simp: process_local_def process_remove_def Let_def no_own_seed)
next
  case (CtlAdd p)
  have "process_add E y (dc_my_id y) seq p None w = (Ok (y', o'), w1) \<Longrightarrow> po_sender_update_secret o' = None" for y' o' w1
    using assms by (auto simp: process_add_def Let_def no_update_ratchet no_output_def split: if_splits)
  with CtlAdd show ?thesis by (auto simp: process_local_def Let_def)
qed (simp_all add: process_local_def Let_def)

lemma no_gr_process_local: "identities w = Map.empty \<Longrightarrow> gr_process_local G y out w \<noteq> (Ok r, w')"
  by (auto simp: gr_process_local_def no_process_local)

lemma no_control_message:
  assumes "identities w = Map.empty"
  shows "gr_add G y p w \<noteq> (Ok r, w')" and "gr_remove G y p w \<noteq> (Ok r, w')" and "gr_update G y w \<noteq> (Ok r, w')"
proof -
  have "keeps identities (dc_add (gk_kit G) (gr_dcgka y) p)" "keeps identities (dc_remove (gk_kit G) (gr_dcgka y) p)"
    "keeps identities (dc_update (gk_kit G) (gr_dcgka y))"
    unfolding dc_add_def dc_remove_def dc_update_def Let_def case_prod_beta' by (intro keeping)+
  note keep = this [THEN keepsD]
  from assms show "gr_add G y p w \<noteq> (Ok r, w')" "gr_remove G y p w \<noteq> (Ok r, w')" "gr_update G y w \<noteq> (Ok r, w')"
    by (auto simp: gr_add_def gr_remove_def gr_update_def no_gr_process_local dest!: keep split: if_splits)
qed

lemma load_Loaded:
  assumes run: "load_group_state_from_db K gid es = (Ok Loaded, es')"
  obtains state where "es_groups es' gid = Some (state, OwnPki fresh_registry)" and "es_db es' \<noteq> None"
proof -
  obtain d where d: "es_db es = Some d" "\<not> sd_poisoned d"
    using run by (cases "es_db es") (auto simp: load_group_state_from_db_def split: if_splits)
  obtain q d1 where q: "load_group_state K gid d = (q, d1)" by fastforce
  with run d obtain state where "install_group K gid state (es\<lparr>es_db := Some d1\<rparr>) = (Ok Loaded, es')"
    by (cases q) (auto simp: load_group_state_from_db_def on_db_def split: load_error.splits)
  from install_result [OF this] have "es_groups es' gid = Some (state, OwnPki fresh_registry)" by auto
  moreover have "es_db es' \<noteq> None" using keepsD [OF keeps_load run] d by (auto simp: stored_def)
  ultimately show ?thesis by (rule that)
qed

lemma no_group_op: "identities w = Map.empty \<Longrightarrow> group_op G m y w \<noteq> (Ok r, w')"
  by (cases m) (simp_all add: no_control_message)

text \<open>
  C30. A group that was loaded from the database is frozen.  The registry is not part of the
  stored state and the loaded state gets an empty one of its own, so after a restart adding a
  member, removing a member and rotating the keys never succeed, whatever is registered in
  the shared registry.
\<close>

theorem reloaded_group_is_frozen:
  assumes "load_group_state_from_db K gid es = (Ok Loaded, es1)" and "sends_control m"
    and "run_mutation G K now gid fault m es1 = (r, es2)"
  shows "r \<noteq> Ok ev"
proof
  assume ok: "r = Ok ev"
  obtain state d where group_at: "es_groups es1 gid = Some (state, OwnPki fresh_registry)" and db: "es_db es1 = Some d"
    using load_Loaded [OF assms(1)] by blast
  obtain env old where "apply_group_op K now gid fault (group_op G m) (mutated_roles m) es1 = (Ok (env, old, event_version ev), es2)"
    using assms(2,3) ok by (auto elim: control_mutation)
  then obtain state' h state1 w w1 where "es_groups es1 gid = Some (state', h)" "group_op G m state' w = (Ok (state1, env), w1)"
    "w_registry w = registry_of es1 h" using db by (rule apply_group_op_Ok)
  with group_at no_group_op [of w G m] show False by (auto simp: registry_of_def fresh_registry_def)
qed

theorem reloaded_group_is_frozen_witness:
  "load_group_state_from_db demo_store_codec [5] demo_process = (Ok Loaded, demo_loaded)
   \<and> fst (run_mutation demo_gkit demo_store_codec 9 [5] None (MRotate demo_alice) demo_loaded) \<noteq> Ok (EpochRotated [5] 5 6)"
  using demo_load reloaded_group_is_frozen [OF demo_load, of "MRotate demo_alice"]
  by (metis prod.collapse sends_control.simps(4))

section \<open>A message that fails\<close>

lemma keeps_groups_persist: "keeps es_groups (persist_group_mutation K now gid state roles v fault)"
  by (auto simp: keeps_def persist_group_mutation_def keeps_snd [OF keeps_renameE [OF keeps_groups_on_db]] split: option.splits)

lemma keeps_groups_current: "keeps es_groups (persist_current_group_state K now gid)"
proof -
  have "keeps es_groups (bindE (persist_group_mutation K now gid state roles v None)
      (\<lambda>v. bindE (writes (\<lambda>es. es\<lparr>es_versions := (es_versions es)(gid \<mapsto> v)\<rparr>)) (\<lambda>_. ret v)))" for state roles v
    by (intro keeping keeps_groups_persist) simp
  from keeps_snd [OF this] show ?thesis
    by (auto simp: keeps_def persist_current_group_state_def split: option.splits)
qed

lemma keeps_groups_logged: "keeps es_groups (persist_logged K now gid)"
  unfolding keeps_def persist_logged_def
  using keepsD [OF keeps_groups_current] by (auto split: prod.splits outcome.splits)

lemma receive_error_absent:
  assumes run: "receive_message G K now gid env es = (Err e, es1)"
  shows "es_groups es1 gid = None"
proof (cases "es_groups es gid")
  case None
  with run show ?thesis by (simp add: receive_message_def bindE_def reads_def ret_def)
next
  case (Some g)
  obtain state h where g: "g = (state, h)" by fastforce
  let ?es0 = "es\<lparr>es_groups := (es_groups es)(gid := None)\<rparr>"
  obtain q es2 where pki: "with_pki h (gr_receive G state env) ?es0 = (q, es2)" by fastforce
  then have absent: "es_groups es2 gid = None" by (auto elim!: with_pki_cases)
  show ?thesis
  proof (cases q)
    case (Ok out)
    obtain state1 res h1 where out: "out = ((state1, res), h1)" by (metis prod.exhaust)
    let ?es3 = "es2\<lparr>es_groups := (es_groups es2)(gid \<mapsto> (state1, h1))\<rparr>"
    obtain p es4 where logged: "persist_logged K now gid ?es3 = (p, es4)" by fastforce
    then have "es_groups es4 gid = Some (state1, h1)" using keepsD [OF keeps_groups_logged logged] by simp
    then have "surface_event gid (eg_sender env) res es4 \<noteq> Err e"
      by (auto simp: surface_event_def split: option.splits list.splits group_event.splits if_splits)
    moreover have "p \<noteq> Err x" for x using logged by (auto simp: persist_logged_def split: prod.splits outcome.splits)
    ultimately show ?thesis using run Some g pki Ok out logged
      by (cases p) (auto simp: receive_message_def bindE_def reads_def writes_def renameE_def pure_def)
  qed (use run Some g pki absent in \<open>auto simp: receive_message_def bindE_def reads_def writes_def renameE_def\<close>)
qed

text \<open>
  C31. A message that fails drops the group.  When receiving a message ends in an error, the
  group is no longer in memory: every later message is ignored without an error, and nothing
  can be sent.
\<close>

theorem failed_receive_drops_group:
  assumes "receive_message G K now gid env es = (Err e, es1)"
  shows "es_groups es1 gid = None \<and> receive_message G K now' gid env' es1 = (Ok None, es1)
    \<and> send_message G K now' gid plaintext es1 \<noteq> (Ok sent, es2)"
  using receive_error_absent [OF assms]
  by (auto simp: receive_message_def send_message_def bindE_def [of "reads f" for f] reads_def ret_def)

theorem failed_receive_drops_group_witness:
  "\<exists>es1. receive_message demo_gkit demo_store_codec 9 [5] demo_welcome demo_loaded = (Err (EeGroup GroupAlreadyEstablished), es1)
     \<and> es_groups es1 [5] = None \<and> receive_message demo_gkit demo_store_codec 9 [5] demo_welcome es1 = (Ok None, es1)"
proof -
  have "\<exists>es1. receive_message demo_gkit demo_store_codec 9 [5] demo_welcome demo_loaded = (Err (EeGroup GroupAlreadyEstablished), es1)"
    by (simp add: receive_message_def bindE_def reads_def writes_def demo_loaded_def renameE_def with_pki_def gr_receive_def raise_def
        is_create_def demo_welcome_def new_control_def Let_def demo_held_def pure_def)
  then show ?thesis using failed_receive_drops_group by blast
qed

end
