(* ===== verification/Friend_Requests.thy ===== *)
theory Friend_Requests
  imports Std_Collections "HOL-Library.Char_ord" "HOL-Library.List_Lexorder"
begin

text \<open>
  The store of friend requests, \<^verbatim>\<open>src/src/friend_request.rs\<close>: the requests by identifier, the
  signed messages kept for another delivery attempt, and the index from a pair of peers to
  its pending request, which is rebuilt when the store is loaded.  Peers are the printed
  public keys, ASCII strings.  The clock \<^verbatim>\<open>now_unix_ms()\<close> is the argument \<open>now\<close> of the
  operations that read it, and the JSON file is the store it holds, or the message of the
  error that reading or parsing it gives.
\<close>

section \<open>Requests\<close>

datatype request_status = FrPending | FrAccepted | FrDeclined | FrCancelled

fun is_terminal :: "request_status \<Rightarrow> bool" where
  "is_terminal FrPending \<longleftrightarrow> False"
| "is_terminal _ \<longleftrightarrow> True"

fun status_name :: "request_status \<Rightarrow> string" where
  "status_name FrPending = ''Pending''"
| "status_name FrAccepted = ''Accepted''"
| "status_name FrDeclined = ''Declined''"
| "status_name FrCancelled = ''Cancelled''"

record friend_request =
  fr_id :: string
  fr_requester :: string
  fr_recipient :: string
  fr_status :: request_status
  fr_created_at :: u64
  fr_updated_at :: u64
  fr_message :: "string option"

datatype request_error =
  SelfRequest
| DuplicatePending string
| RequestNotFound string
| RequestUnauthorized string string
| InvalidRequestTransition request_status request_status

text \<open>\<^verbatim>\<open>{timestamp:x}\<close>.\<close>

fun hex_digits :: "nat \<Rightarrow> string" where
  "hex_digits n = (if n < 16 then [''0123456789abcdef'' ! n] else hex_digits (n div 16) @ [''0123456789abcdef'' ! (n mod 16)])"

declare hex_digits.simps [simp del]

definition make_request_id :: "string \<Rightarrow> string \<Rightarrow> u64 \<Rightarrow> string" where
  "make_request_id requester recipient timestamp =
     take 8 requester @ '':'' @ take 8 recipient @ '':'' @ hex_digits (unat timestamp)"

definition friend_request_new :: "string \<Rightarrow> string \<Rightarrow> string option \<Rightarrow> u64 \<Rightarrow> friend_request" where
  "friend_request_new requester recipient message now =
     \<lparr>fr_id = make_request_id requester recipient now, fr_requester = requester, fr_recipient = recipient,
      fr_status = FrPending, fr_created_at = now, fr_updated_at = now, fr_message = message\<rparr>"

section \<open>The store\<close>

record request_store =
  rs_schema_version :: u32
  rs_requests :: "(string \<times> friend_request) list"
  rs_pending_signed :: "string \<rightharpoonup> bytes"
  rs_pair_index :: "string \<times> string \<rightharpoonup> string"
  rs_data_dir :: string

definition FR_SCHEMA_VERSION :: u32 where
  "FR_SCHEMA_VERSION = 1"

definition request_store_empty_at :: "string \<Rightarrow> request_store" where
  "request_store_empty_at dir =
     \<lparr>rs_schema_version = FR_SCHEMA_VERSION, rs_requests = [], rs_pending_signed = Map.empty,
      rs_pair_index = Map.empty, rs_data_dir = dir\<rparr>"

definition store_pending_signed_message :: "string \<Rightarrow> bytes \<Rightarrow> request_store \<Rightarrow> request_store" where
  "store_pending_signed_message i m s = s\<lparr>rs_pending_signed := (rs_pending_signed s)(i \<mapsto> m)\<rparr>"

definition has_pending_signed_message :: "string \<Rightarrow> request_store \<Rightarrow> bool" where
  "has_pending_signed_message i s \<longleftrightarrow> rs_pending_signed s i \<noteq> None"

definition take_pending_signed_message :: "string \<Rightarrow> request_store \<Rightarrow> bytes option \<times> request_store" where
  "take_pending_signed_message i s =
     (rs_pending_signed s i, s\<lparr>rs_pending_signed := (rs_pending_signed s)(i := None)\<rparr>)"

definition pair_key :: "string \<Rightarrow> string \<Rightarrow> string \<times> string" where
  "pair_key requester recipient = (if requester \<le> recipient then (requester, recipient) else (recipient, requester))"

definition request_pair :: "friend_request \<Rightarrow> string \<times> string" where
  "request_pair r = pair_key (fr_requester r) (fr_recipient r)"

definition add_to_index :: "friend_request \<Rightarrow> request_store \<Rightarrow> request_store" where
  "add_to_index r s =
     (if fr_status r = FrPending then s\<lparr>rs_pair_index := (rs_pair_index s)(request_pair r \<mapsto> fr_id r)\<rparr> else s)"

definition remove_from_index :: "friend_request \<Rightarrow> request_store \<Rightarrow> request_store" where
  "remove_from_index r s = s\<lparr>rs_pair_index := (rs_pair_index s)(request_pair r := None)\<rparr>"

definition rebuild_pair_index :: "request_store \<Rightarrow> request_store" where
  "rebuild_pair_index s = fold add_to_index (map snd (rs_requests s)) (s\<lparr>rs_pair_index := Map.empty\<rparr>)"

text \<open>
  Loading: the file is absent, or reading or parsing it fails, or it holds a store, whose
  index and directory are not part of the file.
\<close>

datatype load_failure = FrUnreadable string | FrUnsupportedVersion u32 | FrNoDirectory

definition request_store_load :: "string \<Rightarrow> (string + request_store) option \<Rightarrow> load_failure + request_store" where
  "request_store_load dir file =
     (case file of
        None \<Rightarrow> Inr (request_store_empty_at dir)
      | Some (Inl e) \<Rightarrow> Inl (FrUnreadable e)
      | Some (Inr s) \<Rightarrow>
          if rs_schema_version s < 1 \<or> FR_SCHEMA_VERSION < rs_schema_version s
          then Inl (FrUnsupportedVersion (rs_schema_version s))
          else Inr (rebuild_pair_index (s\<lparr>rs_schema_version := FR_SCHEMA_VERSION, rs_data_dir := dir\<rparr>)))"

definition request_store_load_or_default :: "string \<Rightarrow> (string + request_store) option \<Rightarrow> request_store" where
  "request_store_load_or_default dir file =
     (case request_store_load dir file of Inl _ \<Rightarrow> request_store_empty_at dir | Inr s \<Rightarrow> s)"

text \<open>
  Saving: a store with no directory is not saved; otherwise the file is replaced atomically,
  so that it is as before when writing the new one fails.
\<close>

definition request_store_save ::
  "string option \<Rightarrow> request_store \<Rightarrow> (string + request_store) option
   \<Rightarrow> (load_failure + unit) \<times> (string + request_store) option" where
  "request_store_save write_error s file =
     (if rs_data_dir s = [] then (Inl FrNoDirectory, file)
      else case write_error of
        Some e \<Rightarrow> (Inl (FrUnreadable e), file)
      | None \<Rightarrow> (Inr (), Some (Inr s)))"

section \<open>Operations\<close>

definition pending_between :: "string \<Rightarrow> string \<Rightarrow> request_store \<Rightarrow> friend_request option" where
  "pending_between requester recipient s =
     (case Option.bind (rs_pair_index s (pair_key requester recipient)) (map_of (rs_requests s)) of
        None \<Rightarrow> None
      | Some existing \<Rightarrow> if fr_status existing = FrPending then Some existing else None)"

definition send_request ::
  "string \<Rightarrow> string \<Rightarrow> string option \<Rightarrow> u64 \<Rightarrow> request_store \<Rightarrow> (request_error + friend_request) \<times> request_store" where
  "send_request requester recipient message now s =
     (if requester = recipient then (Inl SelfRequest, s)
      else
        case pending_between requester recipient s of
          Some existing \<Rightarrow> (Inl (DuplicatePending (fr_id existing)), s)
        | None \<Rightarrow>
            (let r = friend_request_new requester recipient message now in
             (Inr r, add_to_index r (s\<lparr>rs_requests := bmap_insert (fr_id r) r (rs_requests s)\<rparr>))))"

text \<open>The change of status that an authorised transition ends with.\<close>

definition decide_request ::
  "string \<Rightarrow> friend_request \<Rightarrow> request_status \<Rightarrow> u64 \<Rightarrow> request_store \<Rightarrow> friend_request \<times> request_store" where
  "decide_request i r new_status now s =
     (let s1 = remove_from_index r s;
          stored = r\<lparr>fr_status := new_status, fr_updated_at := now\<rparr>
      in (stored, s1\<lparr>rs_requests := bmap_insert i stored (rs_requests s1)\<rparr>))"

definition transition_request ::
  "string \<Rightarrow> string \<Rightarrow> request_status \<Rightarrow> u64 \<Rightarrow> request_store \<Rightarrow> (request_error + friend_request) \<times> request_store" where
  "transition_request i caller new_status now s =
     (case map_of (rs_requests s) i of
        None \<Rightarrow> (Inl (RequestNotFound i), s)
      | Some r \<Rightarrow>
          (case (case new_status of
                   FrAccepted \<Rightarrow> if caller \<noteq> fr_recipient r then Some (RequestUnauthorized (status_name new_status) (fr_recipient r)) else None
                 | FrDeclined \<Rightarrow> if caller \<noteq> fr_recipient r then Some (RequestUnauthorized (status_name new_status) (fr_recipient r)) else None
                 | FrCancelled \<Rightarrow> if caller \<noteq> fr_requester r then Some (RequestUnauthorized (status_name new_status) (fr_requester r)) else None
                 | FrPending \<Rightarrow> Some (InvalidRequestTransition (fr_status r) new_status)) of
             Some e \<Rightarrow> (Inl e, s)
           | None \<Rightarrow>
               if fr_status r \<noteq> FrPending then (Inl (InvalidRequestTransition (fr_status r) new_status), s)
               else (case decide_request i r new_status now s of (stored, s1) \<Rightarrow> (Inr stored, s1))))"

definition accept_request ::
  "string \<Rightarrow> string \<Rightarrow> u64 \<Rightarrow> request_store \<Rightarrow> (request_error + friend_request) \<times> request_store" where
  "accept_request i caller = transition_request i caller FrAccepted"

definition decline_request ::
  "string \<Rightarrow> string \<Rightarrow> u64 \<Rightarrow> request_store \<Rightarrow> (request_error + friend_request) \<times> request_store" where
  "decline_request i caller = transition_request i caller FrDeclined"

definition cancel_request ::
  "string \<Rightarrow> string \<Rightarrow> u64 \<Rightarrow> request_store \<Rightarrow> (request_error + friend_request) \<times> request_store" where
  "cancel_request i caller = transition_request i caller FrCancelled"

definition confirm_outgoing_accepted ::
  "string \<Rightarrow> string \<Rightarrow> u64 \<Rightarrow> request_store \<Rightarrow> (request_error + friend_request) \<times> request_store" where
  "confirm_outgoing_accepted i caller now s =
     (case map_of (rs_requests s) i of
        None \<Rightarrow> (Inl (RequestNotFound i), s)
      | Some r \<Rightarrow>
          if caller \<noteq> fr_requester r then (Inl (RequestUnauthorized ''confirm_outgoing_accepted'' (fr_requester r)), s)
          else if fr_status r \<noteq> FrPending then (Inl (InvalidRequestTransition (fr_status r) FrAccepted), s)
          else (case decide_request i r FrAccepted now s of (stored, s1) \<Rightarrow> (Inr stored, s1)))"

definition clear_one :: "string \<Rightarrow> request_store \<Rightarrow> request_store" where
  "clear_one i s =
     (let s1 = (case map_of (rs_requests s) i of None \<Rightarrow> s | Some r \<Rightarrow> remove_from_index r s)
      in s1\<lparr>rs_requests := bmap_remove i (rs_requests s1)\<rparr>)"

definition clear_by_status :: "request_status \<Rightarrow> request_store \<Rightarrow> nat \<times> request_store" where
  "clear_by_status status s =
     (let ids = map fst (filter (\<lambda>(_, r). fr_status r = status) (rs_requests s))
      in (length ids, fold clear_one ids s))"

section \<open>Listings\<close>

definition newest_first :: "friend_request list \<Rightarrow> friend_request list" where
  "newest_first rs = sort_key (\<lambda>r. 2 ^ 64 - unat (fr_created_at r)) rs"

definition request_values :: "request_store \<Rightarrow> friend_request list" where
  "request_values s = map snd (rs_requests s)"

definition list_outgoing :: "string \<Rightarrow> request_store \<Rightarrow> friend_request list" where
  "list_outgoing peer s = newest_first (filter (\<lambda>r. fr_requester r = peer) (request_values s))"

definition list_incoming :: "string \<Rightarrow> request_store \<Rightarrow> friend_request list" where
  "list_incoming peer s = newest_first (filter (\<lambda>r. fr_recipient r = peer) (request_values s))"

definition list_incoming_by_status :: "string \<Rightarrow> request_status \<Rightarrow> request_store \<Rightarrow> friend_request list" where
  "list_incoming_by_status peer st s =
     newest_first (filter (\<lambda>r. fr_recipient r = peer \<and> fr_status r = st) (request_values s))"

definition list_outgoing_by_status :: "string \<Rightarrow> request_status \<Rightarrow> request_store \<Rightarrow> friend_request list" where
  "list_outgoing_by_status peer st s =
     newest_first (filter (\<lambda>r. fr_requester r = peer \<and> fr_status r = st) (request_values s))"

definition list_pending :: "string \<Rightarrow> request_store \<Rightarrow> friend_request list" where
  "list_pending peer s =
     newest_first (filter (\<lambda>r. fr_status r = FrPending \<and> (fr_requester r = peer \<or> fr_recipient r = peer)) (request_values s))"

end
