(* ===== verification/Friend_Requests_Inv.thy ===== *)
theory Friend_Requests_Inv
  imports Friend_Requests
begin

text \<open>
  The invariant of the friend request store: the index holds exactly the pending requests.
  Every operation keeps it but clearing decided requests, which also forgets the pending
  request of the same pair.  Along a run, a pair of peers has one pending request at most
  and every decision was taken by the peer entitled to it.
\<close>

section \<open>Invariant\<close>

abbreviation stored_request :: "request_store \<Rightarrow> string \<rightharpoonup> friend_request" where
  "stored_request s \<equiv> map_of (rs_requests s)"

definition requests_wf :: "request_store \<Rightarrow> bool" where
  "requests_wf s \<longleftrightarrow>
     rs_schema_version s = FR_SCHEMA_VERSION \<and> bmap_inv (rs_requests s)
     \<and> (\<forall>i r. stored_request s i = Some r \<longrightarrow> fr_id r = i \<and> fr_requester r \<noteq> fr_recipient r)"

text \<open>The index holds exactly the pending requests, so there is one for each pair at most.\<close>

definition index_ok :: "request_store \<Rightarrow> bool" where
  "index_ok s \<longleftrightarrow>
     (\<forall>k i. rs_pair_index s k = Some i \<longleftrightarrow>
        (\<exists>r. stored_request s i = Some r \<and> fr_status r = FrPending \<and> request_pair r = k))"

definition requests_inv :: "request_store \<Rightarrow> bool" where
  "requests_inv s \<longleftrightarrow> requests_wf s \<and> index_ok s"

lemma index_okD:
  assumes "index_ok s" and "stored_request s i = Some r" and "fr_status r = FrPending"
  shows "rs_pair_index s (request_pair r) = Some i"
  using assms unfolding index_ok_def by blast

lemma index_okE:
  assumes "index_ok s" and "rs_pair_index s k = Some i"
  obtains r where "stored_request s i = Some r" "fr_status r = FrPending" "request_pair r = k"
  using assms unfolding index_ok_def by blast

lemma pair_key_eq: "pair_key a b = pair_key c d \<longleftrightarrow> (a = c \<and> b = d) \<or> (a = d \<and> b = c)"
  by (auto simp: pair_key_def)

lemma requests_inv_empty [wf_intros]: "requests_inv (request_store_empty_at dir)"
  by (simp add: requests_inv_def requests_wf_def index_ok_def request_store_empty_at_def)

lemma pending_between_iff:
  assumes "index_ok s"
  shows "pending_between a b s = None \<longleftrightarrow> rs_pair_index s (pair_key a b) = None"
proof (cases "rs_pair_index s (pair_key a b)")
  case (Some i)
  with assms show ?thesis by (auto simp: pending_between_def elim!: index_okE)
qed (simp add: pending_between_def)

lemma send_requests_inv [wf_intros]:
  assumes inv: "requests_inv s" and fresh: "stored_request s (make_request_id a b now) = None"
  shows "requests_inv (snd (send_request a b msg now s))"
proof (cases "a = b \<or> pending_between a b s \<noteq> None")
  case True
  with inv show ?thesis by (auto simp: send_request_def)
next
  case False
  define r where "r = friend_request_new a b msg now"
  have r: "fr_id r = make_request_id a b now" "fr_status r = FrPending" "request_pair r = pair_key a b"
    "fr_requester r = a" "fr_recipient r = b"
    by (simp_all add: r_def friend_request_new_def request_pair_def)
  have none: "rs_pair_index s (pair_key a b) = None"
    using False inv pending_between_iff by (auto simp: requests_inv_def)
  have s': "snd (send_request a b msg now s) =
      s\<lparr>rs_requests := bmap_insert (fr_id r) r (rs_requests s), rs_pair_index := (rs_pair_index s)(pair_key a b \<mapsto> fr_id r)\<rparr>"
    using False r by (auto simp: send_request_def Let_def add_to_index_def r_def)
  have "bmap_inv (rs_requests s)" using inv by (simp add: requests_inv_def requests_wf_def)
  then show ?thesis
    using inv none r fresh False unfolding s' requests_inv_def requests_wf_def index_ok_def
    by (auto simp del: split_paired_All split: if_splits) (metis option.distinct(1) option.inject)+
qed

lemma decide_requests_inv:
  assumes inv: "requests_inv s" and r: "stored_request s i = Some r" "fr_status r = FrPending" and "st \<noteq> FrPending"
  shows "requests_inv (snd (decide_request i r st now s))"
proof -
  have k: "rs_pair_index s (request_pair r) = Some i" using index_okD r inv by (auto simp: requests_inv_def)
  have "bmap_inv (rs_requests s)" using inv by (simp add: requests_inv_def requests_wf_def)
  then show ?thesis
    using inv r k assms(4) unfolding requests_inv_def requests_wf_def index_ok_def decide_request_def Let_def remove_from_index_def
    by (auto simp: request_pair_def simp del: split_paired_All split: if_splits) (metis option.inject)+
qed

lemma transition_cases:
  assumes "transition_request i caller st now s = (res, s')"
  obtains "s' = s"
  | r where "stored_request s i = Some r" and "fr_status r = FrPending" and "st \<noteq> FrPending"
      and "st \<in> {FrAccepted, FrDeclined} \<Longrightarrow> caller = fr_recipient r" and "st = FrCancelled \<Longrightarrow> caller = fr_requester r"
      and "s' = snd (decide_request i r st now s)"
  using assms unfolding transition_request_def
  by (cases "stored_request s i"; cases st) (auto split: if_splits prod.splits)

lemma confirm_cases:
  assumes "confirm_outgoing_accepted i caller now s = (res, s')"
  obtains "s' = s"
  | r where "stored_request s i = Some r" and "fr_status r = FrPending" and "caller = fr_requester r"
      and "s' = snd (decide_request i r FrAccepted now s)"
  using assms unfolding confirm_outgoing_accepted_def
  by (cases "stored_request s i") (auto split: if_splits prod.splits)

lemma transition_requests_inv [wf_intros]: "requests_inv s \<Longrightarrow> requests_inv (snd (transition_request i caller st now s))"
proof -
  assume inv: "requests_inv s"
  obtain res s' where t: "transition_request i caller st now s = (res, s')" by fastforce
  then show ?thesis by (cases rule: transition_cases) (use inv t decide_requests_inv in auto)
qed

lemma confirm_requests_inv [wf_intros]: "requests_inv s \<Longrightarrow> requests_inv (snd (confirm_outgoing_accepted i caller now s))"
proof -
  assume inv: "requests_inv s"
  obtain res s' where t: "confirm_outgoing_accepted i caller now s = (res, s')" by fastforce
  then show ?thesis by (cases rule: confirm_cases) (use inv t decide_requests_inv in auto)
qed

text \<open>Removing pending requests keeps the index exact.\<close>

lemma clear_one_lookup: "stored_request (clear_one j s) = (stored_request s)(j := None)"
  by (simp add: clear_one_def Let_def remove_from_index_def split: option.splits)

lemma clear_one_inv:
  assumes inv: "requests_inv s" and pend: "\<And>r. stored_request s j = Some r \<Longrightarrow> fr_status r = FrPending"
  shows "requests_inv (clear_one j s)"
proof (cases "stored_request s j")
  case None
  then have "stored_request (clear_one j s) = stored_request s" "rs_pair_index (clear_one j s) = rs_pair_index s"
    "rs_schema_version (clear_one j s) = rs_schema_version s"
    by (auto simp: clear_one_lookup fun_upd_idem) (simp_all add: clear_one_def)
  with inv show ?thesis by (simp add: requests_inv_def requests_wf_def index_ok_def clear_one_def None)
next
  case (Some r)
  have k: "rs_pair_index s (request_pair r) = Some j"
    using index_okD Some pend inv by (auto simp: requests_inv_def)
  have "rs_pair_index (clear_one j s) = (rs_pair_index s)(request_pair r := None)"
    "rs_schema_version (clear_one j s) = rs_schema_version s" "bmap_inv (rs_requests s) \<Longrightarrow> bmap_inv (rs_requests (clear_one j s))"
    using Some by (simp_all add: clear_one_def remove_from_index_def)
  with inv Some k show ?thesis
    unfolding requests_inv_def requests_wf_def index_ok_def clear_one_lookup
    by (auto simp del: split_paired_All) (metis option.inject)+
qed

lemma fold_clear_inv:
  "requests_inv s \<Longrightarrow> (\<And>i r. i \<in> set is \<Longrightarrow> stored_request s i = Some r \<Longrightarrow> fr_status r = FrPending) \<Longrightarrow>
   requests_inv (fold clear_one is s)"
proof (induction "is" arbitrary: s)
  case (Cons i "is")
  have "requests_inv (clear_one i s)" by (rule clear_one_inv) (use Cons.prems in auto)
  then have "requests_inv (fold clear_one is (clear_one i s))"
    by (rule Cons.IH) (use Cons.prems(2) in \<open>auto simp: clear_one_lookup split: if_splits\<close>)
  then show ?case by simp
qed simp

lemma in_clear_ids:
  assumes "requests_wf s" and "i \<in> set (map fst (filter (\<lambda>(_, r). fr_status r = st) (rs_requests s)))" and "stored_request s i = Some r"
  shows "fr_status r = st"
proof -
  have "distinct (map fst (rs_requests s))" using assms(1) by (simp add: requests_wf_def bmap_inv_def bset_inv_distinct)
  with assms(2,3) show ?thesis by (auto dest: eq_key_imp_eq_value map_of_SomeD)
qed

lemma clear_pending_inv [wf_intros]: "requests_inv s \<Longrightarrow> requests_inv (snd (clear_by_status FrPending s))"
  unfolding clear_by_status_def Let_def snd_conv
  by (rule fold_clear_inv) (auto dest: in_clear_ids simp: requests_inv_def simp del: set_map)

text \<open>Loading rebuilds the index.\<close>

lemma fold_add_to_index_frame:
  "rs_requests (fold add_to_index rs s) = rs_requests s \<and> rs_schema_version (fold add_to_index rs s) = rs_schema_version s
   \<and> rs_data_dir (fold add_to_index rs s) = rs_data_dir s"
  by (induction rs arbitrary: s) (auto simp: add_to_index_def)

lemma fold_add_to_index:
  assumes "\<And>r r'. r \<in> set rs \<Longrightarrow> r' \<in> set rs \<Longrightarrow> fr_status r = FrPending \<Longrightarrow> fr_status r' = FrPending \<Longrightarrow>
      request_pair r = request_pair r' \<Longrightarrow> fr_id r = fr_id r'"
    and "\<And>r j. r \<in> set rs \<Longrightarrow> fr_status r = FrPending \<Longrightarrow> rs_pair_index s (request_pair r) = Some j \<Longrightarrow> j = fr_id r"
  shows "rs_pair_index (fold add_to_index rs s) k = Some i \<longleftrightarrow>
    rs_pair_index s k = Some i \<or> (\<exists>r \<in> set rs. fr_status r = FrPending \<and> request_pair r = k \<and> fr_id r = i)"
  using assms
proof (induction rs arbitrary: s)
  case (Cons r rs)
  have step: "rs_pair_index (add_to_index r s) k = Some i \<longleftrightarrow>
      rs_pair_index s k = Some i \<or> (fr_status r = FrPending \<and> request_pair r = k \<and> fr_id r = i)" for k i
  proof (cases "fr_status r = FrPending \<and> request_pair r = k")
    case True
    then have "rs_pair_index s k = Some i \<Longrightarrow> i = fr_id r" using Cons.prems(2) [of r i] by simp
    with True show ?thesis by (auto simp: add_to_index_def)
  qed (auto simp: add_to_index_def)
  have "rs_pair_index (fold add_to_index rs (add_to_index r s)) k = Some i \<longleftrightarrow>
    rs_pair_index (add_to_index r s) k = Some i \<or> (\<exists>r \<in> set rs. fr_status r = FrPending \<and> request_pair r = k \<and> fr_id r = i)"
  proof (rule Cons.IH)
    fix r1 j
    assume "r1 \<in> set rs" "fr_status r1 = FrPending" "rs_pair_index (add_to_index r s) (request_pair r1) = Some j"
    then show "j = fr_id r1" unfolding step using Cons.prems(1) [of r r1] Cons.prems(2) [of r1 j] by (metis list.set_intros)
  qed (rule Cons.prems(1), auto)
  then show ?case unfolding step by auto
qed simp

text \<open>A pair of peers has one pending request at most.\<close>

definition one_pending :: "request_store \<Rightarrow> bool" where
  "one_pending s \<longleftrightarrow>
     (\<forall>i r j q. stored_request s i = Some r \<longrightarrow> stored_request s j = Some q \<longrightarrow>
        fr_status r = FrPending \<longrightarrow> fr_status q = FrPending \<longrightarrow> request_pair r = request_pair q \<longrightarrow> i = j)"

lemma index_ok_one_pending: "index_ok s \<Longrightarrow> one_pending s"
  unfolding one_pending_def by (metis index_okD option.inject)

lemma reload_inv:
  assumes wf: "requests_wf s" and one: "one_pending s"
  shows "requests_inv (request_store_load_or_default dir (Some (Inr s)))"
proof -
  let ?s0 = "s\<lparr>rs_schema_version := FR_SCHEMA_VERSION, rs_data_dir := dir, rs_pair_index := Map.empty\<rparr>"
  have load: "request_store_load_or_default dir (Some (Inr s)) = fold add_to_index (map snd (rs_requests s)) ?s0"
    using wf by (simp add: request_store_load_or_default_def request_store_load_def requests_wf_def FR_SCHEMA_VERSION_def rebuild_pair_index_def)
  have dist: "distinct (map fst (rs_requests s))" using wf by (simp add: requests_wf_def bmap_inv_def bset_inv_distinct)
  have ids: "stored_request s i = Some r \<Longrightarrow> fr_id r = i" for i r using wf by (simp add: requests_wf_def)
  have mem: "r \<in> set (map snd (rs_requests s)) \<longleftrightarrow> stored_request s (fr_id r) = Some r" for r
  proof
    assume "r \<in> set (map snd (rs_requests s))"
    then obtain i where "(i, r) \<in> set (rs_requests s)" by auto
    then have "stored_request s i = Some r" by (rule map_of_is_SomeI [OF dist])
    with ids show "stored_request s (fr_id r) = Some r" by metis
  next
    assume "stored_request s (fr_id r) = Some r"
    then have "(fr_id r, r) \<in> set (rs_requests s)" by (rule map_of_SomeD)
    then show "r \<in> set (map snd (rs_requests s))" by force
  qed
  have "rs_pair_index (fold add_to_index (map snd (rs_requests s)) ?s0) k = Some i \<longleftrightarrow>
    rs_pair_index ?s0 k = Some i \<or> (\<exists>r \<in> set (map snd (rs_requests s)). fr_status r = FrPending \<and> request_pair r = k \<and> fr_id r = i)" for k i
  proof (rule fold_add_to_index)
    fix r q
    assume "r \<in> set (map snd (rs_requests s))" "q \<in> set (map snd (rs_requests s))" "fr_status r = FrPending" "fr_status q = FrPending"
      "request_pair r = request_pair q"
    then show "fr_id r = fr_id q" using one unfolding mem one_pending_def by blast
  qed simp
  from this have index: "rs_pair_index (fold add_to_index (map snd (rs_requests s)) ?s0) k = Some i \<longleftrightarrow>
    (\<exists>r. stored_request s i = Some r \<and> fr_status r = FrPending \<and> request_pair r = k)" for k i
    unfolding Bex_def mem using ids by (simp del: fold_map) metis
  have "index_ok (fold add_to_index (map snd (rs_requests s)) ?s0)"
    unfolding index_ok_def index by (simp add: fold_add_to_index_frame)
  moreover have "requests_wf (fold add_to_index (map snd (rs_requests s)) ?s0)"
    using wf by (simp add: requests_wf_def fold_add_to_index_frame FR_SCHEMA_VERSION_def)
  ultimately show ?thesis unfolding load by (simp add: requests_inv_def)
qed

section \<open>Sequences of operations\<close>

datatype request_op =
  OpSend string string "string option" u64
| OpAccept string string u64
| OpDecline string string u64
| OpCancel string string u64
| OpConfirm string string u64
| OpClear request_status
| OpReload

fun request_op_step :: "request_op \<Rightarrow> request_store \<Rightarrow> request_store" where
  "request_op_step (OpSend a b msg now) s = snd (send_request a b msg now s)"
| "request_op_step (OpAccept i caller now) s = snd (accept_request i caller now s)"
| "request_op_step (OpDecline i caller now) s = snd (decline_request i caller now s)"
| "request_op_step (OpCancel i caller now) s = snd (cancel_request i caller now s)"
| "request_op_step (OpConfirm i caller now) s = snd (confirm_outgoing_accepted i caller now s)"
| "request_op_step (OpClear st) s = snd (clear_by_status st s)"
| "request_op_step OpReload s =
     request_store_load_or_default (rs_data_dir s) (snd (request_store_save None s None))"

text \<open>The last one saves the store and loads it again.\<close>

text \<open>
  The operations for which the rules hold: the identifier of a new request is not in use,
  and only pending requests are cleared.
\<close>

fun regular_op :: "request_op \<Rightarrow> request_store \<Rightarrow> bool" where
  "regular_op (OpSend a b msg now) s \<longleftrightarrow> stored_request s (make_request_id a b now) = None"
| "regular_op (OpClear st) s \<longleftrightarrow> st = FrPending"
| "regular_op _ s \<longleftrightarrow> True"

inductive requests_run :: "request_store \<Rightarrow> request_op list \<Rightarrow> request_store \<Rightarrow> bool" where
  run_none: "requests_run s [] s"
| run_op: "requests_run s (ops @ [op]) (request_op_step op s')"
  if "requests_run s ops s'" and "regular_op op s'"

lemma step_inv: "requests_inv s \<Longrightarrow> regular_op op s \<Longrightarrow> requests_inv (request_op_step op s)"
proof (cases op)
  case OpReload
  assume "requests_inv s"
  then show ?thesis
    using reload_inv [of s] index_ok_one_pending requests_inv_empty OpReload
    by (simp add: requests_inv_def request_store_save_def request_store_load_or_default_def request_store_load_def)
qed (auto simp: accept_request_def decline_request_def cancel_request_def intro: wf_intros)

lemma run_inv: "requests_run s ops s' \<Longrightarrow> requests_inv s \<Longrightarrow> requests_inv s'"
  by (induction rule: requests_run.induct) (auto intro: step_inv)

section \<open>Decisions\<close>

text \<open>What the operations of a run say about the status of a request.\<close>

definition explained :: "request_op list \<Rightarrow> friend_request \<Rightarrow> bool" where
  "explained ops r \<longleftrightarrow>
     (\<exists>msg t. OpSend (fr_requester r) (fr_recipient r) msg t \<in> set ops)
     \<and> (case fr_status r of
          FrPending \<Rightarrow> True
        | FrAccepted \<Rightarrow> (\<exists>t. OpAccept (fr_id r) (fr_recipient r) t \<in> set ops \<or> OpConfirm (fr_id r) (fr_requester r) t \<in> set ops)
        | FrDeclined \<Rightarrow> (\<exists>t. OpDecline (fr_id r) (fr_recipient r) t \<in> set ops)
        | FrCancelled \<Rightarrow> (\<exists>t. OpCancel (fr_id r) (fr_requester r) t \<in> set ops))"

lemma explained_mono: "explained ops r \<Longrightarrow> explained (ops @ [op]) r"
  by (auto simp: explained_def split: request_status.splits)

lemma decide_lookup:
  assumes "requests_inv s"
  shows "stored_request (snd (decide_request i r st now s)) = (stored_request s)(i \<mapsto> r\<lparr>fr_status := st, fr_updated_at := now\<rparr>)"
  using assms by (simp add: decide_request_def Let_def remove_from_index_def requests_inv_def requests_wf_def)

lemma fold_clear_lookup: "stored_request (fold clear_one is s) j = (if j \<in> set is then None else stored_request s j)"
  by (induction "is" arbitrary: s) (auto simp: clear_one_lookup)

lemma transition_explained:
  assumes inv: "requests_inv s" and ex: "\<And>i r. stored_request s i = Some r \<Longrightarrow> explained ops r"
    and new: "stored_request (snd (transition_request j caller st now s)) i = Some r" "stored_request s i \<noteq> Some r"
    and op: "st = FrAccepted \<Longrightarrow> op = OpAccept j caller now" "st = FrDeclined \<Longrightarrow> op = OpDecline j caller now"
      "st = FrCancelled \<Longrightarrow> op = OpCancel j caller now"
  shows "explained (ops @ [op]) r"
  using prod.collapse [symmetric, of "transition_request j caller st now s"]
proof (cases rule: transition_cases)
  case (2 q)
  then have "r = q\<lparr>fr_status := st, fr_updated_at := now\<rparr>" "i = j"
    using new decide_lookup [OF inv] by (auto split: if_splits)
  moreover have "fr_id q = j" using inv 2(1) by (simp add: requests_inv_def requests_wf_def)
  ultimately show ?thesis using 2 ex [OF 2(1)] op by (cases st) (auto simp: explained_def)
qed (use new in simp)

lemma confirm_explained:
  assumes inv: "requests_inv s" and ex: "\<And>i r. stored_request s i = Some r \<Longrightarrow> explained ops r"
    and new: "stored_request (snd (confirm_outgoing_accepted j caller now s)) i = Some r" "stored_request s i \<noteq> Some r"
  shows "explained (ops @ [OpConfirm j caller now]) r"
  using prod.collapse [symmetric, of "confirm_outgoing_accepted j caller now s"]
proof (cases rule: confirm_cases)
  case (2 q)
  then have "r = q\<lparr>fr_status := FrAccepted, fr_updated_at := now\<rparr>" "i = j"
    using new decide_lookup [OF inv] by (auto split: if_splits)
  moreover have "fr_id q = j" using inv 2(1) by (simp add: requests_inv_def requests_wf_def)
  ultimately show ?thesis using 2 ex [OF 2(1)] by (auto simp: explained_def)
qed (use new in simp)

lemma step_explained:
  assumes inv: "requests_inv s" and ex: "\<And>i r. stored_request s i = Some r \<Longrightarrow> explained ops r"
    and new: "stored_request (request_op_step op s) i = Some r"
  shows "explained (ops @ [op]) r"
proof (cases "stored_request s i = Some r")
  case True
  then show ?thesis using ex explained_mono by blast
next
  case changed: False
  show ?thesis
  proof (cases op)
    case (OpSend a b msg now)
    moreover have "bmap_inv (rs_requests s)" using inv by (simp add: requests_inv_def requests_wf_def)
    ultimately show ?thesis
      using new changed
      by (auto simp: send_request_def Let_def add_to_index_def friend_request_new_def explained_def split: option.splits if_splits) blast
  next
    case (OpClear st)
    with new changed show ?thesis by (auto simp: clear_by_status_def Let_def fold_clear_lookup split: if_splits)
  next
    case OpReload
    have "rs_schema_version s = FR_SCHEMA_VERSION" using inv by (simp add: requests_inv_def requests_wf_def)
    with new changed OpReload show ?thesis
      by (auto simp: request_store_save_def request_store_load_or_default_def request_store_load_def rebuild_pair_index_def
          fold_add_to_index_frame FR_SCHEMA_VERSION_def request_store_empty_at_def split: if_splits)
  next
    case (OpConfirm j caller now)
    with new changed show ?thesis using confirm_explained [OF inv ex] by simp
  next
    case (OpAccept j caller now)
    with new changed show ?thesis by (intro transition_explained [OF inv ex]) (auto simp: accept_request_def)
  next
    case (OpDecline j caller now)
    with new changed show ?thesis by (intro transition_explained [OF inv ex]) (auto simp: decline_request_def)
  next
    case (OpCancel j caller now)
    with new changed show ?thesis by (intro transition_explained [OF inv ex]) (auto simp: cancel_request_def)
  qed
qed

lemma run_explained:
  "requests_run s0 ops s \<Longrightarrow> requests_inv s0 \<Longrightarrow> rs_requests s0 = [] \<Longrightarrow> stored_request s i = Some r \<Longrightarrow> explained ops r"
proof (induction arbitrary: i r rule: requests_run.induct)
  case (run_op s ops s' op)
  then show ?case using step_explained [of s' ops op i r] run_inv by blast
qed simp

text \<open>
  C15. Friend requests.  Starting from an empty store, whatever requests are sent, accepted,
  declined, cancelled, confirmed and cleared while pending, and whenever the store is
  reloaded, a pair of peers has at most one pending request in either direction, nobody has
  a request to itself, and every request that is no longer pending was accepted or declined
  by its recipient, or cancelled or confirmed by its requester.  The identifier of a new
  request, made of the peers and the time in milliseconds, must not be in use: a request that
  is sent again within the millisecond of a decided one would replace it.  Decided requests
  are not cleared in the run.
\<close>

theorem friend_requests_sound:
  assumes "requests_run (request_store_empty_at dir) ops s" and "stored_request s i = Some r"
  shows "fr_id r = i \<and> fr_requester r \<noteq> fr_recipient r \<and> explained ops r
    \<and> (fr_status r = FrPending \<longrightarrow>
        (\<forall>j q. stored_request s j = Some q \<and> fr_status q = FrPending \<and> {fr_requester q, fr_recipient q} = {fr_requester r, fr_recipient r}
           \<longrightarrow> j = i))"
proof -
  have inv: "requests_inv s" using run_inv [OF assms(1) requests_inv_empty] .
  have "request_pair q = request_pair r" if "{fr_requester q, fr_recipient q} = {fr_requester r, fr_recipient r}" for q
    using that by (auto simp: request_pair_def pair_key_eq doubleton_eq_iff)
  moreover have "explained ops r"
    using run_explained [OF assms(1) requests_inv_empty _ assms(2)] by (simp add: request_store_empty_at_def)
  moreover have "fr_id r = i \<and> fr_requester r \<noteq> fr_recipient r" "one_pending s"
    using inv assms(2) index_ok_one_pending by (simp_all add: requests_inv_def requests_wf_def)
  ultimately show ?thesis using assms(2) unfolding one_pending_def by metis
qed

definition demo_requests :: "request_op list" where
  "demo_requests = [OpSend ''ann'' ''ben'' None 1, OpAccept ''ann:ben:1'' ''ben'' 2, OpSend ''ben'' ''ann'' None 3, OpReload]"

lemma fold_clear_index:
  "rs_pair_index (fold clear_one is s) k = Some v \<Longrightarrow>
   i \<in> set is \<Longrightarrow> stored_request s i = Some r \<Longrightarrow> request_pair r \<noteq> k"
proof (induction "is" arbitrary: s)
  case (Cons x xs)
  have shrink: "rs_pair_index (fold clear_one ys t) k = Some v \<Longrightarrow> rs_pair_index t k = Some v" for ys t
    by (induction ys arbitrary: t) (fastforce simp: clear_one_def Let_def remove_from_index_def split: option.splits if_splits)+
  show ?case
  proof (cases "i = x")
    case True
    with Cons.prems(3) have "rs_pair_index (clear_one x s) (request_pair r) = None"
      by (simp add: clear_one_def Let_def remove_from_index_def)
    with Cons.prems(1) shrink [of xs "clear_one x s"] show ?thesis by auto
  next
    case False
    with Cons show ?thesis by (simp add: clear_one_lookup)
  qed
qed simp

lemma fold_clear_bmap: "bmap_inv (rs_requests s) \<Longrightarrow> bmap_inv (rs_requests (fold clear_one is s))"
  by (induction "is" arbitrary: s) (auto simp: clear_one_def Let_def remove_from_index_def split: option.splits)

text \<open>
  C32. Clearing decided requests forgets a pending one.  When a pair of peers has a decided
  request and a newer pending one, clearing the requests of the decided status removes the
  index entry of the pending one as well: a second request of the pair is then accepted, and
  two requests of the pair are pending.
\<close>

theorem clearing_forgets_pending:
  assumes "requests_inv s" and "stored_request s i = Some old" and "fr_status old = st" and "st \<noteq> FrPending"
    and "stored_request s j = Some held" and "fr_status held = FrPending" and "request_pair held = request_pair old"
    and "stored_request s (make_request_id (fr_requester old) (fr_recipient old) now) = None"
  shows "\<exists>r s2. send_request (fr_requester old) (fr_recipient old) msg now (snd (clear_by_status st s)) = (Inr r, s2)
    \<and> fr_status r = FrPending \<and> stored_request s2 (fr_id r) = Some r \<and> fr_id r \<noteq> j
    \<and> stored_request s2 j = Some held"
proof -
  let ?ids = "map fst (filter (\<lambda>(_, r). fr_status r = st) (rs_requests s))"
  let ?s1 = "fold clear_one ?ids s"
  let ?r = "friend_request_new (fr_requester old) (fr_recipient old) msg now"
  have wf: "requests_wf s" using assms(1) by (simp add: requests_inv_def)
  have "i \<in> set ?ids" using assms(2,3) by (force dest: map_of_SomeD)
  then have "rs_pair_index ?s1 (request_pair old) = None"
    using fold_clear_index [of ?ids s "request_pair old" _ i old] assms(2) by (cases "rs_pair_index ?s1 (request_pair old)") auto
  then have "pending_between (fr_requester old) (fr_recipient old) ?s1 = None" by (simp add: pending_between_def request_pair_def)
  moreover have "fr_requester old \<noteq> fr_recipient old" "bmap_inv (rs_requests ?s1)"
    using wf assms(2) fold_clear_bmap by (auto simp: requests_wf_def)
  moreover have "j \<notin> set ?ids" using in_clear_ids [OF wf _ assms(5)] assms(4,6) by metis
  then have "stored_request ?s1 j = Some held" using assms(5) by (simp add: fold_clear_lookup)
  moreover have "fr_id ?r \<noteq> j" using assms(5,8) by (auto simp: friend_request_new_def)
  ultimately show ?thesis
    by (simp add: send_request_def Let_def add_to_index_def clear_by_status_def friend_request_new_def)
qed

fun regular_run :: "request_op list \<Rightarrow> request_store \<Rightarrow> bool" where
  "regular_run [] s \<longleftrightarrow> True"
| "regular_run (op # ops) s \<longleftrightarrow> regular_op op s \<and> regular_run ops (request_op_step op s)"

lemma regular_run: "requests_run s0 done s \<Longrightarrow> regular_run ops s \<Longrightarrow> requests_run s0 (done @ ops) (fold request_op_step ops s)"
proof (induction ops arbitrary: "done" s)
  case (Cons op ops)
  from Cons.IH [OF run_op [OF Cons.prems(1)]] Cons.prems(2) show ?case by simp
qed simp

lemma demo_requests_run:
  "regular_run demo_requests (request_store_empty_at ''d'')
   \<and> map_option fr_status (stored_request (fold request_op_step demo_requests (request_store_empty_at ''d'')) ''ben:ann:3'') = Some FrPending
   \<and> map_option fr_status (stored_request (fold request_op_step demo_requests (request_store_empty_at ''d'')) ''ann:ben:1'') = Some FrAccepted"
  by code_simp

theorem friend_requests_sound_witness:
  "\<exists>s r. requests_run (request_store_empty_at ''d'') demo_requests s \<and> stored_request s ''ann:ben:1'' = Some r
     \<and> fr_status r = FrAccepted \<and> explained demo_requests r"
proof -
  let ?s = "fold request_op_step demo_requests (request_store_empty_at ''d'')"
  have run: "requests_run (request_store_empty_at ''d'') demo_requests ?s"
    using regular_run [OF run_none] demo_requests_run by (metis append_Nil)
  obtain r where r: "stored_request ?s ''ann:ben:1'' = Some r" "fr_status r = FrAccepted" using demo_requests_run by auto
  from friend_requests_sound [OF run r(1)] run r show ?thesis by blast
qed

definition demo_declined :: request_store where
  "demo_declined = fold request_op_step
     [OpSend ''ann'' ''ben'' None 1, OpDecline ''ann:ben:1'' ''ben'' 2, OpSend ''ann'' ''ben'' None 3] (request_store_empty_at ''d'')"

lemma demo_declined_facts:
  "regular_run [OpSend ''ann'' ''ben'' None 1, OpDecline ''ann:ben:1'' ''ben'' 2, OpSend ''ann'' ''ben'' None 3] (request_store_empty_at ''d'')"
  "map_option fr_status (stored_request demo_declined ''ann:ben:1'') = Some FrDeclined"
  "map_option fr_status (stored_request demo_declined ''ann:ben:3'') = Some FrPending"
  "map_option request_pair (stored_request demo_declined ''ann:ben:1'') = map_option request_pair (stored_request demo_declined ''ann:ben:3'')"
  "map_option fr_requester (stored_request demo_declined ''ann:ben:1'') = Some ''ann''"
  "map_option fr_recipient (stored_request demo_declined ''ann:ben:1'') = Some ''ben''"
  "stored_request demo_declined (make_request_id ''ann'' ''ben'' 4) = None"
  by code_simp+

theorem clearing_forgets_pending_witness:
  "\<exists>r s2. send_request ''ann'' ''ben'' None 4 (snd (clear_by_status FrDeclined demo_declined)) = (Inr r, s2)
     \<and> map_option fr_status (stored_request s2 ''ann:ben:3'') = Some FrPending
     \<and> map_option fr_status (stored_request s2 (fr_id r)) = Some FrPending \<and> fr_id r \<noteq> ''ann:ben:3''"
proof -
  have "requests_inv demo_declined"
    using run_inv [OF regular_run [OF run_none demo_declined_facts(1)] requests_inv_empty] by (simp add: demo_declined_def)
  moreover obtain old held where "stored_request demo_declined ''ann:ben:1'' = Some old" "stored_request demo_declined ''ann:ben:3'' = Some held"
    "fr_status old = FrDeclined" "fr_status held = FrPending" "request_pair held = request_pair old" "fr_requester old = ''ann''" "fr_recipient old = ''ben''"
    using demo_declined_facts(2-6) by auto
  ultimately show ?thesis
    using clearing_forgets_pending [of demo_declined "''ann:ben:1''" old FrDeclined "''ann:ben:3''" held 4 None] demo_declined_facts(7) by fastforce
qed

end
