(* ===== verification/Spec2Isabelle.thy ===== *)
theory Spec2Isabelle
  imports Proto_State_Inv Plumtree_Repair Mailbox_Delivery Group_Boundaries Group_Epoch_Inv Encryption_Restart Friend_Requests_Inv
begin

text \<open>
  A verification development for boru, a peer-to-peer chat program written in Rust.  It covers
  the parts of the program that decide what peers deliver, accept and remember: the gossip
  protocol, the mailbox, the control events of groups, the encryption of groups and the
  friend requests.

  \<^bold>\<open>The program.\<close>  The gossip protocol (\<^verbatim>\<open>src/src/proto/\<close>) is a state machine without I/O.  Each topic
  has a membership layer that keeps a small active view of neighbours, and a broadcast layer
  that sends messages along a tree of eager neighbours and announces them to the lazy ones.
  The state of a node holds its topics and the connections they share.  For a peer that is
  offline the mailbox keeps encrypted envelopes (\<^verbatim>\<open>mailbox.rs\<close>).  A group is governed by signed
  control events (\<^verbatim>\<open>group_events.rs\<close>) whose replay markers are stored in SQLite
  (\<^verbatim>\<open>group_replay.rs\<close>); removing a member starts a new epoch whose credentials go to the
  survivors through the mailbox (\<^verbatim>\<open>group_epoch.rs\<close>).  Encrypted groups (\<^verbatim>\<open>group_encryption/\<close>) use the
  message scheme of \<^verbatim>\<open>src/patched/p2panda-encryption/\<close>: two-party sessions carry seeds from which the
  members derive their ratchets, an orderer decides when a received envelope is processed,
  and every change of a group is stored with its roles under a version.

  \<^bold>\<open>Theories.\<close>  Each component has a theory of definitions and one or more theories of
  properties.  Definitions carry the names of the Rust functions, with a prefix where two
  components use the same name.

  \<^item> \<open>Prelude\<close>, \<open>External\<close>, \<open>Std_Collections\<close>: machine types, outcomes, event-driven machines and
    the locales of their invariants (\<open>safe_machine\<close>, \<open>tracked_machine\<close>), the crates \<^verbatim>\<open>rand\<close> and
    \<^verbatim>\<open>indexmap\<close>, ordered sets and maps with the locale \<open>peer_sets\<close>.
  \<^item> \<open>Proto_Util\<close>, \<open>Time_Cache\<close>: \<^verbatim>\<open>proto/util.rs\<close>, with the locale \<open>expiring_cache\<close>.
  \<^item> \<open>Hyparview\<close>, \<open>Hyparview_Inv\<close>, \<open>Membership\<close>: \<^verbatim>\<open>proto/hyparview.rs\<close>.  The views stay disjoint and
    bounded without the node itself (C13), and neighbour events track the active view (C23).
  \<^item> \<open>Plumtree\<close>, \<open>Plumtree_Inv\<close>, \<open>Plumtree_Delivery\<close>, \<open>Plumtree_Repair\<close>: \<^verbatim>\<open>proto/plumtree.rs\<close>.  A
    message is delivered once (C2), forwarded (C12), repaired from announcers (C17) and
    announced completely (C22).
  \<^item> \<open>Topic\<close>, \<open>Topic_Inv\<close>: \<^verbatim>\<open>proto/topic.rs\<close>.  The two layers stay in step (C7).
  \<^item> \<open>Proto_State\<close>, \<open>Proto_State_Inv\<close>: \<^verbatim>\<open>proto/state.rs\<close>.  No admitted event panics (C3), topics are
    isolated (C34) up to the connections they share (C33).
  \<^item> \<open>Signing\<close>, \<open>Mailbox\<close>, \<open>Mailbox_Inv\<close>, \<open>Mailbox_Delivery\<close>: \<^verbatim>\<open>protocol_signing.rs\<close>, \<^verbatim>\<open>mailbox.rs\<close>
    (C16, C18, C27, C28, C38).
  \<^item> \<open>Group_Replay\<close>, \<open>Group_Events\<close>, \<open>Group_Events_Inv\<close>, \<open>Group_Membership\<close>, \<open>Group_Authority\<close>,
    \<open>Group_Boundaries\<close>: \<^verbatim>\<open>group_replay.rs\<close>, \<^verbatim>\<open>group_events.rs\<close>.  Events are accepted once (C4) and only
    from those entitled to them (C8), a rejected event changes nothing (C24), and where these
    promises end (C35, C37, C39, C40).
  \<^item> \<open>Group_Epoch\<close>, \<open>Group_Epoch_Inv\<close>: \<^verbatim>\<open>group_epoch.rs\<close> (C14, C21, C36).
  \<^item> \<open>Group_Crypto\<close>, \<open>Message_Ratchet\<close>, \<open>Key_Bundles\<close>, \<open>Two_Party\<close>, \<open>Two_Party_Delivery\<close>: the files
    under \<^verbatim>\<open>p2panda-encryption/src/\<close> for the primitives, the ratchets (C11, C25, C26), the key bundles,
    and the two-party protocol (C9), with \<^verbatim>\<open>group_encryption/manager.rs\<close> and \<^verbatim>\<open>registry.rs\<close>.
  \<^item> \<open>Group_Roles\<close>, \<open>Group_Ordering\<close>, \<open>Group_Ordering_Inv\<close>: \<^verbatim>\<open>group_encryption/membership.rs\<close>,
    \<^verbatim>\<open>ordering.rs\<close> and \<^verbatim>\<open>message.rs\<close>.  The orderer refines a queue (C20, C29).
  \<^item> \<open>Dcgka\<close>, \<open>Dcgka_Agreement\<close>, \<open>Message_Group\<close>, \<open>Message_Group_Delivery\<close>: \<^verbatim>\<open>message_scheme/dcgka.rs\<close> and
    \<^verbatim>\<open>group.rs\<close>.  Members agree on secrets (C5) and decrypt what is sent (C1).
  \<^item> \<open>Encryption_Store\<close>, \<open>Encryption_State\<close>, \<open>Encryption_State_Inv\<close>, \<open>Encryption_Concurrency\<close>,
    \<open>Encryption_Restart\<close>: \<^verbatim>\<open>group_encryption/persistence.rs\<close> and \<^verbatim>\<open>encryption_state.rs\<close>.  Changes are
    atomic (C10), survive a restart (C19), are not lost between processes (C6), and what a
    restart or a failed receive costs (C30, C31).
  \<^item> \<open>Friend_Requests\<close>, \<open>Friend_Requests_Inv\<close>: \<^verbatim>\<open>friend_request.rs\<close> (C15, C32).

  \<^bold>\<open>State, errors and effects.\<close>  A struct is a record and an enum a datatype.  A method that takes
  \<^verbatim>\<open>&mut self\<close> returns the new state.  A panic is \<open>None\<close> or \<open>Panic\<close>, an error is \<open>Err\<close>.  Where an error
  leaves changes behind, in a database, a registry or a random generator, the computation has
  type \<open>eff\<close> and returns that part of the state with the error.  Databases are tables with a
  sequence of answers, one for each statement, so that every statement can fail.

  \<^bold>\<open>Parameters.\<close>  The crates the sources call are records of functions, with their documented
  behaviour as named hypotheses: \<open>ext_ok\<close> (\<^verbatim>\<open>rand\<close>, \<^verbatim>\<open>indexmap\<close>), \<open>env_ok\<close> (sizes), \<open>crypto_ok\<close>
  (Ed25519, BLAKE3, X25519, AES-GCM), \<open>prims_ok\<close> and \<open>curve_ok\<close> (HKDF, ChaCha20Poly1305, X25519, HPKE, the
  curve below XEdDSA), \<open>sqlite_ok\<close> and the codecs, which round trip.  \<open>store_codec_ok\<close> also says that a
  versioned record does not decode as one of the former format; the layout makes this
  plausible, no documentation says so.  Nothing is assumed about forgery.  Witnesses evaluate
  the theorems on instances that satisfy the hypotheses.

  \<^bold>\<open>Numbers and bounds.\<close>  Rounds, hop counts, epochs, versions, indices and generations have their
  width, and overflow panics or wraps as the build flag says.  Statistics counters, the
  counts and capacities of the membership layer with their sums, time (\<^verbatim>\<open>Instant\<close>, \<^verbatim>\<open>Duration\<close>) and the
  sequence numbers of timers are natural numbers, so their overflow at \<open>2 ^ 64\<close> is not
  modelled.  No definition uses fuel: every loop has a termination proof, that of the receive
  loop by the number of messages in the orderer (\<open>or_size\<close>).

  \<^bold>\<open>Where the theorems stop.\<close>  C7 and C23 exclude the command to quit, which ends a topic.  C4 has no
  restart (C39) and needs epochs below \<open>2 ^ 63\<close>.  C1 needs a receiver with an idle orderer that
  has not stored equal content (C29).  C6 excludes creating a group over one that the process
  holds and deleting the stored group.  C15 needs an unused identifier for a new request
  (\<open>regular_op\<close>).  C22 counts three bytes around a list, as the code does.

  \<^bold>\<open>Not modelled.\<close>  Network I/O and the public API (\<^verbatim>\<open>net\<close>, \<^verbatim>\<open>api.rs\<close>), the user interfaces, the chat
  core, storage of messages, files and media, discovery, rooms outside the encrypted groups,
  calls, pairing, diagnostics, the data scheme of p2panda-encryption, which boru does not
  enable, and the other patched libraries.  Metrics, logging, \<^verbatim>\<open>Display\<close> implementations and the
  zeroising of secrets have no counterpart in the model.
\<close>

end
